(* ===== verification/Prelude.thy ===== *)
theory Prelude
  imports
    Main
    "HOL-Library.Word"
    "HOL-Library.List_Lexorder"
    "HOL-Library.Char_ord"
    "HOL-Library.Product_Lexorder"
    "HOL-Library.Option_ord"
begin

text \<open>
  The part of Rust and of its standard library that the modelled sources use.

  \<^item> Results: \<open>result\<close> is Rust's \<open>Result\<close>; \<open>rbind\<close> is the question mark operator.
  \<^item> Machine integers: \<open>u8\<close> to \<open>u64\<close> are words; \<open>checked_add\<close>, \<open>saturating_add\<close>,
    \<open>saturating_sub\<close>, \<open>saturating_mul\<close> and \<open>abs_diff\<close> are the methods of that name. A
    \<open>usize\<close> is a \<open>nat\<close> and \<open>usize_max\<close> is its bound on the 64-bit targets of the program.
  \<^item> Fixed byte arrays: \<open>[u8; 16]\<close>, \<open>[u8; 24]\<close> and \<open>[u8; 32]\<close> are words of 128, 192 and 256
    bits, read most significant byte first. The array order of Rust (lexicographic) is then
    the order of the words, and the length of an array is part of its type, as in Rust.
  \<^item> Strings: a \<open>string\<close> holds the UTF-8 bytes of a Rust string, one \<open>char\<close> per byte, so
    \<open>length\<close> is \<open>str::len\<close> and the lexicographic order of lists is the order of \<open>str\<close>.
    \<open>utf8_valid\<close> is the check of \<open>String::from_utf8\<close>.
  \<^item> \<open>BTreeMap\<close> and \<open>BTreeSet\<close>: lists that are strictly sorted by key, so that an iteration
    is the list itself.
  \<^item> Stateful operations: a method with \<open>&mut self\<close> returns its result and the state after the
    call, also when it fails; \<open>sbind\<close> is the question mark operator there. \<open>keeps R m\<close> says that
    \<open>m\<close> relates the state before and after by \<open>R\<close>, and the locale \<open>effect_preorder\<close> has the rules
    that take a method apart along its calls.
  \<^item> Transition systems: \<open>reach\<close> is the set of reachable states, and the two locales
    \<open>step_invariant\<close> and \<open>step_preorder\<close> lift facts about one step to all runs.
\<close>

section \<open>Results\<close>

datatype ('a, 'e) result = Ok 'a | Err 'e

primrec rbind :: "('a, 'e) result \<Rightarrow> ('a \<Rightarrow> ('b, 'e) result) \<Rightarrow> ('b, 'e) result" where
  "rbind (Ok a) f = f a"
| "rbind (Err e) f = Err e"

primrec map_err :: "('e \<Rightarrow> 'f) \<Rightarrow> ('a, 'e) result \<Rightarrow> ('a, 'f) result" where
  "map_err f (Ok a) = Ok a"
| "map_err f (Err e) = Err (f e)"

definition ok_or :: "'e \<Rightarrow> 'a option \<Rightarrow> ('a, 'e) result" where
  "ok_or e x = (case x of None \<Rightarrow> Err e | Some a \<Rightarrow> Ok a)"

definition require :: "bool \<Rightarrow> 'e \<Rightarrow> (unit, 'e) result" where
  "require c e = (if c then Ok () else Err e)"

primrec is_ok :: "('a, 'e) result \<Rightarrow> bool" where
  "is_ok (Ok a) = True"
| "is_ok (Err e) = False"

lemma rbind_eq_Ok [simp]:
  "rbind r f = Ok b \<longleftrightarrow> (\<exists>a. r = Ok a \<and> f a = Ok b)"
  by (cases r) auto

lemma rbind_eq_Err [simp]:
  "rbind r f = Err e \<longleftrightarrow> r = Err e \<or> (\<exists>a. r = Ok a \<and> f a = Err e)"
  by (cases r) auto

lemma ok_or_simps [simp]:
  "ok_or e None = Err e" "ok_or e (Some a) = Ok a"
  by (simp_all add: ok_or_def)

lemma ok_or_eq_Ok [simp]: "ok_or e x = Ok a \<longleftrightarrow> x = Some a"
  by (cases x) auto

lemma ok_or_eq_Err [simp]: "ok_or e x = Err e' \<longleftrightarrow> x = None \<and> e' = e"
  by (cases x) auto

lemma require_eq_Ok [simp]: "require c e = Ok u \<longleftrightarrow> c"
  by (simp add: require_def)

lemma require_eq_Err [simp]: "require c e = Err e' \<longleftrightarrow> \<not> c \<and> e' = e"
  by (auto simp: require_def)

lemma require_simps [simp]: "require True e = Ok ()" "require False e = Err e"
  by (simp_all add: require_def)

lemma map_err_eq_Ok [simp]: "map_err f r = Ok a \<longleftrightarrow> r = Ok a"
  by (cases r) auto

lemma map_err_eq_Err [simp]: "map_err f r = Err e \<longleftrightarrow> (\<exists>e'. r = Err e' \<and> e = f e')"
  by (cases r) auto

lemma is_ok_iff: "is_ok r \<longleftrightarrow> (\<exists>a. r = Ok a)"
  by (cases r) auto

section \<open>Machine integers\<close>

type_synonym u8 = "8 word"
type_synonym u16 = "16 word"
type_synonym u32 = "32 word"
type_synonym u64 = "64 word"
type_synonym bytes = "8 word list"
type_synonym id16 = "128 word"
type_synonym arr24 = "192 word"
type_synonym arr32 = "256 word"

abbreviation usize_max :: nat where
  "usize_max \<equiv> 18446744073709551615"

definition checked_add :: "'a::len word \<Rightarrow> 'a word \<Rightarrow> 'a word option" where
  "checked_add a b = (if unat a + unat b < 2 ^ LENGTH('a) then Some (a + b) else None)"

definition saturating_add :: "'a::len word \<Rightarrow> 'a word \<Rightarrow> 'a word" where
  "saturating_add a b = (if unat a + unat b < 2 ^ LENGTH('a) then a + b else - 1)"

definition saturating_sub :: "'a::len word \<Rightarrow> 'a word \<Rightarrow> 'a word" where
  "saturating_sub a b = (if b \<le> a then a - b else 0)"

definition saturating_mul :: "'a::len word \<Rightarrow> 'a word \<Rightarrow> 'a word" where
  "saturating_mul a b = (if unat a * unat b < 2 ^ LENGTH('a) then a * b else - 1)"

definition abs_diff :: "'a::len word \<Rightarrow> 'a word \<Rightarrow> 'a word" where
  "abs_diff a b = (if a < b then b - a else a - b)"

lemma checked_add_Some:
  "checked_add a b = Some c \<Longrightarrow> unat c = unat a + unat b"
  by (auto simp: checked_add_def unat_word_ariths split: if_splits)

lemma checked_add_1_Some_less:
  fixes a :: "'a::len word"
  assumes "checked_add a 1 = Some c"
  shows "a < c"
  using checked_add_Some [OF assms] by (simp add: word_less_nat_alt)

lemma checked_add_1_Some:
  fixes a :: "'a::len word"
  assumes "checked_add a 1 = Some c"
  shows "unat c = Suc (unat a)"
  using checked_add_Some [OF assms] by simp

lemma saturating_sub_unat: "unat (saturating_sub a b) = unat a - unat b"
  by (auto simp: saturating_sub_def unat_sub word_le_nat_alt)

lemma unat_minus_one_eq: "unat (- 1 :: 'a::len word) = 2 ^ LENGTH('a) - 1"
  by (simp add: unsigned_minus_1_eq_mask mask_eq_exp_minus_1)

lemma saturating_add_unat:
  fixes a b :: "'a::len word"
  shows "unat (saturating_add a b) = min (unat a + unat b) (2 ^ LENGTH('a) - 1)"
  by (auto simp: saturating_add_def unat_word_ariths unat_minus_one_eq)


section \<open>Big-endian bytes\<close>

text \<open>
  \<open>be_bytes n\<close> is \<open>to_be_bytes\<close> of an integer or array of \<open>n\<close> bytes, \<open>of_be_bytes\<close> is
  \<open>from_be_bytes\<close>. Both go through the natural number the bytes denote.
\<close>

primrec nat_be :: "nat \<Rightarrow> nat \<Rightarrow> bytes" where
  "nat_be 0 x = []"
| "nat_be (Suc n) x = nat_be n (x div 256) @ [word_of_nat x]"

lemma nat_be_numeral: "nat_be (numeral k) x = nat_be (pred_numeral k) (x div 256) @ [word_of_nat x]"
  by (subst numeral_eq_Suc) (rule nat_be.simps(2))

lemma nat_be_1: "nat_be 1 x = [word_of_nat x]"
  by (simp add: One_nat_def)

lemmas nat_be_eval = nat_be_numeral nat_be_1

definition be_nat :: "bytes \<Rightarrow> nat" where
  "be_nat bs = foldl (\<lambda>a b. a * 256 + unat b) 0 bs"

definition be_bytes :: "nat \<Rightarrow> 'a::len word \<Rightarrow> bytes" where
  "be_bytes n w = nat_be n (unat w)"

definition of_be_bytes :: "bytes \<Rightarrow> 'a::len word" where
  "of_be_bytes bs = word_of_nat (be_nat bs)"

lemma be_nat_Nil [simp]: "be_nat [] = 0"
  by (simp add: be_nat_def)

lemma be_nat_snoc [simp]: "be_nat (bs @ [b]) = be_nat bs * 256 + unat b"
  by (simp add: be_nat_def)

lemma length_nat_be [simp]: "length (nat_be n x) = n"
  by (induction n arbitrary: x) auto

lemma length_be_bytes [simp]: "length (be_bytes n w) = n"
  by (simp add: be_bytes_def)

lemma unat_u8_of_nat: "unat (word_of_nat x :: u8) = x mod 256"
  by (simp add: unat_of_nat)

lemma unat_u8_less [simp]: "unat (b :: u8) < 256"
  using unsigned_less [of b] by simp

lemma be_nat_nat_be: "be_nat (nat_be n x) = x mod 256 ^ n"
proof (induction n arbitrary: x)
  case (Suc n)
  have "x mod 256 ^ Suc n = (x div 256) mod 256 ^ n * 256 + x mod 256"
    by (metis mod_mult2_eq mult.commute power_Suc)
  with Suc show ?case
    by (simp add: unat_u8_of_nat)
qed simp

lemma be_nat_less: "be_nat bs < 256 ^ length bs"
proof (induction bs rule: rev_induct)
  case (snoc b bs)
  have "unat b < 256" by (rule unat_u8_less)
  with snoc have "be_nat bs * 256 + unat b < (be_nat bs + 1) * 256"
    by simp
  also have "\<dots> \<le> 256 ^ length bs * 256"
    using snoc by (intro mult_right_mono) auto
  finally show ?case by simp
qed simp

lemma nat_be_be_nat: "nat_be (length bs) (be_nat bs) = bs"
proof (induction bs rule: rev_induct)
  case (snoc b bs)
  have "(be_nat bs * 256 + unat b) div 256 = be_nat bs"
    using unat_u8_less [of b] by simp
  moreover have "word_of_nat (be_nat bs * 256 + unat b) = b"
  proof -
    have "unat (word_of_nat (be_nat bs * 256 + unat b) :: u8) = unat b"
      using unat_u8_less [of b] by (simp only: unat_u8_of_nat) simp
    then show ?thesis by (simp only: word_unat_eq_iff)
  qed
  ultimately show ?case using snoc by simp
qed simp

lemma of_be_be_bytes:
  fixes w :: "'a::len word"
  assumes "LENGTH('a) = 8 * n"
  shows "of_be_bytes (be_bytes n w) = w"
proof -
  have "unat w < 256 ^ n"
    using unsigned_less [of w] assms by (simp add: power_mult)
  then show ?thesis
    by (simp add: of_be_bytes_def be_bytes_def be_nat_nat_be)
qed

lemma be_of_be_bytes:
  assumes "LENGTH('a::len) = 8 * length bs"
  shows "be_bytes (length bs) (of_be_bytes bs :: 'a word) = bs"
proof -
  have "be_nat bs < 2 ^ LENGTH('a)"
    using be_nat_less [of bs] assms by (simp add: power_mult)
  then show ?thesis
    by (simp add: of_be_bytes_def be_bytes_def unat_of_nat take_bit_nat_eq_self nat_be_be_nat)
qed

lemma be_bytes_inject:
  fixes v w :: "'a::len word"
  assumes "LENGTH('a) = 8 * n"
  shows "be_bytes n v = be_bytes n w \<longleftrightarrow> v = w"
  by (metis assms of_be_be_bytes)

section \<open>Strings\<close>

definition byte_of_char :: "char \<Rightarrow> u8" where
  "byte_of_char c = word_of_nat (of_char c)"

definition char_of_byte :: "u8 \<Rightarrow> char" where
  "char_of_byte b = char_of (unat b)"

text \<open>\<open>str::as_bytes\<close> and the bytes a \<open>String\<close> is built from.\<close>

definition str_bytes :: "string \<Rightarrow> bytes" where
  "str_bytes s = map byte_of_char s"

definition bytes_str :: "bytes \<Rightarrow> string" where
  "bytes_str bs = map char_of_byte bs"

lemma of_char_less_256: "(of_char c :: nat) < 256"
  by (metis of_char_mod_256 mod_less_divisor zero_less_numeral)

lemma char_of_byte_of_char [simp]: "char_of_byte (byte_of_char c) = c"
  by (simp add: char_of_byte_def byte_of_char_def unat_u8_of_nat of_char_less_256)

lemma byte_of_char_of_byte [simp]: "byte_of_char (char_of_byte b) = b"
  by (simp add: char_of_byte_def byte_of_char_def)

lemma bytes_str_bytes [simp]: "bytes_str (str_bytes s) = s"
  by (simp add: bytes_str_def str_bytes_def o_def)

lemma str_bytes_str [simp]: "str_bytes (bytes_str bs) = bs"
  by (simp add: bytes_str_def str_bytes_def o_def)

lemma length_str_bytes [simp]: "length (str_bytes s) = length s"
  by (simp add: str_bytes_def)

lemma length_bytes_str [simp]: "length (bytes_str bs) = length bs"
  by (simp add: bytes_str_def)

lemma str_bytes_inject [simp]: "str_bytes s = str_bytes t \<longleftrightarrow> s = t"
  by (metis bytes_str_bytes)

text \<open>
  The well-formed byte sequences of UTF-8, by the table of the Unicode standard that
  \<open>core::str::from_utf8\<close> implements.
\<close>

definition in_range :: "nat \<Rightarrow> nat \<Rightarrow> u8 \<Rightarrow> bool" where
  "in_range lo hi b \<longleftrightarrow> lo \<le> unat b \<and> unat b \<le> hi"

abbreviation continuation :: "u8 \<Rightarrow> bool" where
  "continuation b \<equiv> in_range 128 191 b"

definition utf8_pair :: "u8 \<Rightarrow> u8 \<Rightarrow> bool" where
  "utf8_pair a b \<longleftrightarrow> in_range 194 223 a \<and> continuation b"

definition utf8_triple :: "u8 \<Rightarrow> u8 \<Rightarrow> u8 \<Rightarrow> bool" where
  "utf8_triple a b c \<longleftrightarrow> continuation c \<and>
     (unat a = 224 \<and> in_range 160 191 b
      \<or> (in_range 225 236 a \<or> in_range 238 239 a) \<and> continuation b
      \<or> unat a = 237 \<and> in_range 128 159 b)"

definition utf8_quad :: "u8 \<Rightarrow> u8 \<Rightarrow> u8 \<Rightarrow> u8 \<Rightarrow> bool" where
  "utf8_quad a b c d \<longleftrightarrow> continuation c \<and> continuation d \<and>
     (unat a = 240 \<and> in_range 144 191 b
      \<or> in_range 241 243 a \<and> continuation b
      \<or> unat a = 244 \<and> in_range 128 143 b)"

text \<open>The UTF-8 encodings of the single characters of a byte string; \<open>None\<close> if it is malformed.\<close>

fun utf8_chars :: "bytes \<Rightarrow> bytes list option" where
  "utf8_chars [] = Some []"
| "utf8_chars (a # rest) =
     (if unat a < 128 then map_option (Cons [a]) (utf8_chars rest)
      else case rest of
        b # rest2 \<Rightarrow>
          if utf8_pair a b then map_option (Cons [a, b]) (utf8_chars rest2)
          else (case rest2 of
            c # rest3 \<Rightarrow>
              if utf8_triple a b c then map_option (Cons [a, b, c]) (utf8_chars rest3)
              else (case rest3 of
                d # rest4 \<Rightarrow>
                  if utf8_quad a b c d then map_option (Cons [a, b, c, d]) (utf8_chars rest4)
                  else None
              | [] \<Rightarrow> None)
          | [] \<Rightarrow> None)
      | [] \<Rightarrow> None)"

definition utf8_valid :: "bytes \<Rightarrow> bool" where
  "utf8_valid bs \<longleftrightarrow> utf8_chars bs \<noteq> None"

text \<open>A Rust \<open>String\<close>: the bytes are valid UTF-8.\<close>

definition str_ok :: "string \<Rightarrow> bool" where
  "str_ok s \<longleftrightarrow> utf8_valid (str_bytes s)"

text \<open>\<open>s.chars()\<close>, with each character given by its UTF-8 encoding.\<close>

definition str_chars :: "string \<Rightarrow> bytes list" where
  "str_chars s = (case utf8_chars (str_bytes s) of None \<Rightarrow> [] | Some cs \<Rightarrow> cs)"

text \<open>\<open>char::is_control\<close>: the category Cc, that is U+0000 to U+001F and U+007F to U+009F.\<close>

definition char_is_control :: "bytes \<Rightarrow> bool" where
  "char_is_control c = (case c of
       [a] \<Rightarrow> unat a < 32 \<or> unat a = 127
     | [a, b] \<Rightarrow> unat a = 194 \<and> in_range 128 159 b
     | _ \<Rightarrow> False)"

text \<open>\<open>char::is_whitespace\<close>: the Unicode property White\_Space.\<close>

definition char_is_whitespace :: "bytes \<Rightarrow> bool" where
  "char_is_whitespace c = (case c of
       [a] \<Rightarrow> in_range 9 13 a \<or> unat a = 32
     | [a, b] \<Rightarrow> unat a = 194 \<and> (unat b = 133 \<or> unat b = 160)
     | [a, b, d] \<Rightarrow>
         unat a = 225 \<and> unat b = 154 \<and> unat d = 128
         \<or> unat a = 226 \<and> unat b = 128 \<and> (in_range 128 138 d \<or> unat d = 168 \<or> unat d = 169 \<or> unat d = 175)
         \<or> unat a = 226 \<and> unat b = 129 \<and> unat d = 159
         \<or> unat a = 227 \<and> unat b = 128 \<and> unat d = 128
     | _ \<Rightarrow> False)"

text \<open>\<open>s.chars().any(char::is_control)\<close> and \<open>s.trim().is_empty()\<close>.\<close>

definition has_control :: "string \<Rightarrow> bool" where
  "has_control s \<longleftrightarrow> list_ex char_is_control (str_chars s)"

definition trim_is_empty :: "string \<Rightarrow> bool" where
  "trim_is_empty s \<longleftrightarrow> list_all char_is_whitespace (str_chars s)"

text \<open>\<open>str::split\<close> on a separator: never the empty list.\<close>

fun split_on :: "'a \<Rightarrow> 'a list \<Rightarrow> 'a list list" where
  "split_on sep [] = [[]]"
| "split_on sep (c # cs) =
     (if c = sep then [] # split_on sep cs
      else case split_on sep cs of
        [] \<Rightarrow> [[c]]
      | w # ws \<Rightarrow> (c # w) # ws)"

text \<open>\<open>str::split_once\<close>.\<close>

fun split_once :: "'a \<Rightarrow> 'a list \<Rightarrow> ('a list \<times> 'a list) option" where
  "split_once sep [] = None"
| "split_once sep (c # cs) =
     (if c = sep then Some ([], cs)
      else map_option (\<lambda>(a, b). (c # a, b)) (split_once sep cs))"

text \<open>\<open>[String]::join\<close>.\<close>

fun join :: "'a \<Rightarrow> 'a list list \<Rightarrow> 'a list" where
  "join sep [] = []"
| "join sep [w] = w"
| "join sep (w # v # ws) = w @ sep # join sep (v # ws)"

lemma split_on_not_Nil [simp]: "split_on sep cs \<noteq> []"
  by (cases cs) (auto split: list.splits)

lemma join_split_on: "join sep (split_on sep cs) = cs"
proof (induction cs)
  case (Cons c cs)
  obtain w ws where ws: "split_on sep cs = w # ws"
    by (cases "split_on sep cs") auto
  with Cons show ?case
    by (cases ws) auto
qed simp

lemma split_on_no_sep: "w \<in> set (split_on sep cs) \<Longrightarrow> sep \<notin> set w"
  by (induction cs arbitrary: w) (fastforce split: if_splits list.splits)+

lemma split_on_word:
  "sep \<notin> set w \<Longrightarrow> split_on sep (w @ sep # cs) = w # split_on sep cs"
  by (induction w) (auto split: list.splits)

lemma split_on_single: "sep \<notin> set w \<Longrightarrow> split_on sep w = [w]"
  by (induction w) auto

lemma split_on_join:
  "ws \<noteq> [] \<Longrightarrow> \<forall>w\<in>set ws. sep \<notin> set w \<Longrightarrow> split_on sep (join sep ws) = ws"
  by (induction sep ws rule: join.induct) (auto simp: split_on_word split_on_single)

lemma join_inject:
  assumes "ws \<noteq> []" "vs \<noteq> []" "\<forall>w\<in>set ws. sep \<notin> set w" "\<forall>w\<in>set vs. sep \<notin> set w"
    and "join sep ws = join sep vs"
  shows "ws = vs"
  by (metis assms split_on_join)

section \<open>Ordered maps and sets\<close>

text \<open>
  \<open>btree m\<close> is the representation invariant of a \<open>BTreeMap\<close> given by its iteration order, and
  \<open>bset xs\<close> that of a \<open>BTreeSet\<close>.
\<close>

definition btree :: "('k::linorder \<times> 'v) list \<Rightarrow> bool" where
  "btree m \<longleftrightarrow> sorted_wrt (<) (map fst m)"

definition bset :: "'k::linorder list \<Rightarrow> bool" where
  "bset xs \<longleftrightarrow> sorted_wrt (<) xs"

definition bt_get :: "('k \<times> 'v) list \<Rightarrow> 'k \<Rightarrow> 'v option" where
  "bt_get m k = map_of m k"

definition bt_contains :: "('k \<times> 'v) list \<Rightarrow> 'k \<Rightarrow> bool" where
  "bt_contains m k \<longleftrightarrow> bt_get m k \<noteq> None"

fun bt_insert :: "'k::linorder \<Rightarrow> 'v \<Rightarrow> ('k \<times> 'v) list \<Rightarrow> ('k \<times> 'v) list" where
  "bt_insert k v [] = [(k, v)]"
| "bt_insert k v ((k', v') # ps) =
     (if k' < k then (k', v') # bt_insert k v ps
      else if k' = k then (k, v) # ps
      else (k, v) # (k', v') # ps)"

definition bt_remove :: "'k \<Rightarrow> ('k \<times> 'v) list \<Rightarrow> ('k \<times> 'v) list" where
  "bt_remove k m = filter (\<lambda>(k', _). k' \<noteq> k) m"

fun bs_insert :: "'k::linorder \<Rightarrow> 'k list \<Rightarrow> 'k list" where
  "bs_insert k [] = [k]"
| "bs_insert k (x # xs) =
     (if x < k then x # bs_insert k xs else if x = k then k # xs else k # x # xs)"

lemma bset_iff: "bset xs \<longleftrightarrow> sorted xs \<and> distinct xs"
  by (auto simp: bset_def strict_sorted_iff)

lemma btree_iff_bset: "btree m \<longleftrightarrow> bset (map fst m)"
  by (simp add: btree_def bset_def)

lemma btree_Nil [simp]: "btree []" and bset_Nil [simp]: "bset []"
  by (simp_all add: btree_def bset_def)

lemma bset_Cons: "bset (x # xs) \<longleftrightarrow> bset xs \<and> (\<forall>y\<in>set xs. x < y)"
  by (auto simp: bset_def)

lemma btree_Cons: "btree (p # ps) \<longleftrightarrow> btree ps \<and> (\<forall>k\<in>fst ` set ps. fst p < k)"
  by (auto simp: btree_def)

lemma btree_distinct: "btree m \<Longrightarrow> distinct (map fst m)"
  by (simp add: btree_iff_bset bset_iff)

lemma keys_bt_insert [simp]: "fst ` set (bt_insert k v m) = insert k (fst ` set m)"
  by (induction k v m rule: bt_insert.induct) auto

lemma btree_bt_insert [simp]: "btree m \<Longrightarrow> btree (bt_insert k v m)"
proof (induction m)
  case (Cons p ps)
  then show ?case by (cases p) (auto simp: btree_Cons)
qed (simp add: btree_def)

lemma btree_bt_remove [simp]: "btree m \<Longrightarrow> btree (bt_remove k m)"
  by (induction m) (auto simp: btree_Cons bt_remove_def)

lemma bt_get_insert: "btree m \<Longrightarrow> bt_get (bt_insert k v m) k' = (if k' = k then Some v else bt_get m k')"
proof (induction m)
  case (Cons p ps)
  then show ?case
    by (cases p) (force simp: btree_Cons bt_get_def)
qed (simp add: bt_get_def)

lemma bt_get_insert_same [simp]: "bt_get (bt_insert k v m) k = Some v"
  by (induction m) (auto simp: bt_get_def split: prod.splits)

lemma bt_get_remove: "bt_get (bt_remove k m) k' = (if k' = k then None else bt_get m k')"
  by (induction m) (auto simp: bt_get_def bt_remove_def split: prod.splits)

lemma bt_get_in_set: "bt_get m k = Some v \<Longrightarrow> (k, v) \<in> set m"
  by (simp add: bt_get_def map_of_SomeD)

lemma bt_get_iff: "btree m \<Longrightarrow> bt_get m k = Some v \<longleftrightarrow> (k, v) \<in> set m"
  by (auto simp: bt_get_def btree_distinct)

lemma bt_get_None: "bt_get m k = None \<longleftrightarrow> k \<notin> fst ` set m"
  by (simp add: bt_get_def map_of_eq_None_iff)

lemma bt_contains_iff: "bt_contains m k \<longleftrightarrow> k \<in> fst ` set m"
  by (simp add: bt_contains_def bt_get_None)

lemma set_bt_insert: "btree m \<Longrightarrow> set (bt_insert k v m) = insert (k, v) {p \<in> set m. fst p \<noteq> k}"
proof (induction m)
  case (Cons p ps)
  then show ?case by (cases p) (auto simp: btree_Cons image_iff)
qed simp

lemma set_bt_remove: "set (bt_remove k m) = {p \<in> set m. fst p \<noteq> k}"
  by (auto simp: bt_remove_def)

lemma length_bt_remove: "bt_get m k = Some v \<Longrightarrow> length (bt_remove k m) < length m"
  using bt_get_in_set [of m k v]
  by (auto simp: bt_remove_def intro: length_filter_less)

lemma bt_get_empty [simp]: "bt_get [] k = None"
  by (simp add: bt_get_def)

lemma set_bs_insert [simp]: "set (bs_insert k xs) = insert k (set xs)"
  by (induction xs) auto

lemma bset_bs_insert [simp]: "bset xs \<Longrightarrow> bset (bs_insert k xs)"
  by (induction xs) (auto simp: bset_Cons)

lemma bset_eq: "bset xs \<Longrightarrow> bset ys \<Longrightarrow> set xs = set ys \<Longrightarrow> xs = ys"
  by (simp add: bset_iff sorted_distinct_set_unique)

lemma bs_insert_last: "bset (xs @ [k]) \<Longrightarrow> bs_insert k xs = xs @ [k]"
  by (rule bset_eq [OF bset_bs_insert]) (auto simp: bset_def sorted_wrt_append)

lemma bs_insert_member: "bset xs \<Longrightarrow> k \<in> set xs \<Longrightarrow> bs_insert k xs = xs"
  by (rule bset_eq) auto

lemma btree_snoc: "btree (m @ [(k, v)]) \<longleftrightarrow> btree m \<and> (\<forall>k'\<in>fst ` set m. k' < k)"
  by (auto simp: btree_def sorted_wrt_append)

lemma map_fst_bt_insert_same: "btree m \<Longrightarrow> k \<in> fst ` set m \<Longrightarrow> map fst (bt_insert k v m) = map fst m"
  by (rule bset_eq) (auto simp: btree_iff_bset [symmetric] image_iff)

lemma bt_insert_last:
  assumes "btree (m @ [(k, v)])"
  shows "bt_insert k v m = m @ [(k, v)]"
  using assms
  by (induction m) (auto simp: btree_def sorted_wrt_append split: prod.splits)

text \<open>
  What the rest of the program relies on of an ordered map: the interface, with the laws its
  operations promise, and the facts that follow from the laws.
\<close>

locale map_interface =
  fixes empty :: "'m"
    and ins :: "'k \<Rightarrow> 'v \<Rightarrow> 'm \<Rightarrow> 'm"
    and rem :: "'k \<Rightarrow> 'm \<Rightarrow> 'm"
    and get :: "'m \<Rightarrow> 'k \<Rightarrow> 'v option"
    and invar :: "'m \<Rightarrow> bool"
  assumes empty_invar: "invar empty"
    and ins_invar: "invar m \<Longrightarrow> invar (ins k v m)"
    and rem_invar: "invar m \<Longrightarrow> invar (rem k m)"
    and get_empty: "get empty k = None"
    and get_ins: "invar m \<Longrightarrow> get (ins k v m) k' = (if k' = k then Some v else get m k')"
    and get_rem: "invar m \<Longrightarrow> get (rem k m) k' = (if k' = k then None else get m k')"
begin

lemma get_ins_same: "invar m \<Longrightarrow> get (ins k v m) k = Some v"
  by (simp add: get_ins)

lemma get_ins_other: "invar m \<Longrightarrow> k' \<noteq> k \<Longrightarrow> get (ins k v m) k' = get m k'"
  by (simp add: get_ins)

lemma get_replace:
  "invar m \<Longrightarrow> get (ins k v (rem k m)) = get (ins k v m)"
  by (auto simp: fun_eq_iff get_ins get_rem rem_invar)

lemma ins_forall:
  assumes "invar m" and "\<And>k' v'. get m k' = Some v' \<Longrightarrow> P k' v'" and "P k v"
    and "get (ins k v m) k' = Some v'"
  shows "P k' v'"
  using assms by (auto simp: get_ins split: if_splits)

lemma rem_forall:
  assumes "invar m" and "\<And>k' v'. get m k' = Some v' \<Longrightarrow> P k' v'"
    and "get (rem k m) k' = Some v'"
  shows "P k' v'"
  using assms by (auto simp: get_rem split: if_splits)

end

interpretation bt: map_interface "[]" bt_insert bt_remove bt_get btree
  by unfold_locales (auto simp: bt_get_insert bt_get_remove)

section \<open>Stateful operations\<close>

type_synonym ('s, 'a, 'e) stateful = "'s \<Rightarrow> ('a, 'e) result \<times> 's"

definition sbind :: "('s, 'a, 'e) stateful \<Rightarrow> ('a \<Rightarrow> ('s, 'b, 'e) stateful) \<Rightarrow> ('s, 'b, 'e) stateful" where
  "sbind m f s = (case m s of (Ok a, s') \<Rightarrow> f a s' | (Err e, s') \<Rightarrow> (Err e, s'))"

definition slift :: "('a, 'e) result \<Rightarrow> ('s, 'a, 'e) stateful" where
  "slift r s = (r, s)"

definition srequire :: "bool \<Rightarrow> 'e \<Rightarrow> ('s, unit, 'e) stateful" where
  "srequire c e s = (require c e, s)"

lemma sbind_Ok: "m s = (Ok a, s') \<Longrightarrow> sbind m f s = f a s'"
  by (simp add: sbind_def)

lemma sbind_Err: "m s = (Err e, s') \<Longrightarrow> sbind m f s = (Err e, s')"
  by (simp add: sbind_def)

lemma sbind_eq_Ok [simp]:
  "sbind m f s = (Ok b, t) \<longleftrightarrow> (\<exists>a s'. m s = (Ok a, s') \<and> f a s' = (Ok b, t))"
  by (auto simp: sbind_def split: prod.splits result.splits)

lemma sbind_eq_Err [simp]:
  "sbind m f s = (Err e, t) \<longleftrightarrow>
     m s = (Err e, t) \<or> (\<exists>a s'. m s = (Ok a, s') \<and> f a s' = (Err e, t))"
  by (auto simp: sbind_def split: prod.splits result.splits)

lemma sbind_slift_Ok [simp]: "sbind (slift (Ok a)) f = f a"
  by (simp add: fun_eq_iff sbind_def slift_def)

lemma sbind_slift_Err [simp]: "sbind (slift (Err e)) f s = (Err e, s)"
  by (simp add: sbind_def slift_def)

lemma sbind_srequire [simp]: "sbind (srequire c e) f s = (if c then f () s else (Err e, s))"
  by (simp add: sbind_def srequire_def)

lemma slift_eq [simp]: "slift r s = (r', t) \<longleftrightarrow> r = r' \<and> s = t"
  by (auto simp: slift_def)

definition keeps :: "('s \<Rightarrow> 's \<Rightarrow> bool) \<Rightarrow> ('s, 'a, 'e) stateful \<Rightarrow> bool" where
  "keeps R m \<longleftrightarrow> (\<forall>s. R s (snd (m s)))"

locale effect_preorder =
  fixes R :: "'s \<Rightarrow> 's \<Rightarrow> bool"
  assumes R_refl: "R s s" and R_trans: "R s t \<Longrightarrow> R t u \<Longrightarrow> R s u"
begin

lemma keeps_slift: "keeps R (slift r)"
  by (simp add: keeps_def slift_def R_refl)

lemma keeps_srequire: "keeps R (srequire c e)"
  by (simp add: keeps_def srequire_def R_refl)

lemma keeps_bind: "keeps R m \<Longrightarrow> (\<And>a. keeps R (f a)) \<Longrightarrow> keeps R (sbind m f)"
proof (unfold keeps_def, rule allI)
  fix s
  assume m: "\<forall>s. R s (snd (m s))" and f: "\<And>a. \<forall>s. R s (snd (f a s))"
  obtain r s' where r: "m s = (r, s')" by (cases "m s")
  show "R s (snd (sbind m f s))"
    using m [rule_format, of s] f r R_trans by (cases r) (auto simp: sbind_def)
qed

lemma keeps_require_bind: "(c \<Longrightarrow> keeps R (f ())) \<Longrightarrow> keeps R (sbind (srequire c e) f)"
  by (simp add: keeps_def R_refl)

lemma keepsI: "(\<And>s. R s (snd (m s))) \<Longrightarrow> keeps R m"
  by (simp add: keeps_def)

lemma keepsD: "keeps R m \<Longrightarrow> m s = (r, t) \<Longrightarrow> R s t"
  unfolding keeps_def by (metis snd_conv)

end

section \<open>Transition systems\<close>

inductive reach :: "('s \<Rightarrow> bool) \<Rightarrow> ('s \<Rightarrow> 's \<Rightarrow> bool) \<Rightarrow> 's \<Rightarrow> bool"
  for init :: "'s \<Rightarrow> bool" and step :: "'s \<Rightarrow> 's \<Rightarrow> bool" where
  reach_init: "init s \<Longrightarrow> reach init step s"
| reach_step: "reach init step s \<Longrightarrow> step s t \<Longrightarrow> reach init step t"

locale step_invariant =
  fixes init :: "'s \<Rightarrow> bool" and step :: "'s \<Rightarrow> 's \<Rightarrow> bool" and inv :: "'s \<Rightarrow> bool"
  assumes init_inv: "init s \<Longrightarrow> inv s"
    and step_inv: "inv s \<Longrightarrow> step s t \<Longrightarrow> inv t"
begin

lemma reach_inv: "reach init step s \<Longrightarrow> inv s"
  by (induction rule: reach.induct) (auto intro: init_inv step_inv)

lemma steps_inv: "step\<^sup>*\<^sup>* s t \<Longrightarrow> inv s \<Longrightarrow> inv t"
  by (induction rule: rtranclp_induct) (auto intro: step_inv)

end

locale step_preorder =
  fixes step :: "'s \<Rightarrow> 's \<Rightarrow> bool" and le :: "'s \<Rightarrow> 's \<Rightarrow> bool"
  assumes le_refl: "le s s"
    and le_trans: "le s t \<Longrightarrow> le t u \<Longrightarrow> le s u"
    and step_le: "step s t \<Longrightarrow> le s t"
begin

lemma steps_le: "step\<^sup>*\<^sup>* s t \<Longrightarrow> le s t"
  by (induction rule: rtranclp_induct) (auto intro: le_refl le_trans step_le)

end

end
