(* ===== verification/Codec.thy ===== *)
theory Codec
  imports Prelude
begin

text \<open>
  The canonical wire codec (\<open>src/store/codec.rs\<close>): the \<open>Encoder\<close> is the byte vector it has
  built so far, the \<open>Decoder\<close> is a record of the input and the cursor. The methods of the
  decoder return the value and the moved decoder; \<open>dbind\<close> is the sequencing of two of them
  under the question mark operator.

  Two relations carry every round-trip proof of the development. \<open>reads g bs v\<close> says that \<open>g\<close>,
  placed before the bytes \<open>bs\<close>, returns \<open>v\<close> and moves the cursor exactly past them, whatever
  surrounds them. \<open>consumed d bs d'\<close> says that a decoder moved from \<open>d\<close> to \<open>d'\<close> over exactly
  the bytes \<open>bs\<close>. The locale \<open>wire_field\<close> pairs an encoder method with its decoder method, and
  the locale \<open>canonical\<close> is the contract of the trait \<open>Canonical\<close>; \<open>strict_canonical\<close> adds that
  decoding accepts nothing but the encoding.
\<close>

named_theorems reads_intros \<open>what a decoder method reads\<close>
named_theorems consumed_dests \<open>what a successful decoder method has consumed\<close>
named_theorems codec_simps \<open>definitions of the encoder methods and of the decoder monad\<close>

section \<open>Errors and the encoder\<close>

datatype codec_error = Invalid | Limit | Truncated | Trailing | UnknownVersion

abbreviation u32_max :: nat where
  "u32_max \<equiv> 4294967295"

definition enc_version :: "u8 \<Rightarrow> bytes" where
  [codec_simps]: "enc_version version = [version]"

definition enc_u8 :: "u8 \<Rightarrow> bytes \<Rightarrow> bytes" where
  [codec_simps]: "enc_u8 value out = out @ [value]"

definition enc_bool :: "bool \<Rightarrow> bytes \<Rightarrow> bytes" where
  [codec_simps]: "enc_bool value out = enc_u8 (if value then 1 else 0) out"

definition enc_u16 :: "u16 \<Rightarrow> bytes \<Rightarrow> bytes" where
  [codec_simps]: "enc_u16 value out = out @ be_bytes 2 value"

definition enc_u32 :: "u32 \<Rightarrow> bytes \<Rightarrow> bytes" where
  [codec_simps]: "enc_u32 value out = out @ be_bytes 4 value"

definition enc_u64 :: "u64 \<Rightarrow> bytes \<Rightarrow> bytes" where
  [codec_simps]: "enc_u64 value out = out @ be_bytes 8 value"

definition enc_fixed :: "bytes \<Rightarrow> bytes \<Rightarrow> bytes" where
  [codec_simps]: "enc_fixed value out = out @ value"

definition enc_bytes :: "bytes \<Rightarrow> nat \<Rightarrow> bytes \<Rightarrow> (bytes, codec_error) result" where
  "enc_bytes value maximum out =
     (if length value > maximum \<or> length value > u32_max then Err Limit
      else Ok (enc_fixed value (enc_u32 (word_of_nat (length value)) out)))"

definition enc_string :: "string \<Rightarrow> nat \<Rightarrow> bytes \<Rightarrow> (bytes, codec_error) result" where
  "enc_string value maximum out = enc_bytes (str_bytes value) maximum out"

definition enc_finish :: "bytes \<Rightarrow> bytes" where
  [codec_simps]: "enc_finish out = out"

section \<open>The decoder\<close>

record decoder =
  d_bytes :: bytes
  d_cursor :: nat

type_synonym 'a dec = "decoder \<Rightarrow> ('a \<times> decoder, codec_error) result"

definition dbind :: "'a dec \<Rightarrow> ('a \<Rightarrow> 'b dec) \<Rightarrow> 'b dec" where
  "dbind g f d = rbind (g d) (\<lambda>(x, d'). f x d')"

definition dret :: "'a \<Rightarrow> 'a dec" where
  "dret x d = Ok (x, d)"

definition dfail :: "codec_error \<Rightarrow> 'a dec" where
  "dfail e d = Err e"

definition dcheck :: "bool \<Rightarrow> codec_error \<Rightarrow> unit dec" where
  "dcheck c e d = (if c then Ok ((), d) else Err e)"

definition dlift :: "('a, codec_error) result \<Rightarrow> 'a dec" where
  "dlift r d = rbind r (\<lambda>x. Ok (x, d))"

definition dec_take :: "nat \<Rightarrow> bytes dec" where
  "dec_take len d =
     (if d_cursor d + len > usize_max then Err Limit
      else if d_cursor d + len \<le> length (d_bytes d)
      then Ok (take len (drop (d_cursor d) (d_bytes d)), d\<lparr>d_cursor := d_cursor d + len\<rparr>)
      else Err Truncated)"

definition dec_u8 :: "u8 dec" where
  "dec_u8 = dbind (dec_take 1) (\<lambda>bs. dret (bs ! 0))"

definition dec_version :: "bytes \<Rightarrow> u8 \<Rightarrow> (decoder, codec_error) result" where
  "dec_version bs expected =
     rbind (dec_u8 \<lparr>d_bytes = bs, d_cursor = 0\<rparr>) (\<lambda>(v, d).
       if v \<noteq> expected then Err UnknownVersion else Ok d)"

definition dec_bool :: "bool dec" where
  "dec_bool = dbind dec_u8 (\<lambda>b.
     if b = 0 then dret False else if b = 1 then dret True else dfail Invalid)"

definition dec_u16 :: "u16 dec" where
  "dec_u16 = dbind (dec_take 2) (\<lambda>bs. dret (of_be_bytes bs))"

definition dec_u32 :: "u32 dec" where
  "dec_u32 = dbind (dec_take 4) (\<lambda>bs. dret (of_be_bytes bs))"

definition dec_u64 :: "u64 dec" where
  "dec_u64 = dbind (dec_take 8) (\<lambda>bs. dret (of_be_bytes bs))"

definition dec_fixed :: "nat \<Rightarrow> ('a::len word) dec" where
  "dec_fixed n = dbind (dec_take n) (\<lambda>bs. dret (of_be_bytes bs))"

definition dec_bytes :: "nat \<Rightarrow> bytes dec" where
  "dec_bytes maximum = dbind dec_u32 (\<lambda>len.
     if unat len > maximum then dfail Limit else dec_take (unat len))"

definition dec_string :: "nat \<Rightarrow> string dec" where
  "dec_string maximum = dbind (dec_bytes maximum) (\<lambda>bs.
     if utf8_valid bs then dret (bytes_str bs) else dfail Invalid)"

definition dec_finish :: "unit dec" where
  "dec_finish d = (if d_cursor d = length (d_bytes d) then Ok ((), d) else Err Trailing)"

text \<open>A loop \<open>for _ in 0..n\<close> that decodes one item per round into a vector.\<close>

primrec dec_repeat :: "nat \<Rightarrow> 'a dec \<Rightarrow> 'a list dec" where
  "dec_repeat 0 g = dret []"
| "dec_repeat (Suc n) g = dbind g (\<lambda>x. dbind (dec_repeat n g) (\<lambda>xs. dret (x # xs)))"

text \<open>An optional field: the tag 0, or the tag 1 and the field.\<close>

definition dec_option :: "'a dec \<Rightarrow> 'a option dec" where
  "dec_option g = dbind dec_u8 (\<lambda>tag.
     if tag = 0 then dret None
     else if tag = 1 then dbind g (\<lambda>x. dret (Some x))
     else dfail Invalid)"

primrec option_wire :: "('a \<Rightarrow> bytes) \<Rightarrow> 'a option \<Rightarrow> bytes" where
  "option_wire w None = [0]"
| "option_wire w (Some x) = 1 # w x"

text \<open>
  The frame of every \<open>decode\<close>: \<open>Decoder::version(bytes, v)?\<close>, then the body, whose value is
  returned.
\<close>

definition run_dec :: "u8 \<Rightarrow> bytes \<Rightarrow> 'a dec \<Rightarrow> ('a, codec_error) result" where
  "run_dec version bs g =
     rbind (dec_version bs version) (\<lambda>d. rbind (g d) (\<lambda>(x, _). Ok x))"

lemma enc_bytes_Ok [codec_simps]:
  "enc_bytes v maximum out = Ok out' \<longleftrightarrow> length v \<le> maximum \<and> length v \<le> u32_max
     \<and> out' = out @ be_bytes 4 (word_of_nat (length v) :: u32) @ v"
  by (auto simp: enc_bytes_def codec_simps)

lemma enc_string_Ok [codec_simps]:
  "enc_string s maximum out = Ok out' \<longleftrightarrow> length s \<le> maximum \<and> length s \<le> u32_max
     \<and> out' = out @ be_bytes 4 (word_of_nat (length s) :: u32) @ str_bytes s"
  by (auto simp: enc_string_def codec_simps)

lemma dbind_eq_Ok [simp]:
  "dbind g f d = Ok (y, d'') \<longleftrightarrow> (\<exists>x d'. g d = Ok (x, d') \<and> f x d' = Ok (y, d''))"
  by (force simp: dbind_def)

lemma dret_eq_Ok [simp]: "dret x d = Ok (y, d') \<longleftrightarrow> y = x \<and> d' = d"
  by (auto simp: dret_def)

lemma dfail_eq_Ok [simp]: "dfail e d \<noteq> Ok r"
  by (simp add: dfail_def)

lemma dcheck_eq_Ok [simp]: "dcheck c e d = Ok (u, d') \<longleftrightarrow> c \<and> d' = d"
  by (auto simp: dcheck_def)

lemma dlift_eq_Ok [simp]: "dlift r d = Ok (x, d') \<longleftrightarrow> r = Ok x \<and> d' = d"
  by (auto simp: dlift_def)

section \<open>What a decoder reads\<close>

text \<open>Every Rust vector is shorter than the address space.\<close>

definition vec_ok :: "bytes \<Rightarrow> bool" where
  "vec_ok bs \<longleftrightarrow> length bs \<le> usize_max"

definition reads :: "'a dec \<Rightarrow> bytes \<Rightarrow> 'a \<Rightarrow> bool" where
  "reads g bs v \<longleftrightarrow> (\<forall>pre post. vec_ok (pre @ bs @ post) \<longrightarrow>
     g \<lparr>d_bytes = pre @ bs @ post, d_cursor = length pre\<rparr>
       = Ok (v, \<lparr>d_bytes = pre @ bs @ post, d_cursor = length pre + length bs\<rparr>))"

text \<open>The same at the end of the input, where \<open>finish\<close> may be called.\<close>

definition accepts :: "'a dec \<Rightarrow> bytes \<Rightarrow> 'a \<Rightarrow> bool" where
  "accepts g bs v \<longleftrightarrow> (\<forall>pre. vec_ok (pre @ bs) \<longrightarrow>
     (\<exists>d'. g \<lparr>d_bytes = pre @ bs, d_cursor = length pre\<rparr> = Ok (v, d')))"

lemma reads_dec_take [reads_intros]: "reads (dec_take (length bs)) bs bs"
  by (auto simp: reads_def dec_take_def vec_ok_def)

lemma reads_dec_take_n: "length bs = n \<Longrightarrow> reads (dec_take n) bs bs"
  using reads_dec_take [of bs] by simp

lemma reads_dret [reads_intros]: "reads (dret v) [] v"
  by (simp add: reads_def dret_def)

lemma reads_bind:
  assumes "reads g bs v" and "reads (f v) bs' w"
  shows "reads (dbind g f) (bs @ bs') w"
  unfolding reads_def
proof (intro allI impI)
  fix pre post
  assume ok: "vec_ok (pre @ (bs @ bs') @ post)"
  have "g \<lparr>d_bytes = pre @ bs @ (bs' @ post), d_cursor = length pre\<rparr>
      = Ok (v, \<lparr>d_bytes = pre @ bs @ (bs' @ post), d_cursor = length pre + length bs\<rparr>)"
    using assms(1) ok unfolding reads_def by simp
  moreover have "f v \<lparr>d_bytes = (pre @ bs) @ bs' @ post, d_cursor = length (pre @ bs)\<rparr>
      = Ok (w, \<lparr>d_bytes = (pre @ bs) @ bs' @ post, d_cursor = length (pre @ bs) + length bs'\<rparr>)"
    using assms(2) [unfolded reads_def, rule_format, of "pre @ bs" post] ok by simp
  ultimately show "dbind g f \<lparr>d_bytes = pre @ (bs @ bs') @ post, d_cursor = length pre\<rparr>
      = Ok (w, \<lparr>d_bytes = pre @ (bs @ bs') @ post, d_cursor = length pre + length (bs @ bs')\<rparr>)"
    by (simp add: dbind_def add.assoc)
qed

lemma reads_bind_ret: "reads g bs v \<Longrightarrow> f v = dret w \<Longrightarrow> reads (dbind g f) bs w"
  using reads_bind [of g bs v f "[]" w] by (simp add: reads_dret)

lemma reads_check: "c \<Longrightarrow> reads (f ()) bs v \<Longrightarrow> reads (dbind (dcheck c e) f) bs v"
  by (simp add: reads_def dbind_def dcheck_def)

lemma reads_lift: "r = Ok x \<Longrightarrow> reads (f x) bs v \<Longrightarrow> reads (dbind (dlift r) f) bs v"
  by (simp add: reads_def dbind_def dlift_def)

lemma reads_dec_u8 [reads_intros]: "reads dec_u8 [b] b"
  unfolding dec_u8_def by (rule reads_bind_ret [OF reads_dec_take_n]) auto

lemma reads_dec_bool [reads_intros]: "reads dec_bool [if b then 1 else 0] b"
  unfolding dec_bool_def by (rule reads_bind_ret [OF reads_dec_u8]) auto

lemma reads_of_be_bytes:
  fixes w :: "'a::len word"
  assumes "LENGTH('a) = 8 * n"
  shows "reads (dbind (dec_take n) (\<lambda>bs. dret (of_be_bytes bs))) (be_bytes n w) w"
  by (rule reads_bind_ret [OF reads_dec_take_n]) (simp_all add: of_be_be_bytes assms)

lemma reads_dec_u16 [reads_intros]: "reads dec_u16 (be_bytes 2 w) w"
  unfolding dec_u16_def by (rule reads_of_be_bytes) simp

lemma reads_dec_u32 [reads_intros]: "reads dec_u32 (be_bytes 4 w) w"
  unfolding dec_u32_def by (rule reads_of_be_bytes) simp

lemma reads_dec_u64 [reads_intros]: "reads dec_u64 (be_bytes 8 w) w"
  unfolding dec_u64_def by (rule reads_of_be_bytes) simp

lemma reads_dec_fixed [reads_intros]:
  fixes w :: "'a::len word"
  shows "LENGTH('a) = 8 * n \<Longrightarrow> reads (dec_fixed n) (be_bytes n w) w"
  unfolding dec_fixed_def by (rule reads_of_be_bytes)

lemma unat_len_u32: "n \<le> u32_max \<Longrightarrow> unat (word_of_nat n :: u32) = n"
  by (simp add: unat_of_nat take_bit_nat_eq_self)

lemma reads_dec_bytes [reads_intros]:
  assumes "length v \<le> maximum" and "length v \<le> u32_max"
  shows "reads (dec_bytes maximum) (be_bytes 4 (word_of_nat (length v) :: u32) @ v) v"
  unfolding dec_bytes_def
  using assms by (intro reads_bind [OF reads_dec_u32]) (simp add: unat_len_u32 reads_dec_take)

lemma reads_dec_string [reads_intros]:
  assumes "length s \<le> maximum" and "length s \<le> u32_max" and "str_ok s"
  shows "reads (dec_string maximum) (be_bytes 4 (word_of_nat (length s) :: u32) @ str_bytes s) s"
  unfolding dec_string_def
  using assms reads_dec_bytes [of "str_bytes s" maximum]
  by (intro reads_bind_ret) (auto simp: str_ok_def)

lemma reads_dec_bytes_bind:
  assumes "length v \<le> maximum" and "length v \<le> u32_max" and "reads (f v) bs w"
  shows "reads (dbind (dec_bytes maximum) f) (be_bytes 4 (word_of_nat (length v) :: u32) @ v @ bs) w"
  using reads_bind [OF reads_dec_bytes [OF assms(1,2)], of f] assms(3) by simp

lemma reads_dec_string_bind:
  assumes "length s \<le> maximum" and "length s \<le> u32_max" and "str_ok s" and "reads (f s) bs w"
  shows "reads (dbind (dec_string maximum) f)
    (be_bytes 4 (word_of_nat (length s) :: u32) @ str_bytes s @ bs) w"
  using reads_bind [OF reads_dec_string [OF assms(1-3)], of f] assms(4) by simp

lemma reads_bind_byte: "reads g [b] v \<Longrightarrow> reads (f v) bs w \<Longrightarrow> reads (dbind g f) (b # bs) w"
  using reads_bind [of g "[b]" v f bs w] by simp

lemma reads_dret_eq: "v = w \<Longrightarrow> reads (dret v) [] w"
  by (simp add: reads_dret)

text \<open>The rules that take a sub-decoder apart against the bytes it is to read.\<close>

lemmas reads_rules =
  reads_check reads_lift reads_dret_eq
  reads_bind_byte [OF reads_dec_u8]
  reads_bind [OF reads_dec_u16] reads_bind_ret [OF reads_dec_u16]
  reads_bind [OF reads_dec_u32] reads_bind_ret [OF reads_dec_u32]
  reads_bind [OF reads_dec_u64] reads_bind_ret [OF reads_dec_u64]
  reads_bind [OF reads_dec_fixed] reads_bind_ret [OF reads_dec_fixed]
  reads_dec_bytes_bind reads_bind_ret [OF reads_dec_bytes]
  reads_dec_string_bind reads_bind_ret [OF reads_dec_string]

lemma reads_dec_repeat:
  assumes "\<And>x. x \<in> set xs \<Longrightarrow> reads g (w x) x"
  shows "reads (dec_repeat (length xs) g) (concat (map w xs)) xs"
  using assms
proof (induction xs)
  case (Cons x xs)
  have "reads (dbind (dec_repeat (length xs) g) (\<lambda>ys. dret (x # ys))) (concat (map w xs)) (x # xs)"
    by (rule reads_bind_ret [OF Cons.IH]) (auto intro: Cons.prems)
  then show ?case
    using Cons.prems [of x] by (auto intro: reads_bind [where v = x])
qed (simp add: reads_dret)

lemma accepts_bind:
  assumes "reads g bs v" and "accepts (f v) bs' w"
  shows "accepts (dbind g f) (bs @ bs') w"
  unfolding accepts_def
proof (intro allI impI)
  fix pre
  assume ok: "vec_ok (pre @ bs @ bs')"
  have "g \<lparr>d_bytes = pre @ bs @ bs', d_cursor = length pre\<rparr>
      = Ok (v, \<lparr>d_bytes = pre @ bs @ bs', d_cursor = length pre + length bs\<rparr>)"
    using assms(1) ok unfolding reads_def by simp
  moreover obtain d' where
    "f v \<lparr>d_bytes = (pre @ bs) @ bs', d_cursor = length (pre @ bs)\<rparr> = Ok (w, d')"
    using assms(2) [unfolded accepts_def, rule_format, of "pre @ bs"] ok by auto
  ultimately show "\<exists>d'. dbind g f \<lparr>d_bytes = pre @ bs @ bs', d_cursor = length pre\<rparr> = Ok (w, d')"
    by (simp add: dbind_def)
qed

lemma accepts_check: "c \<Longrightarrow> accepts (f ()) bs v \<Longrightarrow> accepts (dbind (dcheck c e) f) bs v"
  by (simp add: accepts_def dbind_def dcheck_def)

lemma accepts_lift: "r = Ok x \<Longrightarrow> accepts (f x) bs v \<Longrightarrow> accepts (dbind (dlift r) f) bs v"
  by (simp add: accepts_def dbind_def dlift_def)

lemma accepts_finish: "accepts (f ()) [] v \<Longrightarrow> accepts (dbind dec_finish f) [] v"
  by (simp add: accepts_def dbind_def dec_finish_def)

lemma accepts_dret: "accepts (dret v) [] v"
  by (simp add: accepts_def dret_def)

lemma accepts_bind_byte:
  "reads g [b] v \<Longrightarrow> accepts (f v) bs w \<Longrightarrow> accepts (dbind g f) (b # bs) w"
  using accepts_bind [of g "[b]" v f bs w] by simp

lemma accepts_bind_end: "reads g bs v \<Longrightarrow> accepts (f v) [] w \<Longrightarrow> accepts (dbind g f) bs w"
  using accepts_bind [of g bs v f "[]" w] by simp

lemma accepts_dret_eq: "v = w \<Longrightarrow> accepts (dret v) [] w"
  by (simp add: accepts_dret)

lemma dbind_dret [simp]: "dbind (dret x) f = f x"
  by (simp add: dbind_def dret_def fun_eq_iff)

lemma dbind_assoc: "dbind (dbind g f) h = dbind g (\<lambda>x. dbind (f x) h)"
proof
  fix d
  show "dbind (dbind g f) h d = dbind g (\<lambda>x. dbind (f x) h) d"
    by (cases "g d") (auto simp: dbind_def split: prod.split)
qed

lemma accepts_dec_bytes:
  assumes "length v \<le> maximum" and "length v \<le> u32_max" and "accepts (f v) bs w"
  shows "accepts (dbind (dec_bytes maximum) f) (be_bytes 4 (word_of_nat (length v) :: u32) @ v @ bs) w"
  using accepts_bind [OF reads_dec_bytes [OF assms(1,2)], of f] assms(3) by simp

lemma accepts_dec_string:
  assumes "length s \<le> maximum" and "length s \<le> u32_max" and "str_ok s" and "accepts (f s) bs w"
  shows "accepts (dbind (dec_string maximum) f)
    (be_bytes 4 (word_of_nat (length s) :: u32) @ str_bytes s @ bs) w"
  using accepts_bind [OF reads_dec_string [OF assms(1-3)], of f] assms(4) by simp

lemma reads_option:
  assumes "\<And>x. v = Some x \<Longrightarrow> reads g (w x) x"
  shows "reads (dec_option g) (option_wire w v) v"
proof (cases v)
  case None
  show ?thesis
    unfolding dec_option_def None option_wire.simps by (rule reads_bind_ret [OF reads_dec_u8]) simp
next
  case (Some x)
  have "reads (dec_option g) ([1] @ w x) (Some x)"
    unfolding dec_option_def
    by (rule reads_bind [OF reads_dec_u8]) (simp add: reads_bind_ret [OF assms [OF Some]])
  with Some show ?thesis by simp
qed

lemma accepts_dec_option_None:
  "accepts (f None) bs w \<Longrightarrow> accepts (dbind (dec_option g) f) (0 # bs) w"
  by (simp add: dec_option_def dbind_assoc accepts_bind_byte [OF reads_dec_u8])

lemma accepts_dec_option_Some:
  "accepts (dbind g (\<lambda>x. f (Some x))) bs w \<Longrightarrow> accepts (dbind (dec_option g) f) (1 # bs) w"
  by (simp add: dec_option_def dbind_assoc accepts_bind_byte [OF reads_dec_u8])

text \<open>
  The rules that take a decoder body apart against the bytes an encoder has produced, one per
  decoder method, for a field in the middle and for the last one.
\<close>

lemmas accepts_intros =
  accepts_check accepts_lift accepts_finish accepts_dret_eq
  accepts_bind_byte [OF reads_dec_u8] accepts_bind_byte [OF reads_dec_bool]
  accepts_bind_byte [OF reads_dec_bool [of True, simplified]]
  accepts_bind_byte [OF reads_dec_bool [of False, simplified]]
  accepts_bind [OF reads_dec_u16] accepts_bind_end [OF reads_dec_u16]
  accepts_bind [OF reads_dec_u32] accepts_bind_end [OF reads_dec_u32]
  accepts_bind [OF reads_dec_u64] accepts_bind_end [OF reads_dec_u64]
  accepts_bind [OF reads_dec_fixed] accepts_bind_end [OF reads_dec_fixed]
  accepts_dec_bytes accepts_bind_end [OF reads_dec_bytes]
  accepts_dec_string accepts_bind_end [OF reads_dec_string]
  accepts_dec_option_None accepts_dec_option_Some

lemma run_dec_accepts:
  assumes "accepts g bs v" and "vec_ok (version # bs)"
  shows "run_dec version (version # bs) g = Ok v"
proof -
  obtain d' where "g \<lparr>d_bytes = [version] @ bs, d_cursor = length [version]\<rparr> = Ok (v, d')"
    using assms(1) [unfolded accepts_def, rule_format, of "[version]"] assms(2) by auto
  moreover have "dec_u8 \<lparr>d_bytes = [] @ [version] @ bs, d_cursor = length []\<rparr>
      = Ok (version, \<lparr>d_bytes = [] @ [version] @ bs, d_cursor = length [] + length [version]\<rparr>)"
    using reads_dec_u8 [of version, unfolded reads_def, rule_format, of "[]" bs] assms(2) by simp
  ultimately show ?thesis
    by (simp add: run_dec_def dec_version_def)
qed

section \<open>What a decoder has consumed\<close>

definition consumed :: "decoder \<Rightarrow> bytes \<Rightarrow> decoder \<Rightarrow> bool" where
  "consumed d bs d' \<longleftrightarrow> d_bytes d' = d_bytes d \<and> d_cursor d' = d_cursor d + length bs \<and>
     d_cursor d' \<le> length (d_bytes d) \<and>
     take (length bs) (drop (d_cursor d) (d_bytes d)) = bs"

lemma consumed_trans [trans]:
  assumes "consumed d bs d'" and "consumed d' bs' d''"
  shows "consumed d (bs @ bs') d''"
proof -
  have "take (length bs + length bs') (drop (d_cursor d) (d_bytes d)) =
      take (length bs) (drop (d_cursor d) (d_bytes d)) @
      take (length bs') (drop (d_cursor d + length bs) (d_bytes d))"
    by (simp only: take_add drop_drop add.commute)
  also have "take (length bs) (drop (d_cursor d) (d_bytes d)) = bs"
    using assms(1) by (simp only: consumed_def)
  also have "take (length bs') (drop (d_cursor d + length bs) (d_bytes d)) = bs'"
    using assms by (simp only: consumed_def)
  finally show ?thesis
    using assms by (simp add: consumed_def)
qed

lemma consumed_dec_take [consumed_dests]:
  "dec_take n d = Ok (bs, d') \<Longrightarrow> consumed d bs d' \<and> length bs = n"
  by (auto simp: dec_take_def consumed_def split: if_splits)

lemma consumed_dec_u8 [consumed_dests]: "dec_u8 d = Ok (b, d') \<Longrightarrow> consumed d [b] d'"
proof -
  assume "dec_u8 d = Ok (b, d')"
  then obtain bs where bs: "consumed d bs d'" "length bs = 1" and b: "b = bs ! 0"
    by (auto simp: dec_u8_def dest: consumed_dests)
  from bs(2) have "bs = [bs ! 0]"
    by (cases bs) auto
  with bs(1) b show ?thesis by metis
qed

lemma consumed_dec_bool [consumed_dests]:
  "dec_bool d = Ok (b, d') \<Longrightarrow> consumed d [if b then 1 else 0] d'"
  by (auto simp: dec_bool_def dest: consumed_dests split: if_splits)

lemma consumed_of_be_bytes:
  fixes w :: "'a::len word"
  assumes "dec_take n d = Ok (bs, d')" and "w = of_be_bytes bs" and "LENGTH('a) = 8 * n"
  shows "consumed d (be_bytes n w) d'"
  using consumed_dec_take [OF assms(1)] be_of_be_bytes [where 'a = 'a, of bs] assms(2,3) by simp

lemma consumed_dec_u16 [consumed_dests]: "dec_u16 d = Ok (w, d') \<Longrightarrow> consumed d (be_bytes 2 w) d'"
  by (auto simp: dec_u16_def intro: consumed_of_be_bytes)

lemma consumed_dec_u32 [consumed_dests]: "dec_u32 d = Ok (w, d') \<Longrightarrow> consumed d (be_bytes 4 w) d'"
  by (auto simp: dec_u32_def intro: consumed_of_be_bytes)

lemma consumed_dec_u64 [consumed_dests]: "dec_u64 d = Ok (w, d') \<Longrightarrow> consumed d (be_bytes 8 w) d'"
  by (auto simp: dec_u64_def intro: consumed_of_be_bytes)

lemma consumed_dec_fixed:
  fixes w :: "'a::len word"
  shows "dec_fixed n d = Ok (w, d') \<Longrightarrow> LENGTH('a) = 8 * n \<Longrightarrow> consumed d (be_bytes n w) d'"
  by (auto simp: dec_fixed_def intro: consumed_of_be_bytes)

lemma consumed_dec_fixed16 [consumed_dests]:
  "dec_fixed 16 d = Ok (w :: id16, d') \<Longrightarrow> consumed d (be_bytes 16 w) d'"
  by (simp add: consumed_dec_fixed)

lemma consumed_dec_fixed24 [consumed_dests]:
  "dec_fixed 24 d = Ok (w :: arr24, d') \<Longrightarrow> consumed d (be_bytes 24 w) d'"
  by (simp add: consumed_dec_fixed)

lemma consumed_dec_fixed32 [consumed_dests]:
  "dec_fixed 32 d = Ok (w :: arr32, d') \<Longrightarrow> consumed d (be_bytes 32 w) d'"
  by (simp add: consumed_dec_fixed)

lemma u32_of_unat_le: "unat (len :: u32) \<le> u32_max"
  using unsigned_less [of len, where 'a = nat] by simp

lemma consumed_dec_bytes [consumed_dests]:
  assumes "dec_bytes maximum d = Ok (v, d')"
  shows "consumed d (be_bytes 4 (word_of_nat (length v) :: u32) @ v) d' \<and>
    length v \<le> maximum \<and> length v \<le> u32_max"
proof -
  obtain len d1 where len: "dec_u32 d = Ok (len, d1)" "\<not> unat len > maximum"
    and v: "dec_take (unat len) d1 = Ok (v, d')"
    using assms by (auto simp: dec_bytes_def split: if_splits)
  have "length v = unat len" "consumed d1 v d'"
    using consumed_dec_take [OF v] by auto
  with consumed_dec_u32 [OF len(1)] len(2) u32_of_unat_le [of len] show ?thesis
    by (auto intro: consumed_trans)
qed

lemma consumed_dec_string [consumed_dests]:
  assumes "dec_string maximum d = Ok (s, d')"
  shows "consumed d (be_bytes 4 (word_of_nat (length s) :: u32) @ str_bytes s) d' \<and>
    length s \<le> maximum \<and> length s \<le> u32_max \<and> str_ok s"
proof -
  obtain bs where bs: "dec_bytes maximum d = Ok (bs, d')" "utf8_valid bs" "s = bytes_str bs"
    using assms by (auto simp: dec_string_def split: if_splits)
  then show ?thesis
    using consumed_dec_bytes [OF bs(1)] by (auto simp: str_ok_def)
qed

lemma consumed_dec_repeat:
  assumes "\<And>d x d'. g d = Ok (x, d') \<Longrightarrow> consumed d (w x) d' \<and> P x"
    and "d_cursor d \<le> length (d_bytes d)"
    and "dec_repeat n g d = Ok (xs, d')"
  shows "consumed d (concat (map w xs)) d' \<and> length xs = n \<and> (\<forall>x\<in>set xs. P x)"
  using assms(2,3)
proof (induction n arbitrary: d xs)
  case 0
  then show ?case by (auto simp: consumed_def)
next
  case (Suc n)
  then obtain x d1 ys where x: "g d = Ok (x, d1)" and ys: "dec_repeat n g d1 = Ok (ys, d')"
    and xs: "xs = x # ys"
    by auto
  from assms(1) [OF x] have "d_cursor d1 \<le> length (d_bytes d1)"
    by (auto simp: consumed_def)
  from Suc.IH [OF this ys] assms(1) [OF x] xs show ?case
    by (auto intro: consumed_trans)
qed

text \<open>A decode that ran to the end has consumed the version byte and the rest of the input.\<close>

lemma run_dec_Ok:
  assumes "run_dec version bs g = Ok v"
  obtains d d' where "g d = Ok (v, d')" and "d_bytes d = bs" and "d_cursor d = 1"
    and "bs \<noteq> []" and "bs ! 0 = version"
proof -
  from assms obtain d d' where g: "g d = Ok (v, d')"
    and u8: "dec_u8 \<lparr>d_bytes = bs, d_cursor = 0\<rparr> = Ok (version, d)"
    by (auto simp: run_dec_def dec_version_def split: if_splits)
  from consumed_dec_u8 [OF u8] have "d_bytes d = bs" "d_cursor d = 1" "bs \<noteq> []" "bs ! 0 = version"
    by (cases bs; auto simp: consumed_def)+
  with g show thesis by (rule that)
qed

lemma consumed_all:
  assumes "consumed d ws d'" and "d_cursor d = 1" and "d_bytes d = bs" and "bs \<noteq> []"
    and "bs ! 0 = version" and "dec_finish d' = Ok (u, d'')"
  shows "bs = version # ws"
proof -
  have "drop 1 bs = ws"
    using assms by (auto simp: consumed_def dec_finish_def split: if_splits)
  moreover have "bs = bs ! 0 # drop 1 bs"
    using assms(4) by (cases bs) auto
  ultimately show ?thesis using assms(5) by simp
qed

lemma dec_finish_Ok: "dec_finish d = Ok (u, d') \<Longrightarrow> d' = d"
  by (auto simp: dec_finish_def split: if_splits)

text \<open>
  The same as forward rules: from the trace of what has been consumed since the start of the
  body and one successful method call, the longer trace. With \<open>trace_start\<close> and \<open>trace_dests\<close>
  the classical reasoner runs a whole \<open>decode\<close> and ends with the bytes it accepted.
\<close>

definition starts :: "u8 \<Rightarrow> bytes \<Rightarrow> decoder \<Rightarrow> bool" where
  "starts version bs d \<longleftrightarrow> d_bytes d = bs \<and> d_cursor d = 1 \<and> bs \<noteq> [] \<and> bs ! 0 = version"

lemma trace_start:
  assumes "run_dec version bs g = Ok v"
  obtains d d' where "g d = Ok (v, d')" and "starts version bs d" and "consumed d [] d"
  using assms
proof (rule run_dec_Ok)
  fix d d'
  assume "g d = Ok (v, d')" "d_bytes d = bs" "d_cursor d = 1" "bs \<noteq> []" "bs ! 0 = version"
  then show thesis
    by (intro that [of d d']) (auto simp: starts_def consumed_def Suc_le_eq)
qed

lemma trace_finish:
  "dec_finish d = Ok (u, d') \<Longrightarrow> consumed d0 ws d \<Longrightarrow> starts version bs d0 \<Longrightarrow>
     bs = version # ws \<and> d' = d"
  using consumed_all dec_finish_Ok unfolding starts_def by blast

lemma trace_u8: "dec_u8 d = Ok (b, d') \<Longrightarrow> consumed d0 ws d \<Longrightarrow> consumed d0 (ws @ [b]) d'"
  by (blast intro: consumed_trans consumed_dec_u8)

lemma trace_bool:
  "dec_bool d = Ok (b, d') \<Longrightarrow> consumed d0 ws d \<Longrightarrow> consumed d0 (ws @ [if b then 1 else 0]) d'"
  by (blast intro: consumed_trans consumed_dec_bool)

lemma trace_u16: "dec_u16 d = Ok (w, d') \<Longrightarrow> consumed d0 ws d \<Longrightarrow> consumed d0 (ws @ be_bytes 2 w) d'"
  by (blast intro: consumed_trans consumed_dec_u16)

lemma trace_u32: "dec_u32 d = Ok (w, d') \<Longrightarrow> consumed d0 ws d \<Longrightarrow> consumed d0 (ws @ be_bytes 4 w) d'"
  by (blast intro: consumed_trans consumed_dec_u32)

lemma trace_u64: "dec_u64 d = Ok (w, d') \<Longrightarrow> consumed d0 ws d \<Longrightarrow> consumed d0 (ws @ be_bytes 8 w) d'"
  by (blast intro: consumed_trans consumed_dec_u64)

lemma trace_fixed16:
  "dec_fixed 16 d = Ok (w :: id16, d') \<Longrightarrow> consumed d0 ws d \<Longrightarrow> consumed d0 (ws @ be_bytes 16 w) d'"
  by (blast intro: consumed_trans consumed_dec_fixed16)

lemma trace_fixed24:
  "dec_fixed 24 d = Ok (w :: arr24, d') \<Longrightarrow> consumed d0 ws d \<Longrightarrow> consumed d0 (ws @ be_bytes 24 w) d'"
  by (blast intro: consumed_trans consumed_dec_fixed24)

lemma trace_fixed32:
  "dec_fixed 32 d = Ok (w :: arr32, d') \<Longrightarrow> consumed d0 ws d \<Longrightarrow> consumed d0 (ws @ be_bytes 32 w) d'"
  by (blast intro: consumed_trans consumed_dec_fixed32)

lemma trace_bytes:
  "dec_bytes maximum d = Ok (v, d') \<Longrightarrow> consumed d0 ws d \<Longrightarrow>
     consumed d0 (ws @ be_bytes 4 (word_of_nat (length v) :: u32) @ v) d'
     \<and> length v \<le> maximum \<and> length v \<le> u32_max"
  by (blast intro: consumed_trans dest: consumed_dec_bytes)

lemma trace_string:
  "dec_string maximum d = Ok (s, d') \<Longrightarrow> consumed d0 ws d \<Longrightarrow>
     consumed d0 (ws @ be_bytes 4 (word_of_nat (length s) :: u32) @ str_bytes s) d'
     \<and> length s \<le> maximum \<and> length s \<le> u32_max \<and> str_ok s"
  by (blast intro: consumed_trans dest: consumed_dec_string)

lemma trace_option:
  assumes "dec_option g d = Ok (v, d')" and "consumed d0 ws d"
    and "\<And>d x d' ws. g d = Ok (x, d') \<Longrightarrow> consumed d0 ws d \<Longrightarrow> consumed d0 (ws @ w x) d' \<and> P x"
  shows "consumed d0 (ws @ option_wire w v) d' \<and> pred_option P v"
  using assms(1,2)
  by (auto simp: dec_option_def split: if_splits dest!: trace_u8 assms(3))

lemmas trace_dests =
  trace_u8 trace_bool trace_u16 trace_u32 trace_u64
  trace_fixed16 trace_fixed24 trace_fixed32 trace_bytes trace_string

section \<open>The contract of a wire field\<close>

locale wire_field =
  fixes put :: "'a \<Rightarrow> bytes \<Rightarrow> (bytes, codec_error) result"
    and get :: "'a dec"
    and ok :: "'a \<Rightarrow> bool"
  assumes put_reads: "ok v \<Longrightarrow> put v out = Ok out' \<Longrightarrow> \<exists>bs. out' = out @ bs \<and> reads get bs v"
    and get_consumed: "get d = Ok (v, d') \<Longrightarrow>
      ok v \<and> (\<exists>bs. consumed d bs d' \<and> (\<forall>out. put v out = Ok (out @ bs)))"
begin

lemma put_get:
  assumes "ok v" and "put v [] = Ok bs" and "vec_ok (bs @ post)"
  shows "get \<lparr>d_bytes = bs @ post, d_cursor = 0\<rparr> = Ok (v, \<lparr>d_bytes = bs @ post, d_cursor = length bs\<rparr>)"
proof -
  from put_reads [OF assms(1,2)] have "reads get bs v"
    by simp
  then show ?thesis
    using assms(3) unfolding reads_def by (metis append_Nil add_0 list.size(3))
qed

text \<open>A field is self-delimiting: what follows it cannot change what is read.\<close>

lemma put_prefix_free:
  assumes "ok v" "ok w" "put v [] = Ok bs" "put w [] = Ok cs" "vec_ok (bs @ xs)"
    and "bs @ xs = cs @ ys"
  shows "v = w \<and> xs = ys"
  using put_get [OF assms(1,3,5)] put_get [OF assms(2,4), of ys] assms(5,6)
  by (auto simp: append_eq_append_conv)

end

interpretation u8_field: wire_field "\<lambda>v out. Ok (enc_u8 v out)" dec_u8 "\<lambda>_. True"
  by unfold_locales (auto simp: codec_simps intro: reads_intros dest: consumed_dests)

interpretation bool_field: wire_field "\<lambda>v out. Ok (enc_bool v out)" dec_bool "\<lambda>_. True"
  by unfold_locales
    (use reads_dec_bool in \<open>auto simp: codec_simps dest!: consumed_dests split: if_splits\<close>)

interpretation u16_field: wire_field "\<lambda>v out. Ok (enc_u16 v out)" dec_u16 "\<lambda>_. True"
  by unfold_locales (auto simp: codec_simps intro: reads_intros dest: consumed_dests)

interpretation u32_field: wire_field "\<lambda>v out. Ok (enc_u32 v out)" dec_u32 "\<lambda>_. True"
  by unfold_locales (auto simp: codec_simps intro: reads_intros dest: consumed_dests)

interpretation u64_field: wire_field "\<lambda>v out. Ok (enc_u64 v out)" dec_u64 "\<lambda>_. True"
  by unfold_locales (auto simp: codec_simps intro: reads_intros dest: consumed_dests)

interpretation bytes_field: wire_field "\<lambda>v. enc_bytes v maximum" "dec_bytes maximum" "\<lambda>_. True"
  for maximum
  by unfold_locales
    (auto simp: codec_simps not_less intro: reads_intros dest!: consumed_dests split: if_splits)

interpretation string_field: wire_field "\<lambda>v. enc_string v maximum" "dec_string maximum" str_ok
  for maximum
  by unfold_locales
    (auto simp: codec_simps not_less intro: reads_intros dest!: consumed_dests split: if_splits)

section \<open>The contract of the trait Canonical\<close>

locale canonical =
  fixes enc :: "'a \<Rightarrow> (bytes, codec_error) result"
    and dec :: "bytes \<Rightarrow> ('a, codec_error) result"
    and ok :: "'a \<Rightarrow> bool"
  assumes enc_dec: "ok v \<Longrightarrow> enc v = Ok bs \<Longrightarrow> vec_ok bs \<Longrightarrow> dec bs = Ok v"
begin

lemma enc_inject: "ok v \<Longrightarrow> ok w \<Longrightarrow> enc v = Ok bs \<Longrightarrow> enc w = Ok bs \<Longrightarrow> vec_ok bs \<Longrightarrow> v = w"
  using enc_dec [of v bs] enc_dec [of w bs] by simp

end

locale strict_canonical = canonical +
  assumes dec_enc: "dec bs = Ok v \<Longrightarrow> ok v \<and> enc v = Ok bs"
begin

lemma dec_iff: "vec_ok bs \<Longrightarrow> dec bs = Ok v \<longleftrightarrow> ok v \<and> enc v = Ok bs"
  using dec_enc enc_dec by blast

lemma dec_unique: "dec bs = Ok v \<Longrightarrow> dec cs = Ok v \<Longrightarrow> bs = cs"
  by (metis dec_enc result.inject(1))

end

end
