(* ===== verification/Integrity.thy ===== *)
theory Integrity
  imports Codec
begin

unbundle bit_operations_syntax

text \<open>
  Authenticated clear records (\<open>src/store/integrity.rs\<close> and \<open>Sealed\<close> of \<open>src/store/mod.rs\<close>):
  the record classes, the keyed tag over the framed fields of a record, \<open>Sealed<T>\<close> with its
  encoding, the re-keying of a sealed blob, and the latch of the integrity monitor.

  BLAKE3 is not part of the repository: the keyed hash is the argument \<open>keyed\<close> of every
  definition that calls it, a function from a 32-byte key and the concatenation of all updates
  to a 32-byte digest. No theorem assumes that it has no collisions; where a binding property
  needs it, the hypothesis speaks of the two messages at hand only.
\<close>

type_synonym keyed_hash = "arr32 \<Rightarrow> bytes \<Rightarrow> arr32"

section \<open>Record classes\<close>

datatype record_class =
    ProvisionalMeta | SchemaMetadata | ClockHighWater | KeyringMetadata | PendingAnchor
  | SecretMetadata | Identity | Grant | CredentialMetadata | RotationState
  | ConsumerDeclaration | MaintenanceMarker | RewriteJob | RecoveryReserveMetadata
  | CheckpointTrustMetadata

definition record_class_all :: "record_class list" where
  "record_class_all = [ProvisionalMeta, SchemaMetadata, ClockHighWater, KeyringMetadata,
     PendingAnchor, SecretMetadata, Identity, Grant, CredentialMetadata, RotationState,
     ConsumerDeclaration, MaintenanceMarker, RewriteJob, RecoveryReserveMetadata,
     CheckpointTrustMetadata]"

primrec class_code :: "record_class \<Rightarrow> u16" where
  "class_code ProvisionalMeta = 1"
| "class_code SchemaMetadata = 2"
| "class_code ClockHighWater = 3"
| "class_code KeyringMetadata = 4"
| "class_code PendingAnchor = 5"
| "class_code SecretMetadata = 6"
| "class_code Identity = 7"
| "class_code Grant = 8"
| "class_code CredentialMetadata = 9"
| "class_code RotationState = 10"
| "class_code ConsumerDeclaration = 11"
| "class_code MaintenanceMarker = 12"
| "class_code RewriteJob = 13"
| "class_code RecoveryReserveMetadata = 14"
| "class_code CheckpointTrustMetadata = 15"

primrec table_code :: "record_class \<Rightarrow> u16" where
  "table_code ProvisionalMeta = 1"
| "table_code SchemaMetadata = 1"
| "table_code ClockHighWater = 1"
| "table_code KeyringMetadata = 1"
| "table_code PendingAnchor = 1"
| "table_code SecretMetadata = 2"
| "table_code Identity = 3"
| "table_code Grant = 4"
| "table_code CredentialMetadata = 5"
| "table_code RotationState = 6"
| "table_code ConsumerDeclaration = 7"
| "table_code MaintenanceMarker = 8"
| "table_code RewriteJob = 9"
| "table_code RecoveryReserveMetadata = 10"
| "table_code CheckpointTrustMetadata = 11"

primrec class_table :: "record_class \<Rightarrow> string" where
  "class_table ProvisionalMeta = ''meta''"
| "class_table SchemaMetadata = ''meta''"
| "class_table ClockHighWater = ''meta''"
| "class_table KeyringMetadata = ''meta''"
| "class_table PendingAnchor = ''meta''"
| "class_table SecretMetadata = ''secret_meta''"
| "class_table Identity = ''identities''"
| "class_table Grant = ''grants''"
| "class_table CredentialMetadata = ''credentials''"
| "class_table RotationState = ''rotations''"
| "class_table ConsumerDeclaration = ''consumers''"
| "class_table MaintenanceMarker = ''maintenance_marker''"
| "class_table RewriteJob = ''rewrite_jobs''"
| "class_table RecoveryReserveMetadata = ''recovery_reserve''"
| "class_table CheckpointTrustMetadata = ''checkpoint_trust''"

primrec class_domain :: "record_class \<Rightarrow> string" where
  "class_domain ProvisionalMeta = ''provisional-meta.v1''"
| "class_domain SchemaMetadata = ''schema-metadata.v1''"
| "class_domain ClockHighWater = ''clock-high-water.v1''"
| "class_domain KeyringMetadata = ''keyring-metadata.v1''"
| "class_domain PendingAnchor = ''pending-anchor.v1''"
| "class_domain SecretMetadata = ''secret-metadata.v1''"
| "class_domain Identity = ''identity.v1''"
| "class_domain Grant = ''grant.v1''"
| "class_domain CredentialMetadata = ''credential-metadata.v1''"
| "class_domain RotationState = ''rotation-state.v1''"
| "class_domain ConsumerDeclaration = ''consumer-declaration.v1''"
| "class_domain MaintenanceMarker = ''maintenance-marker.v1''"
| "class_domain RewriteJob = ''rewrite-job.v1''"
| "class_domain RecoveryReserveMetadata = ''recovery-reserve-metadata.v1''"
| "class_domain CheckpointTrustMetadata = ''checkpoint-trust-metadata.v1''"

definition class_from_code :: "u16 \<Rightarrow> (record_class, codec_error) result" where
  "class_from_code code =
     ok_or Invalid (find (\<lambda>class. class_code class = code) record_class_all)"

lemma class_code_inject [simp]: "class_code c = class_code c' \<longleftrightarrow> c = c'"
  by (cases c; cases c') simp_all

lemma class_from_code_Ok: "class_from_code code = Ok c \<longleftrightarrow> code = class_code c"
proof
  assume "class_from_code code = Ok c"
  then show "code = class_code c"
    by (auto simp: class_from_code_def find_Some_iff)
next
  assume "code = class_code c"
  then show "class_from_code code = Ok c"
    by (cases c) (simp_all add: class_from_code_def record_class_all_def)
qed

section \<open>The tag of a clear record\<close>

abbreviation (input) MAC_FORMAT_VERSION :: u16 where
  "MAC_FORMAT_VERSION \<equiv> 1"

abbreviation (input) MAX_STATE_KEY :: nat where
  "MAX_STATE_KEY \<equiv> 4096"

abbreviation (input) MAX_CIPHERTEXT :: nat where
  "MAX_CIPHERTEXT \<equiv> 8388608"

definition mac_domain :: bytes where
  "mac_domain = str_bytes ''ops-light-secrets-server.clear-record-mac.v1'' @ [0]"

text \<open>One round of the loop over the fields: the length as a \<open>u64\<close>, then the field.\<close>

definition frame :: "bytes \<Rightarrow> bytes" where
  "frame field = be_bytes 8 (word_of_nat (length field) :: u64) @ field"

definition mac_input :: "record_class \<Rightarrow> u16 \<Rightarrow> id16 \<Rightarrow> bytes \<Rightarrow> u64 \<Rightarrow> bytes \<Rightarrow> bytes" where
  "mac_input class schema_version store_id primary_key generation value =
     mac_domain @ concat (map frame
       [be_bytes 2 MAC_FORMAT_VERSION, be_bytes 2 (table_code class), be_bytes 2 (class_code class),
        str_bytes (class_domain class), be_bytes 2 schema_version, be_bytes 16 store_id,
        primary_key, be_bytes 8 generation, value])"

definition record_mac ::
  "keyed_hash \<Rightarrow> arr32 \<Rightarrow> record_class \<Rightarrow> u16 \<Rightarrow> id16 \<Rightarrow> bytes \<Rightarrow> u64 \<Rightarrow> bytes \<Rightarrow>
     (arr32, codec_error) result" where
  "record_mac keyed key class schema_version store_id primary_key generation value =
     (if primary_key = [] \<or> length primary_key > MAX_STATE_KEY then Err Limit
      else Ok (keyed key (mac_input class schema_version store_id primary_key generation value)))"

record mac_verification =
  mv_valid :: bool
  mv_comparison_work_bytes :: nat

definition compare_tag :: "arr32 \<Rightarrow> arr32 \<Rightarrow> mac_verification" where
  "compare_tag left right =
     (let difference = foldl (\<lambda>difference (l, r). difference OR (l XOR r)) (0 :: u8)
            (zip (be_bytes 32 left) (be_bytes 32 right))
      in \<lparr>mv_valid = (difference = 0), mv_comparison_work_bytes = 32\<rparr>)"

lemma u8_or_eq_0: "(a :: u8) OR b = 0 \<longleftrightarrow> a = 0 \<and> b = 0"
  by (simp add: or_eq_0_iff)

lemma u8_xor_eq_0: "(a :: u8) XOR b = 0 \<longleftrightarrow> a = b"
  by (auto simp: bit_eq_iff bit_xor_iff)

lemma fold_difference:
  "length ls = length rs \<Longrightarrow>
   foldl (\<lambda>difference (l, r). difference OR (l XOR r)) (a :: u8) (zip ls rs) = 0 \<longleftrightarrow>
     a = 0 \<and> ls = rs"
proof (induction ls rs arbitrary: a rule: list_induct2)
  case (Cons l ls r rs)
  have "a OR (l XOR r) = 0 \<longleftrightarrow> a = 0 \<and> l = r"
    by (auto simp: u8_or_eq_0 u8_xor_eq_0)
  with Cons show ?case by auto
qed simp

lemma compare_tag_valid [simp]: "mv_valid (compare_tag left right) \<longleftrightarrow> left = right"
  by (simp add: compare_tag_def Let_def fold_difference be_bytes_inject)

lemma frame_append_inject:
  assumes "length f \<le> usize_max" and "length g \<le> usize_max"
    and "frame f @ xs = frame g @ ys"
  shows "f = g \<and> xs = ys"
proof -
  have "word_of_nat (length f) = (word_of_nat (length g) :: u64)" and "f @ xs = g @ ys"
    using assms(3) by (auto simp: frame_def append_eq_append_conv be_bytes_inject)
  moreover from this(1) have "length f = length g"
    using assms(1,2) by (simp add: word_of_nat_eq_iff take_bit_nat_eq_self)
  ultimately show ?thesis by (simp add: append_eq_append_conv)
qed

lemma frames_inject:
  assumes "length fs = length gs" and "\<forall>f\<in>set fs. vec_ok f" and "\<forall>g\<in>set gs. vec_ok g"
    and "concat (map frame fs) = concat (map frame gs)"
  shows "fs = gs"
  using assms
  by (induction fs gs rule: list_induct2) (auto simp: vec_ok_def dest: frame_append_inject)

text \<open>The framing is injective: the message a tag is computed over determines every field.\<close>

lemma mac_input_inject:
  assumes "vec_ok pk" "vec_ok pk'" "vec_ok v" "vec_ok v'"
    and "mac_input c sv st pk g v = mac_input c' sv' st' pk' g' v'"
  shows "c = c' \<and> sv = sv' \<and> st = st' \<and> pk = pk' \<and> g = g' \<and> v = v'"
proof -
  have dom: "vec_ok (str_bytes (class_domain x))" for x
    by (cases x) (simp_all add: vec_ok_def)
  have "[be_bytes 2 MAC_FORMAT_VERSION, be_bytes 2 (table_code c), be_bytes 2 (class_code c),
        str_bytes (class_domain c), be_bytes 2 sv, be_bytes 16 st, pk, be_bytes 8 g, v] =
      [be_bytes 2 MAC_FORMAT_VERSION, be_bytes 2 (table_code c'), be_bytes 2 (class_code c'),
        str_bytes (class_domain c'), be_bytes 2 sv', be_bytes 16 st', pk', be_bytes 8 g', v']"
    by (rule frames_inject) (use assms dom in \<open>auto simp: mac_input_def vec_ok_def\<close>)
  then show ?thesis
    by (simp add: be_bytes_inject)
qed

section \<open>Sealed records\<close>

record 'a sealed =
  s_generation :: u64
  s_value :: 'a
  s_class :: record_class
  s_schema_version :: u16
  s_mac_format_version :: u16
  s_mac :: arr32

text \<open>
  \<open>Sealed<T>\<close> is generic over a clear record \<open>T\<close>: \<open>enc\<close> and \<open>dec\<close> are its \<open>Canonical\<close> methods,
  \<open>class\<close> and \<open>schema\<close> its constants \<open>CLASS\<close> and \<open>SCHEMA_VERSION\<close>.
\<close>

definition seal ::
  "keyed_hash \<Rightarrow> ('a \<Rightarrow> (bytes, codec_error) result) \<Rightarrow> record_class \<Rightarrow> u16 \<Rightarrow>
     'a \<Rightarrow> u64 \<Rightarrow> arr32 \<Rightarrow> id16 \<Rightarrow> bytes \<Rightarrow> ('a sealed, codec_error) result" where
  "seal keyed enc class schema value generation key store_id primary_key =
     rbind (enc value) (\<lambda>encoded.
     rbind (record_mac keyed key class schema store_id primary_key generation encoded) (\<lambda>mac.
       Ok \<lparr>s_generation = generation, s_value = value, s_class = class, s_schema_version = schema,
           s_mac_format_version = MAC_FORMAT_VERSION, s_mac = mac\<rparr>))"

definition verify_with_work ::
  "keyed_hash \<Rightarrow> ('a \<Rightarrow> (bytes, codec_error) result) \<Rightarrow> record_class \<Rightarrow> u16 \<Rightarrow>
     'a sealed \<Rightarrow> arr32 \<Rightarrow> id16 \<Rightarrow> bytes \<Rightarrow> (mac_verification, codec_error) result" where
  "verify_with_work keyed enc class schema s key store_id primary_key =
     (if s_mac_format_version s \<noteq> MAC_FORMAT_VERSION \<or> s_class s \<noteq> class
         \<or> s_schema_version s \<noteq> schema
      then Err Invalid
      else rbind (enc (s_value s)) (\<lambda>encoded.
           rbind (record_mac keyed key (s_class s) (s_schema_version s) store_id primary_key
                    (s_generation s) encoded) (\<lambda>expected.
             Ok (compare_tag (s_mac s) expected))))"

definition verify ::
  "keyed_hash \<Rightarrow> ('a \<Rightarrow> (bytes, codec_error) result) \<Rightarrow> record_class \<Rightarrow> u16 \<Rightarrow>
     'a sealed \<Rightarrow> arr32 \<Rightarrow> id16 \<Rightarrow> bytes \<Rightarrow> (unit, codec_error) result" where
  "verify keyed enc class schema s key store_id primary_key =
     rbind (verify_with_work keyed enc class schema s key store_id primary_key) (\<lambda>verification.
       require (mv_valid verification) Invalid)"

definition sealed_encode ::
  "('a \<Rightarrow> (bytes, codec_error) result) \<Rightarrow> 'a sealed \<Rightarrow> (bytes, codec_error) result" where
  "sealed_encode enc s =
     rbind (enc (s_value s)) (\<lambda>value.
       let out = enc_version 1;
           out = enc_u16 (s_mac_format_version s) out;
           out = enc_u16 (class_code (s_class s)) out;
           out = enc_u16 (s_schema_version s) out;
           out = enc_u64 (s_generation s) out
       in rbind (enc_bytes value MAX_CIPHERTEXT out) (\<lambda>out.
            Ok (enc_finish (enc_fixed (be_bytes 32 (s_mac s)) out))))"

definition sealed_decode ::
  "(bytes \<Rightarrow> ('a, codec_error) result) \<Rightarrow> record_class \<Rightarrow> u16 \<Rightarrow> bytes \<Rightarrow>
     ('a sealed, codec_error) result" where
  "sealed_decode dec class schema bs = run_dec 1 bs (
     dbind dec_u16 (\<lambda>mac_format_version.
     dbind (dcheck (mac_format_version = MAC_FORMAT_VERSION) UnknownVersion) (\<lambda>_.
     dbind dec_u16 (\<lambda>code.
     dbind (dlift (class_from_code code)) (\<lambda>cls.
     dbind dec_u16 (\<lambda>schema_version.
     dbind (dcheck (cls = class \<and> schema_version = schema) Invalid) (\<lambda>_.
     dbind dec_u64 (\<lambda>generation.
     dbind (dec_bytes MAX_CIPHERTEXT) (\<lambda>encoded.
     dbind (dlift (dec encoded)) (\<lambda>value.
     dbind (dec_fixed 32) (\<lambda>mac.
     dbind dec_finish (\<lambda>_.
       dret \<lparr>s_generation = generation, s_value = value, s_class = cls,
             s_schema_version = schema_version, s_mac_format_version = mac_format_version,
             s_mac = mac\<rparr>))))))))))))"

definition reseal_clear_blob ::
  "keyed_hash \<Rightarrow> bytes \<Rightarrow> arr32 \<Rightarrow> arr32 \<Rightarrow> id16 \<Rightarrow> bytes \<Rightarrow> (bytes option, codec_error) result" where
  "reseal_clear_blob keyed bs old_key new_key store_id primary_key =
     (if bs = [] \<or> bs ! 0 \<noteq> 1 then Ok None
      else rbind (dec_version bs 1) (\<lambda>d.
        rbind (dec_u16 d) (\<lambda>(mac_format_version, d).
        if mac_format_version \<noteq> MAC_FORMAT_VERSION then Ok None
        else rbind (dec_u16 d) (\<lambda>(code, d).
          (case class_from_code code of
             Err _ \<Rightarrow> Ok None
           | Ok class \<Rightarrow>
               rbind (dec_u16 d) (\<lambda>(schema_version, d).
               rbind (dec_u64 d) (\<lambda>(generation, d).
               rbind (dec_bytes MAX_CIPHERTEXT d) (\<lambda>(value, d).
               rbind (dec_fixed 32 d) (\<lambda>(mac, d).
                 (case dec_finish d of
                    Err _ \<Rightarrow> Ok None
                  | Ok _ \<Rightarrow>
                      rbind (record_mac keyed old_key class schema_version store_id primary_key
                               generation value) (\<lambda>expected.
                      if \<not> mv_valid (compare_tag mac expected) then Err Invalid
                      else rbind (record_mac keyed new_key class schema_version store_id
                               primary_key generation value) (\<lambda>replacement.
                        let out = enc_version 1;
                            out = enc_u16 mac_format_version out;
                            out = enc_u16 (class_code class) out;
                            out = enc_u16 schema_version out;
                            out = enc_u64 generation out
                        in rbind (enc_bytes value MAX_CIPHERTEXT out) (\<lambda>out.
                             Ok (Some (enc_finish (enc_fixed (be_bytes 32 replacement) out))))))))))))))))"

text \<open>
  The private fields of a \<open>Sealed\<close> are only ever set by \<open>seal\<close> and \<open>decode\<close>, so that they always
  hold the constants of the record type.
\<close>

definition sealed_ok :: "('a \<Rightarrow> bool) \<Rightarrow> record_class \<Rightarrow> u16 \<Rightarrow> 'a sealed \<Rightarrow> bool" where
  "sealed_ok ok cls schema s \<longleftrightarrow> ok (s_value s) \<and> s_class s = cls \<and> s_schema_version s = schema
     \<and> s_mac_format_version s = MAC_FORMAT_VERSION"

text \<open>
  What \<open>Sealed<T>\<close> relies on of \<open>T\<close>: a canonical codec and the two constants. The lemmas hold
  for every clear record the locale is interpreted for.
\<close>

locale clear_record = canonical enc dec ok
  for enc :: "'a \<Rightarrow> (bytes, codec_error) result"
    and dec :: "bytes \<Rightarrow> ('a, codec_error) result"
    and ok :: "'a \<Rightarrow> bool" +
  fixes cls :: record_class and schema :: u16
begin

lemma seal_verify:
  assumes "seal keyed enc cls schema v g k st pk = Ok s"
  shows "verify keyed enc cls schema s k st pk = Ok ()"
  using assms by (auto simp: seal_def verify_def verify_with_work_def)

lemma seal_fields:
  assumes "seal keyed enc cls schema v g k st pk = Ok s"
  shows "s_value s = v \<and> s_generation s = g \<and> s_class s = cls \<and> s_schema_version s = schema
    \<and> s_mac_format_version s = MAC_FORMAT_VERSION"
  using assms by (auto simp: seal_def)

lemma verify_Ok:
  "verify keyed enc cls schema s k st pk = Ok () \<longleftrightarrow>
     s_mac_format_version s = MAC_FORMAT_VERSION \<and> s_class s = cls \<and> s_schema_version s = schema
     \<and> pk \<noteq> [] \<and> length pk \<le> MAX_STATE_KEY
     \<and> (\<exists>encoded. enc (s_value s) = Ok encoded
          \<and> s_mac s = keyed k (mac_input cls schema st pk (s_generation s) encoded))"
  by (auto simp: verify_def verify_with_work_def record_mac_def not_less split: if_splits)

lemma sealed_round_trip:
  assumes "sealed_ok ok cls schema s" and "sealed_encode enc s = Ok bs" and "vec_ok bs"
  shows "sealed_decode dec cls schema bs = Ok s"
proof -
  have "dec vb = Ok (s_value s)" if "enc (s_value s) = Ok vb" and "length vb \<le> MAX_CIPHERTEXT" for vb
    using enc_dec [OF _ that(1)] assms(1) that(2) by (simp add: vec_ok_def sealed_ok_def)
  with assms show ?thesis
    by (cases s) (auto simp: sealed_encode_def sealed_decode_def codec_simps class_from_code_Ok
        sealed_ok_def split: if_splits intro!: run_dec_accepts accepts_intros)
qed

lemma seal_sealed_ok:
  "ok v \<Longrightarrow> seal keyed enc cls schema v g k st pk = Ok s \<Longrightarrow> sealed_ok ok cls schema s"
  by (auto simp: seal_def sealed_ok_def)

end

sublocale clear_record \<subseteq> sealed: canonical "sealed_encode enc" "sealed_decode dec cls schema"
  "sealed_ok ok cls schema"
  by unfold_locales (rule sealed_round_trip)

locale strict_clear_record = clear_record enc dec ok cls schema + strict_canonical enc dec ok
  for enc :: "'a \<Rightarrow> (bytes, codec_error) result"
    and dec :: "bytes \<Rightarrow> ('a, codec_error) result"
    and ok :: "'a \<Rightarrow> bool"
    and cls :: record_class and schema :: u16
begin

lemma sealed_strict:
  assumes "sealed_decode dec cls schema bs = Ok s"
  shows "sealed_ok ok cls schema s \<and> sealed_encode enc s = Ok bs"
  by (insert assms, unfold sealed_decode_def, elim trace_start, clarsimp simp: class_from_code_Ok,
      (drule dec_enc | drule (1) trace_dests | drule (2) trace_finish | erule conjE)+,
      auto simp: sealed_ok_def sealed_encode_def codec_simps)

end

sublocale strict_clear_record \<subseteq> sealed_strict: strict_canonical "sealed_encode enc"
  "sealed_decode dec cls schema" "sealed_ok ok cls schema"
  by unfold_locales (rule sealed_strict)

section \<open>Re-keying a sealed record\<close>

lemma reads_at:
  assumes "reads g bs v" and "vec_ok (pre @ bs @ post)" and "d = \<lparr>d_bytes = pre @ bs @ post, d_cursor = length pre\<rparr>"
  shows "g d = Ok (v, \<lparr>d_bytes = (pre @ bs) @ post, d_cursor = length (pre @ bs)\<rparr>)"
  using assms by (simp add: reads_def)

text \<open>The fields of a sealed record, as \<open>reseal_clear_blob\<close> reads them back.\<close>

lemma sealed_blob_steps:
  fixes mac :: arr32
  assumes bs: "bs = 1 # be_bytes 2 MAC_FORMAT_VERSION @ be_bytes 2 (class_code c) @ be_bytes 2 sv @ be_bytes 8 g
      @ be_bytes 4 (word_of_nat (length v) :: u32) @ v @ be_bytes 32 mac"
    and len: "length v \<le> MAX_CIPHERTEXT"
  obtains e0 e1 e2 e3 e4 e5 e6 e7 where "dec_version bs 1 = Ok e0" "dec_u16 e0 = Ok (MAC_FORMAT_VERSION, e1)"
    "dec_u16 e1 = Ok (class_code c, e2)" "dec_u16 e2 = Ok (sv, e3)" "dec_u64 e3 = Ok (g, e4)"
    "dec_bytes MAX_CIPHERTEXT e4 = Ok (v, e5)" "dec_fixed 32 e5 = Ok (mac, e6)" "dec_finish e6 = Ok ((), e7)"
proof -
  let ?f = "be_bytes 2 (MAC_FORMAT_VERSION :: u16)" and ?c = "be_bytes 2 (class_code c)"
  let ?v = "be_bytes 4 (word_of_nat (length v) :: u32) @ v"
  let ?pre = "\<lambda>fs. \<lparr>d_bytes = [1] @ ?f @ ?c @ be_bytes 2 sv @ be_bytes 8 g @ ?v @ be_bytes 32 mac,
      d_cursor = length ([1 :: u8] @ concat fs)\<rparr>"
  have ok: "vec_ok bs"
    using len by (simp add: bs vec_ok_def)
  have bs': "bs = [1] @ ?f @ ?c @ be_bytes 2 sv @ be_bytes 8 g @ ?v @ be_bytes 32 mac"
    by (simp add: bs)
  note ok' = ok [unfolded bs']
  have d0: "dec_version bs 1 = Ok (?pre [])"
    using reads_at [OF reads_dec_u8 [of 1], of "[]" "?f @ ?c @ be_bytes 2 sv @ be_bytes 8 g @ ?v @ be_bytes 32 mac"]
      ok' by (simp add: dec_version_def bs')
  have d1: "dec_u16 (?pre []) = Ok (MAC_FORMAT_VERSION, ?pre [?f])"
    using reads_at [OF reads_dec_u16, of "[1]" 1 "?c @ be_bytes 2 sv @ be_bytes 8 g @ ?v @ be_bytes 32 mac"] ok'
    by simp
  have d2: "dec_u16 (?pre [?f]) = Ok (class_code c, ?pre [?f, ?c])"
    using reads_at [OF reads_dec_u16, of "[1] @ ?f" "class_code c" "be_bytes 2 sv @ be_bytes 8 g @ ?v @ be_bytes 32 mac"] ok'
    by simp
  have d3: "dec_u16 (?pre [?f, ?c]) = Ok (sv, ?pre [?f, ?c, be_bytes 2 sv])"
    using reads_at [OF reads_dec_u16, of "[1] @ ?f @ ?c" sv "be_bytes 8 g @ ?v @ be_bytes 32 mac"] ok'
    by simp
  have d4: "dec_u64 (?pre [?f, ?c, be_bytes 2 sv]) = Ok (g, ?pre [?f, ?c, be_bytes 2 sv, be_bytes 8 g])"
    using reads_at [OF reads_dec_u64, of "[1] @ ?f @ ?c @ be_bytes 2 sv" g "?v @ be_bytes 32 mac"] ok'
    by simp
  have d5: "dec_bytes MAX_CIPHERTEXT (?pre [?f, ?c, be_bytes 2 sv, be_bytes 8 g])
      = Ok (v, ?pre [?f, ?c, be_bytes 2 sv, be_bytes 8 g, ?v])"
    using reads_at [OF reads_dec_bytes [of v MAX_CIPHERTEXT], of "[1] @ ?f @ ?c @ be_bytes 2 sv @ be_bytes 8 g"
        "be_bytes 32 mac"] ok' len
    by simp
  have d6: "dec_fixed 32 (?pre [?f, ?c, be_bytes 2 sv, be_bytes 8 g, ?v])
      = Ok (mac, ?pre [?f, ?c, be_bytes 2 sv, be_bytes 8 g, ?v, be_bytes 32 mac])"
    using reads_at [OF reads_dec_fixed [of 32 mac], of "[1] @ ?f @ ?c @ be_bytes 2 sv @ be_bytes 8 g @ ?v" "[]"] ok'
    by simp
  have "is_ok (dec_finish (?pre [?f, ?c, be_bytes 2 sv, be_bytes 8 g, ?v, be_bytes 32 mac]))"
    by (simp add: dec_finish_def)
  then obtain e7 where d7: "dec_finish (?pre [?f, ?c, be_bytes 2 sv, be_bytes 8 g, ?v, be_bytes 32 mac]) = Ok ((), e7)"
    by (auto simp: is_ok_iff)
  show thesis
    by (rule that [OF d0 d1 d2 d3 d4 d5 d6 d7])
qed

lemma reseal_clear_blob_eq:
  fixes mac :: arr32
  assumes bs: "bs = 1 # be_bytes 2 MAC_FORMAT_VERSION @ be_bytes 2 (class_code c) @ be_bytes 2 sv @ be_bytes 8 g
      @ be_bytes 4 (word_of_nat (length v) :: u32) @ v @ be_bytes 32 mac"
    and len: "length v \<le> MAX_CIPHERTEXT" and pk: "pk \<noteq> []" "length pk \<le> MAX_STATE_KEY"
  shows "reseal_clear_blob keyed bs old new st pk =
    (if mac = keyed old (mac_input c sv st pk g v)
     then Ok (Some (1 # be_bytes 2 MAC_FORMAT_VERSION @ be_bytes 2 (class_code c) @ be_bytes 2 sv
            @ be_bytes 8 g @ be_bytes 4 (word_of_nat (length v) :: u32) @ v
            @ be_bytes 32 (keyed new (mac_input c sv st pk g v))))
     else Err Invalid)"
proof -
  have hd: "bs \<noteq> []" "bs ! 0 = 1"
    by (simp_all add: bs)
  have enc: "enc_bytes v MAX_CIPHERTEXT out = Ok (out @ be_bytes 4 (word_of_nat (length v) :: u32) @ v)" for out
    using len by (simp add: enc_bytes_Ok)
  have cls: "class_from_code (class_code c) = Ok c"
    by (simp add: class_from_code_Ok)
  show ?thesis
    by (rule sealed_blob_steps [OF bs len])
      (use pk in \<open>simp add: reseal_clear_blob_def hd cls enc record_mac_def codec_simps\<close>)
qed

lemma sealed_encode_Ok:
  "sealed_encode enc s = Ok bs \<longleftrightarrow> (\<exists>v. enc (s_value s) = Ok v \<and> length v \<le> MAX_CIPHERTEXT
     \<and> bs = 1 # be_bytes 2 (s_mac_format_version s) @ be_bytes 2 (class_code (s_class s))
       @ be_bytes 2 (s_schema_version s) @ be_bytes 8 (s_generation s)
       @ be_bytes 4 (word_of_nat (length v) :: u32) @ v @ be_bytes 32 (s_mac s))"
  by (auto simp: sealed_encode_def codec_simps)

lemma verify_eq:
  assumes "s_mac_format_version s = MAC_FORMAT_VERSION" "enc (s_value s) = Ok v"
    "pk \<noteq> []" "length pk \<le> MAX_STATE_KEY"
  shows "verify keyed enc (s_class s) (s_schema_version s) s k st pk =
    (if s_mac s = keyed k (mac_input (s_class s) (s_schema_version s) st pk (s_generation s) v)
     then Ok () else Err Invalid)"
  using assms by (simp add: verify_def verify_with_work_def record_mac_def)

section \<open>Properties\<close>

text \<open>
  C12: Re-keying. For the stored bytes of a sealed record, \<open>reseal_clear_blob\<close> accepts them if and
  only if the record verifies under the old key; it then returns the encoding of the same record
  with the same generation, value, class and schema, which verifies under the new key. Bytes
  whose tag does not verify under the old key are refused and never re-tagged.
\<close>

theorem reseal_rekeys:
  assumes enc: "sealed_encode enc s = Ok bs" and fmt: "s_mac_format_version s = MAC_FORMAT_VERSION"
    and pk: "pk \<noteq> []" "length pk \<le> MAX_STATE_KEY"
  shows "(verify keyed enc (s_class s) (s_schema_version s) s old st pk = Ok () \<longrightarrow>
      (\<exists>mac bs'. reseal_clear_blob keyed bs old new st pk = Ok (Some bs')
        \<and> sealed_encode enc (s\<lparr>s_mac := mac\<rparr>) = Ok bs'
        \<and> verify keyed enc (s_class s) (s_schema_version s) (s\<lparr>s_mac := mac\<rparr>) new st pk = Ok ()))
    \<and> (verify keyed enc (s_class s) (s_schema_version s) s old st pk \<noteq> Ok () \<longrightarrow>
        reseal_clear_blob keyed bs old new st pk = Err Invalid)"
proof -
  obtain v where v: "enc (s_value s) = Ok v" "length v \<le> MAX_CIPHERTEXT"
    "bs = 1 # be_bytes 2 MAC_FORMAT_VERSION @ be_bytes 2 (class_code (s_class s))
       @ be_bytes 2 (s_schema_version s) @ be_bytes 8 (s_generation s)
       @ be_bytes 4 (word_of_nat (length v) :: u32) @ v @ be_bytes 32 (s_mac s)"
    using enc fmt by (auto simp: sealed_encode_Ok)
  let ?tag = "\<lambda>k. keyed k (mac_input (s_class s) (s_schema_version s) st pk (s_generation s) v)"
  have new: "verify keyed enc (s_class s) (s_schema_version s) (s\<lparr>s_mac := ?tag new\<rparr>) new st pk = Ok ()"
    using verify_eq [of "s\<lparr>s_mac := ?tag new\<rparr>" enc v pk keyed new st] fmt v(1) pk by simp
  have enc': "sealed_encode enc (s\<lparr>s_mac := ?tag new\<rparr>) = Ok (1 # be_bytes 2 MAC_FORMAT_VERSION
       @ be_bytes 2 (class_code (s_class s)) @ be_bytes 2 (s_schema_version s)
       @ be_bytes 8 (s_generation s) @ be_bytes 4 (word_of_nat (length v) :: u32) @ v
       @ be_bytes 32 (?tag new))"
    using v fmt by (simp add: sealed_encode_Ok)
  show ?thesis
    using verify_eq [of s enc v pk keyed old st, OF fmt v(1) pk] new enc'
      reseal_clear_blob_eq [OF v(3,2) pk, of keyed old new st]
    by (cases "s_mac s = ?tag old") auto
qed

theorem reseal_rekeys_witness:
  "let s = \<lparr>s_generation = 1, s_value = 5 :: u8, s_class = Grant, s_schema_version = 1,
            s_mac_format_version = MAC_FORMAT_VERSION, s_mac = 3\<rparr>;
       enc = (\<lambda>x. Ok [x])
   in \<exists>bs bs'. sealed_encode enc s = Ok bs
        \<and> reseal_clear_blob (\<lambda>k _. k) bs 3 4 0 [1] = Ok (Some bs')
        \<and> reseal_clear_blob (\<lambda>k _. k) bs 9 4 0 [1] = Err Invalid"
proof -
  let ?s = "\<lparr>s_generation = 1, s_value = 5 :: u8, s_class = Grant, s_schema_version = 1,
      s_mac_format_version = MAC_FORMAT_VERSION, s_mac = 3\<rparr>"
  let ?enc = "\<lambda>x :: u8. Ok [x] :: (bytes, codec_error) result"
  obtain bs where bs: "sealed_encode ?enc ?s = Ok bs"
    by (simp add: sealed_encode_Ok)
  have "verify (\<lambda>k _. k) ?enc Grant 1 ?s 3 0 [1] = Ok ()" "verify (\<lambda>k _. k) ?enc Grant 1 ?s 9 0 [1] \<noteq> Ok ()"
    by (simp_all add: verify_def verify_with_work_def record_mac_def)
  with reseal_rekeys [OF bs, of "[1]" "\<lambda>k _. k" 3 0 4] reseal_rekeys [OF bs, of "[1]" "\<lambda>k _. k" 9 0 4] bs
  show ?thesis by auto
qed

text \<open>
  C11: A tag binds everything about a record. If two sealed records verify under one key with the
  same tag, then they have the same class, schema version, store id, primary key, generation and
  value encoding, provided only that the keyed hash does not map the two framed messages to the
  same value when they differ. So a record cannot be moved to another key, store, class or
  generation.
\<close>

theorem sealed_tag_binds:
  assumes "verify keyed enc cls schema s k st pk = Ok ()"
    and "verify keyed enc' cls' schema' s' k st' pk' = Ok ()"
    and "s_mac s = s_mac s'"
    and "enc (s_value s) = Ok v" and "enc' (s_value s') = Ok v'" and "vec_ok v" and "vec_ok v'"
    and no_collision: "keyed k (mac_input cls schema st pk (s_generation s) v)
        = keyed k (mac_input cls' schema' st' pk' (s_generation s') v') \<Longrightarrow>
      mac_input cls schema st pk (s_generation s) v = mac_input cls' schema' st' pk' (s_generation s') v'"
  shows "cls = cls' \<and> schema = schema' \<and> st = st' \<and> pk = pk' \<and> s_generation s = s_generation s' \<and> v = v'"
proof -
  have "s_mac s = keyed k (mac_input cls schema st pk (s_generation s) v)" "vec_ok pk"
    "s_mac s' = keyed k (mac_input cls' schema' st' pk' (s_generation s') v')" "vec_ok pk'"
    using assms(1,2,4,5)
    by (auto simp: verify_def verify_with_work_def record_mac_def vec_ok_def split: if_splits)
  with assms(3,6,7) no_collision mac_input_inject [of pk pk' v v'] show ?thesis
    by metis
qed

theorem sealed_tag_binds_witness:
  "let s = \<lparr>s_generation = 1, s_value = 5 :: u8, s_class = Grant, s_schema_version = 1,
            s_mac_format_version = MAC_FORMAT_VERSION, s_mac = 3\<rparr>
   in verify (\<lambda>k _. k) (\<lambda>x. Ok [x]) Grant 1 s 3 0 [1] = Ok () \<and> [1 :: u8] = [1]"
  using sealed_tag_binds [of "\<lambda>k _. k" "\<lambda>x. Ok [x]" Grant 1 "\<lparr>s_generation = 1, s_value = 5 :: u8,
      s_class = Grant, s_schema_version = 1, s_mac_format_version = MAC_FORMAT_VERSION, s_mac = 3\<rparr>"
      3 0 "[1]" "\<lambda>x. Ok [x]" Grant 1 "\<lparr>s_generation = 1, s_value = 5 :: u8,
      s_class = Grant, s_schema_version = 1, s_mac_format_version = MAC_FORMAT_VERSION, s_mac = 3\<rparr>"
      0 "[1]" "[5]" "[5]"]
  by (simp add: Let_def verify_def verify_with_work_def record_mac_def vec_ok_def)

end
