(* ===== verification/Store_Records.thy ===== *)
theory Store_Records
  imports Integrity
begin

text \<open>
  The durable records of \<open>src/store/mod.rs\<close> and their \<open>Canonical\<close> codecs: the store metadata
  with its pending anchor, the keyring envelope, logical paths, the version-set summary of a
  secret with its operations, the secret metadata, secret keys and records, the maintenance
  marker and the rewrite job with its status order.

  Each record gets the interpretation \<open>canonical\<close> (decoding inverts encoding on every value of
  the Rust type) and each clear record the interpretation \<open>clear_record\<close>, which gives the laws of
  \<open>Sealed\<close> for it. The predicates \<open>..._ok\<close> say which model values are values of the Rust type: a
  string is valid UTF-8, a \<open>BTreeMap\<close> is sorted by its keys, a \<open>LogicalPath\<close> passed its
  constructor.
\<close>

abbreviation (input) MAX_PATH :: nat where "MAX_PATH \<equiv> 1024"
abbreviation (input) MAX_OPAQUE :: nat where "MAX_OPAQUE \<equiv> 1024"
abbreviation (input) MAX_CUSTOM_ENTRIES :: nat where "MAX_CUSTOM_ENTRIES \<equiv> 64"
abbreviation (input) MAX_CUSTOM_KEY :: nat where "MAX_CUSTOM_KEY \<equiv> 128"
abbreviation (input) MAX_CUSTOM_VALUE :: nat where "MAX_CUSTOM_VALUE \<equiv> 1024"
abbreviation (input) MAX_ENVELOPE :: nat where "MAX_ENVELOPE \<equiv> 1048576"
abbreviation (input) METADATA_SCHEMA_VERSION :: u16 where "METADATA_SCHEMA_VERSION \<equiv> 1"

section \<open>Enumerations with a one-byte code\<close>

text \<open>\<open>#[repr(u8)]\<close> gives the code, \<open>decode\<close> reads it back.\<close>

datatype lifecycle = Ready | Reencrypting | Restoring | Migrating | Compacting

primrec lifecycle_code :: "lifecycle \<Rightarrow> u8" where
  "lifecycle_code Ready = 0"
| "lifecycle_code Reencrypting = 1"
| "lifecycle_code Restoring = 2"
| "lifecycle_code Migrating = 3"
| "lifecycle_code Compacting = 4"

definition lifecycle_decode :: "u8 \<Rightarrow> (lifecycle, codec_error) result" where
  "lifecycle_decode b =
     (if b = 0 then Ok Ready else if b = 1 then Ok Reencrypting else if b = 2 then Ok Restoring
      else if b = 3 then Ok Migrating else if b = 4 then Ok Compacting else Err Invalid)"

datatype pending_anchor_kind =
  RecordKey | MetadataKey | Migration | Compaction | NormalRestore | RollbackFork

primrec pending_anchor_kind_code :: "pending_anchor_kind \<Rightarrow> u8" where
  "pending_anchor_kind_code RecordKey = 0"
| "pending_anchor_kind_code MetadataKey = 1"
| "pending_anchor_kind_code Migration = 2"
| "pending_anchor_kind_code Compaction = 3"
| "pending_anchor_kind_code NormalRestore = 4"
| "pending_anchor_kind_code RollbackFork = 5"

definition pending_anchor_kind_decode :: "u8 \<Rightarrow> (pending_anchor_kind, codec_error) result" where
  "pending_anchor_kind_decode b =
     (if b = 0 then Ok RecordKey else if b = 1 then Ok MetadataKey else if b = 2 then Ok Migration
      else if b = 3 then Ok Compaction else if b = 4 then Ok NormalRestore
      else if b = 5 then Ok RollbackFork else Err Invalid)"

datatype pending_anchor_status = Installed | CheckpointPrepared | CheckpointRegistered

primrec pending_anchor_status_code :: "pending_anchor_status \<Rightarrow> u8" where
  "pending_anchor_status_code Installed = 0"
| "pending_anchor_status_code CheckpointPrepared = 1"
| "pending_anchor_status_code CheckpointRegistered = 2"

definition pending_anchor_status_decode :: "u8 \<Rightarrow> (pending_anchor_status, codec_error) result" where
  "pending_anchor_status_decode b =
     (if b = 0 then Ok Installed else if b = 1 then Ok CheckpointPrepared
      else if b = 2 then Ok CheckpointRegistered else Err Invalid)"

datatype version_state = Live | SoftDeleted | Destroyed

primrec version_state_code :: "version_state \<Rightarrow> u8" where
  "version_state_code Live = 0"
| "version_state_code SoftDeleted = 1"
| "version_state_code Destroyed = 2"

definition version_state_decode :: "u8 \<Rightarrow> (version_state, codec_error) result" where
  "version_state_decode b =
     (if b = 0 then Ok Live else if b = 1 then Ok SoftDeleted else if b = 2 then Ok Destroyed
      else Err Invalid)"

datatype rotation_state = Idle | Pending | Running

primrec rotation_state_code :: "rotation_state \<Rightarrow> u8" where
  "rotation_state_code Idle = 0"
| "rotation_state_code Pending = 1"
| "rotation_state_code Running = 2"

definition rotation_state_decode :: "u8 \<Rightarrow> (rotation_state, codec_error) result" where
  "rotation_state_decode b =
     (if b = 0 then Ok Idle else if b = 1 then Ok Pending else if b = 2 then Ok Running
      else Err Invalid)"

datatype maintenance_kind = MigrationKind | CompactionKind

primrec maintenance_kind_code :: "maintenance_kind \<Rightarrow> u8" where
  "maintenance_kind_code MigrationKind = 0"
| "maintenance_kind_code CompactionKind = 1"

definition maintenance_kind_decode :: "u8 \<Rightarrow> (maintenance_kind, codec_error) result" where
  "maintenance_kind_decode b =
     (if b = 0 then Ok MigrationKind else if b = 1 then Ok CompactionKind else Err Invalid)"

datatype maintenance_phase = PhasePlanned | PhaseRewriting | PhaseVerified | PhaseInstalled

primrec maintenance_phase_code :: "maintenance_phase \<Rightarrow> u8" where
  "maintenance_phase_code PhasePlanned = 0"
| "maintenance_phase_code PhaseRewriting = 1"
| "maintenance_phase_code PhaseVerified = 2"
| "maintenance_phase_code PhaseInstalled = 3"

definition maintenance_phase_decode :: "u8 \<Rightarrow> (maintenance_phase, codec_error) result" where
  "maintenance_phase_decode b =
     (if b = 0 then Ok PhasePlanned else if b = 1 then Ok PhaseRewriting
      else if b = 2 then Ok PhaseVerified else if b = 3 then Ok PhaseInstalled else Err Invalid)"

datatype rewrite_kind = RewriteRecordKey | RewriteMetadataKey | RewriteAuditPayloadKey

primrec rewrite_kind_code :: "rewrite_kind \<Rightarrow> u8" where
  "rewrite_kind_code RewriteRecordKey = 0"
| "rewrite_kind_code RewriteMetadataKey = 1"
| "rewrite_kind_code RewriteAuditPayloadKey = 2"

definition rewrite_kind_decode :: "u8 \<Rightarrow> (rewrite_kind, codec_error) result" where
  "rewrite_kind_decode b =
     (if b = 0 then Ok RewriteRecordKey else if b = 1 then Ok RewriteMetadataKey
      else if b = 2 then Ok RewriteAuditPayloadKey else Err Invalid)"

datatype rewrite_status =
  InstalledPendingAnchor | AnchoredRewriteCompleteRecoveryPending | CompleteRecoveryCurrent

primrec rewrite_status_code :: "rewrite_status \<Rightarrow> u8" where
  "rewrite_status_code InstalledPendingAnchor = 0"
| "rewrite_status_code AnchoredRewriteCompleteRecoveryPending = 1"
| "rewrite_status_code CompleteRecoveryCurrent = 2"

definition rewrite_status_decode :: "u8 \<Rightarrow> (rewrite_status, codec_error) result" where
  "rewrite_status_decode b =
     (if b = 0 then Ok InstalledPendingAnchor
      else if b = 1 then Ok AnchoredRewriteCompleteRecoveryPending
      else if b = 2 then Ok CompleteRecoveryCurrent else Err Invalid)"

lemma lifecycle_decode_Ok [simp]: "lifecycle_decode b = Ok v \<longleftrightarrow> b = lifecycle_code v"
  by (cases v) (auto simp: lifecycle_decode_def)

lemma pending_anchor_kind_decode_Ok [simp]:
  "pending_anchor_kind_decode b = Ok v \<longleftrightarrow> b = pending_anchor_kind_code v"
  by (cases v) (auto simp: pending_anchor_kind_decode_def)

lemma pending_anchor_status_decode_Ok [simp]:
  "pending_anchor_status_decode b = Ok v \<longleftrightarrow> b = pending_anchor_status_code v"
  by (cases v) (auto simp: pending_anchor_status_decode_def)

lemma version_state_decode_Ok [simp]: "version_state_decode b = Ok v \<longleftrightarrow> b = version_state_code v"
  by (cases v) (auto simp: version_state_decode_def)

lemma rotation_state_decode_Ok [simp]: "rotation_state_decode b = Ok v \<longleftrightarrow> b = rotation_state_code v"
  by (cases v) (auto simp: rotation_state_decode_def)

lemma maintenance_kind_decode_Ok [simp]:
  "maintenance_kind_decode b = Ok v \<longleftrightarrow> b = maintenance_kind_code v"
  by (cases v) (auto simp: maintenance_kind_decode_def)

lemma maintenance_phase_decode_Ok [simp]:
  "maintenance_phase_decode b = Ok v \<longleftrightarrow> b = maintenance_phase_code v"
  by (cases v) (auto simp: maintenance_phase_decode_def)

lemma rewrite_kind_decode_Ok [simp]: "rewrite_kind_decode b = Ok v \<longleftrightarrow> b = rewrite_kind_code v"
  by (cases v) (auto simp: rewrite_kind_decode_def)

lemma rewrite_status_decode_Ok [simp]:
  "rewrite_status_decode b = Ok v \<longleftrightarrow> b = rewrite_status_code v"
  by (cases v) (auto simp: rewrite_status_decode_def)

section \<open>Pending anchor and store metadata\<close>

datatype anchor_installed_state =
    Schema u32 | KeyringGeneration u64 | PayloadGeneration u64 | Incarnation id16

primrec anchor_state_encode :: "anchor_installed_state \<Rightarrow> bytes \<Rightarrow> bytes" where
  "anchor_state_encode (Schema v) out = enc_u32 v (enc_u8 0 out)"
| "anchor_state_encode (KeyringGeneration v) out = enc_u64 v (enc_u8 1 out)"
| "anchor_state_encode (PayloadGeneration v) out = enc_u64 v (enc_u8 2 out)"
| "anchor_state_encode (Incarnation v) out = enc_fixed (be_bytes 16 v) (enc_u8 3 out)"

definition anchor_state_decode :: "anchor_installed_state dec" where
  "anchor_state_decode = dbind dec_u8 (\<lambda>tag.
     if tag = 0 then dbind dec_u32 (\<lambda>v. dret (Schema v))
     else if tag = 1 then dbind dec_u64 (\<lambda>v. dret (KeyringGeneration v))
     else if tag = 2 then dbind dec_u64 (\<lambda>v. dret (PayloadGeneration v))
     else if tag = 3 then dbind (dec_fixed 16) (\<lambda>v. dret (Incarnation v))
     else dfail Invalid)"

record pending_anchor =
  pa_kind :: pending_anchor_kind
  pa_operation_id :: bytes
  pa_plan_or_activation_digest :: arr32
  pa_installed_state :: anchor_installed_state
  pa_post_state_digest :: arr32
  pa_status :: pending_anchor_status

definition pending_anchor_encode :: "pending_anchor \<Rightarrow> (bytes, codec_error) result" where
  "pending_anchor_encode a =
     (let out = enc_version 1;
          out = enc_u8 (pending_anchor_kind_code (pa_kind a)) out
      in rbind (enc_bytes (pa_operation_id a) MAX_OPAQUE out) (\<lambda>out.
         let out = enc_fixed (be_bytes 32 (pa_plan_or_activation_digest a)) out;
             out = anchor_state_encode (pa_installed_state a) out;
             out = enc_fixed (be_bytes 32 (pa_post_state_digest a)) out;
             out = enc_u8 (pending_anchor_status_code (pa_status a)) out
         in Ok (enc_finish out)))"

definition pending_anchor_decode :: "bytes \<Rightarrow> (pending_anchor, codec_error) result" where
  "pending_anchor_decode bs = run_dec 1 bs (
     dbind dec_u8 (\<lambda>b. dbind (dlift (pending_anchor_kind_decode b)) (\<lambda>kind.
     dbind (dec_bytes MAX_OPAQUE) (\<lambda>operation_id.
     dbind (dec_fixed 32) (\<lambda>plan_or_activation_digest.
     dbind anchor_state_decode (\<lambda>installed_state.
     dbind (dec_fixed 32) (\<lambda>post_state_digest.
     dbind dec_u8 (\<lambda>b. dbind (dlift (pending_anchor_status_decode b)) (\<lambda>status.
     dbind (dcheck (operation_id \<noteq> []) Invalid) (\<lambda>_.
     dbind dec_finish (\<lambda>_.
       dret \<lparr>pa_kind = kind, pa_operation_id = operation_id,
             pa_plan_or_activation_digest = plan_or_activation_digest,
             pa_installed_state = installed_state, pa_post_state_digest = post_state_digest,
             pa_status = status\<rparr>)))))))))))"

text \<open>\<open>encode\<close> does not ask for an operation id, \<open>decode\<close> does.\<close>

definition pending_anchor_ok :: "pending_anchor \<Rightarrow> bool" where
  "pending_anchor_ok a \<longleftrightarrow> pa_operation_id a \<noteq> []"

lemma anchor_state_encode_out:
  "anchor_state_encode st out = out @ anchor_state_encode st []"
  by (cases st) (simp_all add: codec_simps)

lemma reads_anchor_state: "reads anchor_state_decode (anchor_state_encode st []) st"
  by (cases st) (auto simp: anchor_state_decode_def codec_simps intro!: reads_rules)

lemma trace_anchor_state:
  "anchor_state_decode d = Ok (st, d') \<Longrightarrow> consumed d0 ws d \<Longrightarrow>
     consumed d0 (ws @ anchor_state_encode st []) d'"
  by (auto simp: anchor_state_decode_def codec_simps split: if_splits dest!: trace_finish trace_dests)

interpretation pending_anchor_codec: strict_canonical pending_anchor_encode pending_anchor_decode
  pending_anchor_ok
proof unfold_locales
  fix a bs
  assume "pending_anchor_ok a" "pending_anchor_encode a = Ok bs" "vec_ok bs"
  then show "pending_anchor_decode bs = Ok a"
    by (cases a) (auto simp: pending_anchor_encode_def pending_anchor_decode_def pending_anchor_ok_def
        anchor_state_encode_out [of _ "_ @ _"] codec_simps split: if_splits
        intro!: run_dec_accepts accepts_intros accepts_bind [OF reads_anchor_state])
next
  fix a bs
  assume "pending_anchor_decode bs = Ok a"
  then show "pending_anchor_ok a \<and> pending_anchor_encode a = Ok bs"
    by (auto simp: pending_anchor_encode_def pending_anchor_decode_def pending_anchor_ok_def
        anchor_state_encode_out [of _ "_ @ _"] codec_simps
        elim!: trace_start dest!: trace_finish trace_dests trace_anchor_state)
qed

interpretation pending_anchor: strict_clear_record pending_anchor_encode pending_anchor_decode
  pending_anchor_ok PendingAnchor 1
  by unfold_locales

record provisional_meta =
  pm_store_id :: id16
  pm_format_version :: u32
  pm_lifecycle :: lifecycle
  pm_high_water_unix_seconds :: u64

definition provisional_meta_encode :: "provisional_meta \<Rightarrow> (bytes, codec_error) result" where
  "provisional_meta_encode m =
     (let out = enc_version 1;
          out = enc_fixed (be_bytes 16 (pm_store_id m)) out;
          out = enc_u32 (pm_format_version m) out;
          out = enc_u8 (lifecycle_code (pm_lifecycle m)) out;
          out = enc_u64 (pm_high_water_unix_seconds m) out
      in Ok (enc_finish out))"

definition provisional_meta_decode :: "bytes \<Rightarrow> (provisional_meta, codec_error) result" where
  "provisional_meta_decode bs = run_dec 1 bs (
     dbind (dec_fixed 16) (\<lambda>store_id.
     dbind dec_u32 (\<lambda>format_version.
     dbind dec_u8 (\<lambda>b. dbind (dlift (lifecycle_decode b)) (\<lambda>lifecycle.
     dbind dec_u64 (\<lambda>high_water.
     dbind dec_finish (\<lambda>_.
       dret \<lparr>pm_store_id = store_id, pm_format_version = format_version,
             pm_lifecycle = lifecycle, pm_high_water_unix_seconds = high_water\<rparr>)))))))"

interpretation provisional_meta_codec: strict_canonical provisional_meta_encode
  provisional_meta_decode "\<lambda>_. True"
proof unfold_locales
  fix m bs
  assume "provisional_meta_encode m = Ok bs" "vec_ok bs"
  then show "provisional_meta_decode bs = Ok m"
    by (cases m) (auto simp: provisional_meta_encode_def provisional_meta_decode_def codec_simps
        intro!: run_dec_accepts accepts_intros)
next
  fix m bs
  assume "provisional_meta_decode bs = Ok m"
  then show "True \<and> provisional_meta_encode m = Ok bs"
    by (auto simp: provisional_meta_encode_def provisional_meta_decode_def codec_simps
        elim!: trace_start dest!: trace_finish trace_dests)
qed

interpretation provisional_meta: strict_clear_record provisional_meta_encode provisional_meta_decode
  "\<lambda>_. True" ProvisionalMeta 1
  by unfold_locales

record meta_record =
  m_store_id :: id16
  m_format_version :: u32
  m_lifecycle :: lifecycle
  m_high_water_unix_seconds :: u64
  m_pending_anchor :: "pending_anchor sealed option"

definition META_KEY :: bytes where
  "META_KEY = 1 # str_bytes ''store''"

definition provisional_from_meta :: "meta_record \<Rightarrow> provisional_meta" where
  "provisional_from_meta m =
     \<lparr>pm_store_id = m_store_id m, pm_format_version = m_format_version m,
      pm_lifecycle = m_lifecycle m, pm_high_water_unix_seconds = m_high_water_unix_seconds m\<rparr>"

definition seal_pending_anchor ::
  "keyed_hash \<Rightarrow> meta_record \<Rightarrow> pending_anchor \<Rightarrow> u64 \<Rightarrow> arr32 \<Rightarrow> (meta_record, codec_error) result" where
  "seal_pending_anchor keyed m anchor generation mac_key =
     rbind (seal keyed pending_anchor_encode PendingAnchor 1 anchor generation mac_key (m_store_id m)
              META_KEY) (\<lambda>s. Ok (m\<lparr>m_pending_anchor := Some s\<rparr>))"

definition verify_pending_anchor :: "keyed_hash \<Rightarrow> meta_record \<Rightarrow> arr32 \<Rightarrow> (unit, codec_error) result" where
  "verify_pending_anchor keyed m mac_key =
     (case m_pending_anchor m of
        None \<Rightarrow> Ok ()
      | Some anchor \<Rightarrow>
          verify keyed pending_anchor_encode PendingAnchor 1 anchor mac_key (m_store_id m) META_KEY)"

definition meta_record_encode :: "meta_record \<Rightarrow> (bytes, codec_error) result" where
  "meta_record_encode m =
     (let out = enc_version 1;
          out = enc_fixed (be_bytes 16 (m_store_id m)) out;
          out = enc_u32 (m_format_version m) out;
          out = enc_u8 (lifecycle_code (m_lifecycle m)) out;
          out = enc_u64 (m_high_water_unix_seconds m) out
      in case m_pending_anchor m of
           None \<Rightarrow> Ok (enc_finish (enc_u8 0 out))
         | Some anchor \<Rightarrow>
             let out = enc_u8 1 out
             in rbind (sealed_encode pending_anchor_encode anchor) (\<lambda>encoded.
                rbind (enc_bytes encoded (MAX_OPAQUE * 2) out) (\<lambda>out. Ok (enc_finish out))))"

definition meta_record_decode :: "bytes \<Rightarrow> (meta_record, codec_error) result" where
  "meta_record_decode bs = run_dec 1 bs (
     dbind (dec_fixed 16) (\<lambda>store_id.
     dbind dec_u32 (\<lambda>format_version.
     dbind dec_u8 (\<lambda>b. dbind (dlift (lifecycle_decode b)) (\<lambda>lifecycle.
     dbind dec_u64 (\<lambda>high_water.
     dbind (dec_option (
              dbind (dec_bytes (MAX_OPAQUE * 2)) (\<lambda>encoded.
                dlift (sealed_decode pending_anchor_decode PendingAnchor 1 encoded))))
       (\<lambda>pending_anchor.
     dbind dec_finish (\<lambda>_.
       dret \<lparr>m_store_id = store_id, m_format_version = format_version,
             m_lifecycle = lifecycle, m_high_water_unix_seconds = high_water,
             m_pending_anchor = pending_anchor\<rparr>))))))))"

definition meta_record_ok :: "meta_record \<Rightarrow> bool" where
  "meta_record_ok m \<longleftrightarrow>
     (case m_pending_anchor m of None \<Rightarrow> True
      | Some s \<Rightarrow> sealed_ok pending_anchor_ok PendingAnchor 1 s)"

lemma trace_sealed_anchor:
  assumes "dec_option (dbind (dec_bytes 2048) (\<lambda>encoded.
       dlift (sealed_decode pending_anchor_decode PendingAnchor 1 encoded))) d = Ok (v, d')"
    and "consumed d0 ws d"
  shows "consumed d0 (ws @ option_wire (\<lambda>s. case sealed_encode pending_anchor_encode s of
           Ok vb \<Rightarrow> be_bytes 4 (word_of_nat (length vb) :: u32) @ vb | Err _ \<Rightarrow> []) v) d'
    \<and> pred_option (\<lambda>s. sealed_ok pending_anchor_ok PendingAnchor 1 s
        \<and> (\<exists>vb. sealed_encode pending_anchor_encode s = Ok vb \<and> length vb \<le> 2048)) v"
  using assms
  by (rule trace_option) (auto dest!: trace_finish trace_dests pending_anchor.sealed_strict)

interpretation meta_record_codec: strict_canonical meta_record_encode meta_record_decode
  meta_record_ok
proof unfold_locales
  fix m bs
  assume asms: "meta_record_ok m" "meta_record_encode m = Ok bs" "vec_ok bs"
  show "meta_record_decode bs = Ok m"
  proof (cases "m_pending_anchor m")
    case None
    with asms show ?thesis
      by (cases m) (auto simp: meta_record_encode_def meta_record_decode_def codec_simps
          intro!: run_dec_accepts accepts_intros)
  next
    case (Some s)
    with asms obtain vb where vb: "sealed_encode pending_anchor_encode s = Ok vb"
      "length vb \<le> MAX_OPAQUE * 2"
      by (auto simp: meta_record_encode_def codec_simps split: if_splits)
    have "sealed_decode pending_anchor_decode PendingAnchor 1 vb = Ok s"
      using pending_anchor.sealed.enc_dec [OF _ vb(1)] vb(2) asms(1) Some
      by (simp add: meta_record_ok_def vec_ok_def)
    with asms Some vb show ?thesis
      by (cases m) (auto simp: meta_record_encode_def meta_record_decode_def codec_simps dbind_assoc
          intro!: run_dec_accepts accepts_intros)
  qed
next
  fix m bs
  assume dec: "meta_record_decode bs = Ok m"
  show "meta_record_ok m \<and> meta_record_encode m = Ok bs"
    by (insert dec, unfold meta_record_decode_def, elim trace_start, clarsimp,
        (drule (1) trace_dests trace_sealed_anchor | drule (2) trace_finish | erule conjE)+,
        auto simp: meta_record_encode_def meta_record_ok_def codec_simps split: option.split)
qed

section \<open>Keyring envelope\<close>

type_synonym keyring_envelope = bytes

definition keyring_envelope_encode :: "keyring_envelope \<Rightarrow> (bytes, codec_error) result" where
  "keyring_envelope_encode e =
     rbind (enc_bytes e MAX_ENVELOPE (enc_version 1)) (\<lambda>out. Ok (enc_finish out))"

definition keyring_envelope_decode :: "bytes \<Rightarrow> (keyring_envelope, codec_error) result" where
  "keyring_envelope_decode bs = run_dec 1 bs (
     dbind (dec_bytes MAX_ENVELOPE) (\<lambda>value. dbind dec_finish (\<lambda>_. dret value)))"

interpretation keyring_envelope_codec: strict_canonical keyring_envelope_encode
  keyring_envelope_decode "\<lambda>_. True"
proof unfold_locales
  fix e bs
  assume "keyring_envelope_encode e = Ok bs" "vec_ok bs"
  then show "keyring_envelope_decode bs = Ok e"
    by (auto simp: keyring_envelope_encode_def keyring_envelope_decode_def codec_simps
        intro!: run_dec_accepts accepts_intros)
next
  fix e bs
  assume "keyring_envelope_decode bs = Ok e"
  then show "True \<and> keyring_envelope_encode e = Ok bs"
    by (auto simp: keyring_envelope_encode_def keyring_envelope_decode_def codec_simps
        elim!: trace_start dest!: trace_finish trace_dests)
qed

section \<open>Maintenance marker\<close>

record maintenance_marker =
  mm_store_id :: id16
  mm_kind :: maintenance_kind
  mm_job_id :: bytes
  mm_final_plan_digest :: arr32
  mm_source_format :: u32
  mm_target_format :: u32
  mm_source_head :: arr32
  mm_source_state :: arr32
  mm_phase :: maintenance_phase
  mm_temporary_file_identity :: arr32
  mm_owner_uid :: u32

definition maintenance_marker_encode :: "maintenance_marker \<Rightarrow> (bytes, codec_error) result" where
  "maintenance_marker_encode m =
     (if mm_job_id m = [] then Err Invalid
      else
        let out = enc_version 1;
            out = enc_fixed (be_bytes 16 (mm_store_id m)) out;
            out = enc_u8 (maintenance_kind_code (mm_kind m)) out
        in rbind (enc_bytes (mm_job_id m) MAX_OPAQUE out) (\<lambda>out.
           let out = enc_fixed (be_bytes 32 (mm_final_plan_digest m)) out;
               out = enc_u32 (mm_source_format m) out;
               out = enc_u32 (mm_target_format m) out;
               out = enc_fixed (be_bytes 32 (mm_source_head m)) out;
               out = enc_fixed (be_bytes 32 (mm_source_state m)) out;
               out = enc_u8 (maintenance_phase_code (mm_phase m)) out;
               out = enc_fixed (be_bytes 32 (mm_temporary_file_identity m)) out;
               out = enc_u32 (mm_owner_uid m) out
           in Ok (enc_finish out)))"

definition maintenance_marker_decode :: "bytes \<Rightarrow> (maintenance_marker, codec_error) result" where
  "maintenance_marker_decode bs = run_dec 1 bs (
     dbind (dec_fixed 16) (\<lambda>store_id.
     dbind dec_u8 (\<lambda>b. dbind (dlift (maintenance_kind_decode b)) (\<lambda>kind.
     dbind (dec_bytes MAX_OPAQUE) (\<lambda>job_id.
     dbind (dec_fixed 32) (\<lambda>final_plan_digest.
     dbind dec_u32 (\<lambda>source_format.
     dbind dec_u32 (\<lambda>target_format.
     dbind (dec_fixed 32) (\<lambda>source_head.
     dbind (dec_fixed 32) (\<lambda>source_state.
     dbind dec_u8 (\<lambda>b. dbind (dlift (maintenance_phase_decode b)) (\<lambda>phase.
     dbind (dec_fixed 32) (\<lambda>temporary_file_identity.
     dbind dec_u32 (\<lambda>owner_uid.
     dbind (dcheck (job_id \<noteq> []) Invalid) (\<lambda>_.
     dbind dec_finish (\<lambda>_.
       dret \<lparr>mm_store_id = store_id, mm_kind = kind, mm_job_id = job_id,
             mm_final_plan_digest = final_plan_digest, mm_source_format = source_format,
             mm_target_format = target_format, mm_source_head = source_head,
             mm_source_state = source_state, mm_phase = phase,
             mm_temporary_file_identity = temporary_file_identity,
             mm_owner_uid = owner_uid\<rparr>))))))))))))))))"

definition MAINTENANCE_MARKER_FILE :: bytes where
  "MAINTENANCE_MARKER_FILE = str_bytes ''.ops-light-secrets-server.maintenance.marker.v1''"

definition maintenance_marker_seal ::
  "keyed_hash \<Rightarrow> maintenance_marker \<Rightarrow> u64 \<Rightarrow> arr32 \<Rightarrow> (maintenance_marker sealed, codec_error) result" where
  "maintenance_marker_seal keyed m generation mac_key =
     seal keyed maintenance_marker_encode MaintenanceMarker 1 m generation mac_key (mm_store_id m)
       MAINTENANCE_MARKER_FILE"

interpretation maintenance_marker_codec: strict_canonical maintenance_marker_encode
  maintenance_marker_decode "\<lambda>_. True"
proof unfold_locales
  fix m bs
  assume "maintenance_marker_encode m = Ok bs" "vec_ok bs"
  then show "maintenance_marker_decode bs = Ok m"
    by (cases m) (auto simp: maintenance_marker_encode_def maintenance_marker_decode_def codec_simps
        split: if_splits intro!: run_dec_accepts accepts_intros)
next
  fix m bs
  assume dec: "maintenance_marker_decode bs = Ok m"
  show "True \<and> maintenance_marker_encode m = Ok bs"
    by (insert dec, unfold maintenance_marker_decode_def, elim trace_start, clarsimp,
        (drule (1) trace_dests | drule (2) trace_finish | erule conjE)+,
        auto simp: maintenance_marker_encode_def codec_simps)
qed

interpretation maintenance_marker: strict_clear_record maintenance_marker_encode
  maintenance_marker_decode "\<lambda>_. True" MaintenanceMarker 1
  by unfold_locales

section \<open>Rewrite job\<close>

fun rewrite_can_advance_to :: "rewrite_status \<Rightarrow> rewrite_status \<Rightarrow> bool" where
  "rewrite_can_advance_to InstalledPendingAnchor AnchoredRewriteCompleteRecoveryPending = True"
| "rewrite_can_advance_to AnchoredRewriteCompleteRecoveryPending CompleteRecoveryCurrent = True"
| "rewrite_can_advance_to _ _ = False"

record rewrite_job =
  rj_kind :: rewrite_kind
  rj_operation_id :: bytes
  rj_owner_id :: bytes
  rj_installed_generation :: u64
  rj_installed_state_digest :: arr32
  rj_checkpoint_digest :: arr32
  rj_backup_artifact_digest :: arr32
  rj_backup_signature_digest :: arr32
  rj_backup_receipt_digest :: arr32
  rj_backup_generation :: u64
  rj_signature_generation :: u64
  rj_receipt_generation :: u64
  rj_status :: rewrite_status

definition rewrite_job_advance ::
  "rewrite_job \<Rightarrow> bytes \<Rightarrow> rewrite_status \<Rightarrow> (unit, codec_error) result \<times> rewrite_job" where
  "rewrite_job_advance j owner_id next =
     (if owner_id \<noteq> rj_owner_id j \<or> \<not> rewrite_can_advance_to (rj_status j) next
      then (Err Invalid, j)
      else (Ok (), j\<lparr>rj_status := next\<rparr>))"

definition rewrite_job_encode :: "rewrite_job \<Rightarrow> (bytes, codec_error) result" where
  "rewrite_job_encode j =
     (if rj_operation_id j = [] \<or> rj_owner_id j = [] then Err Invalid
      else
        let out = enc_version 1;
            out = enc_u8 (rewrite_kind_code (rj_kind j)) out
        in rbind (enc_bytes (rj_operation_id j) MAX_OPAQUE out) (\<lambda>out.
           rbind (enc_bytes (rj_owner_id j) MAX_OPAQUE out) (\<lambda>out.
           let out = enc_u64 (rj_installed_generation j) out;
               out = enc_fixed (be_bytes 32 (rj_installed_state_digest j)) out;
               out = enc_fixed (be_bytes 32 (rj_checkpoint_digest j)) out;
               out = enc_fixed (be_bytes 32 (rj_backup_artifact_digest j)) out;
               out = enc_fixed (be_bytes 32 (rj_backup_signature_digest j)) out;
               out = enc_fixed (be_bytes 32 (rj_backup_receipt_digest j)) out;
               out = enc_u64 (rj_backup_generation j) out;
               out = enc_u64 (rj_signature_generation j) out;
               out = enc_u64 (rj_receipt_generation j) out;
               out = enc_u8 (rewrite_status_code (rj_status j)) out
           in Ok (enc_finish out))))"

definition rewrite_job_decode :: "bytes \<Rightarrow> (rewrite_job, codec_error) result" where
  "rewrite_job_decode bs = run_dec 1 bs (
     dbind dec_u8 (\<lambda>b. dbind (dlift (rewrite_kind_decode b)) (\<lambda>kind.
     dbind (dec_bytes MAX_OPAQUE) (\<lambda>operation_id.
     dbind (dec_bytes MAX_OPAQUE) (\<lambda>owner_id.
     dbind dec_u64 (\<lambda>installed_generation.
     dbind (dec_fixed 32) (\<lambda>installed_state_digest.
     dbind (dec_fixed 32) (\<lambda>checkpoint_digest.
     dbind (dec_fixed 32) (\<lambda>backup_artifact_digest.
     dbind (dec_fixed 32) (\<lambda>backup_signature_digest.
     dbind (dec_fixed 32) (\<lambda>backup_receipt_digest.
     dbind dec_u64 (\<lambda>backup_generation.
     dbind dec_u64 (\<lambda>signature_generation.
     dbind dec_u64 (\<lambda>receipt_generation.
     dbind dec_u8 (\<lambda>b. dbind (dlift (rewrite_status_decode b)) (\<lambda>status.
     dbind (dcheck (operation_id \<noteq> [] \<and> owner_id \<noteq> []) Invalid) (\<lambda>_.
     dbind dec_finish (\<lambda>_.
       dret \<lparr>rj_kind = kind, rj_operation_id = operation_id, rj_owner_id = owner_id,
             rj_installed_generation = installed_generation,
             rj_installed_state_digest = installed_state_digest,
             rj_checkpoint_digest = checkpoint_digest,
             rj_backup_artifact_digest = backup_artifact_digest,
             rj_backup_signature_digest = backup_signature_digest,
             rj_backup_receipt_digest = backup_receipt_digest,
             rj_backup_generation = backup_generation,
             rj_signature_generation = signature_generation,
             rj_receipt_generation = receipt_generation, rj_status = status\<rparr>))))))))))))))))))"

definition rewrite_job_seal ::
  "keyed_hash \<Rightarrow> rewrite_job \<Rightarrow> u64 \<Rightarrow> arr32 \<Rightarrow> id16 \<Rightarrow> (rewrite_job sealed, codec_error) result" where
  "rewrite_job_seal keyed j generation mac_key store_id =
     seal keyed rewrite_job_encode RewriteJob 1 j generation mac_key store_id (rj_operation_id j)"

interpretation rewrite_job_codec: strict_canonical rewrite_job_encode rewrite_job_decode "\<lambda>_. True"
proof unfold_locales
  fix j bs
  assume "rewrite_job_encode j = Ok bs" "vec_ok bs"
  then show "rewrite_job_decode bs = Ok j"
    by (cases j) (auto simp: rewrite_job_encode_def rewrite_job_decode_def codec_simps
        split: if_splits intro!: run_dec_accepts accepts_intros)
next
  fix j bs
  assume dec: "rewrite_job_decode bs = Ok j"
  show "True \<and> rewrite_job_encode j = Ok bs"
    by (insert dec, unfold rewrite_job_decode_def, elim trace_start, clarsimp,
        (drule (1) trace_dests | drule (2) trace_finish | erule conjE)+,
        auto simp: rewrite_job_encode_def codec_simps)
qed

interpretation rewrite_job: strict_clear_record rewrite_job_encode rewrite_job_decode "\<lambda>_. True"
  RewriteJob 1
  by unfold_locales

lemma pending_anchor_encode_length:
  assumes "length (pa_operation_id a) \<le> MAX_OPAQUE"
  shows "\<exists>ab. pending_anchor_encode a = Ok ab \<and> length ab \<le> 1200"
proof -
  have "length (anchor_state_encode (pa_installed_state a) []) \<le> 17"
    by (cases "pa_installed_state a") (auto simp: codec_simps)
  then show ?thesis
    using assms
    by (auto simp: pending_anchor_encode_def codec_simps anchor_state_encode_out [of _ "_ @ _"])
qed

inductive rewrite_job_step :: "rewrite_job \<Rightarrow> rewrite_job \<Rightarrow> bool" where
  "rewrite_job_advance j owner next = (r, j') \<Longrightarrow> rewrite_job_step j j'"

definition rewrite_job_le :: "rewrite_job \<Rightarrow> rewrite_job \<Rightarrow> bool" where
  "rewrite_job_le j j' \<longleftrightarrow> j'\<lparr>rj_status := rj_status j\<rparr> = j
     \<and> rewrite_status_code (rj_status j) \<le> rewrite_status_code (rj_status j')"

lemma rewrite_can_advance_iff:
  "rewrite_can_advance_to s t \<longleftrightarrow> unat (rewrite_status_code t) = Suc (unat (rewrite_status_code s))"
  by (cases s; cases t) simp_all

interpretation rewrite_job_run: step_preorder rewrite_job_step rewrite_job_le
proof unfold_locales
  fix j j' j''
  show "rewrite_job_le j j"
    by (simp add: rewrite_job_le_def)
  show "rewrite_job_le j j' \<Longrightarrow> rewrite_job_le j' j'' \<Longrightarrow> rewrite_job_le j j''"
    by (cases j; cases j'; cases j'') (auto simp: rewrite_job_le_def)
  show "rewrite_job_step j j' \<Longrightarrow> rewrite_job_le j j'"
    by (auto simp: rewrite_job_step.simps rewrite_job_advance_def rewrite_job_le_def
        rewrite_can_advance_iff word_le_nat_alt split: if_splits)
qed

section \<open>Properties\<close>



text \<open>
  The pending anchor of the store metadata. Sealing an anchor succeeds when its operation id
  fits, keeps every other field, and the stored record is then read back with an anchor that
  verifies under the sealing key.
\<close>

theorem pending_anchor_sealed_round_trip:
  assumes "pending_anchor_ok a" and "length (pa_operation_id a) \<le> MAX_OPAQUE"
  shows "\<exists>m' bs. seal_pending_anchor keyed m a generation key = Ok m'
    \<and> m' = m\<lparr>m_pending_anchor := m_pending_anchor m'\<rparr>
    \<and> map_option s_value (m_pending_anchor m') = Some a
    \<and> verify_pending_anchor keyed m' key = Ok ()
    \<and> meta_record_encode m' = Ok bs \<and> meta_record_decode bs = Ok m'"
proof -
  obtain ab where ab: "pending_anchor_encode a = Ok ab" "length ab \<le> 1200"
    using pending_anchor_encode_length [OF assms(2)] by blast
  let ?mac = "keyed key (mac_input PendingAnchor 1 (m_store_id m) META_KEY generation ab)"
  let ?s = "\<lparr>s_generation = generation, s_value = a, s_class = PendingAnchor, s_schema_version = 1,
      s_mac_format_version = MAC_FORMAT_VERSION, s_mac = ?mac\<rparr>"
  let ?m = "m\<lparr>m_pending_anchor := Some ?s\<rparr>"
  have key: "META_KEY \<noteq> []" "length META_KEY \<le> MAX_STATE_KEY"
    by (simp_all add: META_KEY_def)
  have seal: "seal keyed pending_anchor_encode PendingAnchor 1 a generation key (m_store_id m) META_KEY = Ok ?s"
    using ab key by (simp add: seal_def record_mac_def)
  have verify: "verify_pending_anchor keyed ?m key = Ok ()"
    using pending_anchor.seal_verify [OF seal] by (simp add: verify_pending_anchor_def)
  obtain bs where bs: "meta_record_encode ?m = Ok bs" "vec_ok bs"
  proof -
    obtain sb where "sealed_encode pending_anchor_encode ?s = Ok sb" "length sb \<le> 1300"
      using ab by (simp add: sealed_encode_Ok)
    then show thesis
      by (intro that) (auto simp: meta_record_encode_def vec_ok_def codec_simps)
  qed
  have "meta_record_decode bs = Ok ?m"
    using meta_record_codec.enc_dec [OF _ bs] assms(1) by (simp add: meta_record_ok_def sealed_ok_def)
  then show ?thesis
    using seal verify bs(1) by (intro exI [of _ ?m] exI [of _ bs]) (simp add: seal_pending_anchor_def)
qed

text \<open>
  A rewrite job only ever moves forward. A call of \<open>advance\<close> succeeds exactly for the owner and
  the next status, a refused call changes nothing, and along any sequence of calls, by whatever
  callers, nothing but the status changes and the status never goes back.
\<close>

theorem rewrite_job_forward:
  assumes "rewrite_job_step\<^sup>*\<^sup>* j j'"
  shows "j' = j\<lparr>rj_status := rj_status j'\<rparr>
    \<and> rewrite_status_code (rj_status j) \<le> rewrite_status_code (rj_status j')
    \<and> rewrite_job_advance j' owner next =
       (if owner = rj_owner_id j
           \<and> unat (rewrite_status_code next) = Suc (unat (rewrite_status_code (rj_status j')))
        then (Ok (), j'\<lparr>rj_status := next\<rparr>) else (Err Invalid, j'))"
  using rewrite_job_run.steps_le [OF assms]
  by (cases j; cases j') (auto simp: rewrite_job_le_def rewrite_job_advance_def rewrite_can_advance_iff)

end
