(* ===== verification/Secret_Records.thy ===== *)
theory Secret_Records
  imports Store_Records
begin

text \<open>
  The records that describe one secret (\<open>src/store/mod.rs\<close>): its logical path, the summary of its
  versions with the operations on it, its metadata, and the key and the ciphertext record of one
  version. The operations of \<open>VersionSetSummary\<close> take a \<open>&mut self\<close> and may fail after they have
  changed it, so they return the result and the state after the call.
\<close>

section \<open>Logical paths\<close>

definition byte_is_ascii_control :: "u8 \<Rightarrow> bool" where
  "byte_is_ascii_control b \<longleftrightarrow> b < 32 \<or> b = 127"

definition logical_path_new :: "string \<Rightarrow> (string, codec_error) result" where
  "logical_path_new value =
     (if value = [] \<or> length value > MAX_PATH
         \<or> list_ex (\<lambda>byte. byte = 0 \<or> byte_is_ascii_control byte) (str_bytes value)
         \<or> list_ex (\<lambda>segment. segment = [] \<or> segment = ''.'' \<or> segment = ''..'') (split_on CHR ''/'' value)
      then Err Invalid else Ok value)"

definition logical_path_encode :: "string \<Rightarrow> (bytes, codec_error) result" where
  "logical_path_encode p = rbind (enc_string p MAX_PATH (enc_version 1)) (\<lambda>out. Ok (enc_finish out))"

definition logical_path_decode :: "bytes \<Rightarrow> (string, codec_error) result" where
  "logical_path_decode bs = run_dec 1 bs (
     dbind (dec_string MAX_PATH) (\<lambda>value.
     dbind (dlift (logical_path_new value)) (\<lambda>path.
     dbind dec_finish (\<lambda>_. dret path))))"

definition logical_path_ok :: "string \<Rightarrow> bool" where
  "logical_path_ok p \<longleftrightarrow> str_ok p \<and> logical_path_new p = Ok p"

section \<open>Version sets\<close>

record version_set =
  vs_generation :: u64
  vs_current_version :: u64
  vs_max_version :: u64
  vs_states :: "(u64 \<times> version_state) list"

definition vs_empty :: version_set where
  "vs_empty = \<lparr>vs_generation = 0, vs_current_version = 0, vs_max_version = 0, vs_states = []\<rparr>"

definition vs_bump :: "version_set \<Rightarrow> (unit, codec_error) result \<times> version_set" where
  "vs_bump s =
     (case checked_add (vs_generation s) 1 of
        None \<Rightarrow> (Err Limit, s)
      | Some generation \<Rightarrow> (Ok (), s\<lparr>vs_generation := generation\<rparr>))"

definition vs_append :: "version_set \<Rightarrow> (u64, codec_error) result \<times> version_set" where
  "vs_append s =
     (case checked_add (vs_max_version s) 1 of
        None \<Rightarrow> (Err Limit, s)
      | Some version \<Rightarrow>
          (case vs_bump (s\<lparr>vs_max_version := version, vs_current_version := version,
                           vs_states := bt_insert version Live (vs_states s)\<rparr>) of
             (Err e, s') \<Rightarrow> (Err e, s')
           | (Ok _, s') \<Rightarrow> (Ok version, s')))"

definition vs_soft_delete :: "version_set \<Rightarrow> u64 \<Rightarrow> (unit, codec_error) result \<times> version_set" where
  "vs_soft_delete s version =
     (case bt_get (vs_states s) version of
        None \<Rightarrow> (Err Invalid, s)
      | Some state \<Rightarrow>
          if state = Destroyed then (Err Invalid, s)
          else vs_bump (s\<lparr>vs_states := bt_insert version SoftDeleted (vs_states s)\<rparr>))"

definition vs_undelete :: "version_set \<Rightarrow> u64 \<Rightarrow> (unit, codec_error) result \<times> version_set" where
  "vs_undelete s version =
     (case bt_get (vs_states s) version of
        None \<Rightarrow> (Err Invalid, s)
      | Some state \<Rightarrow>
          if state \<noteq> SoftDeleted then (Err Invalid, s)
          else vs_bump (s\<lparr>vs_states := bt_insert version Live (vs_states s)\<rparr>))"

definition vs_destroy :: "version_set \<Rightarrow> u64 \<Rightarrow> (unit, codec_error) result \<times> version_set" where
  "vs_destroy s version =
     (case bt_get (vs_states s) version of
        None \<Rightarrow> (Err Invalid, s)
      | Some state \<Rightarrow> vs_bump (s\<lparr>vs_states := bt_insert version Destroyed (vs_states s)\<rparr>))"

definition vs_validate :: "version_set \<Rightarrow> (unit, codec_error) result" where
  "vs_validate s =
     (if vs_current_version s > vs_max_version s
         \<or> (vs_max_version s > 0 \<and> vs_current_version s \<noteq> vs_max_version s)
         \<or> length (vs_states s) > u32_max
         \<or> (vs_max_version s = 0) \<noteq> (vs_states s = [])
         \<or> map (unat \<circ> fst) (vs_states s) \<noteq> [1..<Suc (unat (vs_max_version s))]
      then Err Invalid else Ok ())"

definition vs_encode :: "version_set \<Rightarrow> (bytes, codec_error) result" where
  "vs_encode s =
     rbind (vs_validate s) (\<lambda>_.
       let out = enc_version 1;
           out = enc_u64 (vs_generation s) out;
           out = enc_u64 (vs_current_version s) out;
           out = enc_u64 (vs_max_version s) out;
           out = enc_u32 (word_of_nat (length (vs_states s))) out;
           out = foldl (\<lambda>out (version, state). enc_u8 (version_state_code state) (enc_u64 version out))
                   out (vs_states s)
       in Ok (enc_finish out))"

text \<open>The loop of \<open>decode\<close>: \<open>previous\<close> is the version read last, \<open>states\<close> the map built so far.\<close>

primrec vs_decode_states ::
  "nat \<Rightarrow> u64 \<Rightarrow> (u64 \<times> version_state) list \<Rightarrow> (u64 \<times> version_state) list dec" where
  "vs_decode_states 0 previous states = dret states"
| "vs_decode_states (Suc n) previous states =
     dbind dec_u64 (\<lambda>version.
     dbind (dcheck (\<not> version \<le> previous) Invalid) (\<lambda>_.
     dbind dec_u8 (\<lambda>b. dbind (dlift (version_state_decode b)) (\<lambda>state.
     dbind (dcheck (\<not> bt_contains states version) Invalid) (\<lambda>_.
       vs_decode_states n version (bt_insert version state states))))))"

definition vs_decode :: "bytes \<Rightarrow> (version_set, codec_error) result" where
  "vs_decode bs = run_dec 1 bs (
     dbind dec_u64 (\<lambda>generation.
     dbind dec_u64 (\<lambda>current_version.
     dbind dec_u64 (\<lambda>max_version.
     dbind dec_u32 (\<lambda>count.
     dbind (vs_decode_states (unat count) 0 []) (\<lambda>states.
     let value = \<lparr>vs_generation = generation, vs_current_version = current_version,
                  vs_max_version = max_version, vs_states = states\<rparr>
     in dbind (dlift (vs_validate value)) (\<lambda>_.
        dbind dec_finish (\<lambda>_. dret value))))))))"

section \<open>Secret metadata\<close>

record secret_metadata =
  sm_schema_version :: u16
  sm_custom :: "(string \<times> string) list"
  sm_max_versions :: u16
  sm_cas_required :: bool
  sm_last_completed_rotation_unix_seconds :: "u64 option"
  sm_rotation_interval_seconds :: "u64 option"
  sm_rotation_state :: rotation_state
  sm_rotation_protection :: "bytes option"
  sm_versions :: version_set

primrec encode_optional_u64 :: "u64 option \<Rightarrow> bytes \<Rightarrow> bytes" where
  "encode_optional_u64 None out = enc_u8 0 out"
| "encode_optional_u64 (Some value) out = enc_u64 value (enc_u8 1 out)"

definition decode_optional_u64 :: "u64 option dec" where
  "decode_optional_u64 = dec_option dec_u64"

fun encode_custom :: "(string \<times> string) list \<Rightarrow> bytes \<Rightarrow> (bytes, codec_error) result" where
  "encode_custom [] out = Ok out"
| "encode_custom ((key, value) # rest) out =
     (if key = [] then Err Invalid
      else rbind (enc_string key MAX_CUSTOM_KEY out) (\<lambda>out.
           rbind (enc_string value MAX_CUSTOM_VALUE out) (\<lambda>out.
             encode_custom rest out)))"

primrec decode_custom ::
  "nat \<Rightarrow> string option \<Rightarrow> (string \<times> string) list \<Rightarrow> (string \<times> string) list dec" where
  "decode_custom 0 previous custom = dret custom"
| "decode_custom (Suc n) previous custom =
     dbind (dec_string MAX_CUSTOM_KEY) (\<lambda>key.
     dbind (dcheck (\<not> (key = [] \<or> (case previous of None \<Rightarrow> False | Some old \<Rightarrow> old \<ge> key))) Invalid) (\<lambda>_.
     dbind (dec_string MAX_CUSTOM_VALUE) (\<lambda>value.
     dbind (dcheck (\<not> bt_contains custom key) Invalid) (\<lambda>_.
       decode_custom n (Some key) (bt_insert key value custom)))))"

definition secret_metadata_encode :: "secret_metadata \<Rightarrow> (bytes, codec_error) result" where
  "secret_metadata_encode m =
     (if sm_schema_version m \<noteq> METADATA_SCHEMA_VERSION \<or> length (sm_custom m) > MAX_CUSTOM_ENTRIES
         \<or> sm_rotation_protection m = Some []
      then Err Invalid
      else
        let out = enc_version 1;
            out = enc_u16 (sm_schema_version m) out;
            out = enc_u16 (sm_max_versions m) out;
            out = enc_bool (sm_cas_required m) out;
            out = encode_optional_u64 (sm_last_completed_rotation_unix_seconds m) out;
            out = encode_optional_u64 (sm_rotation_interval_seconds m) out;
            out = enc_u8 (rotation_state_code (sm_rotation_state m)) out
        in rbind (case sm_rotation_protection m of
                    None \<Rightarrow> Ok (enc_u8 0 out)
                  | Some value \<Rightarrow> enc_bytes value MAX_OPAQUE (enc_u8 1 out)) (\<lambda>out.
           let out = enc_u16 (word_of_nat (length (sm_custom m))) out
           in rbind (encode_custom (sm_custom m) out) (\<lambda>out.
              rbind (vs_encode (sm_versions m)) (\<lambda>versions.
              rbind (enc_bytes versions (MAX_OPAQUE * 64) out) (\<lambda>out.
                Ok (enc_finish out))))))"

definition decode_rotation_protection :: "bytes option dec" where
  "decode_rotation_protection = dec_option (
     dbind (dec_bytes MAX_OPAQUE) (\<lambda>value.
     dbind (dcheck (value \<noteq> []) Invalid) (\<lambda>_. dret value)))"

definition secret_metadata_decode :: "bytes \<Rightarrow> (secret_metadata, codec_error) result" where
  "secret_metadata_decode bs = run_dec 1 bs (
     dbind dec_u16 (\<lambda>schema_version.
     dbind (dcheck (schema_version = METADATA_SCHEMA_VERSION) UnknownVersion) (\<lambda>_.
     dbind dec_u16 (\<lambda>max_versions.
     dbind dec_bool (\<lambda>cas_required.
     dbind decode_optional_u64 (\<lambda>last_completed.
     dbind decode_optional_u64 (\<lambda>rotation_interval.
     dbind dec_u8 (\<lambda>b. dbind (dlift (rotation_state_decode b)) (\<lambda>rotation_state.
     dbind decode_rotation_protection (\<lambda>rotation_protection.
     dbind dec_u16 (\<lambda>count.
     dbind (dcheck (unat count \<le> MAX_CUSTOM_ENTRIES) Limit) (\<lambda>_.
     dbind (decode_custom (unat count) None []) (\<lambda>custom.
     dbind (dec_bytes (MAX_OPAQUE * 64)) (\<lambda>encoded.
     dbind (dlift (vs_decode encoded)) (\<lambda>versions.
     dbind dec_finish (\<lambda>_.
       dret \<lparr>sm_schema_version = schema_version, sm_custom = custom,
             sm_max_versions = max_versions, sm_cas_required = cas_required,
             sm_last_completed_rotation_unix_seconds = last_completed,
             sm_rotation_interval_seconds = rotation_interval,
             sm_rotation_state = rotation_state, sm_rotation_protection = rotation_protection,
             sm_versions = versions\<rparr>))))))))))))))))"

definition secret_metadata_seal ::
  "keyed_hash \<Rightarrow> secret_metadata \<Rightarrow> arr32 \<Rightarrow> id16 \<Rightarrow> string \<Rightarrow>
     (secret_metadata sealed, codec_error) result" where
  "secret_metadata_seal keyed m mac_key store_id path =
     rbind (logical_path_encode path) (\<lambda>primary_key.
       seal keyed secret_metadata_encode SecretMetadata METADATA_SCHEMA_VERSION m
         (vs_generation (sm_versions m)) mac_key store_id primary_key)"

fun custom_entry_str :: "string \<times> string \<Rightarrow> bool" where
  "custom_entry_str (k, v) \<longleftrightarrow> str_ok k \<and> str_ok v"

definition secret_metadata_ok :: "secret_metadata \<Rightarrow> bool" where
  "secret_metadata_ok m \<longleftrightarrow> btree (sm_custom m)
     \<and> (\<forall>p\<in>set (sm_custom m). custom_entry_str p)"

section \<open>Secret keys and records\<close>

record secret_key =
  sk_path :: string
  sk_version :: u64

definition secret_key_encode :: "secret_key \<Rightarrow> (bytes, codec_error) result" where
  "secret_key_encode k =
     (if sk_version k = 0 then Err Invalid
      else rbind (logical_path_encode (sk_path k)) (\<lambda>path.
           rbind (enc_bytes path (MAX_PATH + 5) (enc_version 1)) (\<lambda>out.
             Ok (enc_finish (enc_u64 (sk_version k) out)))))"

definition secret_key_decode :: "bytes \<Rightarrow> (secret_key, codec_error) result" where
  "secret_key_decode bs = run_dec 1 bs (
     dbind (dec_bytes (MAX_PATH + 5)) (\<lambda>encoded.
     dbind (dlift (logical_path_decode encoded)) (\<lambda>path.
     dbind dec_u64 (\<lambda>version.
     dbind (dcheck (version \<noteq> 0) Invalid) (\<lambda>_.
     dbind dec_finish (\<lambda>_. dret \<lparr>sk_path = path, sk_version = version\<rparr>))))))"

record secret_record =
  sr_version :: u64
  sr_created_unix_milliseconds :: u64
  sr_key_id :: id16
  sr_nonce :: arr24
  sr_ciphertext :: bytes

definition secret_record_encode :: "secret_record \<Rightarrow> (bytes, codec_error) result" where
  "secret_record_encode r =
     (if sr_version r = 0 then Err Invalid
      else
        let out = enc_version 1;
            out = enc_u64 (sr_version r) out;
            out = enc_u64 (sr_created_unix_milliseconds r) out;
            out = enc_fixed (be_bytes 16 (sr_key_id r)) out;
            out = enc_fixed (be_bytes 24 (sr_nonce r)) out
        in rbind (enc_bytes (sr_ciphertext r) MAX_CIPHERTEXT out) (\<lambda>out. Ok (enc_finish out)))"

definition secret_record_decode :: "bytes \<Rightarrow> (secret_record, codec_error) result" where
  "secret_record_decode bs = run_dec 1 bs (
     dbind dec_u64 (\<lambda>version.
     dbind dec_u64 (\<lambda>created.
     dbind (dec_fixed 16) (\<lambda>key_id.
     dbind (dec_fixed 24) (\<lambda>nonce.
     dbind (dec_bytes MAX_CIPHERTEXT) (\<lambda>ciphertext.
     dbind (dcheck (version \<noteq> 0) Invalid) (\<lambda>_.
     dbind dec_finish (\<lambda>_.
       dret \<lparr>sr_version = version, sr_created_unix_milliseconds = created, sr_key_id = key_id,
             sr_nonce = nonce, sr_ciphertext = ciphertext\<rparr>))))))))"

section \<open>Codecs\<close>

interpretation logical_path_codec: strict_canonical logical_path_encode logical_path_decode
  logical_path_ok
proof unfold_locales
  fix p bs
  assume "logical_path_ok p" "logical_path_encode p = Ok bs" "vec_ok bs"
  then show "logical_path_decode bs = Ok p"
    by (auto simp: logical_path_encode_def logical_path_decode_def logical_path_ok_def codec_simps
        intro!: run_dec_accepts accepts_intros)
next
  fix p bs
  assume dec: "logical_path_decode bs = Ok p"
  show "logical_path_ok p \<and> logical_path_encode p = Ok bs"
    by (insert dec, unfold logical_path_decode_def, elim trace_start, clarsimp,
        (drule (1) trace_dests | drule (2) trace_finish | erule conjE)+,
        auto simp: logical_path_encode_def logical_path_ok_def logical_path_new_def codec_simps
          split: if_splits)
qed

fun version_wire :: "u64 \<times> version_state \<Rightarrow> bytes" where
  "version_wire (version, state) = be_bytes 8 version @ [version_state_code state]"

lemma foldl_version_wire:
  "foldl (\<lambda>out (version, state). out @ be_bytes 8 version @ [version_state_code state]) out ps
     = out @ concat (map version_wire ps)"
  by (induction ps arbitrary: out) auto

lemma vs_encode_Ok:
  "vs_encode s = Ok bs \<longleftrightarrow> vs_validate s = Ok () \<and>
     bs = 1 # be_bytes 8 (vs_generation s) @ be_bytes 8 (vs_current_version s)
       @ be_bytes 8 (vs_max_version s) @ be_bytes 4 (word_of_nat (length (vs_states s)) :: u32)
       @ concat (map version_wire (vs_states s))"
  by (auto simp: vs_encode_def foldl_version_wire codec_simps)

lemma reads_vs_decode_states:
  assumes "btree (states @ ps)" and "\<forall>k\<in>fst ` set ps. previous < k"
  shows "reads (vs_decode_states (length ps) previous states) (concat (map version_wire ps)) (states @ ps)"
  using assms
proof (induction ps arbitrary: previous states)
  case Nil
  then show ?case by (simp add: reads_dret)
next
  case (Cons p ps)
  obtain k v where p: "p = (k, v)" by (cases p)
  have ins: "bt_insert k v states = states @ [p]"
    using Cons.prems(1) p by (intro bt_insert_last [of states k v, folded p]) (simp add: btree_def sorted_wrt_append)
  have fresh: "\<not> bt_contains states k"
    using Cons.prems(1) p by (auto simp: bt_contains_iff btree_def sorted_wrt_append)
  have "reads (vs_decode_states (length ps) k (states @ [p])) (concat (map version_wire ps)) ((states @ [p]) @ ps)"
    using Cons.prems p by (intro Cons.IH) (auto simp: btree_def sorted_wrt_append)
  then show ?case
    using Cons.prems(2) p fresh ins
    by (auto simp: not_le
        intro!: reads_bind reads_bind [OF reads_dec_u8, simplified] reads_dec_u64 reads_check reads_lift)
qed

lemma trace_vs_decode_states:
  assumes "vs_decode_states n previous states d = Ok (r, d')" and "consumed d0 ws d"
    and "btree states" and "\<forall>k\<in>fst ` set states. k \<le> previous"
  shows "\<exists>ps. r = states @ ps \<and> length ps = n \<and> consumed d0 (ws @ concat (map version_wire ps)) d'"
  using assms
proof (induction n arbitrary: previous states d ws)
  case 0
  then show ?case by simp
next
  case (Suc n)
  then obtain k d1 v d2 where k: "dec_u64 d = Ok (k, d1)" "previous < k"
    and v: "dec_u8 d1 = Ok (version_state_code v, d2)"
    and rest: "vs_decode_states n k (bt_insert k v states) d2 = Ok (r, d')"
    by (auto simp: not_le)
  have bt: "btree (states @ [(k, v)])"
    using Suc.prems(3,4) k(2) by (fastforce simp: btree_def sorted_wrt_append)
  have c: "consumed d0 (ws @ version_wire (k, v)) d2"
    using trace_u8 [OF v trace_u64 [OF k(1) Suc.prems(2)]] by simp
  have le: "\<forall>k'\<in>fst ` set (states @ [(k, v)]). k' \<le> k"
    using Suc.prems(4) k(2) by auto
  from Suc.IH [OF rest [unfolded bt_insert_last [OF bt]] c bt le]
  show ?case by force
qed

lemma vs_validate_Ok_btree: "vs_validate s = Ok () \<Longrightarrow> btree (vs_states s)"
proof -
  assume "vs_validate s = Ok ()"
  then have "map (unat \<circ> fst) (vs_states s) = [1..<Suc (unat (vs_max_version s))]"
    by (simp add: vs_validate_def del: upt_Suc split: if_splits)
  then have "sorted_wrt (<) (map unat (map fst (vs_states s)))"
    using sorted_wrt_upt [of 1 "Suc (unat (vs_max_version s))"] by (simp del: upt_Suc)
  then show ?thesis
    unfolding btree_def sorted_wrt_map by (simp add: word_less_nat_alt sorted_wrt_map)
qed

interpretation vs_codec: strict_canonical vs_encode vs_decode "\<lambda>_. True"
proof unfold_locales
  fix s bs
  assume asms: "vs_encode s = Ok bs" "vec_ok bs"
  then have valid: "vs_validate s = Ok ()"
    by (simp add: vs_encode_Ok)
  have len: "length (vs_states s) \<le> u32_max"
    using valid by (simp add: vs_validate_def del: upt_Suc split: if_splits)
  have keys: "\<forall>k\<in>fst ` set (vs_states s). 0 < k"
  proof -
    have "map (unat \<circ> fst) (vs_states s) = [1..<Suc (unat (vs_max_version s))]"
      using valid by (simp add: vs_validate_def del: upt_Suc split: if_splits)
    then have "unat ` fst ` set (vs_states s) = {1..<Suc (unat (vs_max_version s))}"
      by (metis image_comp set_map set_upt)
    then have "\<forall>k\<in>fst ` set (vs_states s). 0 < unat k"
      by (metis atLeastLessThan_iff imageI less_le_trans zero_less_one)
    then show ?thesis by (simp add: word_less_nat_alt)
  qed
  have states: "reads (vs_decode_states (unat (word_of_nat (length (vs_states s)) :: u32)) 0 [])
      (concat (map version_wire (vs_states s))) (vs_states s)"
    using reads_vs_decode_states [of "[]" "vs_states s" 0] vs_validate_Ok_btree [OF valid] keys len
    by (simp add: unat_of_nat take_bit_nat_eq_self)
  show "vs_decode bs = Ok s"
    using asms valid states
    by (cases s) (auto simp: vs_encode_Ok vs_decode_def Let_def
        intro!: run_dec_accepts accepts_intros elim!: accepts_bind_end)
next
  fix s bs
  assume dec: "vs_decode bs = Ok s"
  show "True \<and> vs_encode s = Ok bs"
    by (insert dec, unfold vs_decode_def, elim trace_start, clarsimp simp: Let_def,
        (drule (1) trace_dests | drule (1) trace_vs_decode_states, simp, simp
          | elim exE conjE | drule (2) trace_finish)+,
        auto simp: vs_encode_Ok)
qed

lemma encode_optional_u64_wire: "encode_optional_u64 v out = out @ option_wire (be_bytes 8) v"
  by (cases v) (auto simp: codec_simps)

lemma reads_decode_optional_u64: "reads decode_optional_u64 (option_wire (be_bytes 8) v) v"
  unfolding decode_optional_u64_def by (rule reads_option) (rule reads_dec_u64)

lemma trace_decode_optional_u64:
  "decode_optional_u64 d = Ok (v, d') \<Longrightarrow> consumed d0 ws d \<Longrightarrow>
     consumed d0 (ws @ option_wire (be_bytes 8) v) d'"
  unfolding decode_optional_u64_def
  using trace_option [where w = "be_bytes 8" and P = "\<lambda>_. True"] trace_u64 by blast

definition bytes_wire :: "bytes \<Rightarrow> bytes" where
  "bytes_wire v = be_bytes 4 (word_of_nat (length v) :: u32) @ v"

lemma reads_decode_rotation_protection:
  assumes "\<And>p. v = Some p \<Longrightarrow> p \<noteq> [] \<and> length p \<le> MAX_OPAQUE"
  shows "reads decode_rotation_protection (option_wire bytes_wire v) v"
  unfolding decode_rotation_protection_def
proof (rule reads_option)
  fix p
  assume "v = Some p"
  with assms have p: "p \<noteq> []" "length p \<le> MAX_OPAQUE" by auto
  show "reads (dbind (dec_bytes MAX_OPAQUE) (\<lambda>value.
      dbind (dcheck (value \<noteq> []) Invalid) (\<lambda>_. dret value))) (bytes_wire p) p"
    unfolding bytes_wire_def
    by (rule reads_bind_ret [OF reads_dec_bytes]) (use p in \<open>auto simp: dbind_def dcheck_def\<close>)
qed

lemma trace_decode_rotation_protection:
  "decode_rotation_protection d = Ok (v, d') \<Longrightarrow> consumed d0 ws d \<Longrightarrow>
     consumed d0 (ws @ option_wire bytes_wire v) d'
     \<and> pred_option (\<lambda>p. p \<noteq> [] \<and> length p \<le> MAX_OPAQUE) v"
  unfolding decode_rotation_protection_def
  by (rule trace_option [where w = bytes_wire]) (auto simp: bytes_wire_def dest!: trace_bytes)

fun custom_wire :: "string \<times> string \<Rightarrow> bytes" where
  "custom_wire (k, v) = bytes_wire (str_bytes k) @ bytes_wire (str_bytes v)"

fun custom_entry_ok :: "string \<times> string \<Rightarrow> bool" where
  "custom_entry_ok (k, v) \<longleftrightarrow> k \<noteq> [] \<and> length k \<le> MAX_CUSTOM_KEY \<and> length v \<le> MAX_CUSTOM_VALUE"

lemma encode_custom_Ok:
  "encode_custom ps out = Ok out' \<longleftrightarrow>
     (\<forall>p\<in>set ps. custom_entry_ok p) \<and> out' = out @ concat (map custom_wire ps)"
  by (induction ps out rule: encode_custom.induct) (auto simp: codec_simps bytes_wire_def)

lemma reads_decode_custom:
  assumes "btree (custom @ ps)" and "\<And>old. previous = Some old \<Longrightarrow> \<forall>k\<in>fst ` set ps. old < k"
    and "\<forall>p\<in>set ps. custom_entry_ok p \<and> custom_entry_str p"
  shows "reads (decode_custom (length ps) previous custom) (concat (map custom_wire ps)) (custom @ ps)"
  using assms
proof (induction ps arbitrary: previous custom)
  case Nil
  then show ?case by (simp add: reads_dret)
next
  case (Cons p ps)
  obtain k v where p: "p = (k, v)" by (cases p)
  have ins: "bt_insert k v custom = custom @ [p]"
    using Cons.prems(1) p by (intro bt_insert_last [of custom k v, folded p]) (simp add: btree_def sorted_wrt_append)
  have fresh: "\<not> bt_contains custom k"
    using Cons.prems(1) p by (auto simp: bt_contains_iff btree_def sorted_wrt_append)
  have rest: "reads (decode_custom (length ps) (Some k) (custom @ [p])) (concat (map custom_wire ps)) ((custom @ [p]) @ ps)"
    using Cons.prems p by (intro Cons.IH) (auto simp: btree_def sorted_wrt_append)
  have lt: "\<not> (case previous of None \<Rightarrow> False | Some old \<Rightarrow> k \<le> old)"
    using Cons.prems(2) p by (auto simp: not_le split: option.split)
  from Cons.prems(3) p fresh ins rest lt show ?case
    by (auto simp: bytes_wire_def intro!: reads_dec_string_bind reads_check)
qed

lemma trace_decode_custom:
  assumes "decode_custom n previous custom d = Ok (r, d')" and "consumed d0 ws d"
    and "btree custom" and "\<forall>k\<in>fst ` set custom. \<exists>old. previous = Some old \<and> k \<le> old"
  shows "\<exists>ps. r = custom @ ps \<and> btree r \<and> length ps = n
    \<and> consumed d0 (ws @ concat (map custom_wire ps)) d'
    \<and> (\<forall>p\<in>set ps. custom_entry_ok p \<and> custom_entry_str p)"
  using assms
proof (induction n arbitrary: previous custom d ws)
  case 0
  then show ?case by simp
next
  case (Suc n)
  then obtain k d1 v d2 where k: "dec_string MAX_CUSTOM_KEY d = Ok (k, d1)" "k \<noteq> []"
      "\<forall>old. previous = Some old \<longrightarrow> old < k"
    and v: "dec_string MAX_CUSTOM_VALUE d1 = Ok (v, d2)"
    and rest: "decode_custom n (Some k) (bt_insert k v custom) d2 = Ok (r, d')"
    by (auto simp: not_le split: option.splits)
  have bt: "btree (custom @ [(k, v)])"
    using Suc.prems(3,4) k(3) by (fastforce simp: btree_def sorted_wrt_append)
  note tk = trace_string [OF k(1) Suc.prems(2)]
  note tv = trace_string [OF v conjunct1 [OF tk]]
  have c: "consumed d0 (ws @ custom_wire (k, v)) d2"
    using tv by (simp add: bytes_wire_def)
  have le: "\<forall>k'\<in>fst ` set (custom @ [(k, v)]). \<exists>old. Some k = Some old \<and> k' \<le> old"
    using Suc.prems(4) k(3) by fastforce
  from Suc.IH [OF rest [unfolded bt_insert_last [OF bt]] c bt le] tk tv k(2)
  show ?case by force
qed

lemma secret_metadata_encode_Ok:
  "secret_metadata_encode m = Ok bs \<longleftrightarrow>
     sm_schema_version m = METADATA_SCHEMA_VERSION \<and> length (sm_custom m) \<le> MAX_CUSTOM_ENTRIES
     \<and> pred_option (\<lambda>p. p \<noteq> [] \<and> length p \<le> MAX_OPAQUE) (sm_rotation_protection m)
     \<and> (\<forall>p\<in>set (sm_custom m). custom_entry_ok p)
     \<and> (\<exists>versions. vs_encode (sm_versions m) = Ok versions \<and> length versions \<le> 65536
       \<and> bs = 1 # be_bytes 2 (sm_schema_version m) @ be_bytes 2 (sm_max_versions m)
         @ (if sm_cas_required m then 1 else 0)
         # option_wire (be_bytes 8) (sm_last_completed_rotation_unix_seconds m)
         @ option_wire (be_bytes 8) (sm_rotation_interval_seconds m)
         @ rotation_state_code (sm_rotation_state m)
         # option_wire bytes_wire (sm_rotation_protection m)
         @ be_bytes 2 (word_of_nat (length (sm_custom m)) :: u16)
         @ concat (map custom_wire (sm_custom m)) @ bytes_wire versions)"
  by (cases "sm_rotation_protection m")
    (auto simp: secret_metadata_encode_def encode_custom_Ok encode_optional_u64_wire bytes_wire_def
      codec_simps Let_def)

lemma unat_of_nat_u16: "n \<le> MAX_CUSTOM_ENTRIES \<Longrightarrow> unat (word_of_nat n :: u16) = n"
  by (simp add: unat_of_nat take_bit_nat_eq_self)

interpretation secret_metadata_codec: strict_canonical secret_metadata_encode secret_metadata_decode
  secret_metadata_ok
proof unfold_locales
  fix m bs
  assume asms: "secret_metadata_ok m" "secret_metadata_encode m = Ok bs" "vec_ok bs"
  then obtain versions where enc: "vs_encode (sm_versions m) = Ok versions" "length versions \<le> 65536"
    by (auto simp: secret_metadata_encode_Ok)
  have vs: "vs_decode versions = Ok (sm_versions m)"
    using vs_codec.enc_dec [OF _ enc(1)] enc(2) by (simp add: vec_ok_def)
  have custom: "reads (decode_custom (length (sm_custom m)) None [])
      (concat (map custom_wire (sm_custom m))) (sm_custom m)"
    using reads_decode_custom [of "[]" "sm_custom m" None] asms(1,2)
    by (auto simp: secret_metadata_ok_def secret_metadata_encode_Ok)
  have prot: "reads decode_rotation_protection (option_wire bytes_wire (sm_rotation_protection m))
      (sm_rotation_protection m)"
    using asms(2) by (intro reads_decode_rotation_protection) (auto simp: secret_metadata_encode_Ok)
  show "secret_metadata_decode bs = Ok m"
    using asms enc vs
    by (auto simp: secret_metadata_decode_def secret_metadata_encode_Ok unat_of_nat_u16 bytes_wire_def
        intro!: run_dec_accepts accepts_intros accepts_bind [OF reads_decode_optional_u64]
          accepts_bind [OF prot] accepts_bind [OF custom])
next
  fix m bs
  assume dec: "secret_metadata_decode bs = Ok m"
  show "secret_metadata_ok m \<and> secret_metadata_encode m = Ok bs"
    by (insert dec, unfold secret_metadata_decode_def, elim trace_start, clarsimp,
        (drule vs_codec.dec_enc
          | drule (1) trace_dests trace_decode_optional_u64 trace_decode_rotation_protection
          | (drule (1) trace_decode_custom, simp, simp) | elim exE conjE | drule (2) trace_finish)+,
        auto simp: secret_metadata_encode_Ok secret_metadata_ok_def bytes_wire_def)
qed

interpretation secret_metadata: strict_clear_record secret_metadata_encode secret_metadata_decode
  secret_metadata_ok SecretMetadata METADATA_SCHEMA_VERSION
  by unfold_locales

definition secret_key_ok :: "secret_key \<Rightarrow> bool" where
  "secret_key_ok k \<longleftrightarrow> logical_path_ok (sk_path k)"

interpretation secret_key_codec: strict_canonical secret_key_encode secret_key_decode secret_key_ok
proof unfold_locales
  fix k bs
  assume asms: "secret_key_ok k" "secret_key_encode k = Ok bs" "vec_ok bs"
  then obtain pb where pb: "logical_path_encode (sk_path k) = Ok pb" "length pb \<le> 1029"
    by (auto simp: secret_key_encode_def codec_simps split: if_splits)
  have "logical_path_decode pb = Ok (sk_path k)"
    using logical_path_codec.enc_dec [OF _ pb(1)] pb(2) asms(1)
    by (simp add: secret_key_ok_def vec_ok_def)
  with asms pb show "secret_key_decode bs = Ok k"
    by (cases k) (auto simp: secret_key_encode_def secret_key_decode_def codec_simps
        split: if_splits intro!: run_dec_accepts accepts_intros)
next
  fix k bs
  assume dec: "secret_key_decode bs = Ok k"
  show "secret_key_ok k \<and> secret_key_encode k = Ok bs"
    by (insert dec, unfold secret_key_decode_def, elim trace_start, clarsimp,
        (drule logical_path_codec.dec_enc | drule (1) trace_dests | erule conjE
          | drule (2) trace_finish)+,
        auto simp: secret_key_encode_def secret_key_ok_def codec_simps)
qed

interpretation secret_record_codec: strict_canonical secret_record_encode secret_record_decode
  "\<lambda>_. True"
proof unfold_locales
  fix r bs
  assume "secret_record_encode r = Ok bs" "vec_ok bs"
  then show "secret_record_decode bs = Ok r"
    by (cases r) (auto simp: secret_record_encode_def secret_record_decode_def codec_simps
        split: if_splits intro!: run_dec_accepts accepts_intros)
next
  fix r bs
  assume dec: "secret_record_decode bs = Ok r"
  show "True \<and> secret_record_encode r = Ok bs"
    by (insert dec, unfold secret_record_decode_def, elim trace_start, clarsimp,
        (drule (1) trace_dests | drule (2) trace_finish | erule conjE)+,
        auto simp: secret_record_encode_def codec_simps)
qed

section \<open>Runs of the version-set operations\<close>

inductive vs_step :: "version_set \<Rightarrow> version_set \<Rightarrow> bool" where
  vs_step_append: "vs_append s = (r, t) \<Longrightarrow> vs_step s t"
| vs_step_soft_delete: "vs_soft_delete s v = (r', t) \<Longrightarrow> vs_step s t"
| vs_step_undelete: "vs_undelete s v = (r', t) \<Longrightarrow> vs_step s t"
| vs_step_destroy: "vs_destroy s v = (r', t) \<Longrightarrow> vs_step s t"

text \<open>The version numbers are exactly 1 to \<open>max_version\<close>, and the newest one is current.\<close>

definition vs_inv :: "version_set \<Rightarrow> bool" where
  "vs_inv s \<longleftrightarrow> vs_current_version s = vs_max_version s
     \<and> map (unat \<circ> fst) (vs_states s) = [1..<Suc (unat (vs_max_version s))]"

definition vs_le :: "version_set \<Rightarrow> version_set \<Rightarrow> bool" where
  "vs_le s t \<longleftrightarrow> (vs_inv s \<longrightarrow> vs_inv t \<and> vs_max_version s \<le> vs_max_version t
     \<and> vs_generation s \<le> vs_generation t
     \<and> (\<forall>v. bt_contains (vs_states s) v \<longrightarrow> bt_contains (vs_states t) v)
     \<and> (\<forall>v. bt_get (vs_states s) v = Some Destroyed \<longrightarrow> bt_get (vs_states t) v = Some Destroyed))"

lemma vs_inv_btree: "vs_inv s \<Longrightarrow> btree (vs_states s)"
proof -
  assume "vs_inv s"
  then have "sorted_wrt (<) (map unat (map fst (vs_states s)))"
    using sorted_wrt_upt [of 1 "Suc (unat (vs_max_version s))"]
    by (simp add: vs_inv_def del: upt_Suc)
  then show ?thesis
    unfolding btree_def sorted_wrt_map by (simp add: word_less_nat_alt sorted_wrt_map)
qed

lemma vs_inv_keys: "vs_inv s \<Longrightarrow> k \<in> fst ` set (vs_states s) \<longleftrightarrow> 1 \<le> unat k \<and> k \<le> vs_max_version s"
proof -
  assume "vs_inv s"
  then have "unat ` fst ` set (vs_states s) = {1..<Suc (unat (vs_max_version s))}"
    unfolding vs_inv_def by (metis image_comp set_map set_upt)
  moreover have "inj (unat :: u64 \<Rightarrow> nat)"
    by (rule injI) (simp add: word_unat_eq_iff)
  ultimately have "k \<in> fst ` set (vs_states s) \<longleftrightarrow> unat k \<in> {1..<Suc (unat (vs_max_version s))}"
    by (metis inj_image_mem_iff)
  then show ?thesis by (auto simp: word_le_nat_alt)
qed

lemma vs_validate_iff: "vs_validate s = Ok () \<longleftrightarrow> vs_inv s \<and> unat (vs_max_version s) \<le> u32_max"
proof -
  have "length (vs_states s) = unat (vs_max_version s)" if "vs_inv s"
    using that unfolding vs_inv_def by (metis diff_Suc_1 length_map length_upt)
  moreover have "vs_max_version s = 0 \<longleftrightarrow> vs_states s = []" if "vs_inv s"
    using calculation [OF that] by (metis length_0_conv unat_eq_zero)
  ultimately show ?thesis
    by (auto simp: vs_validate_def vs_inv_def word_gt_0 simp del: upt_Suc split: if_splits)
qed

lemma vs_bump_cases:
  "vs_bump s = (r, t) \<Longrightarrow>
     (r = Err Limit \<and> t = s) \<or>
     (\<exists>g. r = Ok () \<and> checked_add (vs_generation s) 1 = Some g \<and> t = s\<lparr>vs_generation := g\<rparr>)"
  by (auto simp: vs_bump_def split: option.splits)

lemma vs_inv_generation [simp]: "vs_inv (s\<lparr>vs_generation := g\<rparr>) \<longleftrightarrow> vs_inv s"
  by (simp add: vs_inv_def)

lemma vs_inv_update:
  assumes "vs_inv s" and "bt_get (vs_states s) v = Some old"
  shows "vs_inv (s\<lparr>vs_states := bt_insert v new (vs_states s)\<rparr>)"
proof -
  have "v \<in> fst ` set (vs_states s)"
    using assms(2) by (metis bt_get_None option.distinct(1))
  then have "map unat (map fst (bt_insert v new (vs_states s))) = map unat (map fst (vs_states s))"
    using map_fst_bt_insert_same [OF vs_inv_btree [OF assms(1)]] by metis
  with assms(1) show ?thesis
    by (simp add: vs_inv_def del: upt_Suc)
qed

lemma vs_inv_extend:
  assumes "vs_inv s" and "checked_add (vs_max_version s) 1 = Some v"
  shows "vs_inv (s\<lparr>vs_max_version := v, vs_current_version := v,
      vs_states := bt_insert v Live (vs_states s)\<rparr>)"
    and "bt_get (vs_states s) v = None"
proof -
  have v: "unat v = Suc (unat (vs_max_version s))"
    using checked_add_Some [OF assms(2)] by simp
  then have lt: "vs_max_version s < v" by (simp add: word_less_nat_alt)
  have "v \<notin> fst ` set (vs_states s)"
    using vs_inv_keys [OF assms(1), of v] lt by auto
  then show "bt_get (vs_states s) v = None"
    by (simp add: bt_get_None)
  have "btree (vs_states s @ [(v, Live)])"
    using lt le_less_trans vs_inv_keys [OF assms(1)] vs_inv_btree [OF assms(1)]
    unfolding btree_snoc by blast
  then have "bt_insert v Live (vs_states s) = vs_states s @ [(v, Live)]"
    by (rule bt_insert_last)
  with assms(1) v show "vs_inv (s\<lparr>vs_max_version := v, vs_current_version := v,
      vs_states := bt_insert v Live (vs_states s)\<rparr>)"
    by (simp add: vs_inv_def)
qed

lemma vs_le_bump:
  assumes "vs_bump t = (r, u)" and "vs_le s t"
  shows "vs_le s u"
  using vs_bump_cases [OF assms(1)] assms(2)
proof (elim disjE exE conjE)
  fix g
  assume "vs_le s t" "checked_add (vs_generation t) 1 = Some g" "u = t\<lparr>vs_generation := g\<rparr>"
  then show "vs_le s u"
    using checked_add_1_Some_less [of "vs_generation t" g] by (auto simp: vs_le_def)
qed simp

lemma vs_le_update:
  assumes "bt_get (vs_states s) v = Some old" and "old = Destroyed \<Longrightarrow> new = Destroyed"
  shows "vs_le s (s\<lparr>vs_states := bt_insert v new (vs_states s)\<rparr>)"
  using assms vs_inv_update [OF _ assms(1)]
  by (auto simp: vs_le_def bt_get_insert vs_inv_btree bt_contains_def)

lemma vs_le_extend:
  assumes "checked_add (vs_max_version s) 1 = Some v"
  shows "vs_le s (s\<lparr>vs_max_version := v, vs_current_version := v,
      vs_states := bt_insert v Live (vs_states s)\<rparr>)"
  using vs_inv_extend [OF _ assms] checked_add_1_Some_less [OF assms]
  by (auto simp: vs_le_def bt_get_insert vs_inv_btree bt_contains_def)

lemma vs_le_refl: "vs_le s s"
  by (simp add: vs_le_def)

lemma vs_append_le: "vs_le s (snd (vs_append s))"
proof (cases "checked_add (vs_max_version s) 1")
  case (Some v)
  let ?t = "s\<lparr>vs_max_version := v, vs_current_version := v, vs_states := bt_insert v Live (vs_states s)\<rparr>"
  have "snd (vs_append s) = snd (vs_bump ?t)"
    by (simp add: vs_append_def Some split: prod.split result.split)
  then show ?thesis
    using vs_le_bump [OF surjective_pairing vs_le_extend [OF Some]] by simp
qed (simp add: vs_append_def vs_le_refl)

lemma vs_soft_delete_le: "vs_le s (snd (vs_soft_delete s v))"
proof (cases "bt_get (vs_states s) v")
  case (Some old)
  then show ?thesis
    using vs_le_bump [OF surjective_pairing vs_le_update [OF Some, of SoftDeleted]]
    by (auto simp: vs_soft_delete_def vs_le_refl)
qed (simp add: vs_soft_delete_def vs_le_refl)

lemma vs_undelete_le: "vs_le s (snd (vs_undelete s v))"
proof (cases "bt_get (vs_states s) v")
  case (Some old)
  then show ?thesis
    using vs_le_bump [OF surjective_pairing vs_le_update [OF Some, of Live]]
    by (auto simp: vs_undelete_def vs_le_refl)
qed (simp add: vs_undelete_def vs_le_refl)

lemma vs_destroy_le: "vs_le s (snd (vs_destroy s v))"
proof (cases "bt_get (vs_states s) v")
  case (Some old)
  then show ?thesis
    using vs_le_bump [OF surjective_pairing vs_le_update [OF Some, of Destroyed]]
    by (simp add: vs_destroy_def)
qed (simp add: vs_destroy_def vs_le_refl)

lemma vs_step_le: "vs_step s t \<Longrightarrow> vs_le s t"
  by (induction rule: vs_step.induct)
    (metis snd_conv vs_append_le, metis snd_conv vs_soft_delete_le, metis snd_conv vs_undelete_le,
      metis snd_conv vs_destroy_le)

interpretation vs_run: step_preorder vs_step vs_le
proof unfold_locales
  fix s t u
  show "vs_le s s" by (rule vs_le_refl)
  show "vs_le s t \<Longrightarrow> vs_le t u \<Longrightarrow> vs_le s u" unfolding vs_le_def by (blast intro: order_trans)
  show "vs_step s t \<Longrightarrow> vs_le s t" by (rule vs_step_le)
qed

interpretation vs_sys: step_invariant "\<lambda>s. s = vs_empty" vs_step vs_inv
proof unfold_locales
  fix s t
  show "s = vs_empty \<Longrightarrow> vs_inv s"
    by (simp add: vs_inv_def vs_empty_def)
  show "vs_inv s \<Longrightarrow> vs_step s t \<Longrightarrow> vs_inv t"
    using vs_step_le [of s t] by (simp add: vs_le_def)
qed

section \<open>Properties\<close>

text \<open>
  C10: The codecs of the records of a secret are canonical: a byte string decodes to a value if
  and only if it is the encoding of that value, for logical paths, version sets, secret metadata
  (with its sorted custom entries and its nested version set), secret keys and secret records.
\<close>

theorem secret_codecs_canonical:
  assumes "vec_ok bs"
  shows "(logical_path_decode bs = Ok p \<longleftrightarrow> logical_path_ok p \<and> logical_path_encode p = Ok bs)
    \<and> (vs_decode bs = Ok s \<longleftrightarrow> vs_encode s = Ok bs)
    \<and> (secret_metadata_decode bs = Ok m \<longleftrightarrow> secret_metadata_ok m \<and> secret_metadata_encode m = Ok bs)
    \<and> (secret_key_decode bs = Ok k \<longleftrightarrow> secret_key_ok k \<and> secret_key_encode k = Ok bs)
    \<and> (secret_record_decode bs = Ok r \<longleftrightarrow> secret_record_encode r = Ok bs)"
  using logical_path_codec.dec_iff [OF assms] vs_codec.dec_iff [OF assms]
    secret_metadata_codec.dec_iff [OF assms] secret_key_codec.dec_iff [OF assms]
    secret_record_codec.dec_iff [OF assms]
  by simp

theorem secret_codecs_canonical_witness:
  "logical_path_decode [1, 0, 0, 0, 3, 97, 47, 98] = Ok ''a/b''
   \<and> logical_path_encode ''a/b'' = Ok [1, 0, 0, 0, 3, 97, 47, 98]"
proof -
  have enc: "logical_path_encode ''a/b'' = Ok [1, 0, 0, 0, 3, 97, 47, 98]"
    by (simp add: logical_path_encode_def enc_string_def enc_bytes_def codec_simps be_bytes_def
        nat_be_eval str_bytes_def byte_of_char_def)
  moreover have "logical_path_ok ''a/b''"
    by (simp add: logical_path_ok_def str_ok_def utf8_valid_def logical_path_new_def str_bytes_def
        byte_of_char_def byte_is_ascii_control_def)
  ultimately show ?thesis
    using secret_codecs_canonical [of "[1, 0, 0, 0, 3, 97, 47, 98]" "''a/b''"] by (simp add: vec_ok_def)
qed

text \<open>
  C1: Version numbers. In every run of the version-set operations from the empty set, failed
  calls included, the versions are exactly 1 to \<open>max_version\<close> and the newest is current; numbers
  are never reused, the generation never decreases, a destroyed version stays destroyed for
  ever, and the summary can be encoded as long as the count fits its 32-bit field.
\<close>

theorem version_set_runs:
  assumes "reach (\<lambda>s. s = vs_empty) vs_step s" and "vs_step\<^sup>*\<^sup>* s t"
  shows "vs_current_version t = vs_max_version t
    \<and> map (unat \<circ> fst) (vs_states t) = [1..<Suc (unat (vs_max_version t))]
    \<and> vs_max_version s \<le> vs_max_version t \<and> vs_generation s \<le> vs_generation t
    \<and> (bt_get (vs_states s) v = Some Destroyed \<longrightarrow> bt_get (vs_states t) v = Some Destroyed)
    \<and> (is_ok (vs_encode t) \<longleftrightarrow> unat (vs_max_version t) \<le> u32_max)"
proof -
  have s: "vs_inv s" by (rule vs_sys.reach_inv [OF assms(1)])
  then have le: "vs_inv t" "vs_le s t"
    using vs_run.steps_le [OF assms(2)] by (auto simp: vs_le_def)
  have "is_ok (vs_encode t) \<longleftrightarrow> vs_validate t = Ok ()"
    by (auto simp: is_ok_iff vs_encode_Ok)
  with le s show ?thesis
    by (simp add: vs_validate_iff vs_le_def vs_inv_def)
qed

theorem version_set_runs_witness:
  "let s = \<lparr>vs_generation = 2, vs_current_version = 1, vs_max_version = 1, vs_states = [(1, Destroyed)]\<rparr>;
       t = \<lparr>vs_generation = 3, vs_current_version = 2, vs_max_version = 2,
            vs_states = [(1, Destroyed), (2, Live)]\<rparr>
   in snd (vs_destroy (snd (vs_append vs_empty)) 1) = s \<and> snd (vs_append s) = t
      \<and> bt_get (vs_states t) 1 = Some Destroyed \<and> is_ok (vs_encode t)"
proof -
  let ?s1 = "\<lparr>vs_generation = 1, vs_current_version = 1, vs_max_version = 1, vs_states = [(1 :: u64, Live)]\<rparr>"
  let ?s = "\<lparr>vs_generation = 2, vs_current_version = 1, vs_max_version = 1, vs_states = [(1 :: u64, Destroyed)]\<rparr>"
  let ?t = "\<lparr>vs_generation = 3, vs_current_version = 2, vs_max_version = 2,
      vs_states = [(1 :: u64, Destroyed), (2, Live)]\<rparr>"
  have a: "vs_append vs_empty = (Ok 1, ?s1)"
    by (simp add: vs_append_def vs_empty_def vs_bump_def checked_add_def)
  have d: "vs_destroy ?s1 1 = (Ok (), ?s)"
    by (simp add: vs_destroy_def vs_bump_def checked_add_def bt_get_def)
  have b: "vs_append ?s = (Ok 2, ?t)"
    by (simp add: vs_append_def vs_bump_def checked_add_def)
  have "reach (\<lambda>s. s = vs_empty) vs_step ?s"
    using vs_step_append [OF a] vs_step_destroy [OF d] by (blast intro: reach_init reach_step)
  moreover have "vs_step\<^sup>*\<^sup>* ?s ?t"
    using vs_step_append [OF b] by (rule r_into_rtranclp)
  ultimately have "bt_get (vs_states ?s) 1 = Some Destroyed \<longrightarrow> bt_get (vs_states ?t) 1 = Some Destroyed"
    "is_ok (vs_encode ?t) \<longleftrightarrow> unat (vs_max_version ?t) \<le> u32_max"
    using version_set_runs [of ?s ?t 1] by blast+
  then
  show ?thesis
    using a d b by (simp add: Let_def bt_get_def)
qed

end
