(* ===== verification/State_Digest.thy ===== *)
theory State_Digest
  imports Store_Records "HOL-Library.Multiset"
begin

text \<open>
  The second half of \<open>src/store/integrity.rs\<close>: the integrity monitor, the state tuples that
  describe every record of the store, the digest over a whole state, and the delta sets that
  lead from one state to the next. The hash function \<open>blake3::hash\<close> is the parameter \<open>hash\<close>.
\<close>

section \<open>The integrity monitor\<close>

datatype integrity_operation =
    DataOperation | ManagementMutation | BulkMutation | Diagnostics | ReadOnlyRecovery
  | OrderlyShutdown | OfflineRestoreRepair

record integrity_diagnostic =
  id_code :: string
  id_table :: string
  id_masked_key_id :: string

datatype integrity_status = Healthy | Failed integrity_diagnostic

type_synonym integrity_monitor = "integrity_diagnostic option"

definition hex_digit :: "u8 \<Rightarrow> char" where
  "hex_digit n = ''0123456789abcdef'' ! unat n"

definition encode_hex :: "bytes \<Rightarrow> string" where
  "encode_hex bs = concat (map (\<lambda>byte. [hex_digit (drop_bit 4 byte), hex_digit (byte AND 15)]) bs)"

definition trip_named ::
  "keyed_hash \<Rightarrow> integrity_monitor \<Rightarrow> string \<Rightarrow> bytes \<Rightarrow> bytes \<Rightarrow> arr32 \<Rightarrow> integrity_monitor" where
  "trip_named keyed failure table diagnostic_domain primary_key diagnostic_key =
     (let digest = keyed diagnostic_key
            (str_bytes ''ops-light-secrets-server.integrity-key-id.v1'' @ [0]
             @ frame diagnostic_domain @ frame primary_key);
          masked_key_id = encode_hex (take 8 (be_bytes 32 digest))
      in case failure of
           Some diagnostic \<Rightarrow> Some diagnostic
         | None \<Rightarrow> Some \<lparr>id_code = ''clear_record_integrity_failure'', id_table = table,
                         id_masked_key_id = masked_key_id\<rparr>)"

definition trip ::
  "keyed_hash \<Rightarrow> integrity_monitor \<Rightarrow> record_class \<Rightarrow> bytes \<Rightarrow> arr32 \<Rightarrow> integrity_monitor" where
  "trip keyed failure class primary_key diagnostic_key =
     trip_named keyed failure (class_table class) (be_bytes 2 (class_code class)) primary_key
       diagnostic_key"

definition trip_table ::
  "keyed_hash \<Rightarrow> integrity_monitor \<Rightarrow> string \<Rightarrow> bytes \<Rightarrow> arr32 \<Rightarrow> integrity_monitor" where
  "trip_table keyed failure table primary_key diagnostic_key =
     trip_named keyed failure table (str_bytes table) primary_key diagnostic_key"

definition integrity_status :: "integrity_monitor \<Rightarrow> integrity_status" where
  "integrity_status failure = (case failure of None \<Rightarrow> Healthy | Some d \<Rightarrow> Failed d)"

definition operation_allowed :: "integrity_monitor \<Rightarrow> integrity_operation \<Rightarrow> bool" where
  "operation_allowed failure operation =
     (case integrity_status failure of
        Healthy \<Rightarrow> True
      | Failed _ \<Rightarrow> operation = Diagnostics \<or> operation = ReadOnlyRecovery
          \<or> operation = OrderlyShutdown \<or> operation = OfflineRestoreRepair)"

section \<open>State tuples\<close>

datatype encrypted_table = Secrets | AuditPayloads | CredentialMaterial

primrec encrypted_table_code :: "encrypted_table \<Rightarrow> u16" where
  "encrypted_table_code Secrets = 1"
| "encrypted_table_code AuditPayloads = 2"
| "encrypted_table_code CredentialMaterial = 3"

definition encrypted_table_from_code :: "u16 \<Rightarrow> (encrypted_table, codec_error) result" where
  "encrypted_table_from_code code =
     (if code = 1 then Ok Secrets else if code = 2 then Ok AuditPayloads
      else if code = 3 then Ok CredentialMaterial else Err Invalid)"

lemma encrypted_table_from_code_Ok [simp]:
  "encrypted_table_from_code code = Ok t \<longleftrightarrow> code = encrypted_table_code t"
  by (cases t) (auto simp: encrypted_table_from_code_def)

lemma encrypted_table_code_inject [simp]:
  "encrypted_table_code t = encrypted_table_code t' \<longleftrightarrow> t = t'"
  by (cases t; cases t') simp_all

datatype state_tuple =
    ClearTuple (st_class: record_class) (st_key: bytes) (st_generation: u64) (st_tag: arr32)
  | EncryptedTuple (st_table: encrypted_table) (st_key: bytes) (st_record_digest: arr32)

datatype state_identity = ClearId record_class bytes | EncryptedId encrypted_table bytes

text \<open>
  The derived orders: first the constructor, then the fields from left to right. The variants of
  \<open>RecordClass\<close> and \<open>EncryptedTable\<close> are declared in the order of their codes.
\<close>

primrec identity_rank :: "state_identity \<Rightarrow> nat \<times> u16 \<times> bytes" where
  "identity_rank (ClearId c k) = (0, class_code c, k)"
| "identity_rank (EncryptedId t k) = (1, encrypted_table_code t, k)"

primrec tuple_rank :: "state_tuple \<Rightarrow> nat \<times> u16 \<times> bytes \<times> u64 \<times> arr32" where
  "tuple_rank (ClearTuple c k g tag) = (0, class_code c, k, g, tag)"
| "tuple_rank (EncryptedTuple t k d) = (1, encrypted_table_code t, k, 0, d)"

lemma identity_rank_inject [simp]: "identity_rank a = identity_rank b \<longleftrightarrow> a = b"
  by (cases a; cases b) simp_all

lemma tuple_rank_inject [simp]: "tuple_rank a = tuple_rank b \<longleftrightarrow> a = b"
  by (cases a; cases b) simp_all

instantiation state_identity :: linorder
begin

definition less_eq_state_identity :: "state_identity \<Rightarrow> state_identity \<Rightarrow> bool" where
  "less_eq_state_identity a b \<longleftrightarrow> identity_rank a \<le> identity_rank b"

definition less_state_identity :: "state_identity \<Rightarrow> state_identity \<Rightarrow> bool" where
  "less_state_identity a b \<longleftrightarrow> identity_rank a < identity_rank b"

instance
  by intro_classes
    (auto simp: less_eq_state_identity_def less_state_identity_def not_le
      simp flip: identity_rank_inject)

end

instantiation state_tuple :: linorder
begin

definition less_eq_state_tuple :: "state_tuple \<Rightarrow> state_tuple \<Rightarrow> bool" where
  "less_eq_state_tuple a b \<longleftrightarrow> tuple_rank a \<le> tuple_rank b"

definition less_state_tuple :: "state_tuple \<Rightarrow> state_tuple \<Rightarrow> bool" where
  "less_state_tuple a b \<longleftrightarrow> tuple_rank a < tuple_rank b"

instance
  by intro_classes
    (auto simp: less_eq_state_tuple_def less_state_tuple_def not_le simp flip: tuple_rank_inject)

end

definition validate_state_key :: "bytes \<Rightarrow> (unit, codec_error) result" where
  "validate_state_key primary_key =
     (if primary_key = [] \<or> length primary_key > MAX_STATE_KEY then Err Limit else Ok ())"

definition sealed_state_tuple :: "'a sealed \<Rightarrow> bytes \<Rightarrow> (state_tuple, codec_error) result" where
  "sealed_state_tuple s primary_key =
     rbind (validate_state_key primary_key) (\<lambda>_.
       Ok (ClearTuple (s_class s) primary_key (s_generation s) (s_mac s)))"

definition encrypted_tuple ::
  "(bytes \<Rightarrow> arr32) \<Rightarrow> encrypted_table \<Rightarrow> bytes \<Rightarrow> bytes \<Rightarrow> (state_tuple, codec_error) result" where
  "encrypted_tuple hash table primary_key header_nonce_ciphertext =
     rbind (validate_state_key primary_key) (\<lambda>_.
       Ok (EncryptedTuple table primary_key (hash header_nonce_ciphertext)))"

primrec state_tuple_identity :: "state_tuple \<Rightarrow> state_identity" where
  "state_tuple_identity (ClearTuple class primary_key _ _) = ClearId class primary_key"
| "state_tuple_identity (EncryptedTuple table primary_key _) = EncryptedId table primary_key"

definition state_tuple_validate :: "state_tuple \<Rightarrow> (unit, codec_error) result" where
  "state_tuple_validate t = validate_state_key (st_key t)"

primrec encode_for_digest :: "state_tuple \<Rightarrow> bytes \<Rightarrow> (bytes, codec_error) result" where
  "encode_for_digest (ClearTuple class primary_key generation tag) out =
     rbind (enc_bytes primary_key MAX_STATE_KEY (enc_u16 (class_code class) (enc_u8 0 out))) (\<lambda>out.
       Ok (enc_fixed (be_bytes 32 tag) (enc_u64 generation out)))"
| "encode_for_digest (EncryptedTuple table primary_key record_digest) out =
     rbind (enc_bytes primary_key MAX_STATE_KEY (enc_u16 (encrypted_table_code table) (enc_u8 1 out))) (\<lambda>out.
       Ok (enc_fixed (be_bytes 32 record_digest) out))"

definition canonical_bytes :: "state_tuple \<Rightarrow> (bytes, codec_error) result" where
  "canonical_bytes t = rbind (encode_for_digest t (enc_version 1)) (\<lambda>out. Ok (enc_finish out))"

text \<open>The body of \<open>decode_canonical\<close> up to \<open>finish\<close>.\<close>

definition dec_state_tuple :: "state_tuple dec" where
  "dec_state_tuple = dbind dec_u8 (\<lambda>tag.
     if tag = 0 then
       dbind dec_u16 (\<lambda>code. dbind (dlift (class_from_code code)) (\<lambda>class.
       dbind (dec_bytes MAX_STATE_KEY) (\<lambda>primary_key.
       dbind (dlift (validate_state_key primary_key)) (\<lambda>_.
       dbind dec_u64 (\<lambda>generation.
       dbind (dec_fixed 32) (\<lambda>tag.
         dret (ClearTuple class primary_key generation tag)))))))
     else if tag = 1 then
       dbind dec_u16 (\<lambda>code. dbind (dlift (encrypted_table_from_code code)) (\<lambda>table.
       dbind (dec_bytes MAX_STATE_KEY) (\<lambda>primary_key.
       dbind (dlift (validate_state_key primary_key)) (\<lambda>_.
       dbind (dec_fixed 32) (\<lambda>record_digest.
         dret (EncryptedTuple table primary_key record_digest))))))
     else dfail Invalid)"

definition decode_canonical :: "bytes \<Rightarrow> (state_tuple, codec_error) result" where
  "decode_canonical bs = run_dec 1 bs (
     dbind dec_state_tuple (\<lambda>value. dbind dec_finish (\<lambda>_. dret value)))"

section \<open>The digest of a state\<close>

abbreviation (input) MAX_STATE_TUPLES :: nat where "MAX_STATE_TUPLES \<equiv> 1000000"
abbreviation (input) MAX_STATE_DELTAS :: nat where "MAX_STATE_DELTAS \<equiv> 4096"
abbreviation (input) MAX_STATE_TUPLE_BYTES :: nat where "MAX_STATE_TUPLE_BYTES \<equiv> 4224"

text \<open>Collecting an iterator into a \<open>BTreeSet\<close>.\<close>

definition bs_collect :: "'a::linorder list \<Rightarrow> 'a list" where
  "bs_collect xs = foldl (\<lambda>acc x. bs_insert x acc) [] xs"

primrec collect_tuples ::
  "state_tuple list \<Rightarrow> state_tuple list \<Rightarrow> (state_tuple list, codec_error) result" where
  "collect_tuples [] collected = Ok collected"
| "collect_tuples (tuple # tuples) collected =
     (if length collected \<ge> MAX_STATE_TUPLES then Err Limit
      else rbind (state_tuple_validate tuple) (\<lambda>_. collect_tuples tuples (collected @ [tuple])))"

primrec encode_tuples :: "state_tuple list \<Rightarrow> bytes \<Rightarrow> (bytes, codec_error) result" where
  "encode_tuples [] out = Ok out"
| "encode_tuples (tuple # tuples) out =
     rbind (encode_for_digest tuple out) (\<lambda>out. encode_tuples tuples out)"

text \<open>The message that \<open>compute\<close> hashes, and the digest.\<close>

definition state_digest_message :: "state_tuple list \<Rightarrow> (bytes, codec_error) result" where
  "state_digest_message tuples =
     rbind (collect_tuples tuples []) (\<lambda>collected.
       let sorted = bs_collect collected
       in if length sorted \<noteq> length collected then Err Invalid
          else if \<not> distinct (map state_tuple_identity sorted) then Err Invalid
          else rbind (encode_tuples sorted (enc_u32 (word_of_nat (length sorted)) (enc_version 1))) (\<lambda>encoded.
            Ok (str_bytes ''ops-light-secrets-server.state-digest.v1'' @ [0] @ enc_finish encoded)))"

definition state_digest_compute ::
  "(bytes \<Rightarrow> arr32) \<Rightarrow> state_tuple list \<Rightarrow> (arr32, codec_error) result" where
  "state_digest_compute hash tuples =
     rbind (state_digest_message tuples) (\<lambda>message. Ok (hash message))"

section \<open>Deltas\<close>

record state_delta =
  sd_before :: "state_tuple option"
  sd_after :: "state_tuple option"

definition delta_replace :: "state_tuple \<Rightarrow> state_tuple \<Rightarrow> (state_delta, codec_error) result" where
  "delta_replace before after =
     rbind (state_tuple_validate before) (\<lambda>_.
     rbind (state_tuple_validate after) (\<lambda>_.
       if state_tuple_identity before \<noteq> state_tuple_identity after \<or> before = after
       then Err Invalid
       else Ok \<lparr>sd_before = Some before, sd_after = Some after\<rparr>))"

definition delta_delete :: "state_tuple \<Rightarrow> state_delta" where
  "delta_delete before = \<lparr>sd_before = Some before, sd_after = None\<rparr>"

definition delta_insert :: "state_tuple \<Rightarrow> state_delta" where
  "delta_insert after = \<lparr>sd_before = None, sd_after = Some after\<rparr>"

text \<open>A delta always has one side; \<open>expect\<close> would panic otherwise, which is \<open>None\<close> here.\<close>

definition delta_identity :: "state_delta \<Rightarrow> state_identity option" where
  "delta_identity d =
     (case sd_before d of
        Some t \<Rightarrow> Some (state_tuple_identity t)
      | None \<Rightarrow> map_option state_tuple_identity (sd_after d))"

definition validate_side :: "state_tuple option \<Rightarrow> (unit, codec_error) result" where
  "validate_side side = (case side of None \<Rightarrow> Ok () | Some t \<Rightarrow> state_tuple_validate t)"

primrec bound_deltas :: "state_delta list \<Rightarrow> state_delta list \<Rightarrow> (state_delta list, codec_error) result" where
  "bound_deltas [] bounded = Ok bounded"
| "bound_deltas (delta # deltas) bounded =
     (if length bounded \<ge> MAX_STATE_DELTAS then Err Limit
      else rbind (validate_side (sd_before delta)) (\<lambda>_.
           rbind (validate_side (sd_after delta)) (\<lambda>_.
             bound_deltas deltas (bounded @ [delta]))))"

fun adjacent_equal :: "'a list \<Rightarrow> bool" where
  "adjacent_equal (x # y # xs) \<longleftrightarrow> x = y \<or> adjacent_equal (y # xs)"
| "adjacent_equal _ \<longleftrightarrow> False"

definition delta_set_new :: "state_delta list \<Rightarrow> (state_delta list, codec_error) result" where
  "delta_set_new deltas =
     rbind (bound_deltas deltas []) (\<lambda>bounded.
       if bounded = [] then Err Limit
       else
         let bounded = sort_key delta_identity bounded
         in if adjacent_equal (map delta_identity bounded) then Err Invalid else Ok bounded)"

primrec index_tuples ::
  "state_tuple list \<Rightarrow> (state_identity \<times> state_tuple) list \<Rightarrow>
     ((state_identity \<times> state_tuple) list, codec_error) result" where
  "index_tuples [] tuples = Ok tuples"
| "index_tuples (tuple # current) tuples =
     (if bt_contains tuples (state_tuple_identity tuple) then Err Invalid
      else index_tuples current (bt_insert (state_tuple_identity tuple) tuple tuples))"

text \<open>
  One round of \<open>reverse_apply\<close>: the current tuple must be the one the delta left behind; it is
  taken out and the one before the delta is put back.
\<close>

definition reverse_delta ::
  "state_delta \<Rightarrow> (state_identity \<times> state_tuple) list \<Rightarrow>
     ((state_identity \<times> state_tuple) list, codec_error) result" where
  "reverse_delta delta tuples =
     (case delta_identity delta of
        None \<Rightarrow> Err Invalid
      | Some identity \<Rightarrow>
          rbind (case sd_after delta of
                   Some after \<Rightarrow> if bt_get tuples identity = Some after
                                then Ok (bt_remove identity tuples) else Err Invalid
                 | None \<Rightarrow> if \<not> bt_contains tuples identity then Ok tuples else Err Invalid) (\<lambda>tuples.
          case sd_before delta of
            Some before \<Rightarrow> Ok (bt_insert identity before tuples)
          | None \<Rightarrow> Ok tuples))"

primrec reverse_deltas ::
  "state_delta list \<Rightarrow> (state_identity \<times> state_tuple) list \<Rightarrow>
     ((state_identity \<times> state_tuple) list, codec_error) result" where
  "reverse_deltas [] tuples = Ok tuples"
| "reverse_deltas (delta # deltas) tuples =
     rbind (reverse_delta delta tuples) (\<lambda>tuples. reverse_deltas deltas tuples)"

definition reverse_apply ::
  "state_delta list \<Rightarrow> state_tuple list \<Rightarrow> (state_tuple list, codec_error) result" where
  "reverse_apply deltas current =
     rbind (index_tuples current []) (\<lambda>tuples.
     rbind (reverse_deltas (rev deltas) tuples) (\<lambda>tuples.
       Ok (bs_collect (map snd tuples))))"

definition encode_optional_tuple :: "state_tuple option \<Rightarrow> bytes \<Rightarrow> (bytes, codec_error) result" where
  "encode_optional_tuple tuple out =
     (case tuple of
        None \<Rightarrow> Ok (enc_u8 0 out)
      | Some tuple \<Rightarrow>
          rbind (canonical_bytes tuple) (\<lambda>bs. enc_bytes bs MAX_STATE_TUPLE_BYTES (enc_u8 1 out)))"

definition decode_optional_tuple :: "state_tuple option dec" where
  "decode_optional_tuple = dec_option (
     dbind (dec_bytes MAX_STATE_TUPLE_BYTES) (\<lambda>bs. dlift (decode_canonical bs)))"

primrec encode_deltas :: "state_delta list \<Rightarrow> bytes \<Rightarrow> (bytes, codec_error) result" where
  "encode_deltas [] out = Ok out"
| "encode_deltas (delta # deltas) out =
     rbind (encode_optional_tuple (sd_before delta) out) (\<lambda>out.
     rbind (encode_optional_tuple (sd_after delta) out) (\<lambda>out.
       encode_deltas deltas out))"

definition delta_set_encode :: "state_delta list \<Rightarrow> (bytes, codec_error) result" where
  "delta_set_encode deltas =
     rbind (encode_deltas deltas (enc_u32 (word_of_nat (length deltas)) (enc_version 1))) (\<lambda>out.
       Ok (enc_finish out))"

primrec decode_deltas :: "nat \<Rightarrow> state_identity option \<Rightarrow> state_delta list dec" where
  "decode_deltas 0 previous = dret []"
| "decode_deltas (Suc n) previous =
     dbind decode_optional_tuple (\<lambda>before.
     dbind decode_optional_tuple (\<lambda>after.
     dbind (dcheck (\<not> (before = None \<and> after = None)) Invalid) (\<lambda>_.
     dbind (dcheck (\<not> (map_option state_tuple_identity before \<noteq> map_option state_tuple_identity after
                       \<and> before \<noteq> None \<and> after \<noteq> None)) Invalid) (\<lambda>_.
     let delta = \<lparr>sd_before = before, sd_after = after\<rparr>;
         identity = delta_identity delta
     in dbind (dcheck (\<not> (previous \<noteq> None \<and> previous \<ge> identity)) Invalid) (\<lambda>_.
        dbind (decode_deltas n identity) (\<lambda>deltas. dret (delta # deltas)))))))"

definition delta_set_decode :: "bytes \<Rightarrow> (state_delta list, codec_error) result" where
  "delta_set_decode bs = run_dec 1 bs (
     dbind dec_u32 (\<lambda>count.
     dbind (dcheck (\<not> (unat count = 0 \<or> unat count > MAX_STATE_DELTAS)) Limit) (\<lambda>_.
     dbind (decode_deltas (unat count) None) (\<lambda>deltas.
     dbind dec_finish (\<lambda>_. dret deltas)))))"

section \<open>Whole-state transitions\<close>

datatype bulk_transition_kind =
    RecordRewrite | MetadataRemac | RestoreTransition | MigrationTransition | CompactionTransition

primrec bulk_transition_kind_code :: "bulk_transition_kind \<Rightarrow> u8" where
  "bulk_transition_kind_code RecordRewrite = 1"
| "bulk_transition_kind_code MetadataRemac = 2"
| "bulk_transition_kind_code RestoreTransition = 3"
| "bulk_transition_kind_code MigrationTransition = 4"
| "bulk_transition_kind_code CompactionTransition = 5"

definition bulk_transition_kind_decode :: "u8 \<Rightarrow> (bulk_transition_kind, codec_error) result" where
  "bulk_transition_kind_decode b =
     (if b = 1 then Ok RecordRewrite else if b = 2 then Ok MetadataRemac
      else if b = 3 then Ok RestoreTransition else if b = 4 then Ok MigrationTransition
      else if b = 5 then Ok CompactionTransition else Err Invalid)"

lemma bulk_transition_kind_decode_Ok [simp]:
  "bulk_transition_kind_decode b = Ok k \<longleftrightarrow> b = bulk_transition_kind_code k"
  by (cases k) (auto simp: bulk_transition_kind_decode_def)

record whole_state_transition =
  wt_kind :: bulk_transition_kind
  wt_operation_id :: bytes
  wt_before :: arr32
  wt_after :: arr32

definition whole_state_transition_encode :: "whole_state_transition \<Rightarrow> (bytes, codec_error) result" where
  "whole_state_transition_encode w =
     (if wt_operation_id w = [] \<or> wt_before w = wt_after w then Err Invalid
      else
        let out = enc_version 1;
            out = enc_u8 (bulk_transition_kind_code (wt_kind w)) out
        in rbind (enc_bytes (wt_operation_id w) 1024 out) (\<lambda>out.
           let out = enc_fixed (be_bytes 32 (wt_before w)) out;
               out = enc_fixed (be_bytes 32 (wt_after w)) out
           in Ok (enc_finish out)))"

definition whole_state_transition_decode :: "bytes \<Rightarrow> (whole_state_transition, codec_error) result" where
  "whole_state_transition_decode bs = run_dec 1 bs (
     dbind dec_u8 (\<lambda>b. dbind (dlift (bulk_transition_kind_decode b)) (\<lambda>kind.
     dbind (dec_bytes 1024) (\<lambda>operation_id.
     dbind (dec_fixed 32) (\<lambda>before.
     dbind (dec_fixed 32) (\<lambda>after.
     dbind dec_finish (\<lambda>_.
     dbind (dcheck (\<not> (operation_id = [] \<or> before = after)) Invalid) (\<lambda>_.
       dret \<lparr>wt_kind = kind, wt_operation_id = operation_id, wt_before = before,
             wt_after = after\<rparr>))))))))"

section \<open>Codecs\<close>

definition bytes_field :: "bytes \<Rightarrow> bytes" where
  "bytes_field v = be_bytes 4 (word_of_nat (length v) :: u32) @ v"

primrec tuple_wire :: "state_tuple \<Rightarrow> bytes" where
  "tuple_wire (ClearTuple c k g tag) =
     0 # be_bytes 2 (class_code c) @ bytes_field k @ be_bytes 8 g @ be_bytes 32 tag"
| "tuple_wire (EncryptedTuple t k d) =
     1 # be_bytes 2 (encrypted_table_code t) @ bytes_field k @ be_bytes 32 d"

definition tuple_ok :: "state_tuple \<Rightarrow> bool" where
  "tuple_ok t \<longleftrightarrow> state_tuple_validate t = Ok ()"

lemma tuple_ok_iff: "tuple_ok t \<longleftrightarrow> st_key t \<noteq> [] \<and> length (st_key t) \<le> MAX_STATE_KEY"
  by (auto simp: tuple_ok_def state_tuple_validate_def validate_state_key_def)

lemma encode_for_digest_Ok:
  "encode_for_digest t out = Ok out' \<longleftrightarrow>
     length (st_key t) \<le> MAX_STATE_KEY \<and> out' = out @ tuple_wire t"
  by (cases t) (auto simp: codec_simps bytes_field_def)

lemma canonical_bytes_Ok:
  "canonical_bytes t = Ok bs \<longleftrightarrow> length (st_key t) \<le> MAX_STATE_KEY \<and> bs = 1 # tuple_wire t"
  by (auto simp: canonical_bytes_def encode_for_digest_Ok codec_simps)

lemma length_tuple_wire: "length (tuple_wire t) \<le> length (st_key t) + 47"
  by (cases t) (auto simp: bytes_field_def)

lemma reads_dec_state_tuple:
  assumes "tuple_ok t"
  shows "reads dec_state_tuple (tuple_wire t) t"
  using assms
  by (cases t) (auto simp: dec_state_tuple_def bytes_field_def class_from_code_Ok tuple_ok_iff
      validate_state_key_def intro!: reads_rules)

lemma trace_dec_state_tuple:
  "dec_state_tuple d = Ok (t, d') \<Longrightarrow> consumed d0 ws d \<Longrightarrow>
     consumed d0 (ws @ tuple_wire t) d' \<and> tuple_ok t"
  by (unfold dec_state_tuple_def, clarsimp split: if_splits;
      ((drule (1) trace_dests | erule conjE)+,
       auto simp: bytes_field_def class_from_code_Ok tuple_ok_iff validate_state_key_def split: if_splits))

interpretation state_tuple_codec: strict_canonical canonical_bytes decode_canonical tuple_ok
proof unfold_locales
  fix t bs
  assume "tuple_ok t" "canonical_bytes t = Ok bs" "vec_ok bs"
  then show "decode_canonical bs = Ok t"
    by (auto simp: canonical_bytes_Ok decode_canonical_def
        intro!: run_dec_accepts accepts_bind_end [OF reads_dec_state_tuple] accepts_intros)
next
  fix t bs
  assume dec: "decode_canonical bs = Ok t"
  show "tuple_ok t \<and> canonical_bytes t = Ok bs"
    by (insert dec, unfold decode_canonical_def, elim trace_start, clarsimp,
        (drule (1) trace_dec_state_tuple | drule (2) trace_finish | erule conjE)+,
        auto simp: canonical_bytes_Ok tuple_ok_iff)
qed

interpretation whole_state_transition_codec: strict_canonical whole_state_transition_encode
  whole_state_transition_decode "\<lambda>_. True"
proof unfold_locales
  fix w bs
  assume "whole_state_transition_encode w = Ok bs" "vec_ok bs"
  then show "whole_state_transition_decode bs = Ok w"
    by (cases w) (auto simp: whole_state_transition_encode_def whole_state_transition_decode_def
        codec_simps split: if_splits intro!: run_dec_accepts accepts_intros)
next
  fix w bs
  assume dec: "whole_state_transition_decode bs = Ok w"
  show "True \<and> whole_state_transition_encode w = Ok bs"
    by (insert dec, unfold whole_state_transition_decode_def, elim trace_start, clarsimp,
        (drule (1) trace_dests | drule (2) trace_finish | erule conjE)+,
        auto simp: whole_state_transition_encode_def codec_simps)
qed

definition side_wire :: "state_tuple option \<Rightarrow> bytes" where
  "side_wire = option_wire (\<lambda>t. bytes_field (1 # tuple_wire t))"

definition delta_wire :: "state_delta \<Rightarrow> bytes" where
  "delta_wire d = side_wire (sd_before d) @ side_wire (sd_after d)"

text \<open>What the constructors of a delta establish.\<close>

definition delta_ok :: "state_delta \<Rightarrow> bool" where
  "delta_ok d \<longleftrightarrow> pred_option tuple_ok (sd_before d) \<and> pred_option tuple_ok (sd_after d)
     \<and> \<not> (sd_before d = None \<and> sd_after d = None)
     \<and> \<not> (map_option state_tuple_identity (sd_before d) \<noteq> map_option state_tuple_identity (sd_after d)
          \<and> sd_before d \<noteq> None \<and> sd_after d \<noteq> None)"

definition delta_set_ok :: "state_delta list \<Rightarrow> bool" where
  "delta_set_ok ds \<longleftrightarrow> ds \<noteq> [] \<and> length ds \<le> MAX_STATE_DELTAS \<and> (\<forall>d\<in>set ds. delta_ok d)
     \<and> sorted_wrt (<) (map delta_identity ds)"

lemma delta_ok_identity: "delta_ok d \<Longrightarrow> \<exists>i. delta_identity d = Some i"
  by (auto simp: delta_ok_def delta_identity_def split: option.splits)

lemma encode_optional_tuple_Ok:
  "encode_optional_tuple v out = Ok out' \<longleftrightarrow>
     pred_option (\<lambda>t. length (st_key t) \<le> MAX_STATE_KEY) v \<and> out' = out @ side_wire v"
proof (cases v)
  case (Some t)
  then show ?thesis
    using length_tuple_wire [of t]
    by (auto simp: encode_optional_tuple_def side_wire_def canonical_bytes_Ok codec_simps bytes_field_def)
qed (auto simp: encode_optional_tuple_def side_wire_def codec_simps)

lemma encode_deltas_Ok:
  "encode_deltas ds out = Ok out' \<longleftrightarrow>
     (\<forall>d\<in>set ds. pred_option (\<lambda>t. length (st_key t) \<le> MAX_STATE_KEY) (sd_before d)
        \<and> pred_option (\<lambda>t. length (st_key t) \<le> MAX_STATE_KEY) (sd_after d))
     \<and> out' = out @ concat (map delta_wire ds)"
  by (induction ds arbitrary: out) (auto simp: encode_optional_tuple_Ok delta_wire_def)

lemma reads_decode_optional_tuple:
  assumes "pred_option tuple_ok v"
  shows "reads decode_optional_tuple (side_wire v) v"
  unfolding decode_optional_tuple_def side_wire_def
proof (rule reads_option)
  fix t
  assume "v = Some t"
  with assms have ok: "tuple_ok t" by simp
  then have len: "length (1 # tuple_wire t) \<le> 4224"
    using length_tuple_wire [of t] by (simp add: tuple_ok_iff)
  then have "decode_canonical (1 # tuple_wire t) = Ok t"
    using ok by (intro state_tuple_codec.enc_dec) (auto simp: canonical_bytes_Ok tuple_ok_iff vec_ok_def)
  then have "dlift (decode_canonical (1 # tuple_wire t)) = dret t"
    by (simp add: dlift_def dret_def fun_eq_iff)
  then show "reads (dbind (dec_bytes MAX_STATE_TUPLE_BYTES) (\<lambda>bs. dlift (decode_canonical bs)))
      (bytes_field (1 # tuple_wire t)) t"
    unfolding bytes_field_def using len
    by (intro reads_bind_ret [OF reads_dec_bytes]) auto
qed

lemma trace_decode_optional_tuple:
  "decode_optional_tuple d = Ok (v, d') \<Longrightarrow> consumed d0 ws d \<Longrightarrow>
     consumed d0 (ws @ side_wire v) d' \<and> pred_option tuple_ok v"
  unfolding decode_optional_tuple_def side_wire_def
  by (rule trace_option [where P = tuple_ok])
    (auto simp: bytes_field_def canonical_bytes_Ok dest!: trace_bytes state_tuple_codec.dec_enc)

lemma reads_decode_deltas:
  assumes "\<forall>d\<in>set ds. delta_ok d" and "sorted_wrt (<) (previous # map delta_identity ds)"
  shows "reads (decode_deltas (length ds) previous) (concat (map delta_wire ds)) ds"
  using assms
proof (induction ds arbitrary: previous)
  case Nil
  then show ?case by (simp add: reads_dret)
next
  case (Cons d ds)
  obtain b a where d: "d = \<lparr>sd_before = b, sd_after = a\<rparr>" by (cases d)
  have rest: "reads (decode_deltas (length ds) (delta_identity d)) (concat (map delta_wire ds)) ds"
    using Cons by (intro Cons.IH) auto
  have ok: "delta_ok d" "previous < delta_identity d"
    using Cons.prems by auto
  then have sides: "reads decode_optional_tuple (side_wire b) b" "reads decode_optional_tuple (side_wire a) a"
    by (auto simp: delta_ok_def d intro: reads_decode_optional_tuple)
  have "reads (decode_deltas (Suc (length ds)) previous)
      (side_wire b @ side_wire a @ concat (map delta_wire ds)) (d # ds)"
    unfolding decode_deltas.simps Let_def
    by (intro reads_bind [OF sides(1)] reads_bind [OF sides(2)] reads_check
        reads_bind_ret [OF rest [unfolded d]])
      (use ok in \<open>simp_all add: d delta_ok_def not_le\<close>)
  then show ?case using delta_wire_def [of d] by (simp add: d del: decode_deltas.simps)
qed

lemma trace_decode_deltas:
  assumes "decode_deltas n previous d = Ok (ds, d')" and "consumed d0 ws d"
  shows "consumed d0 (ws @ concat (map delta_wire ds)) d' \<and> length ds = n
    \<and> (\<forall>x\<in>set ds. delta_ok x) \<and> sorted_wrt (<) (previous # map delta_identity ds)"
  using assms
proof (induction n arbitrary: previous d ds ws)
  case 0
  then show ?case by simp
next
  case (Suc n)
  then obtain b d1 a d2 rest where b: "decode_optional_tuple d = Ok (b, d1)"
    and a: "decode_optional_tuple d1 = Ok (a, d2)"
    and checks: "\<not> (b = None \<and> a = None)"
      "\<not> (map_option state_tuple_identity b \<noteq> map_option state_tuple_identity a \<and> b \<noteq> None \<and> a \<noteq> None)"
    and lt: "\<not> (previous \<noteq> None \<and> previous \<ge> delta_identity \<lparr>sd_before = b, sd_after = a\<rparr>)"
    and rest: "decode_deltas n (delta_identity \<lparr>sd_before = b, sd_after = a\<rparr>) d2 = Ok (rest, d')"
    and ds: "ds = \<lparr>sd_before = b, sd_after = a\<rparr> # rest"
    unfolding decode_deltas.simps Let_def
    by (simp only: dbind_eq_Ok dcheck_eq_Ok dret_eq_Ok) blast
  let ?x = "\<lparr>sd_before = b, sd_after = a\<rparr>"
  note tb = trace_decode_optional_tuple [OF b Suc.prems(2)]
  note ta = trace_decode_optional_tuple [OF a conjunct1 [OF tb]]
  have ok: "delta_ok ?x"
    using tb ta checks by (simp add: delta_ok_def)
  have less: "previous < delta_identity ?x"
    using delta_ok_identity [OF ok] lt by (cases previous) (auto simp: not_le)
  have c: "consumed d0 (ws @ delta_wire ?x) d2"
    using ta by (simp add: delta_wire_def)
  from Suc.IH [OF rest c] less ok ds show ?case
    by (fastforce intro: less_trans)
qed

interpretation delta_set_codec: strict_canonical delta_set_encode delta_set_decode delta_set_ok
proof unfold_locales
  fix ds bs
  assume asms: "delta_set_ok ds" "delta_set_encode ds = Ok bs" "vec_ok bs"
  have rd: "reads (decode_deltas (length ds) None) (concat (map delta_wire ds)) ds"
    using asms(1) delta_ok_identity
    by (intro reads_decode_deltas) (auto simp: delta_set_ok_def, fastforce)
  show "delta_set_decode bs = Ok ds"
    using asms
    by (auto simp: delta_set_encode_def delta_set_decode_def encode_deltas_Ok delta_set_ok_def
        unat_len_u32 codec_simps intro!: run_dec_accepts accepts_intros accepts_bind_end [OF rd])
next
  fix ds bs
  assume dec: "delta_set_decode bs = Ok ds"
  show "delta_set_ok ds \<and> delta_set_encode ds = Ok bs"
    by (insert dec, unfold delta_set_decode_def, elim trace_start, clarsimp,
        (drule (1) trace_u32 trace_decode_deltas | drule (2) trace_finish | erule conjE)+,
        auto simp: delta_set_encode_def encode_deltas_Ok delta_set_ok_def delta_ok_def tuple_ok_iff
          codec_simps elim!: option.pred_mono_strong)
qed

section \<open>What the digest depends on\<close>

lemma foldl_bs_insert:
  "bset acc \<Longrightarrow> bset (foldl (\<lambda>acc x. bs_insert x acc) acc xs)
     \<and> set (foldl (\<lambda>acc x. bs_insert x acc) acc xs) = set acc \<union> set xs"
  by (induction xs arbitrary: acc) auto

lemma bset_bs_collect [simp]: "bset (bs_collect xs)"
  and set_bs_collect [simp]: "set (bs_collect xs) = set xs"
  using foldl_bs_insert [of "[]" xs] by (auto simp: bs_collect_def)

lemma bs_collect_bset: "bset xs \<Longrightarrow> bs_collect xs = xs"
  by (rule bset_eq) auto

lemma bs_collect_cong: "set xs = set ys \<Longrightarrow> bs_collect xs = bs_collect ys"
  by (rule bset_eq) auto

lemma length_bs_collect: "length (bs_collect xs) = length xs \<longleftrightarrow> distinct xs"
proof -
  have "length (bs_collect xs) = card (set xs)"
    using bset_bs_collect [of xs] by (metis bset_iff distinct_card set_bs_collect)
  then show ?thesis
    by (metis card_distinct distinct_card)
qed

lemma distinct_bs_collect [simp]: "distinct (bs_collect xs)"
  using bset_bs_collect [of xs] by (simp add: bset_iff)

lemma length_tuple_wire_ok: "tuple_ok t \<Longrightarrow> length (tuple_wire t) \<le> 4143"
  using length_tuple_wire [of t] by (simp add: tuple_ok_iff)

lemma state_tuple_validate_cases: "state_tuple_validate t = Ok () \<or> state_tuple_validate t = Err Limit"
  by (auto simp: state_tuple_validate_def validate_state_key_def)

lemma collect_tuples_eq:
  "length acc \<le> MAX_STATE_TUPLES \<Longrightarrow> collect_tuples ts acc =
     (if (\<forall>t\<in>set ts. tuple_ok t) \<and> length acc + length ts \<le> MAX_STATE_TUPLES
      then Ok (acc @ ts) else Err Limit)"
proof (induction ts arbitrary: acc)
  case (Cons t ts)
  then show ?case
    using state_tuple_validate_cases [of t] by (auto simp: tuple_ok_def)
qed simp

lemma encode_tuples_Ok:
  "encode_tuples ts out = Ok out' \<longleftrightarrow>
     (\<forall>t\<in>set ts. length (st_key t) \<le> MAX_STATE_KEY) \<and> out' = out @ concat (map tuple_wire ts)"
  by (induction ts arbitrary: out) (auto simp: encode_for_digest_Ok)

lemma state_digest_message_eq:
  "state_digest_message ts =
     (if \<not> ((\<forall>t\<in>set ts. tuple_ok t) \<and> length ts \<le> MAX_STATE_TUPLES) then Err Limit
      else if \<not> distinct (map state_tuple_identity ts) then Err Invalid
      else Ok (str_bytes ''ops-light-secrets-server.state-digest.v1'' @ [0] @
             1 # be_bytes 4 (word_of_nat (length ts) :: u32) @ concat (map tuple_wire (bs_collect ts))))"
proof -
  have enc: "encode_tuples (bs_collect ts) out = Ok (out @ concat (map tuple_wire (bs_collect ts)))"
    if "\<forall>t\<in>set ts. tuple_ok t" for out
    using that by (auto simp: encode_tuples_Ok tuple_ok_iff)
  show ?thesis
    using enc length_bs_collect [of ts]
    by (auto simp: state_digest_message_def collect_tuples_eq Let_def distinct_map codec_simps)
qed

lemma tuple_wire_prefix:
  assumes "tuple_ok t" and "tuple_ok u" and "vec_ok (tuple_wire t @ xs)"
    and "tuple_wire t @ xs = tuple_wire u @ ys"
  shows "t = u \<and> xs = ys"
  using reads_dec_state_tuple [OF assms(1), unfolded reads_def, rule_format, of "[]" xs]
    reads_dec_state_tuple [OF assms(2), unfolded reads_def, rule_format, of "[]" ys] assms(3,4)
  by (auto simp: append_eq_append_conv)

lemma tuple_wires_inject:
  assumes "length ts = length us" and "\<forall>t\<in>set ts. tuple_ok t" and "\<forall>u\<in>set us. tuple_ok u"
    and "vec_ok (concat (map tuple_wire ts))"
    and "concat (map tuple_wire ts) = concat (map tuple_wire us)"
  shows "ts = us"
  using assms
proof (induction ts us rule: list_induct2)
  case (Cons t ts u us)
  then have "t = u \<and> concat (map tuple_wire ts) = concat (map tuple_wire us)"
    by (intro tuple_wire_prefix) auto
  with Cons show ?case by (auto simp: vec_ok_def)
qed simp

lemma length_concat_le: "(\<forall>x\<in>set xs. length (w x) \<le> n) \<Longrightarrow> length (concat (map w xs)) \<le> n * length xs"
  by (induction xs) auto

lemma state_digest_message_inject:
  assumes "state_digest_message ts = Ok m" and "state_digest_message us = Ok m"
  shows "set ts = set us"
proof -
  have ok: "\<forall>t\<in>set ts. tuple_ok t" "\<forall>u\<in>set us. tuple_ok u" "length ts \<le> MAX_STATE_TUPLES"
      "length us \<le> MAX_STATE_TUPLES" "distinct ts" "distinct us"
    using assms by (auto simp: state_digest_message_eq distinct_map split: if_splits)
  have len: "length ts = length us"
    and wires: "concat (map tuple_wire (bs_collect ts)) = concat (map tuple_wire (bs_collect us))"
    using assms ok(3,4)
    by (auto simp: state_digest_message_eq be_bytes_inject append_eq_append_conv word_of_nat_eq_iff
        take_bit_nat_eq_self split: if_splits)
  have "length (concat (map tuple_wire (bs_collect ts))) \<le> 4143 * length (bs_collect ts)"
    using ok(1) length_tuple_wire_ok by (intro length_concat_le) auto
  then have "vec_ok (concat (map tuple_wire (bs_collect ts)))"
    using ok(3,5) length_bs_collect [of ts] by (simp add: vec_ok_def)
  then have "bs_collect ts = bs_collect us"
    using ok len wires length_bs_collect [of ts] length_bs_collect [of us]
    by (intro tuple_wires_inject) auto
  then show ?thesis
    by (metis set_bs_collect)
qed

section \<open>Reversing a transition\<close>

text \<open>
  The transition a delta set describes: every tuple a delta names is replaced by the tuple after
  it. \<open>fits\<close> says that a state is the one the deltas were recorded against.
\<close>

definition forward_apply :: "state_delta list \<Rightarrow> state_tuple list \<Rightarrow> state_tuple list" where
  "forward_apply ds S =
     bs_collect (filter (\<lambda>t. Some (state_tuple_identity t) \<notin> delta_identity ` set ds) S
       @ List.map_filter sd_after ds)"

definition fits :: "state_delta list \<Rightarrow> state_tuple list \<Rightarrow> bool" where
  "fits ds S \<longleftrightarrow> (\<forall>d\<in>set ds. \<forall>t. sd_before d = Some t \<longleftrightarrow>
     t \<in> set S \<and> Some (state_tuple_identity t) = delta_identity d)"

definition state_wf :: "state_tuple list \<Rightarrow> bool" where
  "state_wf S \<longleftrightarrow> bset S \<and> distinct (map state_tuple_identity S)"

definition indexes :: "(state_identity \<times> state_tuple) list \<Rightarrow> state_tuple list \<Rightarrow> bool" where
  "indexes m S \<longleftrightarrow> btree m \<and> (\<forall>i t. bt_get m i = Some t \<longleftrightarrow> t \<in> set S \<and> state_tuple_identity t = i)"

lemma index_tuples_ok:
  assumes "distinct (map state_tuple_identity (done @ ts))" and "indexes m done"
  shows "\<exists>m'. index_tuples ts m = Ok m' \<and> indexes m' (done @ ts)"
  using assms
proof (induction ts arbitrary: m "done")
  case (Cons t ts)
  have notin: "state_tuple_identity t \<notin> state_tuple_identity ` set done"
    using Cons.prems(1) by auto
  then have fresh: "\<not> bt_contains m (state_tuple_identity t)"
    using Cons.prems(2) unfolding bt_contains_def indexes_def by (metis imageI option.exhaust)
  have "indexes (bt_insert (state_tuple_identity t) t m) (done @ [t])"
    using Cons.prems(2) notin by (auto simp: indexes_def bt_get_insert) (metis imageI)
  from Cons.IH [OF _ this] Cons.prems(1) fresh show ?case by auto
qed simp

lemma state_wf_indexed: "state_wf S \<Longrightarrow> \<exists>m. index_tuples S [] = Ok m \<and> indexes m S"
  using index_tuples_ok [of "[]" S "[]"] by (simp add: state_wf_def indexes_def)

lemma indexes_values:
  assumes "indexes m S"
  shows "set (map snd m) = set S"
proof -
  have "\<And>i t. (i, t) \<in> set m \<longleftrightarrow> t \<in> set S \<and> state_tuple_identity t = i"
    using assms bt_get_iff [of m] by (simp add: indexes_def)
  then show ?thesis by force
qed

lemma delta_sides_identity:
  assumes "delta_ok d" and "sd_before d = Some t \<or> sd_after d = Some t"
  shows "delta_identity d = Some (state_tuple_identity t)"
  using assms by (auto simp: delta_ok_def delta_identity_def split: option.splits)

lemma reverse_delta_ok:
  assumes "btree m" and "delta_identity d = Some i"
  shows "is_ok (reverse_delta d m) \<longleftrightarrow> bt_get m i = sd_after d"
    and "reverse_delta d m = Ok m' \<Longrightarrow> btree m' \<and> bt_get m' = (bt_get m)(i := sd_before d)"
  using assms
  by (cases "sd_before d"; cases "sd_after d";
      auto simp: reverse_delta_def is_ok_iff bt_contains_def bt_get_insert bt_get_remove fun_eq_iff
        split: if_splits)+

lemma distinct_identity_other:
  "distinct (map delta_identity (d # ds)) \<Longrightarrow> delta_identity d = Some i \<Longrightarrow> x \<in> set ds \<Longrightarrow>
     delta_identity x \<noteq> Some i"
  by (auto simp: image_iff)

lemma reverse_deltas_sound:
  assumes "btree m" and "distinct (map delta_identity ds)" and "\<forall>d\<in>set ds. delta_ok d"
    and "reverse_deltas ds m = Ok m'"
  shows "btree m'
      \<and> (\<forall>d\<in>set ds. \<forall>i. delta_identity d = Some i \<longrightarrow> bt_get m i = sd_after d \<and> bt_get m' i = sd_before d)
      \<and> (\<forall>i. Some i \<notin> delta_identity ` set ds \<longrightarrow> bt_get m' i = bt_get m i)"
  using assms
proof (induction ds arbitrary: m)
  case (Cons d ds)
  obtain i where i: "delta_identity d = Some i"
    using Cons.prems(3) delta_ok_identity [of d] by auto
  note step = reverse_delta_ok [OF Cons.prems(1) i]
  note other = distinct_identity_other [OF Cons.prems(2) i]
  obtain m1 where m1: "reverse_delta d m = Ok m1" "reverse_deltas ds m1 = Ok m'"
    using Cons.prems(4) by auto
  with step have s: "bt_get m i = sd_after d" "btree m1" "bt_get m1 = (bt_get m)(i := sd_before d)"
    by (auto simp: is_ok_iff)
  from Cons.IH [OF s(2) _ _ m1(2)] Cons.prems(2,3)
  have IH: "btree m'" "\<And>x j. x \<in> set ds \<Longrightarrow> delta_identity x = Some j \<Longrightarrow>
      bt_get m1 j = sd_after x \<and> bt_get m' j = sd_before x"
    "\<And>j. Some j \<notin> delta_identity ` set ds \<Longrightarrow> bt_get m' j = bt_get m1 j"
    by auto
  have "Some i \<notin> delta_identity ` set ds"
    using other by (metis imageE)
  with IH(3) s(3) have m'i: "bt_get m' i = sd_before d" by simp
  show ?case
  proof (intro conjI ballI allI impI)
    fix x j
    assume x: "x \<in> set (d # ds)" "delta_identity x = Some j"
    show "bt_get m j = sd_after x" "bt_get m' j = sd_before x"
      using x i s(1,3) m'i IH(2) [of x j] other [of x] by (auto split: if_splits)
  next
    fix j
    assume "Some j \<notin> delta_identity ` set (d # ds)"
    then show "bt_get m' j = bt_get m j"
      using IH(3) [of j] s(3) i by auto
  qed (fact IH(1))
qed simp

lemma reverse_deltas_complete:
  assumes "btree m" and "distinct (map delta_identity ds)" and "\<forall>d\<in>set ds. delta_ok d"
    and "\<forall>d\<in>set ds. \<forall>i. delta_identity d = Some i \<longrightarrow> bt_get m i = sd_after d"
  shows "is_ok (reverse_deltas ds m)"
  using assms
proof (induction ds arbitrary: m)
  case (Cons d ds)
  obtain i where i: "delta_identity d = Some i"
    using Cons.prems(3) delta_ok_identity [of d] by auto
  note step = reverse_delta_ok [OF Cons.prems(1) i]
  note other = distinct_identity_other [OF Cons.prems(2) i]
  obtain m1 where m1: "reverse_delta d m = Ok m1"
    using Cons.prems(4) step(1) i by (auto simp: is_ok_iff)
  with step have s: "btree m1" "bt_get m1 = (bt_get m)(i := sd_before d)" by auto
  have "is_ok (reverse_deltas ds m1)"
    using Cons.prems(2-4) s other by (intro Cons.IH) auto
  with m1 show ?case by simp
qed simp

lemma forward_apply_mem:
  "t \<in> set (forward_apply ds S) \<longleftrightarrow>
     (t \<in> set S \<and> Some (state_tuple_identity t) \<notin> delta_identity ` set ds)
     \<or> (\<exists>d\<in>set ds. sd_after d = Some t)"
proof -
  have "set (List.map_filter sd_after xs) = {t. \<exists>d\<in>set xs. sd_after d = Some t}" for xs
    by (induction xs) (auto simp: map_filter_simps split: option.splits)
  then show ?thesis by (auto simp: forward_apply_def)
qed

lemma indexes_wf: "indexes m S \<Longrightarrow> bset S \<Longrightarrow> state_wf S"
proof -
  assume m: "indexes m S" and "bset S"
  have "inj_on state_tuple_identity (set S)"
  proof (rule inj_onI)
    fix x y
    assume "x \<in> set S" "y \<in> set S" "state_tuple_identity x = state_tuple_identity y"
    with m have "bt_get m (state_tuple_identity x) = Some x" "bt_get m (state_tuple_identity x) = Some y"
      by (simp_all add: indexes_def)
    then show "x = y" by simp
  qed
  with \<open>bset S\<close> show ?thesis
    by (simp add: state_wf_def distinct_map bset_iff)
qed

lemma forward_apply_inject:
  assumes ok: "\<forall>d\<in>set ds. delta_ok d" and "fits ds S" "fits ds T"
    and "set (forward_apply ds S) = set (forward_apply ds T)" and "t \<in> set S"
  shows "t \<in> set T"
proof (cases "Some (state_tuple_identity t) \<in> delta_identity ` set ds")
  case True
  then show ?thesis using assms(2,3,5) by (auto simp: fits_def)
next
  case False
  then have "t \<in> set (forward_apply ds T)"
    using assms(4,5) forward_apply_mem by blast
  moreover have "\<not> (\<exists>d\<in>set ds. sd_after d = Some t)"
    using False ok delta_sides_identity by (metis imageI)
  ultimately show ?thesis by (auto simp: forward_apply_mem)
qed

lemma reverse_deltas_state:
  assumes ok: "\<forall>d\<in>set ds. delta_ok d" and dist: "distinct (map delta_identity ds)"
    and m: "indexes m C" and bset: "bset C" and rev: "reverse_deltas (rev ds) m = Ok m'"
  defines "S \<equiv> bs_collect (map snd m')"
  shows "state_wf S \<and> fits ds S \<and> forward_apply ds S = C"
proof -
  from reverse_deltas_sound [of m "rev ds" m'] assms
  have m': "btree m'"
    and hit: "\<And>d i. d \<in> set ds \<Longrightarrow> delta_identity d = Some i \<Longrightarrow>
      bt_get m i = sd_after d \<and> bt_get m' i = sd_before d"
    and miss: "\<And>i. Some i \<notin> delta_identity ` set ds \<Longrightarrow> bt_get m' i = bt_get m i"
    by (auto simp: indexes_def rev_map [symmetric])
  have key: "state_tuple_identity t = i" if "bt_get m' i = Some t" for i t
  proof (cases "Some i \<in> delta_identity ` set ds")
    case True
    then obtain d where "d \<in> set ds" "delta_identity d = Some i" by (metis imageE)
    then show ?thesis using hit [of d i] that ok delta_sides_identity [of d t] by simp
  next
    case False
    with that m show ?thesis unfolding indexes_def miss [OF False] by blast
  qed
  have idx: "indexes m' S"
    using m' key bt_get_iff [OF m'] unfolding indexes_def S_def by (force simp: image_iff)
  have fits: "fits ds S"
    using idx hit ok delta_ok_identity unfolding fits_def indexes_def by (metis option.inject)
  have "forward_apply ds S = C"
  proof (rule bset_eq)
    show "bset (forward_apply ds S)" by (simp add: forward_apply_def)
    show "set (forward_apply ds S) = set C"
    proof (intro set_eqI iffI)
      fix t
      let ?i = "state_tuple_identity t"
      assume "t \<in> set (forward_apply ds S)"
      then have "bt_get m ?i = Some t"
        unfolding forward_apply_mem
      proof (elim disjE conjE bexE)
        assume t: "t \<in> set S" "Some ?i \<notin> delta_identity ` set ds"
        from idx t(1) have "bt_get m' ?i = Some t" by (simp add: indexes_def)
        then show ?thesis unfolding miss [OF t(2)] .
      next
        fix d
        assume "d \<in> set ds" "sd_after d = Some t"
        with hit [of d ?i] ok delta_sides_identity [of d t] show ?thesis by simp
      qed
      with m show "t \<in> set C" by (simp add: indexes_def)
    next
      fix t
      assume "t \<in> set C"
      then have t: "bt_get m (state_tuple_identity t) = Some t" using m by (simp add: indexes_def)
      show "t \<in> set (forward_apply ds S)"
      proof (cases "Some (state_tuple_identity t) \<in> delta_identity ` set ds")
        case True
        then obtain d where d: "d \<in> set ds" "delta_identity d = Some (state_tuple_identity t)"
          by (metis imageE)
        with hit [OF d] t show ?thesis by (auto simp: forward_apply_mem)
      next
        case False
        from t have "bt_get m' (state_tuple_identity t) = Some t" unfolding miss [OF False] .
        with idx have "t \<in> set S" by (simp add: indexes_def)
        with False show ?thesis by (simp add: forward_apply_mem)
      qed
    qed
  qed (fact bset)
  with fits indexes_wf [OF idx] show ?thesis by (simp add: S_def)
qed

lemma forward_apply_after:
  assumes ok: "\<forall>d\<in>set ds. delta_ok d" and dist: "distinct (map delta_identity ds)"
    and "d \<in> set ds" "delta_identity d = Some i" and m: "indexes m (forward_apply ds S)"
  shows "bt_get m i = sd_after d"
proof -
  have "sd_after d = Some t \<longleftrightarrow> t \<in> set (forward_apply ds S) \<and> state_tuple_identity t = i" for t
  proof
    assume "sd_after d = Some t"
    then show "t \<in> set (forward_apply ds S) \<and> state_tuple_identity t = i"
      using assms(3,4) ok delta_sides_identity [of d t] by (auto simp: forward_apply_mem)
  next
    assume t: "t \<in> set (forward_apply ds S) \<and> state_tuple_identity t = i"
    then have "Some (state_tuple_identity t) \<in> delta_identity ` set ds"
      using assms(3,4) by (metis imageI)
    with t obtain d' where d': "d' \<in> set ds" "sd_after d' = Some t"
      by (auto simp: forward_apply_mem)
    then have "delta_identity d' = delta_identity d"
      using ok delta_sides_identity [of d' t] t assms(4) by simp
    then have "d' = d"
      using dist d'(1) assms(3) by (auto simp: distinct_map dest: inj_onD)
    with d' show "sd_after d = Some t" by simp
  qed
  then show ?thesis
    using m unfolding indexes_def by (metis option.exhaust)
qed

lemma reverse_apply_iff:
  assumes "delta_set_ok ds" and "state_wf C"
  shows "reverse_apply ds C = Ok S \<longleftrightarrow> state_wf S \<and> fits ds S \<and> forward_apply ds S = C"
proof -
  have ok: "\<forall>d\<in>set ds. delta_ok d" and "sorted_wrt (<) (map delta_identity ds)"
    using assms(1) by (auto simp: delta_set_ok_def)
  then have dist: "distinct (map delta_identity ds)"
    by (simp add: strict_sorted_iff)
  obtain m where idx: "index_tuples C [] = Ok m" "indexes m C"
    using state_wf_indexed [OF assms(2)] by auto
  have bset: "bset C" using assms(2) by (simp add: state_wf_def)
  note rv = reverse_deltas_state [OF ok dist idx(2) bset]
  show ?thesis
  proof
    assume "reverse_apply ds C = Ok S"
    then show "state_wf S \<and> fits ds S \<and> forward_apply ds S = C"
      using rv idx(1) by (auto simp: reverse_apply_def)
  next
    assume S: "state_wf S \<and> fits ds S \<and> forward_apply ds S = C"
    have "is_ok (reverse_deltas (rev ds) m)"
      using idx(2) ok dist S forward_apply_after [OF ok dist, of _ _ m S]
      by (intro reverse_deltas_complete) (auto simp: indexes_def rev_map [symmetric])
    then obtain m' where m': "reverse_deltas (rev ds) m = Ok m'" by (auto simp: is_ok_iff)
    let ?T = "bs_collect (map snd m')"
    have T: "fits ds ?T" "set (forward_apply ds ?T) = set C"
      using rv [OF m'] by auto
    have "set S = set ?T"
    proof (intro set_eqI iffI)
      fix t
      show "t \<in> set S \<Longrightarrow> t \<in> set ?T"
        using forward_apply_inject [OF ok _ T(1), of S t] T(2) S by simp
      show "t \<in> set ?T \<Longrightarrow> t \<in> set S"
        using forward_apply_inject [OF ok T(1), of S t] T(2) S by simp
    qed
    then have "?T = S"
      using S by (intro bset_eq) (auto simp: state_wf_def)
    then show "reverse_apply ds C = Ok S"
      using m' idx(1) by (simp add: reverse_apply_def)
  qed
qed

lemma adjacent_sorted: "sorted xs \<Longrightarrow> \<not> adjacent_equal xs \<Longrightarrow> sorted_wrt (<) (xs :: 'a::linorder list)"
proof (induction xs rule: adjacent_equal.induct)
  case (1 x y xs)
  then show ?case by (fastforce intro: less_le_trans)
qed auto

definition delta_built :: "state_delta \<Rightarrow> bool" where
  "delta_built d \<longleftrightarrow> (\<exists>before after. delta_replace before after = Ok d)
     \<or> (\<exists>before. d = delta_delete before) \<or> (\<exists>after. d = delta_insert after)"

lemma validate_side_Ok: "validate_side v = Ok () \<longleftrightarrow> pred_option tuple_ok v"
  by (cases v) (auto simp: validate_side_def tuple_ok_def)

lemma bound_deltas_Ok:
  assumes "length acc \<le> MAX_STATE_DELTAS" and "bound_deltas ds acc = Ok r"
  shows "r = acc @ ds \<and> length r \<le> MAX_STATE_DELTAS
    \<and> (\<forall>d\<in>set ds. pred_option tuple_ok (sd_before d) \<and> pred_option tuple_ok (sd_after d))"
  using assms
proof (induction ds arbitrary: acc)
  case (Cons d ds)
  from Cons.prems(2) have "\<not> length acc \<ge> MAX_STATE_DELTAS" "validate_side (sd_before d) = Ok ()"
    "validate_side (sd_after d) = Ok ()" "bound_deltas ds (acc @ [d]) = Ok r"
    by (auto split: if_splits)
  with Cons.IH [of "acc @ [d]"] show ?case
    by (auto simp: validate_side_Ok)
qed simp

lemma delta_set_new_ok:
  assumes "\<forall>d\<in>set ds. delta_built d" and "delta_set_new ds = Ok r"
  shows "delta_set_ok r \<and> mset r = mset ds"
proof -
  from assms(2) obtain b where b: "bound_deltas ds [] = Ok b" "b \<noteq> []" "r = sort_key delta_identity b"
    "\<not> adjacent_equal (map delta_identity r)"
    by (auto simp: delta_set_new_def Let_def split: if_splits)
  have bd: "b = ds" "length ds \<le> MAX_STATE_DELTAS"
    "\<forall>d\<in>set ds. pred_option tuple_ok (sd_before d) \<and> pred_option tuple_ok (sd_after d)"
    using bound_deltas_Ok [OF _ b(1)] by auto
  have "delta_ok d" if "d \<in> set ds" for d
    using assms(1) bd(3) that
    by (auto simp: delta_built_def delta_ok_def delta_replace_def delta_delete_def delta_insert_def
        split: if_splits)
  moreover have "sorted_wrt (<) (map delta_identity r)"
    using b(3,4) by (intro adjacent_sorted) auto
  moreover have "r \<noteq> []" "length r = length ds" "set r = set ds"
    using b(2,3) bd(1) by (metis length_0_conv length_sort, simp, simp)
  ultimately show ?thesis
    using b(3) bd by (simp add: delta_set_ok_def)
qed

definition trip_all ::
  "keyed_hash \<Rightarrow> arr32 \<Rightarrow> (record_class \<times> bytes) list \<Rightarrow> integrity_monitor \<Rightarrow> integrity_monitor" where
  "trip_all keyed diagnostic_key trips failure =
     foldl (\<lambda>f (class, key). trip keyed f class key diagnostic_key) failure trips"

lemma trip_all_Some: "trip_all keyed diagnostic_key trips (Some d) = Some d"
  unfolding trip_all_def by (induction trips) (auto simp: trip_def trip_named_def Let_def)

section \<open>Properties\<close>

text \<open>
  The digest of a state does not depend on the order in which the tuples are delivered:
  \<open>compute\<close> gives the same digest, or the same error, for every permutation of its input.
\<close>

theorem state_digest_order_independent:
  assumes "mset ts = mset us"
  shows "state_digest_compute hash ts = state_digest_compute hash us"
proof -
  have set: "set ts = set us" and len: "length ts = length us"
    using assms by (auto dest: mset_eq_setD mset_eq_length)
  have "mset (map state_tuple_identity ts) = mset (map state_tuple_identity us)"
    using assms by simp
  then have "distinct (map state_tuple_identity ts) = distinct (map state_tuple_identity us)"
    by (rule mset_eq_imp_distinct_iff)
  then show ?thesis
    using bs_collect_cong [OF set]
    by (simp add: state_digest_compute_def state_digest_message_eq set len)
qed

text \<open>
  C14: A state digest binds the whole state: two states with the same digest hold the same tuples,
  unless the hash function maps the two different messages that were hashed to one value.
\<close>

theorem state_digest_binds:
  assumes "state_digest_compute hash ts = Ok d" and "state_digest_compute hash us = Ok d"
    and no_collision: "\<And>m n. state_digest_message ts = Ok m \<Longrightarrow> state_digest_message us = Ok n \<Longrightarrow>
      hash m = hash n \<Longrightarrow> m = n"
  shows "set ts = set us"
proof -
  from assms(1,2) obtain m n where "state_digest_message ts = Ok m" "state_digest_message us = Ok n"
    "hash m = d" "hash n = d"
    by (auto simp: state_digest_compute_def)
  with no_collision [of m n] show ?thesis
    using state_digest_message_inject [of ts m us] by simp
qed

theorem state_digest_binds_witness:
  "set [ClearTuple Grant [1] 3 7, EncryptedTuple Secrets [2] 9]
     = set [EncryptedTuple Secrets [2] 9, ClearTuple Grant [1] 3 7]
   \<and> is_ok (state_digest_compute (\<lambda>m. word_of_nat (length m))
        [ClearTuple Grant [1] 3 7, EncryptedTuple Secrets [2] 9])"
proof
  let ?ts = "[ClearTuple Grant [1] 3 7, EncryptedTuple Secrets [2] 9]"
  let ?us = "[EncryptedTuple Secrets [2] 9, ClearTuple Grant [1] 3 7]"
  let ?h = "\<lambda>m :: bytes. word_of_nat (length m) :: arr32"
  have eq: "state_digest_message ?us = state_digest_message ?ts"
  proof -
    have "bs_collect ?us = bs_collect ?ts" by (rule bs_collect_cong) auto
    then show ?thesis by (simp add: state_digest_message_eq tuple_ok_iff)
  qed
  obtain d where d: "state_digest_compute ?h ?ts = Ok d"
    by (simp add: state_digest_compute_def state_digest_message_eq tuple_ok_iff)
  show "set ?ts = set ?us"
    by (rule state_digest_binds [OF d, of ?us]) (use d eq in \<open>auto simp: state_digest_compute_def\<close>)
  show "is_ok (state_digest_compute ?h ?ts)"
    using d by simp
qed

text \<open>
  C13: \<open>reverse_apply\<close> is the exact inverse of the transition a delta set records. For a delta set
  built by the constructors and a current state with one tuple per identity, it returns a state
  if and only if that state has one tuple per identity, holds what every delta names as its side
  before, and is turned into the current state by putting every side after in place; in every
  other case it returns an error.
\<close>

theorem reverse_apply_inverts:
  assumes "\<forall>d\<in>set built. delta_built d" and "delta_set_new built = Ok ds" and "state_wf C"
  shows "reverse_apply ds C = Ok S \<longleftrightarrow> state_wf S \<and> fits ds S \<and> forward_apply ds S = C"
  using reverse_apply_iff [OF _ assms(3)] delta_set_new_ok [OF assms(1,2)] by blast

theorem reverse_apply_inverts_witness:
  "let t = ClearTuple Grant [1] 3 7; u = ClearTuple Grant [1] 4 8; v = EncryptedTuple Secrets [2] 9;
       ds = [\<lparr>sd_before = Some t, sd_after = Some u\<rparr>, delta_insert v]
   in delta_set_new ds = Ok ds \<and> reverse_apply ds [u, v] = Ok [t] \<and> forward_apply ds [t] = [u, v]"
proof -
  let ?t = "ClearTuple Grant [1] 3 7" and ?u = "ClearTuple Grant [1] 4 8"
  let ?v = "EncryptedTuple Secrets [2] 9"
  let ?d = "\<lparr>sd_before = Some ?t, sd_after = Some ?u\<rparr>" and ?e = "delta_insert ?v"
  have lt: "?u < ?v" "\<not> ?v < ?u" "ClearId Grant [1] < EncryptedId Secrets [2]"
    by (simp_all add: less_state_tuple_def less_state_identity_def)
  have new: "delta_set_new [?d, ?e] = Ok [?d, ?e]"
    using lt by (simp add: delta_set_new_def delta_insert_def validate_side_def state_tuple_validate_def
        validate_state_key_def delta_identity_def)
  have "delta_replace ?t ?u = Ok ?d"
    by (simp add: delta_replace_def state_tuple_validate_def validate_state_key_def)
  then have built: "\<forall>d\<in>set [?d, ?e]. delta_built d"
    unfolding delta_built_def by auto
  have wf: "state_wf [?u, ?v]"
    using lt by (simp add: state_wf_def bset_def)
  have rev: "reverse_apply [?d, ?e] [?u, ?v] = Ok [?t]"
    using lt by (simp add: reverse_apply_def reverse_delta_def delta_insert_def delta_identity_def
        bt_contains_def bt_get_def bt_remove_def bs_collect_def less_state_identity_def)
  from reverse_apply_inverts [OF built new wf, of "[?t]"] rev new show ?thesis
    by (simp add: Let_def)
qed

text \<open>
  The integrity monitor latches. The first failure is the one that stays reported, whatever
  trips later, and from then on exactly the diagnostic and recovery operations are allowed.
\<close>

theorem integrity_monitor_latches:
  assumes "trip keyed failure class key diagnostic_key = first"
  shows "trip_all keyed diagnostic_key trips first = first \<and> integrity_status first \<noteq> Healthy
    \<and> (failure \<noteq> None \<longrightarrow> first = failure)
    \<and> (operation_allowed (trip_all keyed diagnostic_key trips first) operation \<longleftrightarrow>
        operation \<in> {Diagnostics, ReadOnlyRecovery, OrderlyShutdown, OfflineRestoreRepair})"
proof -
  obtain d where "first = Some d"
    using assms by (auto simp: trip_def trip_named_def Let_def split: option.splits)
  with assms show ?thesis
    by (auto simp: trip_all_Some integrity_status_def operation_allowed_def trip_def trip_named_def
        Let_def split: option.splits)
qed

end
