(* ===== verification/Raw_Target.thy ===== *)
theory Raw_Target
  imports State_Digest
begin

text \<open>
  The raw request-target parser (\<open>src/raw_target.rs\<close>) and the query-shape check it calls
  (\<open>validate_sensitive_query\<close> of \<open>src/input_hygiene.rs\<close>). Strings are the bytes of the request
  line; the HTTP method is its name. The parameter \<open>hash\<close> is \<open>blake3::hash\<close>, used for the digest
  an error carries instead of the target itself.
\<close>

section \<open>Requests and errors\<close>

record resource =
  r_mount :: string
  r_canonical_segments :: "string list"

datatype endpoint_kind =
  EpData | EpMetadata | EpList | EpDelete | EpUndelete | EpDestroy

record endpoint_request =
  e_kind :: endpoint_kind
  e_resource :: resource
  e_version :: "u64 option"

datatype parse_reason =
    TargetTooLong | InvalidEndpoint | MissingResource | EmptySegment | DotSegment | MalformedEscape
  | EncodedSeparator | EncodedPercent | NoncanonicalEncoding | InvalidUtf8 | ControlCharacter
  | UnsupportedCharacter | DuplicateQuery | NoncanonicalQuery | InvalidQuery

record parse_error =
  pe_reason :: parse_reason
  pe_offset :: nat
  pe_target_digest :: string

abbreviation (input) MAX_RAW_TARGET_BYTES :: nat where "MAX_RAW_TARGET_BYTES \<equiv> 8192"
abbreviation (input) MAX_QUERY_PARAMETERS :: nat where "MAX_QUERY_PARAMETERS \<equiv> 2"

definition parse_error_at ::
  "(bytes \<Rightarrow> arr32) \<Rightarrow> parse_reason \<Rightarrow> nat \<Rightarrow> string \<Rightarrow> parse_error" where
  "parse_error_at hash reason offset target =
     \<lparr>pe_reason = reason, pe_offset = offset,
      pe_target_digest = take 16 (encode_hex (be_bytes 32 (hash (str_bytes target))))\<rparr>"

section \<open>The query string\<close>

datatype query_shape_reason =
  QueryDuplicate | QueryNoncanonicalName | QueryUnknownName | QueryTooMany | QueryInvalid

record query_shape_error =
  qs_reason :: query_shape_reason
  qs_offset :: nat

definition to_ascii_lowercase :: "string \<Rightarrow> string" where
  "to_ascii_lowercase s =
     map (\<lambda>c. if CHR ''A'' \<le> c \<and> c \<le> CHR ''Z'' then char_of_byte (byte_of_char c + 32) else c) s"

fun query_shape_loop ::
  "string list \<Rightarrow> nat \<Rightarrow> nat \<Rightarrow> string list \<Rightarrow> (unit, query_shape_error) result" where
  "query_shape_loop [] index offset names = Ok ()"
| "query_shape_loop (parameter # parameters) index offset names =
     (if index \<ge> MAX_QUERY_PARAMETERS then Err \<lparr>qs_reason = QueryTooMany, qs_offset = offset\<rparr>
      else
        case split_once CHR ''='' parameter of
          None \<Rightarrow> Err \<lparr>qs_reason = QueryInvalid, qs_offset = offset\<rparr>
        | Some (name, _) \<Rightarrow>
            if CHR ''%'' \<in> set name \<or> name \<noteq> to_ascii_lowercase name
            then Err \<lparr>qs_reason = QueryNoncanonicalName, qs_offset = offset\<rparr>
            else if \<not> (name = ''version'' \<or> name = ''list'')
            then Err \<lparr>qs_reason = QueryUnknownName, qs_offset = offset\<rparr>
            else if name \<in> set names
            then Err \<lparr>qs_reason = QueryDuplicate, qs_offset = offset\<rparr>
            else query_shape_loop parameters (Suc index) (offset + length parameter + 1) (name # names))"

definition validate_sensitive_query :: "string option \<Rightarrow> (unit, query_shape_error) result" where
  "validate_sensitive_query raw =
     (case raw of
        None \<Rightarrow> Ok ()
      | Some raw \<Rightarrow>
          if raw = [] then Err \<lparr>qs_reason = QueryInvalid, qs_offset = 0\<rparr>
          else query_shape_loop (split_on CHR ''&'' raw) 0 0 [])"

record target_query =
  q_version :: "u64 option"
  q_list :: bool

definition is_digit :: "char \<Rightarrow> bool" where
  "is_digit c \<longleftrightarrow> CHR ''0'' \<le> c \<and> c \<le> CHR ''9''"

definition digits_value :: "string \<Rightarrow> nat" where
  "digits_value s = foldl (\<lambda>n c. n * 10 + (of_char c - 48)) 0 s"

definition parse_u64 :: "string \<Rightarrow> u64 option" where
  "parse_u64 s = (if s \<noteq> [] \<and> list_all is_digit s \<and> digits_value s < 2 ^ 64
     then Some (word_of_nat (digits_value s)) else None)"

primrec query_parameters ::
  "(bytes \<Rightarrow> arr32) \<Rightarrow> string \<Rightarrow> string list \<Rightarrow> nat \<Rightarrow> target_query \<Rightarrow>
     (target_query, parse_error) result" where
  "query_parameters hash target [] offset query = Ok query"
| "query_parameters hash target (parameter # parameters) offset query =
     (case split_once CHR ''='' parameter of
        None \<Rightarrow> Err (parse_error_at hash InvalidQuery offset target)
      | Some (name, value) \<Rightarrow>
          rbind (if name = ''version'' then
                   if value = [] \<or> hd value = CHR ''0'' \<or> \<not> list_all is_digit value
                   then Err (parse_error_at hash InvalidQuery offset target)
                   else (case parse_u64 value of
                           None \<Rightarrow> Err (parse_error_at hash InvalidQuery offset target)
                         | Some version \<Rightarrow> Ok (query\<lparr>q_version := Some version\<rparr>))
                 else if name = ''list'' \<and> value = ''true'' then Ok (query\<lparr>q_list := True\<rparr>)
                 else Err (parse_error_at hash InvalidQuery offset target))
            (\<lambda>query. query_parameters hash target parameters (offset + length parameter + 1) query))"

definition query_reason :: "query_shape_reason \<Rightarrow> parse_reason" where
  "query_reason r =
     (case r of
        QueryDuplicate \<Rightarrow> DuplicateQuery
      | QueryNoncanonicalName \<Rightarrow> NoncanonicalQuery
      | QueryUnknownName \<Rightarrow> InvalidQuery
      | QueryTooMany \<Rightarrow> InvalidQuery
      | QueryInvalid \<Rightarrow> InvalidQuery)"

definition parse_query ::
  "(bytes \<Rightarrow> arr32) \<Rightarrow> string option \<Rightarrow> nat \<Rightarrow> string \<Rightarrow> (target_query, parse_error) result" where
  "parse_query hash raw offset target =
     (case raw of
        None \<Rightarrow> Ok \<lparr>q_version = None, q_list = False\<rparr>
      | Some raw \<Rightarrow>
          rbind (map_err (\<lambda>shape. parse_error_at hash (query_reason (qs_reason shape))
                                   (offset + qs_offset shape) target)
                   (validate_sensitive_query (Some raw))) (\<lambda>_.
            query_parameters hash target (split_on CHR ''&'' raw) offset
              \<lparr>q_version = None, q_list = False\<rparr>))"

section \<open>Path segments\<close>

definition uppercase_hex :: "u8 \<Rightarrow> u8 option" where
  "uppercase_hex v = (if 48 \<le> v \<and> v \<le> 57 then Some (v - 48)
     else if 65 \<le> v \<and> v \<le> 70 then Some (v - 65 + 10) else None)"

definition is_ascii_hexdigit :: "u8 \<Rightarrow> bool" where
  "is_ascii_hexdigit v \<longleftrightarrow> (48 \<le> v \<and> v \<le> 57) \<or> (65 \<le> v \<and> v \<le> 70) \<or> (97 \<le> v \<and> v \<le> 102)"

definition is_ascii_alphanumeric :: "u8 \<Rightarrow> bool" where
  "is_ascii_alphanumeric v \<longleftrightarrow> (48 \<le> v \<and> v \<le> 57) \<or> (65 \<le> v \<and> v \<le> 90) \<or> (97 \<le> v \<and> v \<le> 122)"

definition is_ascii_control :: "u8 \<Rightarrow> bool" where
  "is_ascii_control v \<longleftrightarrow> v < 32 \<or> v = 127"

text \<open>The bytes \<open>- _ . ~ +\<close> that may stand for themselves beside letters and digits.\<close>

definition is_mark :: "u8 \<Rightarrow> bool" where
  "is_mark v \<longleftrightarrow> v = 45 \<or> v = 95 \<or> v = 46 \<or> v = 126 \<or> v = 43"

definition escaped_reason :: "u8 \<Rightarrow> parse_reason option" where
  "escaped_reason v =
     (if v = 47 \<or> v = 92 then Some EncodedSeparator
      else if v = 37 then Some EncodedPercent
      else if is_ascii_control v then Some ControlCharacter
      else if is_mark v \<or> is_ascii_alphanumeric v then Some NoncanonicalEncoding
      else None)"

text \<open>The loop of \<open>decode_segment\<close>: \<open>index\<close> is the position, the list is what is left from there.\<close>

fun decode_loop ::
  "(bytes \<Rightarrow> arr32) \<Rightarrow> string \<Rightarrow> nat \<Rightarrow> nat \<Rightarrow> bytes \<Rightarrow> bytes \<Rightarrow> (bytes, parse_error) result" where
  "decode_loop hash target base index [] decoded = Ok decoded"
| "decode_loop hash target base index (byte # rest) decoded =
     (if byte = 37 then
        (case rest of
           hi # lo # rest' \<Rightarrow>
             (case (uppercase_hex hi, uppercase_hex lo) of
                (Some high, Some low) \<Rightarrow>
                  (let value = high * 16 + low
                   in case escaped_reason value of
                        Some reason \<Rightarrow> Err (parse_error_at hash reason (base + index) target)
                      | None \<Rightarrow> decode_loop hash target base (index + 3) rest' (decoded @ [value]))
              | _ \<Rightarrow> Err (parse_error_at hash
                           (if is_ascii_hexdigit hi \<and> is_ascii_hexdigit lo
                            then NoncanonicalEncoding else MalformedEscape) (base + index) target))
         | _ \<Rightarrow> Err (parse_error_at hash MalformedEscape (base + index) target))
      else if byte = 92 \<or> is_ascii_control byte \<or> byte = 32
      then Err (parse_error_at hash (if is_ascii_control byte then ControlCharacter
                                     else UnsupportedCharacter) (base + index) target)
      else if \<not> is_ascii_alphanumeric byte \<and> \<not> is_mark byte
      then Err (parse_error_at hash UnsupportedCharacter (base + index) target)
      else decode_loop hash target base (index + 1) rest (decoded @ [byte]))"

definition decode_segment ::
  "(bytes \<Rightarrow> arr32) \<Rightarrow> string \<Rightarrow> nat \<Rightarrow> string \<Rightarrow> (string, parse_error) result" where
  "decode_segment hash raw base target =
     (if raw = [] then Err (parse_error_at hash EmptySegment base target)
      else if \<not> list_all (\<lambda>b. b < 128) (str_bytes raw)
      then Err (parse_error_at hash NoncanonicalEncoding base target)
      else rbind (decode_loop hash target base 0 (str_bytes raw) []) (\<lambda>decoded.
        if \<not> utf8_valid decoded then Err (parse_error_at hash InvalidUtf8 base target)
        else if bytes_str decoded = ''.'' \<or> bytes_str decoded = ''..''
        then Err (parse_error_at hash DotSegment base target)
        else Ok (bytes_str decoded)))"

section \<open>The target\<close>

primrec decode_segments ::
  "(bytes \<Rightarrow> arr32) \<Rightarrow> string \<Rightarrow> string list \<Rightarrow> nat \<Rightarrow> (string list, parse_error) result" where
  "decode_segments hash target [] offset = Ok []"
| "decode_segments hash target (segment # segments) offset =
     (if segment = [] then Err (parse_error_at hash EmptySegment offset target)
      else rbind (decode_segment hash segment offset target) (\<lambda>decoded.
           rbind (decode_segments hash target segments (offset + length segment + 1)) (\<lambda>rest.
             Ok (decoded # rest))))"

definition endpoint_form :: "string \<Rightarrow> bool \<Rightarrow> endpoint_kind option" where
  "endpoint_form form list_intent =
     (if form = ''data'' \<and> \<not> list_intent then Some EpData
      else if form = ''metadata'' \<and> \<not> list_intent then Some EpMetadata
      else if form = ''metadata'' \<and> list_intent then Some EpList
      else if form = ''delete'' \<and> \<not> list_intent then Some EpDelete
      else if form = ''undelete'' \<and> \<not> list_intent then Some EpUndelete
      else if form = ''destroy'' \<and> \<not> list_intent then Some EpDestroy
      else None)"

definition split_target :: "string \<Rightarrow> string \<times> string option" where
  "split_target raw_target =
     (case split_once CHR ''?'' raw_target of
        None \<Rightarrow> (raw_target, None)
      | Some (path, query) \<Rightarrow> (path, Some query))"

text \<open>The three stretches of \<open>parse_raw_target\<close>: the resource, the endpoint, and the whole target.\<close>

definition parse_resource ::
  "(bytes \<Rightarrow> arr32) \<Rightarrow> string \<Rightarrow> string \<Rightarrow> string list \<Rightarrow> endpoint_kind \<Rightarrow>
     (string list, parse_error) result" where
  "parse_resource hash raw_target raw_path raw_segments kind =
     (let resource_start = sum_list (map (\<lambda>v. length v + 1) (take 4 raw_segments));
          resource_raw = drop 4 raw_segments
      in if resource_raw \<noteq> [] \<and> last resource_raw = [] \<and> kind \<noteq> EpList
         then Err (parse_error_at hash EmptySegment (length raw_path - 1) raw_target)
         else
           let resource_raw = (if resource_raw \<noteq> [] \<and> last resource_raw = []
                               then butlast resource_raw else resource_raw)
           in if resource_raw = [] \<and> kind \<noteq> EpList
              then Err (parse_error_at hash MissingResource (length raw_path) raw_target)
              else decode_segments hash raw_target resource_raw resource_start)"

definition parse_endpoint ::
  "(bytes \<Rightarrow> arr32) \<Rightarrow> string \<Rightarrow> string \<Rightarrow> string \<Rightarrow> target_query \<Rightarrow> string \<Rightarrow>
     (endpoint_kind, parse_error) result" where
  "parse_endpoint hash http_method raw_target raw_path query form =
     (let list_method = (http_method = ''LIST'');
          list_intent = (list_method \<or> q_list query)
      in if list_intent \<and> form \<noteq> ''metadata''
         then Err (parse_error_at hash InvalidQuery (length raw_path) raw_target)
         else if q_list query \<and> http_method \<noteq> ''GET'' \<and> \<not> list_method
         then Err (parse_error_at hash InvalidQuery (length raw_path) raw_target)
         else case endpoint_form form list_intent of
           None \<Rightarrow> Err (parse_error_at hash InvalidEndpoint 4 raw_target)
         | Some kind \<Rightarrow>
             if q_version query \<noteq> None \<and> kind \<noteq> EpData
             then Err (parse_error_at hash InvalidQuery (length raw_path) raw_target)
             else Ok kind)"

definition parse_raw_target ::
  "(bytes \<Rightarrow> arr32) \<Rightarrow> string \<Rightarrow> string \<Rightarrow> (endpoint_request, parse_error) result" where
  "parse_raw_target hash http_method raw_target =
     (if length raw_target > MAX_RAW_TARGET_BYTES
      then Err (parse_error_at hash TargetTooLong MAX_RAW_TARGET_BYTES raw_target)
      else if raw_target = [] then Err (parse_error_at hash InvalidEndpoint 0 raw_target)
      else
        let (raw_path, raw_query) = split_target raw_target
        in rbind (parse_query hash raw_query
                    (length raw_path + (if raw_query \<noteq> None then 1 else 0)) raw_target) (\<lambda>query.
           let raw_segments = split_on CHR ''/'' raw_path
           in if length raw_segments < 4 \<or> raw_segments ! 0 \<noteq> [] \<or> raw_segments ! 1 \<noteq> ''v1''
              then Err (parse_error_at hash InvalidEndpoint 0 raw_target)
              else rbind (decode_segment hash (raw_segments ! 2) 4 raw_target) (\<lambda>mount.
                if mount = [] then Err (parse_error_at hash InvalidEndpoint 4 raw_target)
                else
                  rbind (parse_endpoint hash http_method raw_target raw_path query (raw_segments ! 3)) (\<lambda>kind.
                  rbind (parse_resource hash raw_target raw_path raw_segments kind) (\<lambda>canonical_segments.
                    Ok \<lparr>e_kind = kind,
                        e_resource = \<lparr>r_mount = mount, r_canonical_segments = canonical_segments\<rparr>,
                        e_version = q_version query\<rparr>)))))"

section \<open>The canonical spelling of a segment\<close>

text \<open>
  What the parser promises: a segment has one spelling. Letters, digits and marks stand for
  themselves, every other byte is written as an uppercase escape.
\<close>

definition hex_upper :: "nat \<Rightarrow> u8" where
  "hex_upper n = word_of_nat (if n < 10 then 48 + n else 55 + n)"

definition encode_byte :: "u8 \<Rightarrow> bytes" where
  "encode_byte v = (if is_ascii_alphanumeric v \<or> is_mark v then [v]
     else [37, hex_upper (unat v div 16), hex_upper (unat v mod 16)])"

definition encode_segment :: "string \<Rightarrow> string" where
  "encode_segment s = bytes_str (concat (map encode_byte (str_bytes s)))"

definition segment_byte_ok :: "u8 \<Rightarrow> bool" where
  "segment_byte_ok v \<longleftrightarrow> v \<noteq> 47 \<and> v \<noteq> 92 \<and> v \<noteq> 37 \<and> \<not> is_ascii_control v"

definition segment_ok :: "string \<Rightarrow> bool" where
  "segment_ok s \<longleftrightarrow> s \<noteq> [] \<and> str_ok s \<and> s \<noteq> ''.'' \<and> s \<noteq> ''..''
     \<and> list_all segment_byte_ok (str_bytes s)"

lemma unat_hex_upper: "n < 16 \<Longrightarrow> unat (hex_upper n) = (if n < 10 then 48 + n else 55 + n)"
  by (simp add: hex_upper_def unat_of_nat take_bit_nat_eq_self)

lemma uppercase_hex_Some:
  "uppercase_hex h = Some v \<longleftrightarrow> (\<exists>n<16. h = hex_upper n \<and> v = word_of_nat n)"
proof
  assume "uppercase_hex h = Some v"
  then consider (digit) "48 \<le> unat h" "unat h \<le> 57" "v = h - 48"
    | (letter) "65 \<le> unat h" "unat h \<le> 70" "v = h - 65 + 10"
    by (auto simp: uppercase_hex_def word_le_nat_alt split: if_splits)
  then show "\<exists>n<16. h = hex_upper n \<and> v = word_of_nat n"
  proof cases
    case digit
    have "h = word_of_nat (48 + (unat h - 48))" using digit by simp
    moreover have "v = word_of_nat (unat h - 48)"
      using digit by (simp add: of_nat_diff)
    ultimately show ?thesis
      using digit by (intro exI [of _ "unat h - 48"]) (auto simp: hex_upper_def)
  next
    case letter
    have "h = word_of_nat (55 + (unat h - 55))" using letter by simp
    moreover have "v = word_of_nat (unat h - 55)"
      using letter by (simp add: of_nat_diff)
    ultimately show ?thesis
      using letter by (intro exI [of _ "unat h - 55"]) (auto simp: hex_upper_def)
  qed
next
  assume "\<exists>n<16. h = hex_upper n \<and> v = word_of_nat n"
  then obtain n where n: "n < 16" "h = hex_upper n" "v = word_of_nat n" by blast
  then have "unat h = (if n < 10 then 48 + n else 55 + n)" by (simp add: unat_hex_upper)
  with n show "uppercase_hex h = Some v"
    by (auto simp: uppercase_hex_def word_le_nat_alt hex_upper_def split: if_splits)
qed

lemma unat_high_low:
  assumes "a < 16" and "b < 16"
  shows "unat (word_of_nat a * 16 + word_of_nat b :: u8) = a * 16 + b"
proof -
  have "(word_of_nat a * 16 + word_of_nat b :: u8) = word_of_nat (a * 16 + b)"
    by simp
  then show ?thesis
    using assms by (simp only: unat_of_nat) (simp add: take_bit_nat_eq_self)
qed

lemma encode_byte_literal: "is_ascii_alphanumeric v \<or> is_mark v \<Longrightarrow> encode_byte v = [v]"
  by (simp add: encode_byte_def)

lemma literal_byte:
  "is_ascii_alphanumeric v \<or> is_mark v \<Longrightarrow>
     v \<noteq> 37 \<and> v \<noteq> 92 \<and> v \<noteq> 32 \<and> v \<noteq> 47 \<and> \<not> is_ascii_control v \<and> v < 128"
  by (auto simp: is_ascii_alphanumeric_def is_mark_def is_ascii_control_def word_less_nat_alt
      word_le_nat_alt word_unat_eq_iff)

lemma escaped_reason_None:
  "escaped_reason v = None \<longleftrightarrow> segment_byte_ok v \<and> \<not> (is_ascii_alphanumeric v \<or> is_mark v)"
  by (auto simp: escaped_reason_def segment_byte_ok_def)

lemma encode_byte_high_low:
  assumes "a < 16" and "b < 16" and "escaped_reason (word_of_nat a * 16 + word_of_nat b) = None"
  shows "encode_byte (word_of_nat a * 16 + word_of_nat b) = [37, hex_upper a, hex_upper b]"
  using assms unat_high_low [OF assms(1,2)] by (simp add: encode_byte_def escaped_reason_None)

lemma decode_loop_sound:
  "decode_loop hash target base index raw decoded = Ok out \<Longrightarrow>
     \<exists>ds. raw = concat (map encode_byte ds) \<and> list_all segment_byte_ok ds \<and> out = decoded @ ds"
proof (induction hash target base index raw decoded rule: decode_loop.induct)
  case (1 hash target base index decoded)
  then show ?case by (auto intro: exI [of _ "[]"])
next
  case (2 hash target base index byte rest decoded)
  show ?case
  proof (cases "byte = 37")
    case True
    with 2(3) obtain hi lo rest' high low where
      hex: "rest = hi # lo # rest'" "uppercase_hex hi = Some high" "uppercase_hex lo = Some low"
      and ok: "escaped_reason (high * 16 + low) = None"
        "decode_loop hash target base (index + 3) rest' (decoded @ [high * 16 + low]) = Ok out"
      by (auto simp: Let_def split: list.splits option.splits)
    obtain ds where ds: "rest' = concat (map encode_byte ds)" "list_all segment_byte_ok ds"
      "out = (decoded @ [high * 16 + low]) @ ds"
      using 2(1) [OF True hex(1) refl refl hex(2,3) refl ok(1,2)] by blast
    obtain a b where ab: "a < 16" "hi = hex_upper a" "high = word_of_nat a"
      "b < 16" "lo = hex_upper b" "low = word_of_nat b"
      using hex(2,3) by (auto simp: uppercase_hex_Some)
    have "encode_byte (high * 16 + low) = [byte, hi, lo]"
      using encode_byte_high_low [of a b] ab ok(1) True by simp
    then show ?thesis
      using ds hex(1) ok(1)
      by (intro exI [of _ "(high * 16 + low) # ds"]) (auto simp: escaped_reason_None)
  next
    case False
    with 2(3) have lit: "is_ascii_alphanumeric byte \<or> is_mark byte"
      and rest: "decode_loop hash target base (index + 1) rest (decoded @ [byte]) = Ok out"
      by (auto split: if_splits)
    obtain ds where "rest = concat (map encode_byte ds)" "list_all segment_byte_ok ds"
      "out = (decoded @ [byte]) @ ds"
      using 2(2) [OF False] lit literal_byte [OF lit] rest by auto
    then show ?thesis
      using lit literal_byte [OF lit]
      by (intro exI [of _ "byte # ds"]) (auto simp: encode_byte_literal segment_byte_ok_def [of byte])
  qed
qed

lemma decode_loop_complete:
  "list_all segment_byte_ok ds \<Longrightarrow>
     decode_loop hash target base index (concat (map encode_byte ds)) decoded = Ok (decoded @ ds)"
proof (induction ds arbitrary: index decoded)
  case (Cons v ds)
  then have ok: "segment_byte_ok v" by simp
  show ?case
  proof (cases "is_ascii_alphanumeric v \<or> is_mark v")
    case True
    then show ?thesis
      using Cons literal_byte [OF True] by (auto simp: encode_byte_literal)
  next
    case False
    let ?a = "unat v div 16" and ?b = "unat v mod 16"
    have ab: "?a < 16" "?b < 16"
      using unat_u8_less [of v] by (auto simp: less_mult_imp_div_less)
    have hex: "uppercase_hex (hex_upper ?a) = Some (word_of_nat ?a)"
      "uppercase_hex (hex_upper ?b) = Some (word_of_nat ?b)"
      using ab unfolding uppercase_hex_Some by blast+
    have v: "word_of_nat ?a * 16 + word_of_nat ?b = v"
      using unat_high_low [OF ab] by (simp add: word_unat_eq_iff)
    have "escaped_reason v = None"
      using False ok by (simp add: escaped_reason_None)
    with False Cons hex v show ?thesis
      by (simp add: encode_byte_def)
  qed
qed simp

lemma hex_upper_less: "n < 16 \<Longrightarrow> hex_upper n < 128"
  by (simp add: word_less_nat_alt unat_hex_upper)

lemma encode_byte_ascii: "list_all (\<lambda>b. b < 128) (encode_byte v)"
  using literal_byte [of v] hex_upper_less [of "unat v div 16"] hex_upper_less [of "unat v mod 16"]
    unat_u8_less [of v]
  by (auto simp: encode_byte_def less_mult_imp_div_less)

lemma encode_byte_not_Nil [simp]: "encode_byte v \<noteq> []"
  by (simp add: encode_byte_def)

lemma encode_segment_Nil [simp]: "encode_segment s = [] \<longleftrightarrow> s = []"
  by (cases s) (auto simp: encode_segment_def str_bytes_def bytes_str_def)

lemma decode_segment_iff:
  "decode_segment hash raw base target = Ok s \<longleftrightarrow> segment_ok s \<and> raw = encode_segment s"
proof
  assume dec: "decode_segment hash raw base target = Ok s"
  then obtain d where d: "decode_loop hash target base 0 (str_bytes raw) [] = Ok d" "utf8_valid d"
    "s = bytes_str d" "s \<noteq> ''.''" "s \<noteq> ''..''" "raw \<noteq> []"
    by (auto simp: decode_segment_def split: if_splits)
  from decode_loop_sound [OF d(1)] have ok: "str_bytes raw = concat (map encode_byte d)" "list_all segment_byte_ok d"
    by auto
  from ok(1) have "raw = bytes_str (concat (map encode_byte d))" by (metis bytes_str_bytes)
  then have "raw = encode_segment s" using d(3) by (simp add: encode_segment_def)
  moreover have "s \<noteq> []"
    using d(6) calculation by simp
  ultimately show "segment_ok s \<and> raw = encode_segment s"
    using d ok(2) by (simp add: segment_ok_def str_ok_def)
next
  assume s: "segment_ok s \<and> raw = encode_segment s"
  then have "decode_loop hash target base 0 (str_bytes raw) [] = Ok (str_bytes s)"
    using decode_loop_complete [of "str_bytes s" hash target base 0 "[]"]
    by (simp add: segment_ok_def encode_segment_def)
  moreover have "list_all (\<lambda>b. b < 128) (str_bytes raw)"
    using s encode_byte_ascii by (auto simp: encode_segment_def list_all_iff)
  ultimately show "decode_segment hash raw base target = Ok s"
    using s by (simp add: decode_segment_def segment_ok_def str_ok_def)
qed

section \<open>The canonical spelling of a target\<close>

lemma split_once_Some: "split_once sep s = Some (a, b) \<Longrightarrow> s = a @ sep # b \<and> sep \<notin> set a"
  by (induction sep s arbitrary: a b rule: split_once.induct) (auto split: if_splits option.splits)

lemma split_once_append: "sep \<notin> set a \<Longrightarrow> split_once sep (a @ sep # b) = Some (a, b)"
  by (induction a) auto

lemma split_once_None: "split_once sep s = None \<longleftrightarrow> sep \<notin> set s"
  by (induction sep s rule: split_once.induct) (auto split: option.splits)

definition canonical_digits :: "string \<Rightarrow> bool" where
  "canonical_digits s \<longleftrightarrow> s \<noteq> [] \<and> hd s \<noteq> CHR ''0'' \<and> list_all is_digit s"

lemma digits_value_snoc: "digits_value (s @ [c]) = digits_value s * 10 + (of_char c - 48)"
  by (simp add: digits_value_def)

lemma is_digit_bounds: "is_digit c \<longleftrightarrow> 48 \<le> (of_char c :: nat) \<and> (of_char c :: nat) \<le> 57"
  by (simp add: is_digit_def less_eq_char_def)

lemma canonical_digits_pos: "canonical_digits s \<Longrightarrow> 0 < digits_value s"
proof (induction s rule: rev_induct)
  case (snoc c s)
  show ?case
  proof (cases "s = []")
    case True
    with snoc.prems have "is_digit c" "c \<noteq> CHR ''0''" by (auto simp: canonical_digits_def)
    moreover have "(48 :: nat) = of_char CHR ''0''" by simp
    ultimately have "(of_char c :: nat) \<noteq> 48" by (metis of_char_eq_iff)
    with \<open>is_digit c\<close> True show ?thesis
      by (auto simp: digits_value_def is_digit_bounds)
  next
    case False
    with snoc show ?thesis by (auto simp: digits_value_snoc canonical_digits_def)
  qed
qed (simp add: canonical_digits_def)

lemma ten_digits: "x * 10 + a = y * 10 + b \<Longrightarrow> a < 10 \<Longrightarrow> b < 10 \<Longrightarrow> a = b \<and> x = (y :: nat)"
  by presburger

lemma canonical_digits_inject:
  "canonical_digits s \<Longrightarrow> canonical_digits t \<Longrightarrow> digits_value s = digits_value t \<Longrightarrow> s = t"
proof (induction s arbitrary: t rule: rev_induct)
  case Nil
  then show ?case by (simp add: canonical_digits_def)
next
  case (snoc c s)
  obtain t' d where t: "t = t' @ [d]"
    using snoc.prems(2) by (cases t rule: rev_cases) (auto simp: canonical_digits_def)
  have digits: "is_digit c" "is_digit d"
    using snoc.prems(1,2) t by (auto simp: canonical_digits_def)
  let ?c = "of_char c - 48 :: nat" and ?d = "of_char d - 48 :: nat"
  have lt: "?c < 10" "?d < 10" using digits by (auto simp: is_digit_bounds)
  have eq: "digits_value s * 10 + ?c = digits_value t' * 10 + ?d"
    using snoc.prems(3) t by (simp add: digits_value_snoc)
  have "?c = ?d" and vals: "digits_value s = digits_value t'"
    using ten_digits [OF eq lt] by auto
  then have "(of_char c :: nat) = of_char d"
    using digits unfolding is_digit_bounds by linarith
  then have cd: "c = d" by (simp only: of_char_eq_iff)
  have pre: "s = [] \<or> canonical_digits s" "t' = [] \<or> canonical_digits t'"
    using snoc.prems(1,2) t by (auto simp: canonical_digits_def)
  have "s = t'"
  proof (cases "s = [] \<or> t' = []")
    case True
    then show ?thesis
      using vals pre canonical_digits_pos [of s] canonical_digits_pos [of t']
      by (cases "s = []"; cases "t' = []") (auto simp: digits_value_def)
  next
    case False
    then show ?thesis using snoc.IH vals pre by blast
  qed
  with cd t show ?case by simp
qed

text \<open>How the version is written in the query of a target that is not a listing.\<close>

definition query_spelling :: "u64 option \<Rightarrow> string \<Rightarrow> bool" where
  "query_spelling version qs \<longleftrightarrow>
     (case version of
        None \<Rightarrow> qs = []
      | Some v \<Rightarrow> \<exists>s. qs = ''?version='' @ s \<and> canonical_digits s \<and> digits_value s = unat v)"

lemma query_spelling_unique: "query_spelling v q \<Longrightarrow> query_spelling v q' \<Longrightarrow> q = q'"
  by (auto simp: query_spelling_def split: option.splits dest: canonical_digits_inject)

lemma query_parameters_list:
  "query_parameters hash target ps off q = Ok q' \<Longrightarrow>
     (q_list q \<longrightarrow> q_list q') \<and> (\<forall>p\<in>set ps. \<forall>v. split_once CHR ''='' p = Some (''list'', v) \<longrightarrow> q_list q')"
proof (induction ps arbitrary: off q)
  case (Cons p ps)
  then show ?case by (auto split: option.splits prod.splits if_splits)
qed simp

lemma version_parameter_Ok:
  "query_parameters hash target [p] off \<lparr>q_version = None, q_list = False\<rparr> = Ok q \<Longrightarrow>
     \<not> q_list q \<Longrightarrow> \<exists>s v. p = ''version='' @ s \<and> canonical_digits s \<and> digits_value s = unat v
       \<and> q = \<lparr>q_version = Some v, q_list = False\<rparr>"
  by (auto simp: canonical_digits_def parse_u64_def unat_of_nat take_bit_nat_eq_self
      split: option.splits prod.splits if_splits dest!: split_once_Some)

lemma parse_query_not_list:
  assumes "parse_query hash rq off target = Ok q" and "\<not> q_list q"
  shows "(rq = None \<and> q = \<lparr>q_version = None, q_list = False\<rparr>)
    \<or> (\<exists>s v. rq = Some (''version='' @ s) \<and> canonical_digits s \<and> digits_value s = unat v
         \<and> q = \<lparr>q_version = Some v, q_list = False\<rparr>)"
proof (cases rq)
  case None
  with assms show ?thesis by (simp add: parse_query_def)
next
  case (Some raw)
  let ?ps = "split_on CHR ''&'' raw"
  have shape: "query_shape_loop ?ps 0 0 [] = Ok ()"
    and params: "query_parameters hash target ?ps off \<lparr>q_version = None, q_list = False\<rparr> = Ok q"
    using assms(1) Some by (auto simp: parse_query_def validate_sensitive_query_def split: if_splits)
  have nolist: "\<forall>v. split_once CHR ''='' p \<noteq> Some (''list'', v)" if "p \<in> set ?ps" for p
    using query_parameters_list [OF params] assms(2) that by blast
  obtain p ps where ps: "?ps = p # ps" by (cases ?ps) auto
  have "ps = []"
  proof (cases ps)
    case (Cons p' ps')
    with shape ps nolist [of p] nolist [of p'] show ?thesis
      by (auto split: if_splits option.splits)
  qed
  then have "raw = p"
    using join_split_on [of "CHR ''&''" raw] ps by simp
  with version_parameter_Ok [of hash target p off q] params ps \<open>ps = []\<close> assms(2) Some show ?thesis
    by simp
qed

lemma is_digit_not_amp: "list_all is_digit s \<Longrightarrow> CHR ''&'' \<notin> set s"
  by (auto simp: list_all_iff is_digit_def less_eq_char_def)

lemma parse_query_version:
  assumes "canonical_digits s" and "digits_value s = unat (v :: u64)"
  shows "parse_query hash (Some (''version='' @ s)) off target = Ok \<lparr>q_version = Some v, q_list = False\<rparr>"
proof -
  have s: "s \<noteq> []" "hd s \<noteq> CHR ''0''" "list_all is_digit s"
    using assms(1) by (auto simp: canonical_digits_def)
  have "split_on CHR ''&'' (''version='' @ s) = [''version='' @ s]"
    using is_digit_not_amp [OF s(3)] by (intro split_on_single) auto
  moreover have "digits_value s < 2 ^ 64"
    using assms(2) unsigned_less [of v, where 'a = nat] by simp
  moreover have "word_of_nat (digits_value s) = v"
    using assms(2) by simp
  ultimately show ?thesis
    using s by (simp add: parse_query_def validate_sensitive_query_def to_ascii_lowercase_def
        parse_u64_def less_eq_char_def)
qed

lemma decode_segments_iff:
  "decode_segments hash target raws off = Ok segs \<longleftrightarrow>
     list_all segment_ok segs \<and> raws = map encode_segment segs"
proof (induction raws arbitrary: off segs)
  case (Cons raw raws)
  show ?case
  proof
    assume "decode_segments hash target (raw # raws) off = Ok segs"
    with Cons show "list_all segment_ok segs \<and> raw # raws = map encode_segment segs"
      by (auto simp: decode_segment_iff split: if_splits)
  next
    assume "list_all segment_ok segs \<and> raw # raws = map encode_segment segs"
    then obtain s ss where "segs = s # ss" "segment_ok s" "raw = encode_segment s"
      "list_all segment_ok ss" "raws = map encode_segment ss"
      by (cases segs) auto
    with Cons show "decode_segments hash target (raw # raws) off = Ok segs"
      by (auto simp: decode_segment_iff segment_ok_def [of s])
  qed
qed auto

fun form_of :: "endpoint_kind \<Rightarrow> string" where
  "form_of EpData = ''data''"
| "form_of EpMetadata = ''metadata''"
| "form_of EpList = ''metadata''"
| "form_of EpDelete = ''delete''"
| "form_of EpUndelete = ''undelete''"
| "form_of EpDestroy = ''destroy''"

definition target_path :: "endpoint_request \<Rightarrow> string" where
  "target_path req = join CHR ''/'' ([[], ''v1'', encode_segment (r_mount (e_resource req)), form_of (e_kind req)]
     @ map encode_segment (r_canonical_segments (e_resource req)))"

definition request_ok :: "endpoint_request \<Rightarrow> bool" where
  "request_ok req \<longleftrightarrow> segment_ok (r_mount (e_resource req))
     \<and> list_all segment_ok (r_canonical_segments (e_resource req))
     \<and> (e_kind req \<noteq> EpList \<longrightarrow> r_canonical_segments (e_resource req) \<noteq> [])
     \<and> (e_version req \<noteq> None \<longrightarrow> e_kind req = EpData)"

lemma endpoint_form_Some:
  "endpoint_form form li = Some kind \<longleftrightarrow> form = form_of kind \<and> (li \<longleftrightarrow> kind = EpList)"
  by (cases kind; cases li) (auto simp: endpoint_form_def)

lemma parse_endpoint_Ok:
  "parse_endpoint hash http_method raw path query form = Ok kind \<longleftrightarrow>
     form = form_of kind \<and> (http_method = ''LIST'' \<or> q_list query \<longleftrightarrow> kind = EpList)
     \<and> (q_list query \<longrightarrow> http_method = ''GET'' \<or> http_method = ''LIST'')
     \<and> (q_version query \<noteq> None \<longrightarrow> kind = EpData)"
proof -
  have "(case endpoint_form form li of None \<Rightarrow> Err e
       | Some k \<Rightarrow> if q_version query \<noteq> None \<and> k \<noteq> EpData then Err e' else Ok k) = Ok kind \<longleftrightarrow>
     endpoint_form form li = Some kind \<and> (q_version query \<noteq> None \<longrightarrow> kind = EpData)"
    for li and e e' :: parse_error
    by (cases "endpoint_form form li") auto
  then show ?thesis
    unfolding parse_endpoint_def Let_def by (cases kind) (auto simp: endpoint_form_Some)
qed

lemma parse_resource_Ok:
  "parse_resource hash raw path segments kind = Ok cs \<longleftrightarrow>
     list_all segment_ok cs \<and> (kind \<noteq> EpList \<longrightarrow> cs \<noteq> [])
     \<and> (drop 4 segments = map encode_segment cs
        \<or> drop 4 segments = map encode_segment cs @ [[]] \<and> kind = EpList)"
proof -
  let ?rs = "drop 4 segments"
  have last: "last (map encode_segment cs) \<noteq> []" if "cs \<noteq> []" "list_all segment_ok cs"
    using that by (auto simp: last_map list_all_iff segment_ok_def)
  show ?thesis
  proof (cases "?rs \<noteq> [] \<and> last ?rs = []")
    case True
    then have rs: "?rs = butlast ?rs @ [[]]" by (metis append_butlast_last_id)
    show ?thesis
      unfolding parse_resource_def Let_def
      using True last rs by (cases "cs = []") (auto simp: decode_segments_iff)
  next
    case False
    then show ?thesis
      unfolding parse_resource_def Let_def
      by (auto simp: decode_segments_iff)
  qed
qed

lemma list_four: "\<not> length xs < 4 \<Longrightarrow> xs = xs ! 0 # xs ! 1 # xs ! 2 # xs ! 3 # drop 4 xs"
  by (cases xs; cases "tl xs"; cases "tl (tl xs)"; cases "tl (tl (tl xs))") auto

lemma encode_byte_no_separator:
  assumes "b \<in> set (encode_byte v)"
  shows "b \<noteq> 47 \<and> b \<noteq> 63"
proof (cases "is_ascii_alphanumeric v \<or> is_mark v")
  case True
  then have "v \<noteq> 47 \<and> v \<noteq> 63"
    by (auto simp: is_ascii_alphanumeric_def is_mark_def word_le_nat_alt word_unat_eq_iff)
  with True assms show ?thesis by (simp add: encode_byte_literal)
next
  case False
  have "unat v div 16 < 16" using unat_u8_less [of v] by (simp add: less_mult_imp_div_less)
  then have "unat (hex_upper (unat v div 16)) \<notin> {47, 63}" "unat (hex_upper (unat v mod 16)) \<notin> {47, 63}"
    by (auto simp: unat_hex_upper)
  with False assms show ?thesis by (auto simp: encode_byte_def)
qed

lemma encode_segment_no_separator: "CHR ''/'' \<notin> set (encode_segment s)" "CHR ''?'' \<notin> set (encode_segment s)"
proof -
  have "byte_of_char c \<noteq> 47 \<and> byte_of_char c \<noteq> 63" if "c \<in> set (encode_segment s)" for c
    using that encode_byte_no_separator by (auto simp: encode_segment_def bytes_str_def)
  moreover have "byte_of_char CHR ''/'' = 47" "byte_of_char CHR ''?'' = 63"
    by (simp_all add: byte_of_char_def)
  ultimately show "CHR ''/'' \<notin> set (encode_segment s)" "CHR ''?'' \<notin> set (encode_segment s)"
    by blast+
qed

lemma set_join: "set (join sep ws) \<subseteq> insert sep (\<Union> (set ` set ws))"
  by (induction sep ws rule: join.induct) auto

lemma split_target_path: "split_on CHR ''/'' (target_path req) =
    [[], ''v1'', encode_segment (r_mount (e_resource req)), form_of (e_kind req)]
     @ map encode_segment (r_canonical_segments (e_resource req))"
  unfolding target_path_def
  by (rule split_on_join) (cases "e_kind req"; auto simp: encode_segment_no_separator)+

lemma target_path_no_query: "CHR ''?'' \<notin> set (target_path req)"
proof
  let ?ws = "[[], ''v1'', encode_segment (r_mount (e_resource req)), form_of (e_kind req)]
     @ map encode_segment (r_canonical_segments (e_resource req))"
  assume "CHR ''?'' \<in> set (target_path req)"
  then have "CHR ''?'' \<in> insert CHR ''/'' (\<Union> (set ` set ?ws))"
    unfolding target_path_def using set_join by (rule rev_subsetD)
  then have "\<exists>w\<in>set ?ws. CHR ''?'' \<in> set w"
    by blast
  then show False
    by (cases "e_kind req") (auto simp: encode_segment_no_separator)
qed

lemma parse_raw_target_sound:
  assumes "parse_raw_target hash http_method raw = Ok req"
  shows "request_ok req \<and> length raw \<le> MAX_RAW_TARGET_BYTES
    \<and> (e_kind req \<noteq> EpList \<longrightarrow> http_method \<noteq> ''LIST''
        \<and> (\<exists>qs. query_spelling (e_version req) qs \<and> raw = target_path req @ qs))"
proof -
  obtain path rq where st: "split_target raw = (path, rq)" by fastforce
  define segs where "segs = split_on CHR ''/'' path"
  from assms st obtain query mount kind cs where len: "length raw \<le> MAX_RAW_TARGET_BYTES"
    and q: "parse_query hash rq (length path + (if rq \<noteq> None then 1 else 0)) raw = Ok query"
    and segs: "\<not> length segs < 4" "segs ! 0 = []" "segs ! 1 = ''v1''"
    and mount: "decode_segment hash (segs ! 2) 4 raw = Ok mount"
    and kind: "parse_endpoint hash http_method raw path query (segs ! 3) = Ok kind"
    and cs: "parse_resource hash raw path segs kind = Ok cs"
    and req: "req = \<lparr>e_kind = kind, e_resource = \<lparr>r_mount = mount, r_canonical_segments = cs\<rparr>,
      e_version = q_version query\<rparr>"
    unfolding parse_raw_target_def segs_def by (auto simp: Let_def not_less split: if_splits)
  have ok: "request_ok req"
    using mount kind cs req
    by (auto simp: request_ok_def decode_segment_iff parse_resource_Ok parse_endpoint_Ok)
  have "http_method \<noteq> ''LIST'' \<and> (\<exists>qs. query_spelling (e_version req) qs \<and> raw = target_path req @ qs)"
    if nl: "kind \<noteq> EpList"
  proof -
    have "segs = [[], ''v1'', encode_segment mount, form_of kind] @ map encode_segment cs"
      using list_four [OF segs(1)] segs(2,3) mount kind cs nl
      by (simp add: decode_segment_iff parse_resource_Ok parse_endpoint_Ok)
    then have path: "path = target_path req"
      using join_split_on [of "CHR ''/''" path] by (simp add: segs_def target_path_def req)
    have nq: "\<not> q_list query" "http_method \<noteq> ''LIST''"
      using kind nl by (auto simp: parse_endpoint_Ok)
    have raw: "raw = (case rq of None \<Rightarrow> path | Some s \<Rightarrow> path @ CHR ''?'' # s)"
      using st by (auto simp: split_target_def split: option.splits dest: split_once_Some)
    from parse_query_not_list [OF q nq(1)] raw path req nq(2) show ?thesis
      by (auto simp: query_spelling_def)
  qed
  with ok len req show ?thesis by simp
qed

lemma parse_raw_target_complete:
  assumes "request_ok req" and "e_kind req \<noteq> EpList" and "http_method \<noteq> ''LIST''"
    and "query_spelling (e_version req) qs" and "length (target_path req @ qs) \<le> MAX_RAW_TARGET_BYTES"
  shows "parse_raw_target hash http_method (target_path req @ qs) = Ok req"
proof -
  let ?raw = "target_path req @ qs"
  obtain rq query where st: "split_target ?raw = (target_path req, rq)"
    and query: "\<And>off. parse_query hash rq off ?raw = Ok query"
    and qv: "query = \<lparr>q_version = e_version req, q_list = False\<rparr>"
  proof (cases "e_version req")
    case None
    have "split_once CHR ''?'' (target_path req) = None"
      by (simp add: split_once_None target_path_no_query)
    with None assms(4) show thesis
      by (intro that [of None]) (auto simp: query_spelling_def split_target_def parse_query_def)
  next
    case (Some v)
    with assms(4) obtain s where s: "qs = CHR ''?'' # ''version='' @ s" "canonical_digits s" "digits_value s = unat v"
      by (auto simp: query_spelling_def)
    with Some show thesis
      using target_path_no_query parse_query_version [OF s(2,3)]
      by (intro that [of "Some (''version='' @ s)"]) (auto simp: split_target_def split_once_append)
  qed
  let ?segs = "[[], ''v1'', encode_segment (r_mount (e_resource req)), form_of (e_kind req)]
     @ map encode_segment (r_canonical_segments (e_resource req))"
  have "decode_segment hash (encode_segment (r_mount (e_resource req))) 4 ?raw = Ok (r_mount (e_resource req))"
    using assms(1) by (simp add: decode_segment_iff request_ok_def)
  moreover have "parse_endpoint hash http_method ?raw (target_path req) query (form_of (e_kind req)) = Ok (e_kind req)"
    using assms(1-3) qv by (simp add: parse_endpoint_Ok request_ok_def)
  moreover have "parse_resource hash ?raw (target_path req) ?segs (e_kind req)
      = Ok (r_canonical_segments (e_resource req))"
    using assms(1,2) by (simp add: parse_resource_Ok request_ok_def)
  moreover have "r_mount (e_resource req) \<noteq> []" "target_path req \<noteq> []"
    using assms(1) split_target_path [of req] by (auto simp: request_ok_def segment_ok_def)
  ultimately show ?thesis
    using assms(5) st query qv
    by (simp add: parse_raw_target_def Let_def split_target_path del: length_append)
qed

lemma byte_of_char_dot: "byte_of_char CHR ''.'' = 46"
  by (simp add: byte_of_char_def)

lemma bit_Suc_0_0: "bit (Suc 0) 0"
  by (simp add: bit_0)

section \<open>Properties\<close>

text \<open>
  C21: The target parser accepts one spelling per request. Outside listings it returns a request
  if and only if the method is not \<open>LIST\<close>, the mount and all segments are safe (not empty, valid
  UTF-8, no dot segment, no separator, backslash, percent sign or control byte), there is at
  least one segment, a version only stands on a data request, and the target is, byte for byte,
  the canonical path of that request followed by the canonical version query.
\<close>

theorem raw_target_canonical:
  assumes "e_kind req \<noteq> EpList"
  shows "parse_raw_target hash http_method raw = Ok req \<longleftrightarrow>
    http_method \<noteq> ''LIST'' \<and> request_ok req \<and> length raw \<le> MAX_RAW_TARGET_BYTES
    \<and> (\<exists>qs. query_spelling (e_version req) qs \<and> raw = target_path req @ qs)"
  using parse_raw_target_sound [of hash http_method raw req] assms parse_raw_target_complete [OF _ assms]
  by blast

theorem raw_target_canonical_witness:
  "parse_raw_target (\<lambda>_. 0) ''GET'' ''/v1/kv/data/a%20b''
     = Ok \<lparr>e_kind = EpData, e_resource = \<lparr>r_mount = ''kv'', r_canonical_segments = [''a b'']\<rparr>, e_version = None\<rparr>"
proof -
  let ?req = "\<lparr>e_kind = EpData, e_resource = \<lparr>r_mount = ''kv'', r_canonical_segments = [''a b'']\<rparr>, e_version = None\<rparr>"
  have "target_path ?req = ''/v1/kv/data/a%20b''"
    by (simp add: target_path_def encode_segment_def encode_byte_def str_bytes_def bytes_str_def
        byte_of_char_def char_of_byte_def is_ascii_alphanumeric_def is_mark_def hex_upper_def char_of_def bit_Suc_0_0)
  moreover have "request_ok ?req"
    by (simp add: request_ok_def segment_ok_def str_ok_def utf8_valid_def str_bytes_def byte_of_char_def
        segment_byte_ok_def is_ascii_control_def)
  ultimately show ?thesis
    using raw_target_canonical [of ?req "\<lambda>_. 0" "''GET''" "''/v1/kv/data/a%20b''"]
    by (simp add: query_spelling_def)
qed

text \<open>
  No two targets name the same request: outside listings, two targets that parse to the same
  request are the same bytes, whatever the methods. So an access decision or an audit record made
  on the parsed resource cannot be evaded by another spelling of the path.
\<close>

lemma raw_target_unique:
  assumes "parse_raw_target hash http_method raw = Ok req" and "parse_raw_target hash' http_method' raw' = Ok req"
    and "e_kind req \<noteq> EpList"
  shows "raw = raw'"
  using parse_raw_target_sound [OF assms(1)] parse_raw_target_sound [OF assms(2)] assms(3)
    query_spelling_unique by metis

text \<open>
  A path segment has one spelling and decodes to a safe name: the parser returns a segment if
  and only if the segment is safe and the raw text is its canonical encoding, in which letters,
  digits and the marks \<open>- . _ ~ +\<close> stand for themselves and every other byte is an uppercase
  escape.
\<close>

theorem segment_canonical:
  "decode_segment hash raw base target = Ok s \<longleftrightarrow> segment_ok s \<and> raw = encode_segment s"
  by (rule decode_segment_iff)

text \<open>
  The alphabet is wider than the module comment says. The comment admits letters, digits and
  marks, with only the space and non-ASCII bytes as escapes; the parser also accepts the escape of
  every printable ASCII punctuation character other than the separators, the percent sign and the
  marks, and returns that character.
\<close>

lemma escaped_punctuation_accepted:
  assumes "32 < v" and "v < 127" and "segment_byte_ok v" and "\<not> (is_ascii_alphanumeric v \<or> is_mark v)"
  shows "decode_segment hash (bytes_str [37, hex_upper (unat v div 16), hex_upper (unat v mod 16)]) base target
    = Ok [char_of_byte v]"
proof -
  have enc: "encode_segment [char_of_byte v] = bytes_str [37, hex_upper (unat v div 16), hex_upper (unat v mod 16)]"
    using assms(4) by (simp add: encode_segment_def str_bytes_def encode_byte_def)
  have "v \<noteq> 46" using assms(4) by (auto simp: is_mark_def)
  then have "char_of_byte v \<noteq> CHR ''.''"
    by (metis byte_of_char_of_byte byte_of_char_dot)
  moreover have "utf8_valid [v]"
    using assms(2) by (simp add: utf8_valid_def word_less_nat_alt)
  ultimately have "segment_ok [char_of_byte v]"
    using assms(3) by (simp add: segment_ok_def str_ok_def str_bytes_def)
  with enc show ?thesis by (simp add: decode_segment_iff)
qed

end
