(* ===== verification/Json_Values.thy ===== *)
theory Json_Values
  imports Raw_Target
begin

text \<open>
  JSON values as \<open>serde_json\<close> has them (its \<open>Map\<close> is a \<open>BTreeMap\<close> in the configured features),
  the accessors the handlers use, decimal printing of integers, and an HTTP response with a JSON
  body. Reading and writing JSON text is library code: where a handler does it, the reader and
  the writer are parameters.
\<close>

section \<open>Values\<close>

datatype json_number = PosInt u64 | NegInt "64 word" | Float "64 word"

datatype json =
    JNull
  | JBool bool
  | JNumber json_number
  | JString string
  | JArray "json list"
  | JObject "(string \<times> json) list"

fun as_u64 :: "json \<Rightarrow> u64 option" where
  "as_u64 (JNumber (PosInt n)) = Some n"
| "as_u64 _ = None"

fun as_bool :: "json \<Rightarrow> bool option" where
  "as_bool (JBool b) = Some b"
| "as_bool _ = None"

fun as_str :: "json \<Rightarrow> string option" where
  "as_str (JString s) = Some s"
| "as_str _ = None"

text \<open>Collecting pairs into a \<open>BTreeMap\<close>.\<close>

definition bt_collect :: "('k::linorder \<times> 'v) list \<Rightarrow> ('k \<times> 'v) list" where
  "bt_collect ps = foldl (\<lambda>m (k, v). bt_insert k v m) [] ps"

text \<open>The macro \<open>json!\<close> on an object literal.\<close>

definition json_object :: "(string \<times> json) list \<Rightarrow> json" where
  "json_object ps = JObject (bt_collect ps)"

section \<open>Decimal printing\<close>

fun nat_to_string :: "nat \<Rightarrow> string" where
  "nat_to_string n =
     (if n < 10 then [char_of (n + 48)] else nat_to_string (n div 10) @ [char_of (n mod 10 + 48)])"

declare nat_to_string.simps [simp del]

definition u64_to_string :: "u64 \<Rightarrow> string" where
  "u64_to_string n = nat_to_string (unat n)"

lemma of_char_char_of_digit: "d < 10 \<Longrightarrow> (of_char (char_of (d + 48 :: nat)) :: nat) = d + 48"
  by (simp add: of_char_of)

lemma is_digit_char_of: "d < 10 \<Longrightarrow> is_digit (char_of (d + 48 :: nat))"
  by (simp add: is_digit_def less_eq_char_def of_char_char_of_digit)

lemma nat_to_string_digits: "list_all is_digit (nat_to_string n) \<and> nat_to_string n \<noteq> []"
  by (induction n rule: nat_to_string.induct)
    (subst (1 2) nat_to_string.simps, simp add: is_digit_char_of)

lemma digits_value_nat_to_string: "digits_value (nat_to_string n) = n"
proof (induction n rule: nat_to_string.induct)
  case (1 n)
  show ?case
  proof (cases "n < 10")
    case True
    then show ?thesis
      by (subst nat_to_string.simps) (simp add: digits_value_def of_char_char_of_digit)
  next
    case False
    with 1 show ?thesis
      by (subst nat_to_string.simps) (simp add: digits_value_snoc of_char_char_of_digit)
  qed
qed

lemma parse_u64_to_string: "parse_u64 (u64_to_string n) = Some n"
  using nat_to_string_digits [of "unat n"] unsigned_less [of n, where 'a = nat]
  by (simp add: parse_u64_def u64_to_string_def digits_value_nat_to_string)

lemma u64_to_string_inject: "u64_to_string a = u64_to_string b \<longleftrightarrow> a = b"
  by (metis option.inject parse_u64_to_string)

section \<open>Responses\<close>

record http_response =
  hr_status :: nat
  hr_headers :: "(string \<times> string) list"
  hr_body :: "json option"

definition json_response :: "nat \<Rightarrow> json \<Rightarrow> http_response" where
  "json_response status body =
     \<lparr>hr_status = status, hr_headers = [(''content-type'', ''application/json'')], hr_body = Some body\<rparr>"

definition status_response :: "nat \<Rightarrow> http_response" where
  "status_response status = \<lparr>hr_status = status, hr_headers = [], hr_body = None\<rparr>"

lemma btree_bt_collect: "btree (bt_collect ps)"
proof -
  have "btree m \<Longrightarrow> btree (foldl (\<lambda>m (k, v). bt_insert k v m) m ps)" for m
    by (induction ps arbitrary: m) auto
  then show ?thesis by (simp add: bt_collect_def)
qed

end
