(* ===== verification/Identity_Grants.thy ===== *)
theory Identity_Grants
  imports Raw_Target
begin

text \<open>
  Identities, grants, capabilities, token records and the authorization decision
  (\<open>src/identity.rs\<close>). Identity and grant rows are sealed records with a canonical codec; a
  token is authorized from one snapshot of the token, its identity and the grants. The locale
  \<open>generation_cas\<close> is the contract the three one-way transitions share: revoking a token,
  retiring an identity and removing a grant.
\<close>

section \<open>Labels, mounts and segments\<close>

abbreviation (input) IDENTITY_SCHEMA_VERSION :: u16 where "IDENTITY_SCHEMA_VERSION \<equiv> 1"
abbreviation (input) GRANT_SCHEMA_VERSION :: u16 where "GRANT_SCHEMA_VERSION \<equiv> 1"
abbreviation (input) MANAGEMENT_MOUNT :: string where "MANAGEMENT_MOUNT \<equiv> ''sys''"
abbreviation (input) MAX_NAME :: nat where "MAX_NAME \<equiv> 255"
abbreviation (input) MAX_MOUNT :: nat where "MAX_MOUNT \<equiv> 128"
abbreviation (input) MAX_SEGMENT :: nat where "MAX_SEGMENT \<equiv> 1024"
abbreviation (input) MAX_SEGMENTS :: nat where "MAX_SEGMENTS \<equiv> 256"
abbreviation (input) MAX_CAPABILITIES :: nat where "MAX_CAPABILITIES \<equiv> 64"

definition valid_label :: "string \<Rightarrow> bool" where
  "valid_label s \<longleftrightarrow> s \<noteq> [] \<and> length s \<le> MAX_NAME
     \<and> list_all (\<lambda>b. is_ascii_alphanumeric b \<or> b = 45 \<or> b = 95 \<or> b = 46) (str_bytes s)"

definition valid_mount :: "string \<Rightarrow> bool" where
  "valid_mount s \<longleftrightarrow> s \<noteq> [] \<and> length s \<le> MAX_MOUNT
     \<and> list_all (\<lambda>b. is_ascii_alphanumeric b \<or> b = 45 \<or> b = 95) (str_bytes s)"

definition valid_segment :: "string \<Rightarrow> bool" where
  "valid_segment s \<longleftrightarrow> s \<noteq> [] \<and> length s \<le> MAX_SEGMENT
     \<and> \<not> (CHR ''/'' \<in> set s \<or> CHR 0x00 \<in> set s)"

section \<open>Capabilities\<close>

datatype capability =
    SecretReadCurrent | SecretReadHistory | SecretList | SecretWrite | SecretSoftDelete
  | SecretUndelete | SecretDestroy | SecretDestroyAll | IdentityGrantManage | CredentialIssue
  | CredentialRevoke | RotationManage | ConsumerEnumerate | AuditRead | AuditExport
  | AuditExportRecipientManage | AuditCheckpointManage | Backup | BackupRecipientManage
  | KeyRotation | StoreMaintenance | TransportManage | Diagnostics

primrec capability_code :: "capability \<Rightarrow> u16" where
  "capability_code SecretReadCurrent = 1"
| "capability_code SecretReadHistory = 2"
| "capability_code SecretList = 3"
| "capability_code SecretWrite = 4"
| "capability_code SecretSoftDelete = 5"
| "capability_code SecretUndelete = 6"
| "capability_code SecretDestroy = 7"
| "capability_code SecretDestroyAll = 8"
| "capability_code IdentityGrantManage = 101"
| "capability_code CredentialIssue = 102"
| "capability_code CredentialRevoke = 103"
| "capability_code RotationManage = 104"
| "capability_code ConsumerEnumerate = 105"
| "capability_code AuditRead = 106"
| "capability_code AuditExport = 107"
| "capability_code AuditExportRecipientManage = 108"
| "capability_code AuditCheckpointManage = 109"
| "capability_code Backup = 110"
| "capability_code BackupRecipientManage = 111"
| "capability_code KeyRotation = 112"
| "capability_code StoreMaintenance = 113"
| "capability_code TransportManage = 114"
| "capability_code Diagnostics = 115"

definition capability_all :: "capability list" where
  "capability_all =
     [SecretReadCurrent, SecretReadHistory, SecretList, SecretWrite, SecretSoftDelete,
      SecretUndelete, SecretDestroy, SecretDestroyAll, IdentityGrantManage, CredentialIssue,
      CredentialRevoke, RotationManage, ConsumerEnumerate, AuditRead, AuditExport,
      AuditExportRecipientManage, AuditCheckpointManage, Backup, BackupRecipientManage,
      KeyRotation, StoreMaintenance, TransportManage, Diagnostics]"

definition is_secret :: "capability \<Rightarrow> bool" where
  "is_secret c \<longleftrightarrow> capability_code c < 100"

definition is_management :: "capability \<Rightarrow> bool" where
  "is_management c \<longleftrightarrow> \<not> is_secret c"

definition capability_decode :: "u16 \<Rightarrow> (capability, codec_error) result" where
  "capability_decode v = ok_or Invalid (find (\<lambda>c. capability_code c = v) capability_all)"

lemma capability_code_inject [simp]: "capability_code a = capability_code b \<longleftrightarrow> a = b"
  by (cases a; cases b) simp_all

lemma capability_decode_code [simp]: "capability_decode (capability_code c) = Ok c"
  by (cases c) (simp_all add: capability_decode_def capability_all_def)

lemma capability_decode_Ok [simp]: "capability_decode v = Ok c \<longleftrightarrow> v = capability_code c"
  using capability_decode_code [of c]
  by (auto simp: capability_decode_def dest: find_Some_iff [THEN iffD1])

text \<open>The derived order of the enum is the order of the codes.\<close>

instantiation capability :: linorder
begin

definition less_eq_capability :: "capability \<Rightarrow> capability \<Rightarrow> bool" where
  "less_eq_capability a b \<longleftrightarrow> capability_code a \<le> capability_code b"

definition less_capability :: "capability \<Rightarrow> capability \<Rightarrow> bool" where
  "less_capability a b \<longleftrightarrow> capability_code a < capability_code b"

instance
  by intro_classes
    (auto simp: less_eq_capability_def less_capability_def simp flip: capability_code_inject)

end

datatype capability_bundle = AdminV1 | AuditorV1

definition capability_bundle_expand :: "capability_bundle \<Rightarrow> capability list" where
  "capability_bundle_expand b =
     (case b of
        AdminV1 \<Rightarrow> bs_collect (filter is_management capability_all)
      | AuditorV1 \<Rightarrow> bs_collect [AuditRead, AuditExport])"

section \<open>Token records\<close>

datatype token_status = TokenActive | TokenRevoked

datatype token_error = TokenInvalid | TokenStaleGeneration

record token_server_record =
  tk_id :: id16
  tk_identity_id :: id16
  tk_issued_at_effective_seconds :: u64
  tk_expires_at_effective_seconds :: u64
  tk_issue_epoch :: u64
  tk_status :: token_status
  tk_generation :: u64
  tk_display_name :: string

definition token_issue ::
  "id16 \<Rightarrow> id16 \<Rightarrow> u64 \<Rightarrow> u64 \<Rightarrow> u64 \<Rightarrow> string \<Rightarrow> (token_server_record, token_error) result" where
  "token_issue i identity_id issued_at ttl_seconds issue_epoch display_name =
     rbind (ok_or TokenInvalid (checked_add issued_at ttl_seconds)) (\<lambda>expires_at.
       if i = 0 \<or> identity_id = 0 \<or> issued_at = 0 \<or> ttl_seconds = 0 \<or> issue_epoch = 0
          \<or> \<not> valid_label display_name
       then Err TokenInvalid
       else Ok \<lparr>tk_id = i, tk_identity_id = identity_id,
                tk_issued_at_effective_seconds = issued_at,
                tk_expires_at_effective_seconds = expires_at, tk_issue_epoch = issue_epoch,
                tk_status = TokenActive, tk_generation = 1, tk_display_name = display_name\<rparr>)"

definition token_revoke :: "token_server_record \<Rightarrow> u64 \<Rightarrow> (token_server_record, token_error) result" where
  "token_revoke t expected_generation =
     (if tk_status t \<noteq> TokenActive \<or> tk_generation t \<noteq> expected_generation
      then Err TokenStaleGeneration
      else rbind (ok_or TokenInvalid (checked_add (tk_generation t) 1)) (\<lambda>generation.
             Ok (t\<lparr>tk_status := TokenRevoked, tk_generation := generation\<rparr>)))"

definition token_bearer_new :: "bytes \<Rightarrow> (bytes, token_error) result" where
  "token_bearer_new bs = (if bs = [] then Err TokenInvalid else Ok bs)"

section \<open>Identity records\<close>

datatype identity_kind = Human | Workload
datatype identity_status = IdentityActive | IdentityRetired

datatype identity_error =
    IdInvalid | IdCrossPlane | IdStaleGeneration | IdWrongOwner | IdDuplicateIdentity
  | IdDuplicateGrant | IdInvalidRequestShape

primrec identity_kind_code :: "identity_kind \<Rightarrow> u8" where
  "identity_kind_code Human = 1"
| "identity_kind_code Workload = 2"

primrec identity_status_code :: "identity_status \<Rightarrow> u8" where
  "identity_status_code IdentityActive = 1"
| "identity_status_code IdentityRetired = 2"

record identity_record =
  ir_id :: id16
  ir_name :: string
  ir_kind :: identity_kind
  ir_status :: identity_status
  ir_generation :: u64

definition identity_validate :: "identity_record \<Rightarrow> (unit, codec_error) result" where
  "identity_validate r =
     (if ir_id r = 0 \<or> ir_generation r = 0 \<or> \<not> valid_label (ir_name r) then Err Invalid else Ok ())"

definition identity_new :: "id16 \<Rightarrow> string \<Rightarrow> identity_kind \<Rightarrow> (identity_record, identity_error) result" where
  "identity_new i name kind =
     (let value = \<lparr>ir_id = i, ir_name = name, ir_kind = kind, ir_status = IdentityActive,
                   ir_generation = 1\<rparr>
      in rbind (map_err (\<lambda>_. IdInvalid) (identity_validate value)) (\<lambda>_. Ok value))"

definition identity_retire :: "identity_record \<Rightarrow> u64 \<Rightarrow> (identity_record, identity_error) result" where
  "identity_retire r expected_generation =
     (if ir_status r \<noteq> IdentityActive \<or> ir_generation r \<noteq> expected_generation
      then Err IdStaleGeneration
      else rbind (ok_or IdInvalid (checked_add (ir_generation r) 1)) (\<lambda>generation.
             Ok (r\<lparr>ir_status := IdentityRetired, ir_generation := generation\<rparr>)))"

definition identity_encode :: "identity_record \<Rightarrow> (bytes, codec_error) result" where
  "identity_encode r =
     rbind (identity_validate r) (\<lambda>_.
       let out = enc_version 1;
           out = enc_u16 IDENTITY_SCHEMA_VERSION out;
           out = enc_fixed (be_bytes 16 (ir_id r)) out
       in rbind (enc_string (ir_name r) MAX_NAME out) (\<lambda>out.
          let out = enc_u8 (identity_kind_code (ir_kind r)) out;
              out = enc_u8 (identity_status_code (ir_status r)) out;
              out = enc_u64 (ir_generation r) out
          in Ok (enc_finish out)))"

definition identity_kind_decode :: "u8 \<Rightarrow> (identity_kind, codec_error) result" where
  "identity_kind_decode b = (if b = 1 then Ok Human else if b = 2 then Ok Workload else Err Invalid)"

definition identity_status_decode :: "u8 \<Rightarrow> (identity_status, codec_error) result" where
  "identity_status_decode b =
     (if b = 1 then Ok IdentityActive else if b = 2 then Ok IdentityRetired else Err Invalid)"

definition identity_decode :: "bytes \<Rightarrow> (identity_record, codec_error) result" where
  "identity_decode bs = run_dec 1 bs (
     dbind dec_u16 (\<lambda>schema.
     dbind (dcheck (schema = IDENTITY_SCHEMA_VERSION) UnknownVersion) (\<lambda>_.
     dbind (dec_fixed 16) (\<lambda>i.
     dbind (dec_string MAX_NAME) (\<lambda>name.
     dbind dec_u8 (\<lambda>b. dbind (dlift (identity_kind_decode b)) (\<lambda>kind.
     dbind dec_u8 (\<lambda>b. dbind (dlift (identity_status_decode b)) (\<lambda>status.
     dbind dec_u64 (\<lambda>generation.
     dbind dec_finish (\<lambda>_.
     let value = \<lparr>ir_id = i, ir_name = name, ir_kind = kind, ir_status = status,
                  ir_generation = generation\<rparr>
     in dbind (dlift (identity_validate value)) (\<lambda>_. dret value))))))))))))"

definition identity_seal ::
  "keyed_hash \<Rightarrow> identity_record \<Rightarrow> arr32 \<Rightarrow> id16 \<Rightarrow> (identity_record sealed, codec_error) result" where
  "identity_seal keyed r key store_id =
     rbind (identity_validate r) (\<lambda>_.
       seal keyed identity_encode Identity IDENTITY_SCHEMA_VERSION r (ir_generation r) key store_id
         (be_bytes 16 (ir_id r)))"

section \<open>Grant records\<close>

datatype grant_status = GrantActive | GrantRemoved
datatype grant_scope = Exact | Subtree

primrec grant_status_code :: "grant_status \<Rightarrow> u8" where
  "grant_status_code GrantActive = 1"
| "grant_status_code GrantRemoved = 2"

primrec grant_scope_code :: "grant_scope \<Rightarrow> u8" where
  "grant_scope_code Exact = 1"
| "grant_scope_code Subtree = 2"

record grant_record =
  gr_id :: id16
  gr_owner_identity_id :: id16
  gr_generation :: u64
  gr_status :: grant_status
  gr_mount :: string
  gr_scope :: grant_scope
  gr_prefix_segments :: "string list"
  gr_capabilities :: "capability list"

definition grant_validate :: "grant_record \<Rightarrow> (unit, identity_error) result" where
  "grant_validate g =
     (if gr_id g = 0 \<or> gr_owner_identity_id g = 0 \<or> gr_generation g = 0
         \<or> \<not> valid_mount (gr_mount g)
         \<or> length (gr_prefix_segments g) > MAX_SEGMENTS
         \<or> list_ex (\<lambda>segment. \<not> valid_segment segment) (gr_prefix_segments g)
         \<or> gr_capabilities g = [] \<or> length (gr_capabilities g) > MAX_CAPABILITIES
      then Err IdInvalid
      else
        let management = gr_mount g = MANAGEMENT_MOUNT
        in if management \<and> (\<not> list_all is_management (gr_capabilities g) \<or> gr_scope g \<noteq> Exact
                \<or> gr_prefix_segments g \<noteq> [])
              \<or> \<not> management \<and> \<not> list_all is_secret (gr_capabilities g)
           then Err IdCrossPlane else Ok ())"

definition grant_new ::
  "id16 \<Rightarrow> id16 \<Rightarrow> string \<Rightarrow> grant_scope \<Rightarrow> string list \<Rightarrow> capability list \<Rightarrow>
     (grant_record, identity_error) result" where
  "grant_new i owner mount scope prefix_segments capabilities =
     (let value = \<lparr>gr_id = i, gr_owner_identity_id = owner, gr_generation = 1,
                   gr_status = GrantActive, gr_mount = mount, gr_scope = scope,
                   gr_prefix_segments = prefix_segments, gr_capabilities = capabilities\<rparr>
      in rbind (grant_validate value) (\<lambda>_. Ok value))"

definition bootstrap_admin :: "id16 \<Rightarrow> id16 \<Rightarrow> (grant_record, identity_error) result" where
  "bootstrap_admin i owner =
     grant_new i owner MANAGEMENT_MOUNT Exact [] (capability_bundle_expand AdminV1)"

definition grant_remove :: "grant_record \<Rightarrow> id16 \<Rightarrow> u64 \<Rightarrow> (grant_record, identity_error) result" where
  "grant_remove g owner expected_generation =
     (if gr_owner_identity_id g \<noteq> owner then Err IdWrongOwner
      else if gr_status g \<noteq> GrantActive \<or> gr_generation g \<noteq> expected_generation
      then Err IdStaleGeneration
      else rbind (ok_or IdInvalid (checked_add (gr_generation g) 1)) (\<lambda>generation.
             Ok (g\<lparr>gr_status := GrantRemoved, gr_generation := generation\<rparr>)))"

fun encode_segments :: "string list \<Rightarrow> bytes \<Rightarrow> (bytes, codec_error) result" where
  "encode_segments [] out = Ok out"
| "encode_segments (segment # rest) out =
     rbind (enc_string segment MAX_SEGMENT out) (\<lambda>out. encode_segments rest out)"

definition grant_encode :: "grant_record \<Rightarrow> (bytes, codec_error) result" where
  "grant_encode g =
     rbind (map_err (\<lambda>_. Invalid) (grant_validate g)) (\<lambda>_.
       let out = enc_version 1;
           out = enc_u16 GRANT_SCHEMA_VERSION out;
           out = enc_fixed (be_bytes 16 (gr_id g)) out;
           out = enc_fixed (be_bytes 16 (gr_owner_identity_id g)) out;
           out = enc_u64 (gr_generation g) out;
           out = enc_u8 (grant_status_code (gr_status g)) out
       in rbind (enc_string (gr_mount g) MAX_MOUNT out) (\<lambda>out.
          let out = enc_u8 (grant_scope_code (gr_scope g)) out;
              out = enc_u16 (word_of_nat (length (gr_prefix_segments g))) out
          in rbind (encode_segments (gr_prefix_segments g) out) (\<lambda>out.
             let out = enc_u16 (word_of_nat (length (gr_capabilities g))) out;
                 out = foldl (\<lambda>out capability. enc_u16 (capability_code capability) out)
                         out (gr_capabilities g)
             in Ok (enc_finish out))))"

definition grant_status_decode :: "u8 \<Rightarrow> (grant_status, codec_error) result" where
  "grant_status_decode b =
     (if b = 1 then Ok GrantActive else if b = 2 then Ok GrantRemoved else Err Invalid)"

definition grant_scope_decode :: "u8 \<Rightarrow> (grant_scope, codec_error) result" where
  "grant_scope_decode b = (if b = 1 then Ok Exact else if b = 2 then Ok Subtree else Err Invalid)"

text \<open>The loop that reads the capabilities: \<open>previous\<close> is the last one read.\<close>

primrec decode_capabilities ::
  "nat \<Rightarrow> capability option \<Rightarrow> capability list \<Rightarrow> capability list dec" where
  "decode_capabilities 0 previous capabilities = dret capabilities"
| "decode_capabilities (Suc n) previous capabilities =
     dbind dec_u16 (\<lambda>v. dbind (dlift (capability_decode v)) (\<lambda>capability.
     dbind (dcheck (\<not> ((case previous of None \<Rightarrow> False | Some old \<Rightarrow> old \<ge> capability)
                       \<or> capability \<in> set capabilities)) Invalid) (\<lambda>_.
       decode_capabilities n (Some capability) (bs_insert capability capabilities))))"

definition grant_decode :: "bytes \<Rightarrow> (grant_record, codec_error) result" where
  "grant_decode bs = run_dec 1 bs (
     dbind dec_u16 (\<lambda>schema.
     dbind (dcheck (schema = GRANT_SCHEMA_VERSION) UnknownVersion) (\<lambda>_.
     dbind (dec_fixed 16) (\<lambda>i.
     dbind (dec_fixed 16) (\<lambda>owner.
     dbind dec_u64 (\<lambda>generation.
     dbind dec_u8 (\<lambda>b. dbind (dlift (grant_status_decode b)) (\<lambda>status.
     dbind (dec_string MAX_MOUNT) (\<lambda>mount.
     dbind dec_u8 (\<lambda>b. dbind (dlift (grant_scope_decode b)) (\<lambda>scope.
     dbind dec_u16 (\<lambda>segment_count.
     dbind (dcheck (unat segment_count \<le> MAX_SEGMENTS) Limit) (\<lambda>_.
     dbind (dec_repeat (unat segment_count) (dec_string MAX_SEGMENT)) (\<lambda>prefix_segments.
     dbind dec_u16 (\<lambda>capability_count.
     dbind (dcheck (\<not> (unat capability_count = 0 \<or> unat capability_count > MAX_CAPABILITIES)) Limit) (\<lambda>_.
     dbind (decode_capabilities (unat capability_count) None []) (\<lambda>capabilities.
     dbind dec_finish (\<lambda>_.
     let value = \<lparr>gr_id = i, gr_owner_identity_id = owner, gr_generation = generation,
                  gr_status = status, gr_mount = mount, gr_scope = scope,
                  gr_prefix_segments = prefix_segments, gr_capabilities = capabilities\<rparr>
     in dbind (dlift (map_err (\<lambda>_. Invalid) (grant_validate value))) (\<lambda>_.
        dret value)))))))))))))))))))"

definition grant_seal ::
  "keyed_hash \<Rightarrow> grant_record \<Rightarrow> arr32 \<Rightarrow> id16 \<Rightarrow> (grant_record sealed, codec_error) result" where
  "grant_seal keyed g key store_id =
     rbind (map_err (\<lambda>_. Invalid) (grant_validate g)) (\<lambda>_.
       seal keyed grant_encode Grant GRANT_SCHEMA_VERSION g (gr_generation g) key store_id
         (be_bytes 16 (gr_id g)))"

section \<open>Authorization\<close>

record authorization_resource =
  az_mount :: string
  az_segments :: "string list"

definition resource_of :: "resource \<Rightarrow> authorization_resource" where
  "resource_of r = \<lparr>az_mount = r_mount r, az_segments = r_canonical_segments r\<rparr>"

text \<open>\<open>[T]::starts_with\<close>.\<close>

fun starts_with :: "'a list \<Rightarrow> 'a list \<Rightarrow> bool" where
  "starts_with xs [] = True"
| "starts_with [] (y # ys) = False"
| "starts_with (x # xs) (y # ys) \<longleftrightarrow> x = y \<and> starts_with xs ys"

definition shape_matches :: "grant_record \<Rightarrow> authorization_resource \<Rightarrow> bool" where
  "shape_matches g r \<longleftrightarrow> gr_mount g = az_mount r \<and>
     (case gr_scope g of
        Exact \<Rightarrow> gr_prefix_segments g = az_segments r
      | Subtree \<Rightarrow> starts_with (az_segments r) (gr_prefix_segments g))"

datatype authorization_operation =
    OpReadCurrent | OpReadHistory | OpList | OpWrite | OpSoftDelete | OpUndelete | OpDestroy
  | OpDestroyAll | OpManagement

datatype secret_action =
  ActRead | ActMetadata | ActList | ActWrite | ActSoftDelete | ActUndelete | ActDestroy

record authorization_request =
  rq_resource :: authorization_resource
  rq_operation :: authorization_operation
  rq_capability :: capability

definition request_secret ::
  "endpoint_request \<Rightarrow> secret_action \<Rightarrow> (authorization_request, identity_error) result" where
  "request_secret endpoint action =
     rbind (case action of
         ActRead \<Rightarrow>
           if e_kind endpoint = EpData
           then (if e_version endpoint \<noteq> None then Ok (OpReadHistory, SecretReadHistory)
                 else Ok (OpReadCurrent, SecretReadCurrent))
           else Err IdInvalidRequestShape
       | ActList \<Rightarrow>
           if e_kind endpoint = EpList then Ok (OpList, SecretList) else Err IdInvalidRequestShape
       | ActMetadata \<Rightarrow>
           if e_kind endpoint = EpMetadata then Ok (OpList, SecretList) else Err IdInvalidRequestShape
       | ActWrite \<Rightarrow>
           if e_kind endpoint = EpData \<or> e_kind endpoint = EpMetadata
           then Ok (OpWrite, SecretWrite) else Err IdInvalidRequestShape
       | ActSoftDelete \<Rightarrow>
           if e_kind endpoint = EpDelete then Ok (OpSoftDelete, SecretSoftDelete)
           else Err IdInvalidRequestShape
       | ActUndelete \<Rightarrow>
           if e_kind endpoint = EpUndelete then Ok (OpUndelete, SecretUndelete)
           else Err IdInvalidRequestShape
       | ActDestroy \<Rightarrow>
           if e_kind endpoint = EpDestroy then Ok (OpDestroy, SecretDestroy)
           else Err IdInvalidRequestShape)
       (\<lambda>(operation, capability).
         Ok \<lparr>rq_resource = resource_of (e_resource endpoint), rq_operation = operation,
             rq_capability = capability\<rparr>)"

definition request_local_destroy_all :: "resource \<Rightarrow> (authorization_request, identity_error) result" where
  "request_local_destroy_all r =
     (if r_mount r = MANAGEMENT_MOUNT then Err IdCrossPlane
      else Ok \<lparr>rq_resource = resource_of r, rq_operation = OpDestroyAll,
               rq_capability = SecretDestroyAll\<rparr>)"

definition request_management :: "capability \<Rightarrow> (authorization_request, identity_error) result" where
  "request_management c =
     (if \<not> is_management c then Err IdCrossPlane
      else Ok \<lparr>rq_resource = \<lparr>az_mount = MANAGEMENT_MOUNT, az_segments = []\<rparr>,
               rq_operation = OpManagement, rq_capability = c\<rparr>)"

datatype deny_reason = NoGrantForMount | PrefixBoundaryMiss | MissingCapability

record authorization_decision =
  ad_allow :: bool
  ad_resource :: authorization_resource
  ad_operation :: authorization_operation
  ad_matched_grant :: "id16 option"
  ad_deny_reason :: "deny_reason option"

definition authorize :: "authorization_request \<Rightarrow> grant_record list \<Rightarrow> authorization_decision" where
  "authorize request grants =
     (let applicable = filter (\<lambda>g. gr_status g = GrantActive) grants;
          same_mount = filter (\<lambda>g. gr_mount g = az_mount (rq_resource request)) applicable;
          matching = filter (\<lambda>g. shape_matches g (rq_resource request)) same_mount;
          matched = find (\<lambda>g. rq_capability request \<in> set (gr_capabilities g)) matching;
          (allow, matched_grant, deny) =
            (case matched of
               Some g \<Rightarrow> (True, Some (gr_id g), None)
             | None \<Rightarrow>
                 if same_mount = [] then (False, None, Some NoGrantForMount)
                 else if matching = [] then (False, None, Some PrefixBoundaryMiss)
                 else (False, None, Some MissingCapability))
      in \<lparr>ad_allow = allow, ad_resource = rq_resource request, ad_operation = rq_operation request,
          ad_matched_grant = matched_grant, ad_deny_reason = deny\<rparr>)"

datatype token_deny_reason =
    CredentialNotFound | Revoked | Expired | EpochChanged | IdentityNotFound | IdentityDisabled
  | TokenNoGrantForMount | TokenPrefixBoundaryMiss | TokenMissingCapability

record token_authorization_decision =
  ta_allow :: bool
  ta_identity_id :: "id16 option"
  ta_matched_grant :: "id16 option"
  ta_deny_reason :: "token_deny_reason option"
  ta_audit_required :: bool

record token_authorization_snapshot =
  ts_token :: "token_server_record option"
  ts_identity :: "identity_record option"
  ts_grants :: "grant_record list"
  ts_effective_seconds :: u64
  ts_credential_epoch :: u64

definition denied :: "id16 option \<Rightarrow> token_deny_reason \<Rightarrow> token_authorization_decision" where
  "denied identity_id reason =
     \<lparr>ta_allow = False, ta_identity_id = identity_id, ta_matched_grant = None,
      ta_deny_reason = Some reason, ta_audit_required = True\<rparr>"

primrec token_reason :: "deny_reason \<Rightarrow> token_deny_reason" where
  "token_reason NoGrantForMount = TokenNoGrantForMount"
| "token_reason PrefixBoundaryMiss = TokenPrefixBoundaryMiss"
| "token_reason MissingCapability = TokenMissingCapability"

definition token_authorize ::
  "token_authorization_snapshot \<Rightarrow> authorization_request \<Rightarrow> token_authorization_decision" where
  "token_authorize snapshot request =
     (case ts_token snapshot of
        None \<Rightarrow> denied None CredentialNotFound
      | Some token \<Rightarrow>
          if tk_status token = TokenRevoked then denied (Some (tk_identity_id token)) Revoked
          else if ts_effective_seconds snapshot \<ge> tk_expires_at_effective_seconds token
          then denied (Some (tk_identity_id token)) Expired
          else if ts_credential_epoch snapshot \<noteq> tk_issue_epoch token
          then denied (Some (tk_identity_id token)) EpochChanged
          else
            (case ts_identity snapshot of
               None \<Rightarrow> denied (Some (tk_identity_id token)) IdentityNotFound
             | Some identity \<Rightarrow>
                 if ir_id identity \<noteq> tk_identity_id token
                 then denied (Some (tk_identity_id token)) IdentityNotFound
                 else if ir_status identity \<noteq> IdentityActive
                 then denied (Some (tk_identity_id token)) IdentityDisabled
                 else
                   let decision = authorize request
                         (filter (\<lambda>g. gr_owner_identity_id g = ir_id identity) (ts_grants snapshot))
                   in if ad_allow decision
                      then \<lparr>ta_allow = True, ta_identity_id = Some (ir_id identity),
                            ta_matched_grant = ad_matched_grant decision, ta_deny_reason = None,
                            ta_audit_required = True\<rparr>
                      else denied (Some (ir_id identity))
                             (token_reason (the (ad_deny_reason decision)))))"

section \<open>The catalog\<close>

primrec validate_identities ::
  "identity_record list \<Rightarrow> id16 list \<Rightarrow> string list \<Rightarrow> (unit, identity_error) result" where
  "validate_identities [] ids names = Ok ()"
| "validate_identities (identity # rest) ids names =
     rbind (map_err (\<lambda>_. IdInvalid) (identity_validate identity)) (\<lambda>_.
       if ir_id identity \<in> set ids \<or> ir_name identity \<in> set names then Err IdDuplicateIdentity
       else validate_identities rest (bs_insert (ir_id identity) ids) (bs_insert (ir_name identity) names))"

primrec validate_grants ::
  "(id16 \<times> identity_record) list \<Rightarrow> grant_record list \<Rightarrow> id16 list \<Rightarrow> (unit, identity_error) result" where
  "validate_grants by_id [] grant_ids = Ok ()"
| "validate_grants by_id (grant # rest) grant_ids =
     rbind (grant_validate grant) (\<lambda>_.
       if gr_id grant \<in> set grant_ids then Err IdDuplicateGrant
       else if \<not> bt_contains by_id (gr_owner_identity_id grant) then Err IdWrongOwner
       else validate_grants by_id rest (bs_insert (gr_id grant) grant_ids))"

definition identities_by_id :: "identity_record list \<Rightarrow> (id16 \<times> identity_record) list" where
  "identities_by_id identities = foldl (\<lambda>m i. bt_insert (ir_id i) i m) [] identities"

definition validate_catalog ::
  "identity_record list \<Rightarrow> grant_record list \<Rightarrow> (unit, identity_error) result" where
  "validate_catalog identities grants =
     rbind (validate_identities identities [] []) (\<lambda>_.
       validate_grants (identities_by_id identities) grants [])"

section \<open>Codecs\<close>

lemma identity_kind_decode_Ok [simp]: "identity_kind_decode b = Ok k \<longleftrightarrow> b = identity_kind_code k"
  by (cases k) (auto simp: identity_kind_decode_def split: if_splits)

lemma identity_status_decode_Ok [simp]:
  "identity_status_decode b = Ok s \<longleftrightarrow> b = identity_status_code s"
  by (cases s) (auto simp: identity_status_decode_def split: if_splits)

lemma grant_status_decode_Ok [simp]: "grant_status_decode b = Ok s \<longleftrightarrow> b = grant_status_code s"
  by (cases s) (auto simp: grant_status_decode_def split: if_splits)

lemma grant_scope_decode_Ok [simp]: "grant_scope_decode b = Ok s \<longleftrightarrow> b = grant_scope_code s"
  by (cases s) (auto simp: grant_scope_decode_def split: if_splits)

definition identity_ok :: "identity_record \<Rightarrow> bool" where
  "identity_ok r \<longleftrightarrow> str_ok (ir_name r)"

interpretation identity_codec: strict_canonical identity_encode identity_decode identity_ok
proof unfold_locales
  fix r bs
  assume "identity_ok r" "identity_encode r = Ok bs" "vec_ok bs"
  then show "identity_decode bs = Ok r"
    by (cases r) (auto simp: identity_encode_def identity_decode_def identity_ok_def Let_def codec_simps
        intro!: run_dec_accepts accepts_intros)
next
  fix r bs
  assume dec: "identity_decode bs = Ok r"
  show "identity_ok r \<and> identity_encode r = Ok bs"
    by (insert dec, unfold identity_decode_def, elim trace_start, clarsimp simp: Let_def,
        (drule (1) trace_dests | drule (2) trace_finish | erule conjE)+,
        auto simp: identity_encode_def identity_ok_def codec_simps)
qed

interpretation identity_row: strict_clear_record identity_encode identity_decode identity_ok Identity 1
  by unfold_locales

definition string_wire :: "string \<Rightarrow> bytes" where
  "string_wire s = be_bytes 4 (word_of_nat (length s) :: u32) @ str_bytes s"

lemma encode_segments_Ok:
  "encode_segments ss out = Ok out' \<longleftrightarrow>
     (\<forall>s\<in>set ss. length s \<le> MAX_SEGMENT) \<and> out' = out @ concat (map string_wire ss)"
  by (induction ss out rule: encode_segments.induct) (auto simp: codec_simps string_wire_def)

definition capability_wire :: "capability \<Rightarrow> bytes" where
  "capability_wire c = be_bytes 2 (capability_code c)"

lemma foldl_capability_wire:
  "foldl (\<lambda>out c. out @ be_bytes 2 (capability_code c)) out cs = out @ concat (map capability_wire cs)"
  by (induction cs arbitrary: out) (auto simp: capability_wire_def)

lemma grant_encode_Ok:
  "grant_encode g = Ok bs \<longleftrightarrow> grant_validate g = Ok () \<and> length (gr_mount g) \<le> MAX_MOUNT
     \<and> (\<forall>s\<in>set (gr_prefix_segments g). length s \<le> MAX_SEGMENT)
     \<and> bs = 1 # be_bytes 2 (1 :: u16) @ be_bytes 16 (gr_id g) @ be_bytes 16 (gr_owner_identity_id g)
       @ be_bytes 8 (gr_generation g) @ grant_status_code (gr_status g)
       # be_bytes 4 (word_of_nat (length (gr_mount g)) :: u32) @ str_bytes (gr_mount g)
       @ grant_scope_code (gr_scope g) # be_bytes 2 (word_of_nat (length (gr_prefix_segments g)) :: u16)
       @ concat (map string_wire (gr_prefix_segments g))
       @ be_bytes 2 (word_of_nat (length (gr_capabilities g)) :: u16)
       @ concat (map capability_wire (gr_capabilities g))"
  by (auto simp: grant_encode_def foldl_capability_wire encode_segments_Ok Let_def codec_simps)

lemma reads_decode_capabilities:
  assumes "bset (caps @ cs)" and "\<And>old. previous = Some old \<Longrightarrow> \<forall>c\<in>set cs. old < c"
  shows "reads (decode_capabilities (length cs) previous caps) (concat (map capability_wire cs)) (caps @ cs)"
  using assms
proof (induction cs arbitrary: previous caps)
  case Nil
  then show ?case by (simp add: reads_dret)
next
  case (Cons c cs)
  have ins: "bs_insert c caps = caps @ [c]"
    using Cons.prems(1) by (intro bs_insert_last) (simp add: bset_def sorted_wrt_append)
  have fresh: "c \<notin> set caps"
    using Cons.prems(1) by (auto simp: bset_def sorted_wrt_append)
  have rest: "reads (decode_capabilities (length cs) (Some c) (caps @ [c])) (concat (map capability_wire cs)) ((caps @ [c]) @ cs)"
    using Cons.prems by (intro Cons.IH) (auto simp: bset_def sorted_wrt_append)
  have lt: "\<not> (case previous of None \<Rightarrow> False | Some old \<Rightarrow> c \<le> old)"
    using Cons.prems(2) by (auto simp: not_le split: option.split)
  from fresh ins rest lt show ?case
    by (auto simp: capability_wire_def [of c] intro!: reads_rules)
qed

lemma trace_decode_capabilities:
  assumes "decode_capabilities n previous caps d = Ok (r, d')" and "consumed d0 ws d"
    and "bset caps" and "\<forall>c\<in>set caps. \<exists>old. previous = Some old \<and> c \<le> old"
  shows "\<exists>cs. r = caps @ cs \<and> bset r \<and> length cs = n
    \<and> consumed d0 (ws @ concat (map capability_wire cs)) d'"
  using assms
proof (induction n arbitrary: previous caps d ws)
  case 0
  then show ?case by simp
next
  case (Suc n)
  then obtain c d1 where c: "dec_u16 d = Ok (capability_code c, d1)"
      "\<forall>old. previous = Some old \<longrightarrow> old < c"
    and rest: "decode_capabilities n (Some c) (bs_insert c caps) d1 = Ok (r, d')"
    by (auto simp: not_le split: option.splits)
  have bs: "bset (caps @ [c])"
    using Suc.prems(3,4) c(2) by (fastforce simp: bset_def sorted_wrt_append)
  have tr: "consumed d0 (ws @ capability_wire c) d1"
    using trace_u16 [OF c(1) Suc.prems(2)] by (simp add: capability_wire_def)
  have le: "\<forall>c'\<in>set (caps @ [c]). \<exists>old. Some c = Some old \<and> c' \<le> old"
    using Suc.prems(4) c(2) by fastforce
  from Suc.IH [OF rest [unfolded bs_insert_last [OF bs]] tr bs le]
  show ?case by force
qed

lemma trace_segments:
  assumes "dec_repeat n (dec_string maximum) d = Ok (ss, d')" and "consumed d0 ws d"
  shows "consumed d0 (ws @ concat (map string_wire ss)) d' \<and> length ss = n
    \<and> (\<forall>s\<in>set ss. length s \<le> maximum \<and> str_ok s)"
proof -
  have "d_cursor d \<le> length (d_bytes d)"
    using assms(2) by (auto simp: consumed_def)
  moreover have "\<And>d s d'. dec_string maximum d = Ok (s, d') \<Longrightarrow>
      consumed d (string_wire s) d' \<and> length s \<le> maximum \<and> str_ok s"
    by (drule consumed_dec_string) (simp add: string_wire_def)
  ultimately have "consumed d (concat (map string_wire ss)) d' \<and> length ss = n
      \<and> (\<forall>s\<in>set ss. length s \<le> maximum \<and> str_ok s)"
    using assms(1) by (intro consumed_dec_repeat)
  then show ?thesis
    using consumed_trans [OF assms(2)] by blast
qed

definition grant_ok :: "grant_record \<Rightarrow> bool" where
  "grant_ok g \<longleftrightarrow> str_ok (gr_mount g) \<and> (\<forall>s\<in>set (gr_prefix_segments g). str_ok s)
     \<and> bset (gr_capabilities g)"

lemma unat_len_u16: "n < 65536 \<Longrightarrow> unat (word_of_nat n :: u16) = n"
  by (simp add: unat_of_nat take_bit_nat_eq_self)

lemma grant_validate_bounds:
  "grant_validate g = Ok () \<Longrightarrow> length (gr_prefix_segments g) \<le> MAX_SEGMENTS
     \<and> gr_capabilities g \<noteq> [] \<and> length (gr_capabilities g) \<le> MAX_CAPABILITIES
     \<and> valid_mount (gr_mount g) \<and> list_all valid_segment (gr_prefix_segments g)"
  by (auto simp: grant_validate_def list_all_iff list_ex_iff split: if_splits)

lemma reads_segments:
  assumes "\<forall>s\<in>set ss. length s \<le> MAX_SEGMENT \<and> str_ok s"
  shows "reads (dec_repeat (length ss) (dec_string MAX_SEGMENT)) (concat (map string_wire ss)) ss"
  using assms unfolding string_wire_def
  by (intro reads_dec_repeat reads_dec_string) (auto dest: bspec intro: order_trans)

lemma grant_decode_encode:
  assumes "grant_ok g" "grant_encode g = Ok bs" "vec_ok bs"
  shows "grant_decode bs = Ok g"
proof -
  from assms(2) have valid: "grant_validate g = Ok ()" by (simp add: grant_encode_Ok)
  note bounds = grant_validate_bounds [OF valid]
  have lens: "unat (word_of_nat (length (gr_prefix_segments g)) :: u16) = length (gr_prefix_segments g)"
      "unat (word_of_nat (length (gr_capabilities g)) :: u16) = length (gr_capabilities g)"
    using bounds by (simp_all add: unat_len_u16)
  have segs: "reads (dec_repeat (length (gr_prefix_segments g)) (dec_string MAX_SEGMENT))
      (concat (map string_wire (gr_prefix_segments g))) (gr_prefix_segments g)"
    using assms(1,2) by (intro reads_segments) (auto simp: grant_ok_def grant_encode_Ok)
  have caps: "reads (decode_capabilities (length (gr_capabilities g)) None [])
      (concat (map capability_wire (gr_capabilities g))) (gr_capabilities g)"
    using reads_decode_capabilities [of "[]" "gr_capabilities g" None] assms(1) by (simp add: grant_ok_def)
  have g: "\<lparr>gr_id = gr_id g, gr_owner_identity_id = gr_owner_identity_id g,
      gr_generation = gr_generation g, gr_status = gr_status g, gr_mount = gr_mount g,
      gr_scope = gr_scope g, gr_prefix_segments = gr_prefix_segments g,
      gr_capabilities = gr_capabilities g\<rparr> = g"
    by simp
  show ?thesis
    using assms valid bounds unfolding grant_encode_Ok grant_decode_def grant_ok_def
    by (auto simp: Let_def lens g
        intro!: run_dec_accepts accepts_intros accepts_bind [OF segs] accepts_bind_end [OF caps])
qed

lemma grant_encode_decode:
  assumes dec: "grant_decode bs = Ok g"
  shows "grant_ok g \<and> grant_encode g = Ok bs"
  by (insert dec, unfold grant_decode_def, elim trace_start, clarsimp simp: Let_def,
      (drule (1) trace_dests | drule (1) trace_segments | drule (1) trace_decode_capabilities, simp, simp
        | elim exE conjE | drule (2) trace_finish)+,
      auto simp: grant_encode_Ok grant_ok_def)

interpretation grant_codec: strict_canonical grant_encode grant_decode grant_ok
  using grant_decode_encode grant_encode_decode by unfold_locales

interpretation grant_row: strict_clear_record grant_encode grant_decode grant_ok Grant 1
  by unfold_locales

section \<open>One-way transitions under a generation check\<close>

text \<open>
  \<open>retract r g\<close> ends the active life of the row \<open>r\<close> if \<open>g\<close> is its generation, and advances the
  generation.
\<close>

locale generation_cas =
  fixes retract :: "'r \<Rightarrow> u64 \<Rightarrow> ('r, 'e) result"
    and generation :: "'r \<Rightarrow> u64"
    and live :: "'r \<Rightarrow> bool"
  assumes retract_Ok: "retract r g = Ok r' \<Longrightarrow>
      live r \<and> generation r = g \<and> \<not> live r' \<and> unat (generation r') = Suc (unat (generation r))"
    and retract_total: "live r \<Longrightarrow> generation r \<noteq> - 1 \<Longrightarrow> \<exists>r'. retract r (generation r) = Ok r'"
begin

lemma retract_once: "retract r g = Ok r' \<Longrightarrow> \<not> is_ok (retract r' g')"
  using retract_Ok unfolding is_ok_iff by blast

lemma retract_iff: "is_ok (retract r g) \<longleftrightarrow> (live r \<and> generation r = g \<and> is_ok (retract r (generation r)))"
  using retract_Ok by (auto simp: is_ok_iff)

lemma retract_stale: "generation r \<noteq> g \<Longrightarrow> \<not> is_ok (retract r g)"
  using retract_Ok by (auto simp: is_ok_iff)

lemma retract_forward: "retract r g = Ok r' \<Longrightarrow> generation r < generation r'"
  using retract_Ok by (simp add: word_less_nat_alt)

end

lemma checked_add_1_defined: "(a :: 'a::len word) \<noteq> - 1 \<Longrightarrow> \<exists>b. checked_add a 1 = Some b"
proof -
  assume "a \<noteq> - 1"
  then have "unat a \<noteq> 2 ^ LENGTH('a) - 1"
    using unat_minus_one_eq [where 'a = 'a] by (metis word_unat_eq_iff)
  moreover have "unat a < 2 ^ LENGTH('a)"
    by (rule unsigned_less)
  ultimately have "unat a + 1 < 2 ^ LENGTH('a)"
    by linarith
  moreover have "unat (1 :: 'a word) = 1"
    by simp
  ultimately show ?thesis by (simp add: checked_add_def)
qed

interpretation token_cas: generation_cas token_revoke tk_generation "\<lambda>t. tk_status t = TokenActive"
  by unfold_locales
    (auto simp: token_revoke_def dest: checked_add_1_Some checked_add_1_defined split: if_splits)

interpretation identity_cas: generation_cas identity_retire ir_generation
  "\<lambda>r. ir_status r = IdentityActive"
  by unfold_locales
    (auto simp: identity_retire_def dest: checked_add_1_Some checked_add_1_defined split: if_splits)

interpretation grant_cas: generation_cas "\<lambda>g. grant_remove g owner" gr_generation
  "\<lambda>g. gr_status g = GrantActive \<and> gr_owner_identity_id g = owner" for owner
  by unfold_locales
    (auto simp: grant_remove_def dest: checked_add_1_Some checked_add_1_defined split: if_splits)

section \<open>The decision\<close>

text \<open>What it takes for a grant to permit a request.\<close>

definition permits :: "authorization_request \<Rightarrow> grant_record \<Rightarrow> bool" where
  "permits rq g \<longleftrightarrow> gr_status g = GrantActive \<and> shape_matches g (rq_resource rq)
     \<and> rq_capability rq \<in> set (gr_capabilities g)"

lemma starts_with_iff: "starts_with xs ys \<longleftrightarrow> (\<exists>zs. xs = ys @ zs)"
  by (induction xs ys rule: starts_with.induct) auto

lemma find_filter: "find P (filter Q xs) = find (\<lambda>x. Q x \<and> P x) xs"
  by (induction xs) auto

lemma authorize_matched:
  "find (\<lambda>g. rq_capability rq \<in> set (gr_capabilities g))
     (filter (\<lambda>g. shape_matches g (rq_resource rq))
       (filter (\<lambda>g. gr_mount g = az_mount (rq_resource rq))
         (filter (\<lambda>g. gr_status g = GrantActive) gs)))
   = find (permits rq) gs"
  unfolding find_filter
  by (rule arg_cong [where f = "\<lambda>P. find P gs"]) (auto simp: permits_def shape_matches_def fun_eq_iff)

lemma authorize_find:
  "ad_allow (authorize rq gs) \<longleftrightarrow> find (permits rq) gs \<noteq> None"
  "ad_matched_grant (authorize rq gs) = map_option gr_id (find (permits rq) gs)"
  "ad_deny_reason (authorize rq gs) =
     (if find (permits rq) gs \<noteq> None then None
      else if \<forall>g\<in>set gs. gr_status g = GrantActive \<longrightarrow> gr_mount g \<noteq> az_mount (rq_resource rq)
      then Some NoGrantForMount
      else if \<forall>g\<in>set gs. gr_status g = GrantActive \<longrightarrow> \<not> shape_matches g (rq_resource rq)
      then Some PrefixBoundaryMiss
      else Some MissingCapability)"
proof -
  have "ad_allow (authorize rq gs) = (find (permits rq) gs \<noteq> None)
      \<and> ad_matched_grant (authorize rq gs) = map_option gr_id (find (permits rq) gs)
      \<and> ad_deny_reason (authorize rq gs) = (if find (permits rq) gs \<noteq> None then None
          else if filter (\<lambda>g. gr_mount g = az_mount (rq_resource rq))
                    (filter (\<lambda>g. gr_status g = GrantActive) gs) = [] then Some NoGrantForMount
          else if filter (\<lambda>g. shape_matches g (rq_resource rq))
                    (filter (\<lambda>g. gr_mount g = az_mount (rq_resource rq))
                      (filter (\<lambda>g. gr_status g = GrantActive) gs)) = [] then Some PrefixBoundaryMiss
          else Some MissingCapability)"
    unfolding authorize_def Let_def authorize_matched
    by (cases "find (permits rq) gs") (simp_all del: filter_filter)
  then show
    "ad_allow (authorize rq gs) \<longleftrightarrow> find (permits rq) gs \<noteq> None"
    "ad_matched_grant (authorize rq gs) = map_option gr_id (find (permits rq) gs)"
    "ad_deny_reason (authorize rq gs) =
     (if find (permits rq) gs \<noteq> None then None
      else if \<forall>g\<in>set gs. gr_status g = GrantActive \<longrightarrow> gr_mount g \<noteq> az_mount (rq_resource rq)
      then Some NoGrantForMount
      else if \<forall>g\<in>set gs. gr_status g = GrantActive \<longrightarrow> \<not> shape_matches g (rq_resource rq)
      then Some PrefixBoundaryMiss
      else Some MissingCapability)"
    by (auto simp: filter_empty_conv shape_matches_def)
qed

lemma find_not_None: "find P xs \<noteq> None \<longleftrightarrow> (\<exists>x\<in>set xs. P x)"
  by (induction xs) auto

lemma find_Some_member: "find P xs = Some x \<Longrightarrow> x \<in> set xs \<and> P x"
  by (auto simp: find_Some_iff)

lemma authorize_allow_iff: "ad_allow (authorize rq gs) \<longleftrightarrow> (\<exists>g\<in>set gs. permits rq g)"
  unfolding authorize_find find_not_None ..

lemma token_authorize_allow_iff:
  "ta_allow (token_authorize s rq) \<longleftrightarrow>
     (\<exists>t i g. ts_token s = Some t \<and> tk_status t = TokenActive
       \<and> ts_effective_seconds s < tk_expires_at_effective_seconds t
       \<and> ts_credential_epoch s = tk_issue_epoch t
       \<and> ts_identity s = Some i \<and> ir_id i = tk_identity_id t \<and> ir_status i = IdentityActive
       \<and> g \<in> set (ts_grants s) \<and> gr_owner_identity_id g = ir_id i \<and> permits rq g)"
proof -
  have active: "(tk_status t = TokenRevoked) \<longleftrightarrow> tk_status t \<noteq> TokenActive" for t
    by (cases "tk_status t") auto
  show ?thesis
    by (auto simp: token_authorize_def denied_def Let_def authorize_allow_iff active not_le
        split: option.splits)
qed

lemma validated_plane:
  "grant_validate g = Ok () \<Longrightarrow> (gr_mount g = MANAGEMENT_MOUNT \<longrightarrow>
      list_all is_management (gr_capabilities g) \<and> gr_scope g = Exact \<and> gr_prefix_segments g = [])
    \<and> (gr_mount g \<noteq> MANAGEMENT_MOUNT \<longrightarrow> list_all is_secret (gr_capabilities g))"
  by (auto simp: grant_validate_def Let_def split: if_splits)

lemma permits_plane:
  assumes "grant_validate g = Ok ()" and "permits rq g"
  shows "(is_management (rq_capability rq) \<longleftrightarrow> az_mount (rq_resource rq) = MANAGEMENT_MOUNT)
    \<and> (is_management (rq_capability rq) \<longrightarrow> az_segments (rq_resource rq) = [])"
  using validated_plane [OF assms(1)] assms(2)
  by (auto simp: permits_def shape_matches_def is_management_def list_all_iff)

section \<open>The catalog checks\<close>

lemma validate_identities_Ok:
  "validate_identities is ids names = Ok () \<longleftrightarrow>
     (\<forall>i\<in>set is. identity_validate i = Ok ()) \<and> distinct (map ir_id is) \<and> distinct (map ir_name is)
     \<and> ir_id ` set is \<inter> set ids = {} \<and> ir_name ` set is \<inter> set names = {}"
  by (induction "is" arbitrary: ids names) auto

lemma keys_identities_by_id_aux:
  "fst ` set (foldl (\<lambda>m i. bt_insert (ir_id i) i m) m is) = fst ` set m \<union> ir_id ` set is"
  by (induction "is" arbitrary: m) auto

lemma bt_contains_identities_by_id: "bt_contains (identities_by_id is) k \<longleftrightarrow> k \<in> ir_id ` set is"
  by (simp add: bt_contains_iff identities_by_id_def keys_identities_by_id_aux)

lemma validate_grants_Ok:
  "validate_grants by_id gs grant_ids = Ok () \<longleftrightarrow>
     (\<forall>g\<in>set gs. grant_validate g = Ok () \<and> bt_contains by_id (gr_owner_identity_id g))
     \<and> distinct (map gr_id gs) \<and> gr_id ` set gs \<inter> set grant_ids = {}"
  by (induction gs arbitrary: grant_ids) auto

section \<open>Properties\<close>

text \<open>
  C16: The authorization decision. A request is allowed exactly when some active grant is on its
  mount, has a prefix that matches the request's segments on segment boundaries (all of them
  unless the scope is a subtree) and lists the capability. The matched grant is the first such
  grant, and a denial names the first of the three conditions that no active grant reaches.
\<close>

theorem authorize_decision:
  "(ad_allow (authorize rq gs) \<longleftrightarrow>
      (\<exists>g rest. g \<in> set gs \<and> gr_status g = GrantActive \<and> gr_mount g = az_mount (rq_resource rq)
        \<and> az_segments (rq_resource rq) = gr_prefix_segments g @ rest
        \<and> (gr_scope g = Subtree \<or> rest = [])
        \<and> rq_capability rq \<in> set (gr_capabilities g)))
   \<and> ad_matched_grant (authorize rq gs) = map_option gr_id (find (permits rq) gs)
   \<and> ad_deny_reason (authorize rq gs) =
      (if ad_allow (authorize rq gs) then None
       else if \<not> (\<exists>g\<in>set gs. gr_status g = GrantActive \<and> gr_mount g = az_mount (rq_resource rq))
       then Some NoGrantForMount
       else if \<not> (\<exists>g\<in>set gs. gr_status g = GrantActive \<and> shape_matches g (rq_resource rq))
       then Some PrefixBoundaryMiss
       else Some MissingCapability)"
proof (intro conjI)
  have "shape_matches g r \<longleftrightarrow> gr_mount g = az_mount r \<and>
      (\<exists>rest. az_segments r = gr_prefix_segments g @ rest \<and> (gr_scope g = Subtree \<or> rest = []))" for g r
    by (cases "gr_scope g") (auto simp: shape_matches_def starts_with_iff)
  then show "ad_allow (authorize rq gs) \<longleftrightarrow>
      (\<exists>g rest. g \<in> set gs \<and> gr_status g = GrantActive \<and> gr_mount g = az_mount (rq_resource rq)
        \<and> az_segments (rq_resource rq) = gr_prefix_segments g @ rest
        \<and> (gr_scope g = Subtree \<or> rest = [])
        \<and> rq_capability rq \<in> set (gr_capabilities g))"
    unfolding authorize_allow_iff permits_def by blast
qed (simp_all only: authorize_find, auto)

text \<open>
  C17: The token decision. A request with a token is allowed exactly when the token exists, is not
  revoked, has not expired by the effective clock, carries the current credential epoch, belongs
  to an active identity, and a grant of that identity permits the request. Every decision is to
  be audited, and there is a deny reason exactly when there is no matched grant.
\<close>

theorem token_decision:
  "(ta_allow (token_authorize s rq) \<longleftrightarrow>
     (\<exists>t i g. ts_token s = Some t \<and> tk_status t = TokenActive
       \<and> ts_effective_seconds s < tk_expires_at_effective_seconds t
       \<and> ts_credential_epoch s = tk_issue_epoch t
       \<and> ts_identity s = Some i \<and> ir_id i = tk_identity_id t \<and> ir_status i = IdentityActive
       \<and> g \<in> set (ts_grants s) \<and> gr_owner_identity_id g = ir_id i \<and> permits rq g))
   \<and> ta_audit_required (token_authorize s rq)
   \<and> (ta_allow (token_authorize s rq) \<longleftrightarrow> ta_deny_reason (token_authorize s rq) = None)
   \<and> (ta_allow (token_authorize s rq) \<longleftrightarrow> (\<exists>i. ta_matched_grant (token_authorize s rq) = Some i))"
proof (intro conjI)
  show "ta_allow (token_authorize s rq) \<longleftrightarrow> (\<exists>i. ta_matched_grant (token_authorize s rq) = Some i)"
    by (auto simp: token_authorize_def denied_def Let_def authorize_find split: option.split)
qed (rule token_authorize_allow_iff, auto simp: token_authorize_def denied_def Let_def split: option.split)

text \<open>
  C18: Revoking a token, retiring an identity and removing a grant take effect at the next decision
  and cannot be repeated. The three checks compare the generation the caller read, so of two
  concurrent calls one succeeds, and the generation only grows.
\<close>

theorem retraction_effective:
  assumes "token_revoke t tg = Ok t'" and "identity_retire i ig = Ok i'"
    and "grant_remove g owner gg = Ok g'"
  shows "(\<forall>s rq. ts_token s = Some t' \<longrightarrow> \<not> ta_allow (token_authorize s rq))
    \<and> (\<forall>s rq. ts_identity s = Some i' \<longrightarrow> \<not> ta_allow (token_authorize s rq))
    \<and> (\<forall>rq gs gs'. ad_allow (authorize rq (gs @ g' # gs')) = ad_allow (authorize rq (gs @ gs')))
    \<and> \<not> is_ok (token_revoke t' n) \<and> \<not> is_ok (identity_retire i' n) \<and> \<not> is_ok (grant_remove g' owner n)
    \<and> tk_generation t < tk_generation t' \<and> ir_generation i < ir_generation i'
    \<and> gr_generation g < gr_generation g'"
proof -
  have "\<not> permits rq g'" for rq
    using assms(3) by (auto simp: grant_remove_def permits_def split: if_splits)
  moreover have "tk_status t' \<noteq> TokenActive" "ir_status i' \<noteq> IdentityActive"
    using token_cas.retract_Ok [OF assms(1)] identity_cas.retract_Ok [OF assms(2)] by auto
  ultimately show ?thesis
    using token_cas.retract_once [OF assms(1)] identity_cas.retract_once [OF assms(2)]
      grant_cas.retract_once [OF assms(3)] token_cas.retract_forward [OF assms(1)]
      identity_cas.retract_forward [OF assms(2)] grant_cas.retract_forward [OF assms(3)]
    by (auto simp: token_authorize_allow_iff authorize_allow_iff)
qed

definition sample_token :: token_server_record where
  "sample_token = \<lparr>tk_id = 1, tk_identity_id = 2, tk_issued_at_effective_seconds = 10,
     tk_expires_at_effective_seconds = 20, tk_issue_epoch = 1, tk_status = TokenActive,
     tk_generation = 1, tk_display_name = ''ci''\<rparr>"

definition sample_identity :: identity_record where
  "sample_identity = \<lparr>ir_id = 2, ir_name = ''ci'', ir_kind = Workload, ir_status = IdentityActive,
     ir_generation = 3\<rparr>"

definition sample_grant :: grant_record where
  "sample_grant = \<lparr>gr_id = 7, gr_owner_identity_id = 2, gr_generation = 4, gr_status = GrantActive,
     gr_mount = ''kv'', gr_scope = Subtree, gr_prefix_segments = [''app''],
     gr_capabilities = [SecretReadCurrent, SecretWrite]\<rparr>"

lemmas sample_defs = sample_token_def sample_identity_def sample_grant_def

theorem retraction_effective_witness:
  "\<exists>t' i' g'. token_revoke sample_token 1 = Ok t' \<and> identity_retire sample_identity 3 = Ok i'
     \<and> grant_remove sample_grant 2 4 = Ok g' \<and> \<not> is_ok (token_revoke t' 2)
     \<and> gr_generation sample_grant < gr_generation g'"
proof -
  have "token_revoke sample_token 1 = Ok (sample_token\<lparr>tk_status := TokenRevoked, tk_generation := 2\<rparr>)"
    "identity_retire sample_identity 3 = Ok (sample_identity\<lparr>ir_status := IdentityRetired, ir_generation := 4\<rparr>)"
    "grant_remove sample_grant 2 4 = Ok (sample_grant\<lparr>gr_status := GrantRemoved, gr_generation := 5\<rparr>)"
    by (simp_all add: token_revoke_def identity_retire_def grant_remove_def sample_defs checked_add_def)
  from this retraction_effective [OF this, of 2] show ?thesis by blast
qed

text \<open>
  C19: The management plane and the secret plane are disjoint. If every grant passed validation,
  an allowed request is for a management capability exactly when its mount is \<open>sys\<close>, and then it
  has no path. In particular no grant on \<open>sys\<close> reaches a secret and no secret grant manages.
\<close>

theorem plane_separation:
  assumes "\<forall>g\<in>set gs. grant_validate g = Ok ()" and "ad_allow (authorize rq gs)"
  shows "(is_management (rq_capability rq) \<longleftrightarrow> az_mount (rq_resource rq) = MANAGEMENT_MOUNT)
    \<and> (is_management (rq_capability rq) \<longrightarrow> az_segments (rq_resource rq) = [])"
  using assms permits_plane unfolding authorize_allow_iff by blast

theorem plane_separation_witness:
  "ad_allow (authorize \<lparr>rq_resource = \<lparr>az_mount = ''kv'', az_segments = [''app'', ''db'']\<rparr>,
       rq_operation = OpWrite, rq_capability = SecretWrite\<rparr> [sample_grant])
   \<and> \<not> is_management SecretWrite"
proof -
  let ?rq = "\<lparr>rq_resource = \<lparr>az_mount = ''kv'', az_segments = [''app'', ''db'']\<rparr>,
       rq_operation = OpWrite, rq_capability = SecretWrite\<rparr>"
  have "\<forall>g\<in>set [sample_grant]. grant_validate g = Ok ()"
    by (simp add: grant_validate_def sample_grant_def valid_mount_def valid_segment_def is_secret_def
        str_bytes_def byte_of_char_def is_ascii_alphanumeric_def)
  moreover have "ad_allow (authorize ?rq [sample_grant])"
    by (simp add: authorize_allow_iff permits_def shape_matches_def sample_grant_def)
  ultimately show ?thesis
    using plane_separation [of "[sample_grant]" ?rq] by simp
qed

text \<open>
  C20: The catalog check accepts exactly the catalogs in which every identity and grant is valid,
  identity ids and names and grant ids are unique, and every grant belongs to a listed identity.
\<close>

theorem validate_catalog_exact:
  "validate_catalog is gs = Ok () \<longleftrightarrow>
     set is \<subseteq> {i. identity_validate i = Ok ()} \<and> set gs \<subseteq> {g. grant_validate g = Ok ()}
     \<and> distinct (map ir_id is) \<and> distinct (map ir_name is) \<and> distinct (map gr_id gs)
     \<and> gr_owner_identity_id ` set gs \<subseteq> ir_id ` set is"
  by (auto simp: validate_catalog_def validate_identities_Ok validate_grants_Ok bt_contains_identities_by_id)

text \<open>
  The codecs of the identity and of the grant record are canonical: a byte string decodes to
  a record exactly when it is the encoding of that record, so no record has two encodings.
\<close>

theorem identity_codecs_canonical:
  assumes "vec_ok bs"
  shows "(identity_decode bs = Ok i \<longleftrightarrow> identity_ok i \<and> identity_encode i = Ok bs)
    \<and> (grant_decode bs = Ok g \<longleftrightarrow> grant_ok g \<and> grant_encode g = Ok bs)"
  using assms identity_codec.dec_iff grant_codec.dec_iff by blast

end
