(* ===== verification/Kv_Store.thy ===== *)
theory Kv_Store
  imports Json_Values Identity_Grants
begin

text \<open>
  The key-value store (\<open>src/kv.rs\<close>): the catalog with its entries, versions, grants and audit
  events, and every operation of \<open>KvCatalog\<close> and \<open>KvService\<close>. The lock around the catalog makes
  each operation one atomic step, so an operation is a function from the catalog to its result
  and the catalog afterwards; a poisoned lock is outside the model. The parameters are library
  code: \<open>to_vec\<close> and \<open>from_slice\<close> write and read JSON text (\<open>serde_json\<close>), \<open>hash\<close> is BLAKE3.
\<close>

section \<open>State\<close>

abbreviation (input) SECRET_MOUNT :: string where "SECRET_MOUNT \<equiv> ''secret''"
abbreviation (input) DEFAULT_MAX_VERSIONS :: u16 where "DEFAULT_MAX_VERSIONS \<equiv> 10"
abbreviation (input) MAX_VERSIONS :: u16 where "MAX_VERSIONS \<equiv> 1024"
abbreviation (input) MAX_VERSION_BATCH :: nat where "MAX_VERSION_BATCH \<equiv> 64"
abbreviation (input) MAX_SECRET_ENCODED_BYTES :: nat where "MAX_SECRET_ENCODED_BYTES \<equiv> 524288"
abbreviation (input) MAX_SECRET_FIELDS :: nat where "MAX_SECRET_FIELDS \<equiv> 256"
abbreviation (input) MAX_SECRET_FIELD_NAME_CHARS :: nat where "MAX_SECRET_FIELD_NAME_CHARS \<equiv> 256"
abbreviation (input) MAX_SECRET_NESTING_DEPTH :: nat where "MAX_SECRET_NESTING_DEPTH \<equiv> 32"
abbreviation (input) MAX_LIST_RESULTS :: nat where "MAX_LIST_RESULTS \<equiv> 1024"
abbreviation (input) MAX_CUSTOM_METADATA_KEYS :: nat where "MAX_CUSTOM_METADATA_KEYS \<equiv> 64"
abbreviation (input) MAX_CUSTOM_METADATA_KEY_CHARS :: nat where "MAX_CUSTOM_METADATA_KEY_CHARS \<equiv> 128"
abbreviation (input) MAX_CUSTOM_METADATA_VALUE_CHARS :: nat where "MAX_CUSTOM_METADATA_VALUE_CHARS \<equiv> 512"

datatype cas_source = CasPathOverride | CasMountDefault

record effective_cas =
  ec_effective :: bool
  ec_source :: cas_source

datatype max_versions_source = MaxPathOverride | MaxMountDefault

record effective_max =
  em_effective :: u16
  em_source :: max_versions_source

datatype kv_audit_outcome = Succeeded | Denied | Failed

datatype kv_audit_operation =
    AuRead | AuWrite | AuList | AuMetadataRead | AuMetadataWrite | AuSoftDelete | AuUndelete
  | AuDestroy | AuRotationCutover | AuRotationRollback | AuPurge

record kv_audit_event =
  au_identity_id :: id16
  au_resource :: string
  au_operation :: kv_audit_operation
  au_outcome :: kv_audit_outcome
  au_version :: "u64 option"
  au_reason :: "string option"

datatype kv_error =
    KvInvalid | KvUnsupportedMount | KvPermissionDenied | KvCasConflict | KvNotFound
  | KvVersionUnavailable u64 u64 bool
  | KvUnsupportedField
  | KvBoundExceeded string
  | KvResourceMismatch | KvReasonRequired | KvConfirmationRequired | KvStaleCeremony
  | KvRotationProtected | KvUnknownRotationProtection | KvInternal

record version_value =
  vv_encoded :: bytes
  vv_created_unix_milliseconds :: u64
  vv_state :: version_state
  vv_deletion_unix_milliseconds :: "u64 option"

record kv_entry =
  en_metadata_generation :: u64
  en_current_version :: u64
  en_versions :: "(u64 \<times> version_value) list"
  en_cas_required :: "bool option"
  en_max_versions :: "u16 option"
  en_protected_version :: "u64 option"
  en_protection_known :: bool
  en_retention_deferred :: bool
  en_custom_metadata :: "(string \<times> string) list"

definition entry_new :: "bool option \<Rightarrow> kv_entry" where
  "entry_new cas_required =
     \<lparr>en_metadata_generation = 1, en_current_version = 0, en_versions = [],
      en_cas_required = cas_required, en_max_versions = None, en_protected_version = None,
      en_protection_known = True, en_retention_deferred = False, en_custom_metadata = []\<rparr>"

record kv_catalog =
  kc_mount_cas_required :: bool
  kc_mount_max_versions :: u16
  kc_effective_unix_milliseconds :: u64
  kc_entries :: "(string \<times> kv_entry) list"
  kc_grants :: "grant_record list"
  kc_audit :: "kv_audit_event list"
  kc_fail_next_read_audit_commit :: bool
  kc_fail_next_purge_audit_commit :: bool

type_synonym 'a kv = "(kv_catalog, 'a, kv_error) stateful"

definition catalog_new :: "bool \<Rightarrow> u64 \<Rightarrow> kv_catalog" where
  "catalog_new mount_cas_required effective_unix_milliseconds =
     \<lparr>kc_mount_cas_required = mount_cas_required, kc_mount_max_versions = DEFAULT_MAX_VERSIONS,
      kc_effective_unix_milliseconds = effective_unix_milliseconds, kc_entries = [], kc_grants = [],
      kc_audit = [], kc_fail_next_read_audit_commit = False, kc_fail_next_purge_audit_commit = False\<rparr>"

text \<open>\<open>entries.get\<close>, and writing back what \<open>entries.get_mut\<close> or \<open>entries.entry\<close> handed out.\<close>

definition kc_get :: "kv_catalog \<Rightarrow> string \<Rightarrow> kv_entry option" where
  "kc_get catalog path = bt_get (kc_entries catalog) path"

definition kc_put :: "string \<Rightarrow> kv_entry \<Rightarrow> kv_catalog \<Rightarrow> kv_catalog" where
  "kc_put path entry catalog = catalog\<lparr>kc_entries := bt_insert path entry (kc_entries catalog)\<rparr>"

definition kc_entry_or :: "kv_catalog \<Rightarrow> string \<Rightarrow> bool option \<Rightarrow> kv_entry" where
  "kc_entry_or catalog path cas_required =
     (case kc_get catalog path of None \<Rightarrow> entry_new cas_required | Some entry \<Rightarrow> entry)"

section \<open>Audit events and authorization\<close>

definition audit_event ::
  "id16 \<Rightarrow> string \<Rightarrow> kv_audit_operation \<Rightarrow> kv_audit_outcome \<Rightarrow> u64 option \<Rightarrow> string option \<Rightarrow>
     kv_audit_event" where
  "audit_event identity_id resource operation outcome version reason =
     \<lparr>au_identity_id = identity_id, au_resource = SECRET_MOUNT @ ''/'' @ resource,
      au_operation = operation, au_outcome = outcome, au_version = version, au_reason = reason\<rparr>"

definition kc_push :: "kv_audit_event \<Rightarrow> kv_catalog \<Rightarrow> kv_catalog" where
  "kc_push event catalog = catalog\<lparr>kc_audit := kc_audit catalog @ [event]\<rparr>"

definition logical_path :: "endpoint_request \<Rightarrow> string" where
  "logical_path endpoint = join CHR ''/'' (r_canonical_segments (e_resource endpoint))"

definition canonical_resource :: "resource \<Rightarrow> string" where
  "canonical_resource r =
     (if r_canonical_segments r = [] then r_mount r
      else r_mount r @ ''/'' @ join CHR ''/'' (r_canonical_segments r))"

definition validate_endpoint :: "endpoint_request \<Rightarrow> endpoint_kind \<Rightarrow> (unit, kv_error) result" where
  "validate_endpoint endpoint expected =
     (if r_mount (e_resource endpoint) \<noteq> SECRET_MOUNT then Err KvUnsupportedMount
      else if e_kind endpoint \<noteq> expected then Err KvInvalid
      else Ok ())"

primrec audit_operation_of :: "secret_action \<Rightarrow> kv_audit_operation" where
  "audit_operation_of ActRead = AuRead"
| "audit_operation_of ActMetadata = AuMetadataRead"
| "audit_operation_of ActList = AuList"
| "audit_operation_of ActWrite = AuWrite"
| "audit_operation_of ActSoftDelete = AuSoftDelete"
| "audit_operation_of ActUndelete = AuUndelete"
| "audit_operation_of ActDestroy = AuDestroy"

definition authorize_operation :: "id16 \<Rightarrow> endpoint_request \<Rightarrow> secret_action \<Rightarrow> unit kv" where
  "authorize_operation identity_id endpoint action catalog =
     (case request_secret endpoint action of
        Err _ \<Rightarrow> (Err KvInvalid, catalog)
      | Ok request \<Rightarrow>
          let decision = authorize request
                (filter (\<lambda>g. gr_owner_identity_id g = identity_id) (kc_grants catalog))
          in if ad_allow decision then (Ok (), catalog)
             else (Err KvPermissionDenied,
                   kc_push (audit_event identity_id (logical_path endpoint)
                     (audit_operation_of action) Denied None (Some ''permission-denied'')) catalog))"

definition authorize_destroy_all :: "id16 \<Rightarrow> resource \<Rightarrow> unit kv" where
  "authorize_destroy_all identity_id resource catalog =
     (case request_local_destroy_all resource of
        Err _ \<Rightarrow> (Err KvInvalid, catalog)
      | Ok request \<Rightarrow>
          let decision = authorize request
                (filter (\<lambda>g. gr_owner_identity_id g = identity_id) (kc_grants catalog))
          in if ad_allow decision then (Ok (), catalog)
             else (Err KvPermissionDenied,
                   kc_push (audit_event identity_id (join CHR ''/'' (r_canonical_segments resource))
                     AuPurge Denied None (Some ''permission-denied'')) catalog))"

section \<open>Bounds on values\<close>

text \<open>\<open>walk\<close> of \<open>validate_secret_value\<close>: the running field count goes in and comes out.\<close>

fun walk :: "json \<Rightarrow> nat \<Rightarrow> nat \<Rightarrow> (nat, kv_error) result"
  and walk_fields :: "(string \<times> json) list \<Rightarrow> nat \<Rightarrow> nat \<Rightarrow> (nat, kv_error) result"
  and walk_items :: "json list \<Rightarrow> nat \<Rightarrow> nat \<Rightarrow> (nat, kv_error) result" where
  "walk value depth n_fields =
     (if depth > MAX_SECRET_NESTING_DEPTH then Err (KvBoundExceeded ''secret_nesting_depth'')
      else case value of
        JObject values \<Rightarrow>
          if n_fields + length values > usize_max then Err (KvBoundExceeded ''secret_field_count'')
          else if n_fields + length values > MAX_SECRET_FIELDS
          then Err (KvBoundExceeded ''secret_field_count'')
          else walk_fields values (depth + 1) (n_fields + length values)
      | JArray values \<Rightarrow> walk_items values (depth + 1) n_fields
      | _ \<Rightarrow> Ok n_fields)"
| "walk_fields [] depth n_fields = Ok n_fields"
| "walk_fields ((key, value) # rest) depth n_fields =
     (if length (str_chars key) > MAX_SECRET_FIELD_NAME_CHARS
      then Err (KvBoundExceeded ''secret_field_name_chars'')
      else rbind (walk value depth n_fields) (\<lambda>n_fields. walk_fields rest depth n_fields))"
| "walk_items [] depth n_fields = Ok n_fields"
| "walk_items (value # rest) depth n_fields =
     rbind (walk value depth n_fields) (\<lambda>n_fields. walk_items rest depth n_fields)"

definition validate_secret_value :: "(string \<times> json) list \<Rightarrow> (unit, kv_error) result" where
  "validate_secret_value data =
     (let n_fields = length data
      in if n_fields > MAX_SECRET_FIELDS then Err (KvBoundExceeded ''secret_field_count'')
         else rbind (walk_fields data 2 n_fields) (\<lambda>_. Ok ()))"

primrec validate_custom_loop :: "(string \<times> string) list \<Rightarrow> (unit, kv_error) result" where
  "validate_custom_loop [] = Ok ()"
| "validate_custom_loop (p # rest) =
     (if fst p = [] \<or> length (str_chars (fst p)) > MAX_CUSTOM_METADATA_KEY_CHARS
      then Err (KvBoundExceeded ''custom_metadata_key_chars'')
      else if length (str_chars (snd p)) > MAX_CUSTOM_METADATA_VALUE_CHARS
      then Err (KvBoundExceeded ''custom_metadata_value_chars'')
      else validate_custom_loop rest)"

definition validate_custom_metadata :: "(string \<times> string) list \<Rightarrow> (unit, kv_error) result" where
  "validate_custom_metadata values =
     (if length values > MAX_CUSTOM_METADATA_KEYS then Err (KvBoundExceeded ''custom_metadata_keys'')
      else validate_custom_loop values)"

definition validate_versions :: "u64 list \<Rightarrow> (unit, kv_error) result" where
  "validate_versions versions =
     (if length versions > MAX_VERSION_BATCH then Err (KvBoundExceeded ''version_batch'')
      else if versions = [] then Err KvInvalid
      else
        let unique = bs_collect versions
        in if length unique \<noteq> length versions \<or> 0 \<in> set unique then Err KvInvalid else Ok ())"

section \<open>The catalog\<close>

definition replace_grants :: "grant_record list \<Rightarrow> kv_catalog \<Rightarrow> kv_catalog" where
  "replace_grants grants catalog = catalog\<lparr>kc_grants := grants\<rparr>"

definition set_mount_cas_required :: "bool \<Rightarrow> kv_catalog \<Rightarrow> kv_catalog" where
  "set_mount_cas_required v catalog = catalog\<lparr>kc_mount_cas_required := v\<rparr>"

definition set_mount_max_versions :: "u16 \<Rightarrow> unit kv" where
  "set_mount_max_versions v catalog =
     (if \<not> (1 \<le> v \<and> v \<le> MAX_VERSIONS) then (Err KvInvalid, catalog)
      else (Ok (), catalog\<lparr>kc_mount_max_versions := v\<rparr>))"

definition set_effective_unix_milliseconds :: "u64 \<Rightarrow> kv_catalog \<Rightarrow> kv_catalog" where
  "set_effective_unix_milliseconds v catalog = catalog\<lparr>kc_effective_unix_milliseconds := v\<rparr>"

definition set_path_cas_required :: "string \<Rightarrow> bool option \<Rightarrow> kv_catalog \<Rightarrow> kv_catalog" where
  "set_path_cas_required path v catalog =
     kc_put path ((kc_entry_or catalog path v)\<lparr>en_cas_required := v\<rparr>) catalog"

definition set_path_max_versions :: "string \<Rightarrow> u16 option \<Rightarrow> unit kv" where
  "set_path_max_versions path v catalog =
     (if (case v of None \<Rightarrow> False | Some v \<Rightarrow> \<not> (1 \<le> v \<and> v \<le> MAX_VERSIONS))
      then (Err KvInvalid, catalog)
      else (Ok (), kc_put path ((kc_entry_or catalog path None)\<lparr>en_max_versions := v\<rparr>) catalog))"

definition effective_cas_required :: "kv_catalog \<Rightarrow> string \<Rightarrow> effective_cas" where
  "effective_cas_required catalog path =
     (case Option.bind (kc_get catalog path) en_cas_required of
        Some effective \<Rightarrow> \<lparr>ec_effective = effective, ec_source = CasPathOverride\<rparr>
      | None \<Rightarrow> \<lparr>ec_effective = kc_mount_cas_required catalog, ec_source = CasMountDefault\<rparr>)"

definition effective_max_versions :: "kv_catalog \<Rightarrow> string \<Rightarrow> effective_max" where
  "effective_max_versions catalog path =
     (case Option.bind (kc_get catalog path) en_max_versions of
        Some effective \<Rightarrow> \<lparr>em_effective = effective, em_source = MaxPathOverride\<rparr>
      | None \<Rightarrow> \<lparr>em_effective = kc_mount_max_versions catalog, em_source = MaxMountDefault\<rparr>)"

text \<open>
  The loop of \<open>prune\<close>: while more than \<open>maximum\<close> versions are left, drop the oldest that is neither
  protected nor current; if there is none, note that retention is deferred and stop.
\<close>

definition prune_candidate :: "kv_entry \<Rightarrow> u64 option" where
  "prune_candidate entry =
     find (\<lambda>version. Some version \<noteq> en_protected_version entry \<and> version \<noteq> en_current_version entry)
       (map fst (en_versions entry))"

lemma prune_candidate_member: "prune_candidate entry = Some v \<Longrightarrow> v \<in> fst ` set (en_versions entry)"
  unfolding prune_candidate_def by (drule find_Some_member) simp

lemma length_bt_remove_member: "k \<in> fst ` set m \<Longrightarrow> length (bt_remove k m) < length m"
  unfolding bt_remove_def by (auto intro: length_filter_less)

function prune_loop :: "nat \<Rightarrow> kv_entry \<Rightarrow> kv_entry" where
  "prune_loop maximum entry =
     (if length (en_versions entry) > maximum then
        (case prune_candidate entry of
           None \<Rightarrow> entry\<lparr>en_retention_deferred := True\<rparr>
         | Some oldest \<Rightarrow> prune_loop maximum (entry\<lparr>en_versions := bt_remove oldest (en_versions entry)\<rparr>))
      else entry)"
  by pat_completeness auto

termination
  by (relation "measure (\<lambda>(_, entry). length (en_versions entry))")
    (auto intro!: length_bt_remove_member dest: prune_candidate_member)

declare prune_loop.simps [simp del]

definition prune :: "string \<Rightarrow> unit kv" where
  "prune path catalog =
     (case kc_get catalog path of
        None \<Rightarrow> (Err KvNotFound, catalog)
      | Some entry \<Rightarrow>
          let maximum = unat (case en_max_versions entry of None \<Rightarrow> kc_mount_max_versions catalog | Some v \<Rightarrow> v)
          in (Ok (), kc_put path (prune_loop maximum (entry\<lparr>en_retention_deferred := False\<rparr>)) catalog))"

definition set_rotation_protection :: "string \<Rightarrow> u64 option \<Rightarrow> unit kv" where
  "set_rotation_protection path version catalog =
     (case kc_get catalog path of
        None \<Rightarrow> (Err KvNotFound, catalog)
      | Some entry \<Rightarrow>
          if (case version of None \<Rightarrow> False | Some v \<Rightarrow> \<not> bt_contains (en_versions entry) v)
          then (Err KvNotFound, catalog)
          else
            let entry = entry\<lparr>en_protected_version := version, en_protection_known := True\<rparr>
            in case checked_add (en_metadata_generation entry) 1 of
                 None \<Rightarrow> (Err KvInternal, kc_put path entry catalog)
               | Some generation \<Rightarrow>
                   prune path (kc_put path (entry\<lparr>en_metadata_generation := generation\<rparr>) catalog))"

definition set_unknown_rotation_protection :: "string \<Rightarrow> unit kv" where
  "set_unknown_rotation_protection path catalog =
     (case kc_get catalog path of
        None \<Rightarrow> (Err KvNotFound, catalog)
      | Some entry \<Rightarrow> (Ok (), kc_put path (entry\<lparr>en_protection_known := False\<rparr>) catalog))"

definition retention_deferred_by_rotation :: "kv_catalog \<Rightarrow> string \<Rightarrow> bool" where
  "retention_deferred_by_rotation catalog path \<longleftrightarrow>
     (case kc_get catalog path of None \<Rightarrow> False | Some entry \<Rightarrow> en_retention_deferred entry)"

definition set_version_state :: "string \<Rightarrow> u64 \<Rightarrow> version_state \<Rightarrow> unit kv" where
  "set_version_state path version state catalog =
     (case kc_get catalog path of
        None \<Rightarrow> (Err KvNotFound, catalog)
      | Some entry \<Rightarrow>
          (case bt_get (en_versions entry) version of
             None \<Rightarrow> (Err KvNotFound, catalog)
           | Some v \<Rightarrow>
               (Ok (), kc_put path (entry\<lparr>en_versions :=
                  bt_insert version (v\<lparr>vv_state := state\<rparr>) (en_versions entry)\<rparr>) catalog)))"

definition current_version :: "kv_catalog \<Rightarrow> string \<Rightarrow> u64 option" where
  "current_version catalog path = map_option en_current_version (kc_get catalog path)"

definition fail_next_read_audit_commit :: "kv_catalog \<Rightarrow> kv_catalog" where
  "fail_next_read_audit_commit catalog = catalog\<lparr>kc_fail_next_read_audit_commit := True\<rparr>"

definition fail_next_purge_audit_commit :: "kv_catalog \<Rightarrow> kv_catalog" where
  "fail_next_purge_audit_commit catalog = catalog\<lparr>kc_fail_next_purge_audit_commit := True\<rparr>"

section \<open>Reading and writing\<close>

record write_result =
  wr_version :: u64
  wr_created :: u64

record read_result =
  rr_data :: json
  rr_version :: u64
  rr_created :: u64

definition new_version :: "bytes \<Rightarrow> u64 \<Rightarrow> version_value" where
  "new_version encoded created =
     \<lparr>vv_encoded = encoded, vv_created_unix_milliseconds = created, vv_state = Live,
      vv_deletion_unix_milliseconds = None\<rparr>"

definition unavailable :: "u64 \<Rightarrow> version_value \<Rightarrow> kv_error" where
  "unavailable version v =
     KvVersionUnavailable version
       (case vv_deletion_unix_milliseconds v of None \<Rightarrow> 0 | Some t \<Rightarrow> t) (vv_state v = Destroyed)"

text \<open>
  The stretch \<open>write\<close> and \<open>rotation_write_encoded\<close> share: the next version number, the next
  generation, and the new version. The current version is already advanced when the generation
  overflows.
\<close>

definition add_version :: "string \<Rightarrow> kv_entry \<Rightarrow> bytes \<Rightarrow> u64 \<Rightarrow> u64 kv" where
  "add_version path entry encoded created catalog =
     (case checked_add (en_current_version entry) 1 of
        None \<Rightarrow> (Err KvInternal, kc_put path entry catalog)
      | Some version \<Rightarrow>
          let entry = entry\<lparr>en_current_version := version\<rparr>
          in case checked_add (en_metadata_generation entry) 1 of
               None \<Rightarrow> (Err KvInternal, kc_put path entry catalog)
             | Some generation \<Rightarrow>
                 (Ok version,
                  kc_put path (entry\<lparr>en_metadata_generation := generation,
                      en_versions := bt_insert version (new_version encoded created) (en_versions entry)\<rparr>)
                    catalog))"

definition encode_secret ::
  "(json \<Rightarrow> bytes option) \<Rightarrow> (string \<times> json) list \<Rightarrow> (bytes, kv_error) result" where
  "encode_secret to_vec data =
     rbind (validate_secret_value data) (\<lambda>_.
     rbind (ok_or KvInvalid (to_vec (JObject data))) (\<lambda>encoded.
       if length encoded > MAX_SECRET_ENCODED_BYTES then Err (KvBoundExceeded ''secret_encoded_bytes'')
       else Ok encoded))"

definition cas_conflict :: "kv_catalog \<Rightarrow> string \<Rightarrow> u64 option \<Rightarrow> bool" where
  "cas_conflict catalog path cas =
     (case cas of
        None \<Rightarrow> ec_effective (effective_cas_required catalog path)
      | Some expected \<Rightarrow>
          if expected = 0 then kc_get catalog path \<noteq> None
          else expected \<noteq> (case kc_get catalog path of None \<Rightarrow> 0 | Some entry \<Rightarrow> en_current_version entry))"

definition kv_write ::
  "(json \<Rightarrow> bytes option) \<Rightarrow> id16 \<Rightarrow> endpoint_request \<Rightarrow> (string \<times> json) list \<Rightarrow> u64 option \<Rightarrow>
     write_result kv" where
  "kv_write to_vec identity_id endpoint data cas =
     sbind (slift (validate_endpoint endpoint EpData)) (\<lambda>_.
     sbind (slift (encode_secret to_vec data)) (\<lambda>encoded.
     sbind (authorize_operation identity_id endpoint ActWrite) (\<lambda>_ catalog.
       let path = logical_path endpoint
       in if cas_conflict catalog path cas
          then (Err KvCasConflict,
                kc_push (audit_event identity_id path AuWrite Failed None (Some ''cas-conflict'')) catalog)
          else
            let created = kc_effective_unix_milliseconds catalog
            in sbind (add_version path (kc_entry_or catalog path None) encoded created) (\<lambda>version.
               sbind (prune path) (\<lambda>_ catalog.
                 (Ok \<lparr>wr_version = version, wr_created = created\<rparr>,
                  kc_push (audit_event identity_id path AuWrite Succeeded (Some version) None) catalog)))
               catalog)))"

definition kv_read ::
  "(bytes \<Rightarrow> json option) \<Rightarrow> id16 \<Rightarrow> endpoint_request \<Rightarrow> read_result kv" where
  "kv_read from_slice identity_id endpoint =
     sbind (slift (validate_endpoint endpoint EpData)) (\<lambda>_.
     sbind (authorize_operation identity_id endpoint ActRead) (\<lambda>_ catalog.
       let path = logical_path endpoint;
           failed = (\<lambda>version. kc_push (audit_event identity_id path AuRead Failed version
                                 (Some ''not-found'')) catalog)
       in case kc_get catalog path of
            None \<Rightarrow> (Err KvNotFound, failed None)
          | Some entry \<Rightarrow>
              let version = (case e_version endpoint of None \<Rightarrow> en_current_version entry | Some v \<Rightarrow> v)
              in case bt_get (en_versions entry) version of
                   None \<Rightarrow> (Err KvNotFound, failed (Some version))
                 | Some v \<Rightarrow>
                     if vv_state v \<noteq> Live then (Err (unavailable version v), failed (Some version))
                     else if kc_fail_next_read_audit_commit catalog
                     then (Err KvInternal, catalog\<lparr>kc_fail_next_read_audit_commit := False\<rparr>)
                     else
                       (case from_slice (vv_encoded v) of
                          None \<Rightarrow> (Err KvInternal, catalog)
                        | Some data \<Rightarrow>
                            (Ok \<lparr>rr_data = data, rr_version = version,
                                 rr_created = vv_created_unix_milliseconds v\<rparr>,
                             kc_push (audit_event identity_id path AuRead Succeeded (Some version) None)
                               catalog))))"

section \<open>Listing\<close>

fun strip_prefix :: "'a list \<Rightarrow> 'a list \<Rightarrow> 'a list option" where
  "strip_prefix xs [] = Some xs"
| "strip_prefix [] (y # ys) = None"
| "strip_prefix (x # xs) (y # ys) = (if x = y then strip_prefix xs ys else None)"

definition list_key :: "string \<Rightarrow> string" where
  "list_key rest =
     (case split_once CHR ''/'' rest of None \<Rightarrow> rest | Some (directory, _) \<Rightarrow> directory @ ''/'')"

text \<open>The loop of \<open>list\<close> over the stored paths; \<open>None\<close> when the result limit is passed.\<close>

primrec list_loop :: "string \<Rightarrow> string list \<Rightarrow> string list \<Rightarrow> string list option" where
  "list_loop prefix [] keys = Some keys"
| "list_loop prefix (path # paths) keys =
     (case strip_prefix path prefix of
        None \<Rightarrow> list_loop prefix paths keys
      | Some rest \<Rightarrow>
          if rest = [] then list_loop prefix paths keys
          else
            let keys = bs_insert (list_key rest) keys
            in if length keys > MAX_LIST_RESULTS then None else list_loop prefix paths keys)"

definition kv_list :: "id16 \<Rightarrow> endpoint_request \<Rightarrow> string list kv" where
  "kv_list identity_id endpoint =
     sbind (slift (validate_endpoint endpoint EpList)) (\<lambda>_.
     sbind (authorize_operation identity_id endpoint ActList) (\<lambda>_ catalog.
       let prefix = logical_path endpoint;
           prefix_with_slash = (if prefix = [] then [] else prefix @ ''/'')
       in case list_loop prefix_with_slash (map fst (kc_entries catalog)) [] of
            None \<Rightarrow>
              (Err (KvBoundExceeded ''list_results''),
               kc_push (audit_event identity_id prefix AuList Failed None (Some ''list-result-limit''))
                 catalog)
          | Some keys \<Rightarrow>
              (Ok keys, kc_push (audit_event identity_id prefix AuList Succeeded None None) catalog)))"

section \<open>Soft delete, undelete and destroy\<close>

definition mutate_value :: "u64 \<Rightarrow> secret_action \<Rightarrow> version_value \<Rightarrow> version_value option" where
  "mutate_value now action v =
     (case action of
        ActSoftDelete \<Rightarrow> Some (v\<lparr>vv_state := SoftDeleted, vv_deletion_unix_milliseconds := Some now\<rparr>)
      | ActUndelete \<Rightarrow>
          if vv_state v = SoftDeleted
          then Some (v\<lparr>vv_state := Live, vv_deletion_unix_milliseconds := None\<rparr>) else Some v
      | ActDestroy \<Rightarrow>
          Some (v\<lparr>vv_encoded := [], vv_state := Destroyed, vv_deletion_unix_milliseconds := None\<rparr>)
      | _ \<Rightarrow> None)"

primrec mutate_loop ::
  "u64 \<Rightarrow> secret_action \<Rightarrow> u64 list \<Rightarrow> (u64 \<times> version_value) list \<Rightarrow>
     (unit, kv_error) result \<times> (u64 \<times> version_value) list" where
  "mutate_loop now action [] versions = (Ok (), versions)"
| "mutate_loop now action (version # rest) versions =
     (case bt_get versions version of
        None \<Rightarrow> (Err KvInternal, versions)
      | Some v \<Rightarrow>
          (case mutate_value now action v of
             None \<Rightarrow> (Err KvInvalid, versions)
           | Some v' \<Rightarrow> mutate_loop now action rest (bt_insert version v' versions)))"

definition push_versions ::
  "id16 \<Rightarrow> string \<Rightarrow> kv_audit_operation \<Rightarrow> u64 list \<Rightarrow> kv_catalog \<Rightarrow> kv_catalog" where
  "push_versions identity_id path operation versions catalog =
     foldl (\<lambda>c version. kc_push (audit_event identity_id path operation Succeeded (Some version) None) c)
       catalog versions"

definition mutate_versions_locked ::
  "id16 \<Rightarrow> string \<Rightarrow> u64 list \<Rightarrow> secret_action \<Rightarrow> unit kv" where
  "mutate_versions_locked identity_id path versions action catalog =
     (let now = kc_effective_unix_milliseconds catalog
      in case kc_get catalog path of
           None \<Rightarrow> (Err KvNotFound, catalog)
         | Some entry \<Rightarrow>
             if list_ex (\<lambda>version. \<not> bt_contains (en_versions entry) version) versions
             then (Err KvNotFound, catalog)
             else if action = ActSoftDelete
                \<and> list_ex (\<lambda>version. map_option vv_state (bt_get (en_versions entry) version) = Some Destroyed)
                    versions
             then (Err KvInvalid, catalog)
             else
               (case mutate_loop now action versions (en_versions entry) of
                  (Err e, changed) \<Rightarrow> (Err e, kc_put path (entry\<lparr>en_versions := changed\<rparr>) catalog)
                | (Ok _, changed) \<Rightarrow>
                    let entry = entry\<lparr>en_versions := changed\<rparr>
                    in case checked_add (en_metadata_generation entry) 1 of
                         None \<Rightarrow> (Err KvInternal, kc_put path entry catalog)
                       | Some generation \<Rightarrow>
                           let catalog = kc_put path (entry\<lparr>en_metadata_generation := generation\<rparr>) catalog
                           in case action of
                                ActSoftDelete \<Rightarrow> (Ok (), push_versions identity_id path AuSoftDelete versions catalog)
                              | ActUndelete \<Rightarrow> (Ok (), push_versions identity_id path AuUndelete versions catalog)
                              | ActDestroy \<Rightarrow> (Ok (), push_versions identity_id path AuDestroy versions catalog)
                              | _ \<Rightarrow> (Err KvInvalid, catalog)))"

definition mutation_kind :: "secret_action \<Rightarrow> endpoint_kind option" where
  "mutation_kind action =
     (case action of
        ActSoftDelete \<Rightarrow> Some EpDelete | ActUndelete \<Rightarrow> Some EpUndelete
      | ActDestroy \<Rightarrow> Some EpDestroy | _ \<Rightarrow> None)"

definition mutate_versions ::
  "id16 \<Rightarrow> endpoint_request \<Rightarrow> u64 list \<Rightarrow> secret_action \<Rightarrow> unit kv" where
  "mutate_versions identity_id endpoint versions action =
     sbind (slift (ok_or KvInvalid (mutation_kind action))) (\<lambda>expected.
     sbind (slift (validate_endpoint endpoint expected)) (\<lambda>_.
     sbind (slift (validate_versions versions)) (\<lambda>_.
     sbind (authorize_operation identity_id endpoint action) (\<lambda>_.
       mutate_versions_locked identity_id (logical_path endpoint) versions action))))"

definition soft_delete_latest :: "id16 \<Rightarrow> endpoint_request \<Rightarrow> unit kv" where
  "soft_delete_latest identity_id endpoint =
     sbind (slift (validate_endpoint endpoint EpData)) (\<lambda>_.
     sbind (authorize_operation identity_id (endpoint\<lparr>e_kind := EpDelete\<rparr>) ActSoftDelete) (\<lambda>_ catalog.
       let path = logical_path endpoint
       in case kc_get catalog path of
            None \<Rightarrow> (Err KvNotFound, catalog)
          | Some entry \<Rightarrow>
              mutate_versions_locked identity_id path [en_current_version entry] ActSoftDelete catalog))"

section \<open>Metadata\<close>

record metadata_update =
  mu_cas_required :: "bool option"
  mu_max_versions :: "u16 option"
  mu_delete_version_after :: "string option"
  mu_custom_metadata :: "(string \<times> string) list option"

definition version_json :: "version_value \<Rightarrow> json" where
  "version_json v = json_object
     [(''created_time'', JString (u64_to_string (vv_created_unix_milliseconds v))),
      (''deletion_time'', JString (case vv_deletion_unix_milliseconds v of
                                     None \<Rightarrow> [] | Some t \<Rightarrow> u64_to_string t)),
      (''destroyed'', JBool (vv_state v = Destroyed))]"

definition metadata_json :: "kv_catalog \<Rightarrow> kv_entry \<Rightarrow> json" where
  "metadata_json catalog entry =
     (let versions = bt_collect (map (\<lambda>(version, v). (u64_to_string version, version_json v)) (en_versions entry));
          oldest = (case en_versions entry of [] \<Rightarrow> 0 | (version, _) # _ \<Rightarrow> version);
          custom = bt_collect (map (\<lambda>(key, v). (key, JString v)) (en_custom_metadata entry))
      in json_object
        [(''cas_required'', JBool (case en_cas_required entry of
                                     None \<Rightarrow> kc_mount_cas_required catalog | Some b \<Rightarrow> b)),
         (''current_version'', JNumber (PosInt (en_current_version entry))),
         (''custom_metadata'', JObject custom),
         (''delete_version_after'', JString ''0s''),
         (''max_versions'', JNumber (PosInt (ucast (case en_max_versions entry of None \<Rightarrow> 0 | Some n \<Rightarrow> n)))),
         (''oldest_version'', JNumber (PosInt oldest)),
         (''versions'', JObject versions)])"

definition kv_metadata :: "id16 \<Rightarrow> endpoint_request \<Rightarrow> json kv" where
  "kv_metadata identity_id endpoint =
     sbind (slift (validate_endpoint endpoint EpMetadata)) (\<lambda>_.
     sbind (authorize_operation identity_id endpoint ActMetadata) (\<lambda>_ catalog.
       let path = logical_path endpoint
       in case kc_get catalog path of
            None \<Rightarrow> (Err KvNotFound, catalog)
          | Some entry \<Rightarrow>
              (Ok (metadata_json catalog entry),
               kc_push (audit_event identity_id path AuMetadataRead Succeeded None None) catalog)))"

definition apply_update :: "metadata_update \<Rightarrow> kv_entry \<Rightarrow> kv_entry" where
  "apply_update update entry =
     (let entry = (case mu_cas_required update of
                     None \<Rightarrow> entry | Some v \<Rightarrow> entry\<lparr>en_cas_required := Some v\<rparr>);
          entry = (case mu_max_versions update of
                     None \<Rightarrow> entry | Some v \<Rightarrow> entry\<lparr>en_max_versions := (if v \<noteq> 0 then Some v else None)\<rparr>)
      in case mu_custom_metadata update of
           None \<Rightarrow> entry | Some custom \<Rightarrow> entry\<lparr>en_custom_metadata := custom\<rparr>)"

definition update_metadata :: "id16 \<Rightarrow> endpoint_request \<Rightarrow> metadata_update \<Rightarrow> unit kv" where
  "update_metadata identity_id endpoint update =
     sbind (slift (case mu_custom_metadata update of
                     None \<Rightarrow> Ok () | Some custom \<Rightarrow> validate_custom_metadata custom)) (\<lambda>_.
     sbind (slift (validate_endpoint endpoint EpMetadata)) (\<lambda>_.
     sbind (authorize_operation identity_id endpoint ActWrite) (\<lambda>_.
     sbind (srequire (case mu_delete_version_after update of None \<Rightarrow> True | Some v \<Rightarrow> v = ''0s'')
              KvUnsupportedField) (\<lambda>_.
     sbind (srequire (case mu_max_versions update of None \<Rightarrow> True | Some v \<Rightarrow> v \<le> MAX_VERSIONS)
              KvInvalid) (\<lambda>_ catalog.
       let path = logical_path endpoint;
           entry = apply_update update (kc_entry_or catalog path None)
       in case checked_add (en_metadata_generation entry) 1 of
            None \<Rightarrow> (Err KvInternal, kc_put path entry catalog)
          | Some generation \<Rightarrow>
              (Ok (), kc_push (audit_event identity_id path AuMetadataWrite Succeeded None None)
                 (kc_put path (entry\<lparr>en_metadata_generation := generation\<rparr>) catalog)))))))"

section \<open>Purge\<close>

record purge_preflight =
  pp_canonical_resource :: string
  pp_metadata_generation :: u64
  pp_version_count :: u64

record purge_request =
  pr_resource :: resource
  pr_expected_metadata_generation :: u64
  pr_expected_version_count :: u64
  pr_reason :: string
  pr_confirmation :: "arr32 option"

record purge_result =
  pu_metadata_generation :: u64
  pu_version_count :: u64
  pu_logical_destruction_only :: bool

definition purge_message :: "resource \<Rightarrow> u64 \<Rightarrow> u64 \<Rightarrow> string \<Rightarrow> bytes" where
  "purge_message resource metadata_generation version_count reason =
     (let canonical = canonical_resource resource
      in str_bytes ''ops-light-secrets-server.secret-purge.v1'' @ [0]
         @ be_bytes 8 (word_of_nat (length canonical) :: u64) @ str_bytes canonical
         @ be_bytes 8 metadata_generation @ be_bytes 8 version_count
         @ be_bytes 8 (word_of_nat (length reason) :: u64) @ str_bytes reason)"

definition purge_confirmation ::
  "(bytes \<Rightarrow> arr32) \<Rightarrow> resource \<Rightarrow> u64 \<Rightarrow> u64 \<Rightarrow> string \<Rightarrow> arr32" where
  "purge_confirmation hash resource metadata_generation version_count reason =
     hash (purge_message resource metadata_generation version_count reason)"

definition version_count :: "kv_entry \<Rightarrow> u64" where
  "version_count entry = word_of_nat (length (en_versions entry))"

definition kv_purge_preflight :: "id16 \<Rightarrow> resource \<Rightarrow> purge_preflight kv" where
  "kv_purge_preflight identity_id resource =
     sbind (authorize_destroy_all identity_id resource) (\<lambda>_ catalog.
       case kc_get catalog (join CHR ''/'' (r_canonical_segments resource)) of
         None \<Rightarrow> (Err KvNotFound, catalog)
       | Some entry \<Rightarrow>
           if \<not> en_protection_known entry then (Err KvUnknownRotationProtection, catalog)
           else if en_protected_version entry \<noteq> None then (Err KvRotationProtected, catalog)
           else (Ok \<lparr>pp_canonical_resource = canonical_resource resource,
                     pp_metadata_generation = en_metadata_generation entry,
                     pp_version_count = version_count entry\<rparr>, catalog))"

definition kv_purge ::
  "(bytes \<Rightarrow> arr32) \<Rightarrow> id16 \<Rightarrow> resource \<Rightarrow> purge_request \<Rightarrow> purge_result kv" where
  "kv_purge hash identity_id expected_resource request catalog =
     (let path = join CHR ''/'' (r_canonical_segments expected_resource);
          audit_failure = (\<lambda>catalog reason.
            kc_push (audit_event identity_id path AuPurge Failed None (Some reason)) catalog)
      in if pr_resource request \<noteq> expected_resource
         then (Err KvResourceMismatch, audit_failure catalog ''resource-mismatch'')
         else if pr_reason request = [] \<or> length (pr_reason request) > 1024
           \<or> has_control (pr_reason request)
         then (Err KvReasonRequired, audit_failure catalog ''reason-required'')
         else
           sbind (authorize_destroy_all identity_id (pr_resource request)) (\<lambda>_ catalog.
             case kc_get catalog path of
               None \<Rightarrow> (Err KvNotFound, audit_failure catalog ''not-found'')
             | Some entry \<Rightarrow>
                 if \<not> en_protection_known entry
                 then (Err KvUnknownRotationProtection, audit_failure catalog ''unknown-rotation-protection'')
                 else if en_protected_version entry \<noteq> None
                 then (Err KvRotationProtected, audit_failure catalog ''rotation-protected'')
                 else if en_metadata_generation entry \<noteq> pr_expected_metadata_generation request
                   \<or> version_count entry \<noteq> pr_expected_version_count request
                 then (Err KvStaleCeremony, audit_failure catalog ''stale-ceremony'')
                 else if pr_confirmation request \<noteq>
                   Some (purge_confirmation hash (pr_resource request)
                     (pr_expected_metadata_generation request) (pr_expected_version_count request)
                     (pr_reason request))
                 then (Err KvConfirmationRequired, audit_failure catalog ''confirmation-required'')
                 else if kc_fail_next_purge_audit_commit catalog
                 then (Err KvInternal, catalog\<lparr>kc_fail_next_purge_audit_commit := False\<rparr>)
                 else
                   let catalog = kc_push (audit_event identity_id path AuPurge Succeeded None
                                   (Some (pr_reason request))) catalog
                   in (Ok \<lparr>pu_metadata_generation = en_metadata_generation entry,
                           pu_version_count = version_count entry, pu_logical_destruction_only = True\<rparr>,
                       catalog\<lparr>kc_entries := bt_remove path (kc_entries catalog)\<rparr>)) catalog)"

section \<open>Rotation support\<close>

record rotation_snapshot =
  rs_current_version :: u64
  rs_protection :: "u64 option"

definition kv_rotation_snapshot :: "endpoint_request \<Rightarrow> rotation_snapshot kv" where
  "kv_rotation_snapshot endpoint =
     sbind (slift (validate_endpoint endpoint EpData)) (\<lambda>_ catalog.
       case kc_get catalog (logical_path endpoint) of
         None \<Rightarrow> (Err KvNotFound, catalog)
       | Some entry \<Rightarrow>
           (case bt_get (en_versions entry) (en_current_version entry) of
              None \<Rightarrow> (Err KvNotFound, catalog)
            | Some current \<Rightarrow>
                if vv_state current \<noteq> Live \<or> vv_encoded current = []
                then (Err (unavailable (en_current_version entry) current), catalog)
                else (Ok \<lparr>rs_current_version = en_current_version entry,
                          rs_protection = en_protected_version entry\<rparr>, catalog)))"

definition set_rotation_snapshot_protection :: "endpoint_request \<Rightarrow> u64 \<Rightarrow> bool \<Rightarrow> unit kv" where
  "set_rotation_snapshot_protection endpoint expected_current protected =
     sbind (slift (validate_endpoint endpoint EpData)) (\<lambda>_ catalog.
       let path = logical_path endpoint
       in case kc_get catalog path of
            None \<Rightarrow> (Err KvNotFound, catalog)
          | Some entry \<Rightarrow>
              if protected then
                if en_current_version entry \<noteq> expected_current then (Err KvCasConflict, catalog)
                else
                  (case bt_get (en_versions entry) expected_current of
                     None \<Rightarrow> (Err KvNotFound, catalog)
                   | Some v \<Rightarrow>
                       if vv_state v \<noteq> Live \<or> vv_encoded v = []
                       then (Err (unavailable expected_current v), catalog)
                       else
                         let entry = entry\<lparr>en_protected_version := Some expected_current,
                                           en_protection_known := True\<rparr>
                         in case checked_add (en_metadata_generation entry) 1 of
                              None \<Rightarrow> (Err KvInternal, kc_put path entry catalog)
                            | Some generation \<Rightarrow>
                                (Ok (), kc_put path (entry\<lparr>en_metadata_generation := generation\<rparr>) catalog))
              else if en_protected_version entry \<noteq> Some expected_current then (Err KvCasConflict, catalog)
              else
                let entry = entry\<lparr>en_protected_version := None\<rparr>
                in case checked_add (en_metadata_generation entry) 1 of
                     None \<Rightarrow> (Err KvInternal, kc_put path entry catalog)
                   | Some generation \<Rightarrow>
                       prune path (kc_put path (entry\<lparr>en_metadata_generation := generation\<rparr>) catalog))"

definition rotation_write_encoded ::
  "id16 \<Rightarrow> endpoint_request \<Rightarrow> bytes \<Rightarrow> u64 \<Rightarrow> kv_audit_operation \<Rightarrow> write_result kv" where
  "rotation_write_encoded actor_identity_id endpoint encoded expected_current operation catalog =
     (let path = logical_path endpoint;
          created = kc_effective_unix_milliseconds catalog
      in case kc_get catalog path of
           None \<Rightarrow> (Err KvNotFound, catalog)
         | Some entry \<Rightarrow>
             if en_current_version entry \<noteq> expected_current \<or> en_protected_version entry = None
                \<or> \<not> (operation = AuRotationCutover \<or> operation = AuRotationRollback)
             then (Err KvCasConflict, catalog)
             else sbind (add_version path entry encoded created) (\<lambda>version catalog.
               (Ok \<lparr>wr_version = version, wr_created = created\<rparr>,
                kc_push (audit_event actor_identity_id path operation Succeeded (Some version) None) catalog))
               catalog)"

definition kv_rotation_cutover ::
  "(json \<Rightarrow> bytes option) \<Rightarrow> id16 \<Rightarrow> endpoint_request \<Rightarrow> (string \<times> json) list \<Rightarrow> u64 \<Rightarrow>
     write_result kv" where
  "kv_rotation_cutover to_vec actor_identity_id endpoint data expected_current =
     sbind (slift (validate_endpoint endpoint EpData)) (\<lambda>_.
     sbind (slift (encode_secret to_vec data)) (\<lambda>encoded.
       rotation_write_encoded actor_identity_id endpoint encoded expected_current AuRotationCutover))"

text \<open>
  A rollback takes the lock twice: once to copy the protected value, once to write it. The write
  checks the current version again.
\<close>

definition rollback_source :: "endpoint_request \<Rightarrow> u64 \<Rightarrow> u64 \<Rightarrow> bytes kv" where
  "rollback_source endpoint expected_current protected_version catalog =
     (case kc_get catalog (logical_path endpoint) of
        None \<Rightarrow> (Err KvNotFound, catalog)
      | Some entry \<Rightarrow>
          if en_current_version entry \<noteq> expected_current
             \<or> en_protected_version entry \<noteq> Some protected_version
          then (Err KvCasConflict, catalog)
          else
            (case bt_get (en_versions entry) protected_version of
               None \<Rightarrow> (Err KvNotFound, catalog)
             | Some v \<Rightarrow>
                 if vv_state v = Destroyed \<or> vv_encoded v = []
                 then (Err (unavailable protected_version v), catalog)
                 else (Ok (vv_encoded v), catalog)))"

definition kv_rotation_rollback_copy_forward ::
  "id16 \<Rightarrow> endpoint_request \<Rightarrow> u64 \<Rightarrow> u64 \<Rightarrow> write_result kv" where
  "kv_rotation_rollback_copy_forward actor_identity_id endpoint expected_current protected_version =
     sbind (slift (validate_endpoint endpoint EpData)) (\<lambda>_.
     sbind (rollback_source endpoint expected_current protected_version) (\<lambda>encoded.
       rotation_write_encoded actor_identity_id endpoint encoded expected_current AuRotationRollback))"

end
