(* ===== verification/Kv_Http.thy ===== *)
theory Kv_Http
  imports Kv_Store
begin

text \<open>
  The HTTP face of the key-value store: the frozen error envelopes (\<open>src/compat_error.rs\<close>), the
  request bodies, and the handler \<open>dispatch\<close> (\<open>src/kv.rs\<close>). A request reaches \<open>dispatch\<close> with its
  token, its parsed target and its parsed body; the namespace header is the bytes of
  \<open>X-Vault-Namespace\<close> if it is present.
\<close>

section \<open>Error envelopes\<close>

datatype safe_route =
  KvData | KvMetadata | KvList | KvDelete | KvUndelete | KvDestroy | KvUnknown | Namespaced | TokenRenewSelf

primrec route_template :: "safe_route \<Rightarrow> string" where
  "route_template KvData = ''/v1/:mount/data/:path''"
| "route_template KvMetadata = ''/v1/:mount/metadata/:path''"
| "route_template KvList = ''/v1/:mount/metadata/:path?list=true''"
| "route_template KvDelete = ''/v1/:mount/delete/:path''"
| "route_template KvUndelete = ''/v1/:mount/undelete/:path''"
| "route_template KvDestroy = ''/v1/:mount/destroy/:path''"
| "route_template KvUnknown = ''/v1/:mount/:operation/:path''"
| "route_template Namespaced = ''namespaced /v1 request''"
| "route_template TokenRenewSelf = ''/v1/auth/token/renew-self''"

primrec safe_route_of :: "endpoint_kind \<Rightarrow> safe_route" where
  "safe_route_of EpData = KvData"
| "safe_route_of EpMetadata = KvMetadata"
| "safe_route_of EpList = KvList"
| "safe_route_of EpDelete = KvDelete"
| "safe_route_of EpUndelete = KvUndelete"
| "safe_route_of EpDestroy = KvDestroy"

datatype error_case =
  UnsupportedOperation | MetadataDelete | UnsupportedMount | Namespace | TokenRenewal | SecretNotFound

record error_contract =
  ct_schema_version :: u16
  ct_case :: error_case
  ct_status :: nat
  ct_message :: string
  ct_route :: "safe_route option"

definition safe_method :: "string \<Rightarrow> string" where
  "safe_method m =
     (if m = ''GET'' then ''GET'' else if m = ''POST'' then ''POST'' else if m = ''PUT'' then ''PUT''
      else if m = ''DELETE'' then ''DELETE'' else if m = ''PATCH'' then ''PATCH''
      else if m = ''LIST'' then ''LIST'' else ''OTHER'')"

definition contract :: "error_case \<Rightarrow> string option \<Rightarrow> safe_route option \<Rightarrow> error_contract" where
  "contract c http_method route =
     (let status = (case c of
            UnsupportedOperation \<Rightarrow> 405
          | MetadataDelete \<Rightarrow> 501 | TokenRenewal \<Rightarrow> 501
          | UnsupportedMount \<Rightarrow> 404 | SecretNotFound \<Rightarrow> 404
          | Namespace \<Rightarrow> 400);
          message = (case c of
            SecretNotFound \<Rightarrow> ''secret not found''
          | _ \<Rightarrow> ''unsupported endpoint: ''
                 @ (case http_method of None \<Rightarrow> ''ANY'' | Some m \<Rightarrow> safe_method m) @ '' ''
                 @ route_template (case route of None \<Rightarrow> KvUnknown | Some r \<Rightarrow> r))
      in \<lparr>ct_schema_version = 1, ct_case = c, ct_status = status, ct_message = message, ct_route = route\<rparr>)"

definition vault_error :: "nat \<Rightarrow> string \<Rightarrow> http_response" where
  "vault_error status message =
     json_response status (json_object [(''errors'', JArray [JString message])])"

definition compat_response :: "error_case \<Rightarrow> string option \<Rightarrow> safe_route option \<Rightarrow> http_response" where
  "compat_response c http_method route =
     (let v = contract c http_method route
      in json_response (ct_status v) (json_object [(''errors'', JArray [JString (ct_message v)])]))"

definition bounded_error :: "string \<Rightarrow> http_response" where
  "bounded_error i =
     json_response 400 (json_object
       [(''errors'', JArray [JString (''request exceeds '' @ i @ '' bound'')])])"

definition error_response :: "kv_error \<Rightarrow> string \<Rightarrow> endpoint_kind \<Rightarrow> http_response" where
  "error_response e http_method kind =
     (case e of
        KvInvalid \<Rightarrow> vault_error 400 ''invalid request''
      | KvUnsupportedMount \<Rightarrow> compat_response UnsupportedMount (Some http_method) (Some (safe_route_of kind))
      | KvPermissionDenied \<Rightarrow> vault_error 403 ''permission denied''
      | KvCasConflict \<Rightarrow> vault_error 400 ''check-and-set parameter did not match the current version''
      | KvNotFound \<Rightarrow> compat_response SecretNotFound None None
      | KvVersionUnavailable version deletion_time destroyed \<Rightarrow>
          json_response 404 (json_object
            [(''errors'', JArray [JString ''secret not found'']),
             (''data'', json_object [(''metadata'', json_object
                [(''version'', JNumber (PosInt version)),
                 (''deletion_time'', JString (if deletion_time = 0 then [] else u64_to_string deletion_time)),
                 (''destroyed'', JBool destroyed)])])])
      | KvUnsupportedField \<Rightarrow> vault_error 400 ''delete_version_after is not supported''
      | KvBoundExceeded i \<Rightarrow> bounded_error i
      | KvResourceMismatch \<Rightarrow> vault_error 400 ''resource mismatch''
      | KvReasonRequired \<Rightarrow> vault_error 400 ''reason required''
      | KvConfirmationRequired \<Rightarrow> vault_error 400 ''confirmation required''
      | KvStaleCeremony \<Rightarrow> vault_error 409 ''purge ceremony stale''
      | KvRotationProtected \<Rightarrow> vault_error 409 ''secret rotation protected''
      | KvUnknownRotationProtection \<Rightarrow> vault_error 409 ''rotation protection unknown''
      | KvInternal \<Rightarrow> vault_error 500 ''internal error'')"

section \<open>Request bodies\<close>

definition parse_write :: "json \<Rightarrow> ((string \<times> json) list \<times> u64 option, kv_error) result" where
  "parse_write body =
     (case body of
        JObject root \<Rightarrow>
          if \<not> list_all (\<lambda>key. key = ''data'' \<or> key = ''options'') (map fst root) then Err KvInvalid
          else
            (case bt_get root ''data'' of
               Some (JObject data) \<Rightarrow>
                 rbind (case bt_get (bt_remove ''data'' root) ''options'' of
                          None \<Rightarrow> Ok None
                        | Some (JObject options) \<Rightarrow>
                            if options = [] then Ok None
                            else if length options = 1 then
                              (case bt_get options ''cas'' of
                                 Some (JNumber n) \<Rightarrow>
                                   rbind (ok_or KvInvalid (as_u64 (JNumber n))) (\<lambda>v. Ok (Some v))
                               | _ \<Rightarrow> Err KvInvalid)
                            else Err KvInvalid
                        | Some _ \<Rightarrow> Err KvInvalid)
                   (\<lambda>cas. Ok (data, cas))
             | _ \<Rightarrow> Err KvInvalid)
      | _ \<Rightarrow> Err KvInvalid)"

primrec parse_version_list :: "json list \<Rightarrow> (u64 list, kv_error) result" where
  "parse_version_list [] = Ok []"
| "parse_version_list (v # vs) =
     (case as_u64 v of
        None \<Rightarrow> Err KvInvalid
      | Some n \<Rightarrow>
          if n > 0 then rbind (parse_version_list vs) (\<lambda>ns. Ok (n # ns)) else Err KvInvalid)"

definition parse_versions :: "json \<Rightarrow> (u64 list, kv_error) result" where
  "parse_versions body =
     (case body of
        JObject root \<Rightarrow>
          if length root \<noteq> 1 then Err KvInvalid
          else
            (case bt_get root ''versions'' of
               Some (JArray values) \<Rightarrow>
                 rbind (parse_version_list values) (\<lambda>versions.
                 rbind (validate_versions versions) (\<lambda>_. Ok versions))
             | _ \<Rightarrow> Err KvInvalid)
      | _ \<Rightarrow> Err KvInvalid)"

text \<open>\<open>root.remove(key).map(f).transpose()\<close>.\<close>

definition optional_field ::
  "(string \<times> json) list \<Rightarrow> string \<Rightarrow> (json \<Rightarrow> ('a, kv_error) result) \<Rightarrow> ('a option, kv_error) result" where
  "optional_field root key f =
     (case bt_get root key of None \<Rightarrow> Ok None | Some v \<Rightarrow> rbind (f v) (\<lambda>x. Ok (Some x)))"

definition u16_try_from :: "u64 \<Rightarrow> u16 option" where
  "u16_try_from n = (if unat n < 65536 then Some (ucast n) else None)"

primrec parse_custom_pairs :: "(string \<times> json) list \<Rightarrow> ((string \<times> string) list, kv_error) result" where
  "parse_custom_pairs [] = Ok []"
| "parse_custom_pairs (p # ps) =
     rbind (ok_or KvInvalid (as_str (snd p))) (\<lambda>v.
     rbind (parse_custom_pairs ps) (\<lambda>rest. Ok ((fst p, v) # rest)))"

definition parse_custom :: "json \<Rightarrow> ((string \<times> string) list, kv_error) result" where
  "parse_custom body =
     (case body of
        JObject values \<Rightarrow>
          rbind (parse_custom_pairs values) (\<lambda>pairs.
            let result = bt_collect pairs
            in rbind (validate_custom_metadata result) (\<lambda>_. Ok result))
      | _ \<Rightarrow> Err KvInvalid)"

definition parse_metadata :: "json \<Rightarrow> (metadata_update, kv_error) result" where
  "parse_metadata body =
     (case body of
        JObject root \<Rightarrow>
          if \<not> list_all (\<lambda>key. key = ''cas_required'' \<or> key = ''max_versions''
                 \<or> key = ''delete_version_after'' \<or> key = ''custom_metadata'') (map fst root)
          then Err KvInvalid
          else
            rbind (optional_field root ''cas_required'' (\<lambda>v. ok_or KvInvalid (as_bool v))) (\<lambda>cas_required.
            rbind (optional_field root ''max_versions''
                     (\<lambda>v. ok_or KvInvalid (Option.bind (as_u64 v) u16_try_from))) (\<lambda>max_versions.
            rbind (optional_field root ''delete_version_after''
                     (\<lambda>v. ok_or KvInvalid (as_str v))) (\<lambda>delete_version_after.
            rbind (optional_field root ''custom_metadata'' parse_custom) (\<lambda>custom_metadata.
              Ok \<lparr>mu_cas_required = cas_required, mu_max_versions = max_versions,
                  mu_delete_version_after = delete_version_after,
                  mu_custom_metadata = custom_metadata\<rparr>))))
      | _ \<Rightarrow> Err KvInvalid)"

section \<open>The handler\<close>

definition version_metadata :: "u64 \<Rightarrow> u64 \<Rightarrow> json" where
  "version_metadata created version = json_object
     [(''created_time'', JString (u64_to_string created)),
      (''custom_metadata'', JNull),
      (''deletion_time'', JString []),
      (''destroyed'', JBool False),
      (''version'', JNumber (PosInt version))]"

definition secret_response_hygiene :: "http_response \<Rightarrow> http_response" where
  "secret_response_hygiene r =
     r\<lparr>hr_headers := bt_remove ''content-encoding'' (bt_insert ''cache-control'' ''no-store'' (hr_headers r))\<rparr>"

text \<open>\<open>answer\<close> turns the outcome of a service call into the response of the handler.\<close>

definition answer ::
  "string \<Rightarrow> endpoint_kind \<Rightarrow> ('a \<Rightarrow> http_response) \<Rightarrow> 'a kv \<Rightarrow> kv_catalog \<Rightarrow> http_response \<times> kv_catalog" where
  "answer http_method kind respond call catalog =
     (case call catalog of
        (Ok a, catalog) \<Rightarrow> (secret_response_hygiene (respond a), catalog)
      | (Err e, catalog) \<Rightarrow> (secret_response_hygiene (error_response e http_method kind), catalog))"

definition kind_action :: "endpoint_kind \<Rightarrow> secret_action" where
  "kind_action kind =
     (case kind of EpUndelete \<Rightarrow> ActUndelete | EpDestroy \<Rightarrow> ActDestroy | _ \<Rightarrow> ActSoftDelete)"

definition dispatch ::
  "(json \<Rightarrow> bytes option) \<Rightarrow> (bytes \<Rightarrow> json option) \<Rightarrow> id16 \<Rightarrow> endpoint_request \<Rightarrow> bytes option \<Rightarrow>
     string \<Rightarrow> json option \<Rightarrow> kv_catalog \<Rightarrow> http_response \<times> kv_catalog" where
  "dispatch to_vec from_slice identity_id endpoint namespace http_method body catalog =
     (let kind = e_kind endpoint;
          invalid = (vault_error 400 ''invalid request'', catalog);
          no_content = (\<lambda>_. status_response 204)
      in if (case namespace of None \<Rightarrow> False | Some v \<Rightarrow> v \<noteq> [])
         then (compat_response Namespace (Some http_method) (Some Namespaced), catalog)
         else if kind = EpData \<and> http_method = ''GET'' then
           answer http_method kind
             (\<lambda>result. json_response 200 (json_object [(''data'', json_object
                [(''data'', rr_data result),
                 (''metadata'', version_metadata (rr_created result) (rr_version result))])]))
             (kv_read from_slice identity_id endpoint) catalog
         else if kind = EpData \<and> (http_method = ''POST'' \<or> http_method = ''PUT'') then
           (case body of
              None \<Rightarrow> invalid
            | Some body \<Rightarrow>
                (case parse_write body of
                   Err _ \<Rightarrow> invalid
                 | Ok (data, cas) \<Rightarrow>
                     answer http_method kind
                       (\<lambda>result. json_response 200 (json_object
                          [(''data'', version_metadata (wr_created result) (wr_version result))]))
                       (kv_write to_vec identity_id endpoint data cas) catalog))
         else if kind = EpData \<and> http_method = ''DELETE'' then
           answer http_method kind no_content (soft_delete_latest identity_id endpoint) catalog
         else if (kind = EpDelete \<or> kind = EpUndelete \<or> kind = EpDestroy) \<and> http_method = ''POST'' then
           (case body of
              None \<Rightarrow> invalid
            | Some body \<Rightarrow>
                (case parse_versions body of
                   Err _ \<Rightarrow> invalid
                 | Ok versions \<Rightarrow>
                     answer http_method kind no_content
                       (mutate_versions identity_id endpoint versions (kind_action kind)) catalog))
         else if kind = EpMetadata \<and> http_method = ''GET'' then
           answer http_method kind
             (\<lambda>metadata. json_response 200 (json_object [(''data'', metadata)]))
             (kv_metadata identity_id endpoint) catalog
         else if kind = EpMetadata \<and> (http_method = ''POST'' \<or> http_method = ''PUT'') then
           (case body of
              None \<Rightarrow> invalid
            | Some body \<Rightarrow>
                (case parse_metadata body of
                   Err _ \<Rightarrow> invalid
                 | Ok update \<Rightarrow>
                     answer http_method kind no_content (update_metadata identity_id endpoint update) catalog))
         else if kind = EpMetadata \<and> http_method = ''DELETE'' then
           (secret_response_hygiene (compat_response MetadataDelete (Some http_method) (Some KvMetadata)),
            catalog)
         else if kind = EpList \<and> (http_method = ''LIST'' \<or> http_method = ''GET'') then
           answer http_method kind
             (\<lambda>keys. json_response 200 (json_object [(''data'', json_object
                [(''keys'', JArray (map JString keys))])]))
             (kv_list identity_id endpoint) catalog
         else
           (secret_response_hygiene (compat_response UnsupportedOperation (Some http_method)
              (Some (safe_route_of kind))), catalog))"

end
