(* ===== verification/Kv_Invariant.thy ===== *)
theory Kv_Invariant
  imports Kv_Http
begin

text \<open>
  What the key-value store keeps: the retention rule that pruning implements, the invariant of the
  catalog, and the history of one path along every run of the store's operations. A version's
  payload never changes except that destroying erases it, version numbers are never reused while
  the entry lives, and the current version never falls.
\<close>

section \<open>Retention\<close>

definition prunable :: "kv_entry \<Rightarrow> u64 \<Rightarrow> bool" where
  "prunable e v \<longleftrightarrow> Some v \<noteq> en_protected_version e \<and> v \<noteq> en_current_version e"

text \<open>The versions pruning removes: the oldest prunable ones, as many as there are too many.\<close>

definition pruned :: "nat \<Rightarrow> kv_entry \<Rightarrow> u64 list" where
  "pruned maximum e =
     take (length (en_versions e) - maximum) (filter (prunable e) (map fst (en_versions e)))"

definition prune_reference :: "nat \<Rightarrow> kv_entry \<Rightarrow> kv_entry" where
  "prune_reference maximum e =
     e\<lparr>en_versions := filter (\<lambda>(k, _). k \<notin> set (pruned maximum e)) (en_versions e),
       en_retention_deferred := (en_retention_deferred e
         \<or> length (filter (prunable e) (map fst (en_versions e))) < length (en_versions e) - maximum)\<rparr>"

lemma prune_candidate_eq: "prune_candidate e = find (prunable e) (map fst (en_versions e))"
  by (simp add: prune_candidate_def prunable_def [abs_def])

lemma find_filter_hd: "find P xs = (case filter P xs of [] \<Rightarrow> None | x # _ \<Rightarrow> Some x)"
  by (induction xs) auto

lemma filter_bt_remove_keys:
  "filter P (map fst (bt_remove k m)) = filter (\<lambda>x. x \<noteq> k) (filter P (map fst m))"
  by (induction m) (auto simp: bt_remove_def)

lemma length_bt_remove_btree: "btree m \<Longrightarrow> k \<in> fst ` set m \<Longrightarrow> length (bt_remove k m) = length m - 1"
proof (induction m)
  case (Cons p m)
  then show ?case
  proof (cases "fst p = k")
    case True
    with Cons.prems have "k \<notin> fst ` set m" by (auto simp: btree_Cons)
    then have "bt_remove k m = m"
      by (force simp: bt_remove_def filter_id_conv)
    with True show ?thesis by (cases p) (simp add: bt_remove_def)
  next
    case False
    with Cons have "length (bt_remove k m) = length m - 1" "m \<noteq> []" by (auto simp: btree_Cons)
    with False show ?thesis by (cases p; cases m) (auto simp: bt_remove_def)
  qed
qed simp

lemma prune_loop_reference:
  assumes "btree (en_versions e)"
  shows "prune_loop maximum e = prune_reference maximum e"
  using assms
proof (induction maximum e rule: prune_loop.induct)
  case (1 maximum e)
  show ?case
  proof (cases "length (en_versions e) > maximum")
    case False
    then show ?thesis
      by (simp add: prune_loop.simps [of maximum e] prune_reference_def pruned_def case_prod_unfold)
  next
    case more: True
    let ?keys = "map fst (en_versions e)"
    show ?thesis
    proof (cases "filter (prunable e) ?keys")
      case Nil
      then have "prune_candidate e = None"
        by (simp add: prune_candidate_eq find_filter_hd)
      with more Nil show ?thesis
        by (simp add: prune_loop.simps [of maximum e] prune_reference_def pruned_def case_prod_unfold)
    next
      case (Cons k ks)
      let ?e = "e\<lparr>en_versions := bt_remove k (en_versions e)\<rparr>"
      have cand: "prune_candidate e = Some k"
        using Cons by (simp add: prune_candidate_eq find_filter_hd)
      have mem: "k \<in> fst ` set (en_versions e)"
        using prune_candidate_member [OF cand] .
      have dist: "distinct (k # ks)"
        using btree_distinct [OF "1.prems"] Cons [symmetric] by (simp only: distinct_filter)
      have prunable: "prunable ?e = prunable e"
        by (simp add: prunable_def fun_eq_iff)
      have keys: "filter (prunable e) (map fst (bt_remove k (en_versions e))) = ks"
        using dist by (auto simp: filter_bt_remove_keys Cons filter_id_conv)
      have len: "length (bt_remove k (en_versions e)) = length (en_versions e) - 1"
        by (rule length_bt_remove_btree [OF "1.prems" mem])
      have "prune_loop maximum e = prune_loop maximum ?e"
        using more cand by (simp add: prune_loop.simps [of maximum e])
      also have "\<dots> = prune_reference maximum ?e"
        using "1.IH" [OF more cand] "1.prems" by simp
      also have "\<dots> = prune_reference maximum e"
      proof -
        have excess: "length (en_versions e) - maximum = Suc (length (en_versions ?e) - maximum)"
          using more len by simp
        have removed: "pruned maximum e = k # pruned maximum ?e"
          unfolding pruned_def excess prunable using keys by (simp add: Cons)
        have deferred: "length (filter (prunable e) ?keys) < length (en_versions e) - maximum \<longleftrightarrow>
            length (filter (prunable ?e) (map fst (en_versions ?e))) < length (en_versions ?e) - maximum"
          unfolding excess prunable using keys by (simp add: Cons)
        have "filter (\<lambda>(i, _). i \<notin> set (pruned maximum ?e)) (bt_remove k (en_versions e))
            = filter (\<lambda>(i, _). i \<notin> set (pruned maximum e)) (en_versions e)"
          unfolding removed bt_remove_def filter_filter by (rule filter_cong) auto
        then show ?thesis
          unfolding prune_reference_def deferred by simp
      qed
      finally show ?thesis .
    qed
  qed
qed

section \<open>One entry\<close>

definition entry_ok :: "kv_entry \<Rightarrow> bool" where
  "entry_ok e \<longleftrightarrow> btree (en_versions e)
     \<and> (\<forall>k\<in>fst ` set (en_versions e). 0 < k \<and> k \<le> en_current_version e)
     \<and> (\<forall>k v. bt_get (en_versions e) k = Some v \<longrightarrow> vv_state v = Destroyed \<longrightarrow> vv_encoded v = [])
     \<and> (\<forall>k. en_protected_version e = Some k \<longrightarrow> k \<in> fst ` set (en_versions e))
     \<and> (en_metadata_generation e \<noteq> - 1 \<longrightarrow> en_current_version e \<noteq> 0 \<longrightarrow>
          en_current_version e \<in> fst ` set (en_versions e))
     \<and> (\<forall>n. en_max_versions e = Some n \<longrightarrow> 1 \<le> n \<and> n \<le> MAX_VERSIONS)"

definition value_le :: "version_value \<Rightarrow> version_value \<Rightarrow> bool" where
  "value_le v w \<longleftrightarrow> vv_created_unix_milliseconds w = vv_created_unix_milliseconds v
     \<and> (vv_encoded w = vv_encoded v \<or> vv_state w = Destroyed)
     \<and> (vv_state v = Destroyed \<longrightarrow> vv_state w = Destroyed)"

definition entry_le :: "kv_entry \<Rightarrow> kv_entry \<Rightarrow> bool" where
  "entry_le e f \<longleftrightarrow> en_current_version e \<le> en_current_version f
     \<and> en_metadata_generation e \<le> en_metadata_generation f
     \<and> (\<forall>k w. k \<le> en_current_version e \<longrightarrow> bt_get (en_versions f) k = Some w \<longrightarrow>
          (\<exists>v. bt_get (en_versions e) k = Some v \<and> value_le v w))"

definition entry_step :: "kv_entry \<Rightarrow> kv_entry \<Rightarrow> bool" where
  "entry_step e f \<longleftrightarrow> (entry_ok e \<longrightarrow> entry_ok f \<and> entry_le e f)"

lemma value_le_refl [simp]: "value_le v v"
  by (simp add: value_le_def)

lemma value_le_trans: "value_le u v \<Longrightarrow> value_le v w \<Longrightarrow> value_le u w"
  by (auto simp: value_le_def)

lemma entry_le_refl [simp]: "entry_le e e"
  by (simp add: entry_le_def)

lemma entry_le_trans: "entry_le e f \<Longrightarrow> entry_le f g \<Longrightarrow> entry_le e g"
  unfolding entry_le_def by (meson order_trans value_le_trans)

lemma entry_step_refl [simp]: "entry_step e e"
  by (simp add: entry_step_def)

lemma entry_step_trans: "entry_step e f \<Longrightarrow> entry_step f g \<Longrightarrow> entry_step e g"
  unfolding entry_step_def using entry_le_trans by blast

lemma entry_new_ok: "entry_ok (entry_new c)"
  by (simp add: entry_ok_def entry_new_def)

lemma minus_one_le: "(- 1 :: 'a::len word) \<le> g \<Longrightarrow> g = - 1"
  by (metis word_order.extremum_uniqueI)

text \<open>A change that keeps the versions and the current version.\<close>

lemma entry_step_frame:
  assumes "en_versions f = en_versions e" and "en_current_version f = en_current_version e"
    and "en_metadata_generation e \<le> en_metadata_generation f"
    and "\<And>k. entry_ok e \<Longrightarrow> en_protected_version f = Some k \<Longrightarrow> k \<in> fst ` set (en_versions e)"
    and "\<And>n. entry_ok e \<Longrightarrow> en_max_versions f = Some n \<Longrightarrow> 1 \<le> n \<and> n \<le> MAX_VERSIONS"
  shows "entry_step e f"
  unfolding entry_step_def
proof (intro impI conjI)
  assume ok: "entry_ok e"
  show "entry_le e f"
    using assms(1-3) by (auto simp: entry_le_def)
  have "en_metadata_generation f \<noteq> - 1 \<Longrightarrow> en_metadata_generation e \<noteq> - 1"
    using assms(3) by (metis minus_one_le)
  then show "entry_ok f"
    using ok assms(4,5) [OF ok] assms(1,2) unfolding entry_ok_def by simp
qed

lemma generation_step: "checked_add g 1 = Some h \<Longrightarrow> g \<le> (h :: 'a::len word)"
  by (drule checked_add_1_Some_less) simp

lemma entry_ok_protected: "entry_ok e \<Longrightarrow> en_protected_version e = Some k \<Longrightarrow> k \<in> fst ` set (en_versions e)"
  and entry_ok_max: "entry_ok e \<Longrightarrow> en_max_versions e = Some n \<Longrightarrow> 1 \<le> n \<and> n \<le> MAX_VERSIONS"
  and entry_ok_btree: "entry_ok e \<Longrightarrow> btree (en_versions e)"
  by (auto simp: entry_ok_def)

lemma entry_step_advance:
  assumes "checked_add (en_current_version e) 1 = Some v" and "en_metadata_generation e = - 1"
  shows "entry_step e (e\<lparr>en_current_version := v\<rparr>)"
  using generation_step [OF assms(1)] assms(2)
  by (auto simp: entry_step_def entry_ok_def entry_le_def intro: order_trans)

lemma entry_step_add:
  assumes "checked_add (en_current_version e) 1 = Some v"
    and "checked_add (en_metadata_generation e) 1 = Some g"
  shows "entry_step e (e\<lparr>en_current_version := v, en_metadata_generation := g,
      en_versions := bt_insert v (new_version b t) (en_versions e)\<rparr>)"
  unfolding entry_step_def
proof (intro impI conjI)
  assume ok: "entry_ok e"
  note bt = entry_ok_btree [OF ok]
  have less: "en_current_version e < v" by (rule checked_add_1_Some_less [OF assms(1)])
  have pos: "0 < v" by (rule le_less_trans [OF word_zero_le less])
  show "entry_le e (e\<lparr>en_current_version := v, en_metadata_generation := g,
      en_versions := bt_insert v (new_version b t) (en_versions e)\<rparr>)"
    using less generation_step [OF assms(2)]
    by (auto simp: entry_le_def bt_get_insert [OF bt] split: if_splits)
  show "entry_ok (e\<lparr>en_current_version := v, en_metadata_generation := g,
      en_versions := bt_insert v (new_version b t) (en_versions e)\<rparr>)"
    using ok less pos
    by (auto simp: entry_ok_def bt_get_insert [OF bt] new_version_def split: if_splits
        intro: le_less_trans [THEN less_imp_le])
qed

lemma mutate_value_le:
  assumes "mutate_value now action v = Some w" and "vv_state v = Destroyed \<longrightarrow> vv_encoded v = []"
    and "action = ActSoftDelete \<Longrightarrow> vv_state v \<noteq> Destroyed"
  shows "value_le v w \<and> (vv_state w = Destroyed \<longrightarrow> vv_encoded w = [])"
  using assms by (auto simp: mutate_value_def value_le_def split: secret_action.splits if_splits)

text \<open>The loop of a deletion keeps the keys and moves every value forward.\<close>

definition values_le :: "(u64 \<times> version_value) list \<Rightarrow> (u64 \<times> version_value) list \<Rightarrow> bool" where
  "values_le m n \<longleftrightarrow> btree n \<and> fst ` set n = fst ` set m
     \<and> (\<forall>k w. bt_get n k = Some w \<longrightarrow> (\<exists>v. bt_get m k = Some v \<and> value_le v w
          \<and> (vv_state w = Destroyed \<longrightarrow> vv_encoded w = [])))"

definition destroyed_erased :: "(u64 \<times> version_value) list \<Rightarrow> bool" where
  "destroyed_erased m \<longleftrightarrow>
     (\<forall>k v. bt_get m k = Some v \<longrightarrow> vv_state v = Destroyed \<longrightarrow> vv_encoded v = [])"

lemma values_le_refl: "btree m \<Longrightarrow> destroyed_erased m \<Longrightarrow> values_le m m"
  by (auto simp: values_le_def destroyed_erased_def)

lemma values_leE:
  assumes "values_le m n" and "bt_get n k = Some w"
  obtains v where "bt_get m k = Some v" "value_le v w" "vv_state w = Destroyed \<longrightarrow> vv_encoded w = []"
  using assms unfolding values_le_def by blast

lemma values_le_trans:
  assumes "values_le m n" and "values_le n l"
  shows "values_le m l"
proof -
  have "\<exists>v. bt_get m k = Some v \<and> value_le v w \<and> (vv_state w = Destroyed \<longrightarrow> vv_encoded w = [])"
    if w: "bt_get l k = Some w" for k w
  proof -
    obtain u where u: "bt_get n k = Some u" "value_le u w" "vv_state w = Destroyed \<longrightarrow> vv_encoded w = []"
      using values_leE [OF assms(2) w] .
    obtain v where "bt_get m k = Some v" "value_le v u"
      using values_leE [OF assms(1) u(1)] .
    with u(2,3) show ?thesis by (blast intro: value_le_trans)
  qed
  with assms show ?thesis by (simp add: values_le_def)
qed

lemma values_le_erased: "values_le m n \<Longrightarrow> destroyed_erased n"
  unfolding values_le_def destroyed_erased_def by blast

lemma values_le_insert:
  assumes "btree m" and "destroyed_erased m" and "bt_get m k = Some v" and "value_le v w"
    and "vv_state w = Destroyed \<longrightarrow> vv_encoded w = []"
  shows "values_le m (bt_insert k w m)"
  using assms by (auto simp: values_le_def destroyed_erased_def bt_get_insert split: if_splits
      dest: bt_get_in_set intro!: insert_absorb image_eqI [where x = "(k, v)"])

lemma mutate_loop_values:
  assumes "btree m" and "destroyed_erased m"
    and "action = ActSoftDelete \<Longrightarrow> \<forall>k\<in>set vs. map_option vv_state (bt_get m k) \<noteq> Some Destroyed"
  shows "values_le m (snd (mutate_loop now action vs m))"
  using assms
proof (induction vs arbitrary: m)
  case Nil
  then show ?case by (simp add: values_le_refl)
next
  case (Cons k vs)
  show ?case
  proof (cases "bt_get m k")
    case None
    with Cons.prems show ?thesis by (simp add: values_le_refl)
  next
    case (Some v)
    show ?thesis
    proof (cases "mutate_value now action v")
      case None
      with Some Cons.prems show ?thesis by (simp add: values_le_refl)
    next
      case w: (Some w)
      have "value_le v w \<and> (vv_state w = Destroyed \<longrightarrow> vv_encoded w = [])"
        using w Some Cons.prems by (intro mutate_value_le) (auto simp: destroyed_erased_def)
      then have le: "values_le m (bt_insert k w m)"
        using Cons.prems(1,2) Some by (intro values_le_insert) auto
      have "values_le (bt_insert k w m) (snd (mutate_loop now action vs (bt_insert k w m)))"
        using Cons.prems le values_le_erased
        by (intro Cons.IH) (use w in \<open>auto simp: bt_get_insert values_le_def mutate_value_def\<close>)
      with le Some w show ?thesis by (auto intro: values_le_trans)
    qed
  qed
qed

lemma entry_step_values:
  assumes "values_le (en_versions e) m" and "en_metadata_generation e \<le> g"
  shows "entry_step e (e\<lparr>en_versions := m, en_metadata_generation := g\<rparr>)"
  unfolding entry_step_def
proof (intro impI conjI)
  assume ok: "entry_ok e"
  have "g \<noteq> - 1 \<Longrightarrow> en_metadata_generation e \<noteq> - 1"
    using assms(2) by (metis minus_one_le)
  with ok assms(1) show "entry_ok (e\<lparr>en_versions := m, en_metadata_generation := g\<rparr>)"
    unfolding entry_ok_def values_le_def by auto
  show "entry_le e (e\<lparr>en_versions := m, en_metadata_generation := g\<rparr>)"
    using assms(2) by (auto simp: entry_le_def elim: values_leE [OF assms(1)])
qed

lemma bt_get_filter_keys: "bt_get (filter (\<lambda>(k, _). P k) m) k = (if P k then bt_get m k else None)"
  by (induction m) (auto simp: bt_get_def)

lemma btree_filter: "btree m \<Longrightarrow> btree (filter P m)"
  by (induction m) (auto simp: btree_Cons)

lemma entry_step_prune: "entry_step e (prune_loop maximum (e\<lparr>en_retention_deferred := False\<rparr>))"
  unfolding entry_step_def
proof (intro impI)
  let ?e = "e\<lparr>en_retention_deferred := False\<rparr>"
  assume ok: "entry_ok e"
  then have ref: "prune_loop maximum ?e = prune_reference maximum ?e"
    by (intro prune_loop_reference) (simp add: entry_ok_btree)
  have kept: "k \<notin> set (pruned maximum ?e)" if "\<not> prunable e k" for k
    using that unfolding pruned_def
    by (auto simp: prunable_def [abs_def] dest!: in_set_takeD)
  have keys: "k \<in> fst ` set (en_versions (prune_reference maximum ?e)) \<longleftrightarrow>
      k \<in> fst ` set (en_versions e) \<and> k \<notin> set (pruned maximum ?e)" for k
    by (force simp: prune_reference_def image_iff)
  have "k \<notin> set (pruned maximum ?e)" if "k = en_current_version e \<or> en_protected_version e = Some k" for k
    using that by (intro kept) (auto simp: prunable_def)
  then have "entry_ok (prune_reference maximum ?e)"
    using ok keys unfolding entry_ok_def
    by (auto simp: prune_reference_def btree_filter bt_get_filter_keys split: if_splits)
  moreover have "entry_le e (prune_reference maximum ?e)"
    by (auto simp: entry_le_def prune_reference_def bt_get_filter_keys split: if_splits)
  ultimately show "entry_ok (prune_loop maximum ?e) \<and> entry_le e (prune_loop maximum ?e)"
    by (simp add: ref)
qed

section \<open>The catalog\<close>

definition kv_ok :: "kv_catalog \<Rightarrow> bool" where
  "kv_ok c \<longleftrightarrow> btree (kc_entries c) \<and> (\<forall>q e. kc_get c q = Some e \<longrightarrow> entry_ok e)
     \<and> 1 \<le> kc_mount_max_versions c \<and> kc_mount_max_versions c \<le> MAX_VERSIONS"

text \<open>What every operation does to the path \<open>p\<close>, other than a purge of it.\<close>

definition kv_keeps :: "string \<Rightarrow> kv_catalog \<Rightarrow> kv_catalog \<Rightarrow> bool" where
  "kv_keeps p c d \<longleftrightarrow> (kv_ok c \<longrightarrow> kv_ok d
     \<and> (\<forall>e. kc_get c p = Some e \<longrightarrow> (\<exists>f. kc_get d p = Some f \<and> entry_le e f)))"

interpretation history: effect_preorder "kv_keeps p" for p
proof unfold_locales
  show "kv_keeps p c c" for c
    by (simp add: kv_keeps_def)
  show "kv_keeps p c d \<Longrightarrow> kv_keeps p d f \<Longrightarrow> kv_keeps p c f" for c d f
    unfolding kv_keeps_def by (blast intro: entry_le_trans)
qed

lemma kv_keeps_same:
  "kc_entries d = kc_entries c \<Longrightarrow> kc_mount_max_versions d = kc_mount_max_versions c \<Longrightarrow> kv_keeps p c d"
  by (simp add: kv_keeps_def kv_ok_def kc_get_def)

lemma kv_keeps_push [simp]: "kv_keeps p c (kc_push ev c)"
  by (rule kv_keeps_same) (simp_all add: kc_push_def)

lemma kc_get_put: "btree (kc_entries c) \<Longrightarrow> kc_get (kc_put q e c) p = (if p = q then Some e else kc_get c p)"
  by (simp add: kc_get_def kc_put_def bt_get_insert)

lemma kc_put_frame [simp]:
  "kc_mount_max_versions (kc_put q e c) = kc_mount_max_versions c"
  "btree (kc_entries c) \<Longrightarrow> btree (kc_entries (kc_put q e c))"
  by (simp_all add: kc_put_def)

lemma kv_keeps_put:
  assumes "entry_step (kc_entry_or c q cas) f"
  shows "kv_keeps p c (kc_put q f c)"
  unfolding kv_keeps_def
proof (intro impI)
  assume ok: "kv_ok c"
  then have bt: "btree (kc_entries c)" by (simp add: kv_ok_def)
  have "entry_ok (kc_entry_or c q cas)"
    using ok entry_new_ok by (auto simp: kc_entry_or_def kv_ok_def split: option.split)
  with assms have f: "entry_ok f" "entry_le (kc_entry_or c q cas) f"
    by (simp_all add: entry_step_def)
  then have "kv_ok (kc_put q f c)"
    using ok by (auto simp: kv_ok_def kc_get_put [OF bt] split: if_splits)
  moreover have "\<forall>e. kc_get c p = Some e \<longrightarrow> (\<exists>f'. kc_get (kc_put q f c) p = Some f' \<and> entry_le e f')"
    using f(2) by (auto simp: kc_get_put [OF bt] kc_entry_or_def)
  ultimately show "kv_ok (kc_put q f c) \<and>
      (\<forall>e. kc_get c p = Some e \<longrightarrow> (\<exists>f'. kc_get (kc_put q f c) p = Some f' \<and> entry_le e f'))"
    by blast
qed

lemma kv_keeps_put_get: "kc_get c q = Some e \<Longrightarrow> entry_step e f \<Longrightarrow> kv_keeps p c (kc_put q f c)"
  using kv_keeps_put [of c q None f p] by (simp add: kc_entry_or_def)

text \<open>The rules that take an operation apart along its calls.\<close>

lemmas keeps_rules = history.keeps_bind history.keeps_slift history.keeps_srequire

lemma keeps_authorize: "keeps (kv_keeps p) (authorize_operation i ep a)"
  by (rule history.keepsI)
    (simp add: authorize_operation_def Let_def history.R_refl split: result.split)

lemma keeps_authorize_all: "keeps (kv_keeps p) (authorize_destroy_all i r)"
  by (rule history.keepsI)
    (simp add: authorize_destroy_all_def Let_def history.R_refl split: result.split)

lemma keeps_prune: "keeps (kv_keeps p) (prune q)"
  by (rule history.keepsI)
    (auto simp: prune_def Let_def history.R_refl split: option.split
      intro!: kv_keeps_put_get entry_step_prune)

lemma checked_add_1_None: "checked_add (a :: 'a::len word) 1 = None \<Longrightarrow> a = - 1"
  by (metis checked_add_1_defined option.distinct(1))

lemma keeps_add_version:
  "kv_keeps p c (snd (add_version q (kc_entry_or c q cas) b t c))"
  by (auto simp: add_version_def Let_def split: option.split
      intro!: kv_keeps_put [where cas = cas] entry_step_add entry_step_advance
      dest: checked_add_1_None)

lemma sbind_keeps:
  assumes "kv_keeps p c (snd (m c))" and "\<And>a. keeps (kv_keeps p) (f a)"
  shows "kv_keeps p c (snd (sbind m f c))"
proof -
  obtain r d where r: "m c = (r, d)" by (cases "m c")
  with assms(1) have d: "kv_keeps p c d" by simp
  show ?thesis
  proof (cases r)
    case (Ok a)
    with r d assms(2) [of a] show ?thesis
      by (auto simp: sbind_def keeps_def intro: history.R_trans)
  qed (use r d in \<open>simp add: sbind_def\<close>)
qed

lemma keeps_write: "keeps (kv_keeps p) (kv_write to_vec i ep data cas)"
  unfolding kv_write_def
  by (intro keeps_rules keeps_authorize history.keepsI)
    (simp add: Let_def sbind_keeps [OF keeps_add_version history.keeps_bind [OF keeps_prune]] history.keepsI)

lemma keeps_read: "keeps (kv_keeps p) (kv_read from_slice i ep)"
  unfolding kv_read_def
  by (intro keeps_rules keeps_authorize history.keepsI)
    (auto simp: Let_def kv_keeps_same history.R_refl split: option.split)

lemma keeps_list: "keeps (kv_keeps p) (kv_list i ep)"
  unfolding kv_list_def
  by (intro keeps_rules keeps_authorize history.keepsI) (auto simp: Let_def split: option.split)

lemma keeps_push_versions: "kv_keeps p c (push_versions i q a vs c)"
  unfolding push_versions_def
  by (induction vs arbitrary: c) (auto simp: history.R_refl intro: history.R_trans [OF kv_keeps_push])

lemma keeps_mutate_locked: "keeps (kv_keeps p) (mutate_versions_locked i q vs a)"
proof (rule history.keepsI)
  fix c
  show "kv_keeps p c (snd (mutate_versions_locked i q vs a c))"
  proof (cases "kc_get c q")
    case None
    then show ?thesis by (simp add: mutate_versions_locked_def history.R_refl)
  next
    case (Some e)
    let ?now = "kc_effective_unix_milliseconds c"
    let ?destroyed = "a = ActSoftDelete
      \<and> list_ex (\<lambda>k. map_option vv_state (bt_get (en_versions e) k) = Some Destroyed) vs"
    obtain r m where m: "mutate_loop ?now a vs (en_versions e) = (r, m)"
      by (cases "mutate_loop ?now a vs (en_versions e)")
    have step: "entry_step e (e\<lparr>en_versions := m, en_metadata_generation := g\<rparr>)"
      if "\<not> ?destroyed" and "en_metadata_generation e \<le> g" for g
    proof (cases "entry_ok e")
      case True
      then have "values_le (en_versions e) (snd (mutate_loop ?now a vs (en_versions e)))"
        using that by (intro mutate_loop_values)
          (auto simp: entry_ok_def destroyed_erased_def list_ex_iff)
      then show ?thesis using that(2) m by (intro entry_step_values) simp_all
    qed (simp add: entry_step_def)
    consider (guard) "list_ex (\<lambda>k. \<not> bt_contains (en_versions e) k) vs \<or> ?destroyed"
      | (go) "\<not> list_ex (\<lambda>k. \<not> bt_contains (en_versions e) k) vs" "\<not> ?destroyed"
      by blast
    then show ?thesis
    proof cases
      case guard
      then show ?thesis using Some by (auto simp: mutate_versions_locked_def Let_def history.R_refl)
    next
      case go
      have put: "kv_keeps p c (kc_put q (e\<lparr>en_versions := m, en_metadata_generation := g\<rparr>) c)"
        if "en_metadata_generation e \<le> g" for g
        using kv_keeps_put_get [OF Some step [OF go(2) that]] .
      have put_same: "kv_keeps p c (kc_put q (e\<lparr>en_versions := m\<rparr>) c)"
        using put [of "en_metadata_generation e"] by simp
      note run = mutate_versions_locked_def Let_def Some go m history.R_refl
      show ?thesis
      proof (cases r)
        case (Err x)
        then show ?thesis using put_same go by (simp add: run)
      next
        case (Ok u)
        show ?thesis
        proof (cases "checked_add (en_metadata_generation e) 1")
          case None
          with Ok show ?thesis using put_same go by (simp add: run)
        next
          case g: (Some g)
          note pg = put [OF generation_step [OF g]]
          from Ok g show ?thesis
            using pg go history.R_trans [OF pg keeps_push_versions]
            by (auto simp: run split: secret_action.split)
        qed
      qed
    qed
  qed
qed

lemma keeps_mutate: "keeps (kv_keeps p) (mutate_versions i ep vs a)"
  unfolding mutate_versions_def by (intro keeps_rules keeps_authorize keeps_mutate_locked)

lemma keeps_soft_delete_latest: "keeps (kv_keeps p) (soft_delete_latest i ep)"
  unfolding soft_delete_latest_def
  using keeps_mutate_locked [unfolded keeps_def]
  by (intro keeps_rules keeps_authorize history.keepsI)
    (auto simp: Let_def history.R_refl split: option.split)

lemma keeps_metadata: "keeps (kv_keeps p) (kv_metadata i ep)"
  unfolding kv_metadata_def
  by (intro keeps_rules keeps_authorize history.keepsI)
    (auto simp: Let_def history.R_refl split: option.split)

lemma word_ge_1: "(n :: 'a::len word) \<noteq> 0 \<Longrightarrow> 1 \<le> n"
  by (simp add: word_le_nat_alt Suc_le_eq unat_gt_0)

lemma apply_update_frame [simp]:
  "en_versions (apply_update u e) = en_versions e"
  "en_current_version (apply_update u e) = en_current_version e"
  "en_metadata_generation (apply_update u e) = en_metadata_generation e"
  "en_protected_version (apply_update u e) = en_protected_version e"
  by (auto simp: apply_update_def Let_def split: option.split)

lemma apply_update_max:
  "(case mu_max_versions u of None \<Rightarrow> True | Some v \<Rightarrow> v \<le> MAX_VERSIONS) \<Longrightarrow> entry_ok e \<Longrightarrow>
     en_max_versions (apply_update u e) = Some n \<Longrightarrow> 1 \<le> n \<and> n \<le> MAX_VERSIONS"
  by (auto simp: apply_update_def Let_def word_ge_1 entry_ok_max split: option.splits if_splits)

lemma keeps_update_metadata: "keeps (kv_keeps p) (update_metadata i ep u)"
  unfolding update_metadata_def Let_def
  by (intro history.keeps_require_bind keeps_rules keeps_authorize history.keepsI)
    (auto split: option.split intro!: history.R_trans [OF _ kv_keeps_push] kv_keeps_put [where cas = None]
      entry_step_frame intro: generation_step entry_ok_protected dest: apply_update_max)

lemma keeps_preflight: "keeps (kv_keeps p) (kv_purge_preflight i r)"
  unfolding kv_purge_preflight_def
  by (intro keeps_rules keeps_authorize_all history.keepsI) (auto simp: history.R_refl split: option.split)

lemma kv_keeps_remove:
  assumes "p \<noteq> q"
  shows "kv_keeps p c (c\<lparr>kc_entries := bt_remove q (kc_entries c)\<rparr>)"
  using assms by (auto simp: kv_keeps_def kv_ok_def kc_get_def bt_get_remove split: if_splits)

lemma keeps_purge:
  assumes "p \<noteq> join CHR ''/'' (r_canonical_segments r)"
  shows "keeps (kv_keeps p) (kv_purge hash i r rq)"
proof (rule history.keepsI)
  fix c
  have all: "kv_keeps p d (snd (authorize_destroy_all i r' d))" for d r'
    using keeps_authorize_all by (simp add: keeps_def)
  show "kv_keeps p c (snd (kv_purge hash i r rq c))"
    unfolding kv_purge_def Let_def
    using assms
    by (auto intro!: sbind_keeps all history.keepsI history.R_trans [OF kv_keeps_push kv_keeps_remove]
        simp: history.R_refl kv_keeps_same split: option.split)
qed

lemma keeps_snapshot: "keeps (kv_keeps p) (kv_rotation_snapshot ep)"
  unfolding kv_rotation_snapshot_def
  by (intro keeps_rules history.keepsI) (auto simp: history.R_refl split: option.split)

lemma keeps_rollback_source: "keeps (kv_keeps p) (rollback_source ep cur v)"
  by (rule history.keepsI) (auto simp: rollback_source_def history.R_refl split: option.split)

lemma entry_step_protect:
  assumes "\<And>k. v = Some k \<Longrightarrow> k \<in> fst ` set (en_versions e)" and "en_metadata_generation e \<le> g"
  shows "entry_step e (e\<lparr>en_protected_version := v, en_protection_known := b, en_metadata_generation := g\<rparr>)"
  using assms by (intro entry_step_frame) (auto dest: entry_ok_max)

lemma kv_keeps_protect:
  assumes "kc_get c q = Some e" and "\<And>k. v = Some k \<Longrightarrow> k \<in> fst ` set (en_versions e)"
  shows "kv_keeps p c (kc_put q (e\<lparr>en_protected_version := v, en_protection_known := b\<rparr>) c)"
    and "checked_add (en_metadata_generation e) 1 = Some g \<Longrightarrow>
      kv_keeps p c (kc_put q (e\<lparr>en_protected_version := v, en_protection_known := b, en_metadata_generation := g\<rparr>) c)"
    and "checked_add (en_metadata_generation e) 1 = Some g \<Longrightarrow>
      kv_keeps p c (snd (prune q (kc_put q
        (e\<lparr>en_protected_version := v, en_protection_known := b, en_metadata_generation := g\<rparr>) c)))"
proof -
  show "kv_keeps p c (kc_put q (e\<lparr>en_protected_version := v, en_protection_known := b\<rparr>) c)"
    using kv_keeps_put_get [OF assms(1) entry_step_protect [OF assms(2) order_refl, where b = b], where p = p] by simp
  assume "checked_add (en_metadata_generation e) 1 = Some g"
  note put = kv_keeps_put_get [OF assms(1) entry_step_protect [OF assms(2) generation_step [OF this], where b = b], where p = p]
  show "kv_keeps p c (kc_put q
      (e\<lparr>en_protected_version := v, en_protection_known := b, en_metadata_generation := g\<rparr>) c)"
    by (rule put)
  show "kv_keeps p c (snd (prune q (kc_put q
      (e\<lparr>en_protected_version := v, en_protection_known := b, en_metadata_generation := g\<rparr>) c)))"
    using history.R_trans [OF put] keeps_prune by (simp add: keeps_def)
qed

lemma keeps_set_protection: "keeps (kv_keeps p) (set_rotation_protection q v)"
proof (rule history.keepsI)
  fix c
  show "kv_keeps p c (snd (set_rotation_protection q v c))"
  proof (cases "kc_get c q")
    case None
    then show ?thesis by (simp add: set_rotation_protection_def history.R_refl)
  next
    case (Some e)
    show ?thesis
    proof (cases "case v of None \<Rightarrow> False | Some v \<Rightarrow> \<not> bt_contains (en_versions e) v")
      case True
      with Some show ?thesis by (simp add: set_rotation_protection_def history.R_refl)
    next
      case False
      then have v: "\<And>k. v = Some k \<Longrightarrow> k \<in> fst ` set (en_versions e)"
        by (simp add: bt_contains_iff)
      note put = kv_keeps_protect [OF Some v, where p = p and b = True]
      show ?thesis
        using put False Some
        by (cases "checked_add (en_metadata_generation e) 1")
          (simp_all add: set_rotation_protection_def)
    qed
  qed
qed

lemma keeps_snapshot_protection: "keeps (kv_keeps p) (set_rotation_snapshot_protection ep cur b)"
  unfolding set_rotation_snapshot_protection_def
  apply (intro keeps_rules history.keepsI)
  subgoal for _ c
  proof (cases "kc_get c (logical_path ep)")
    case (Some e)
    have mem: "\<And>k. Some cur = Some k \<Longrightarrow> k \<in> fst ` set (en_versions e)"
      if "bt_get (en_versions e) cur = Some v" for v
      using bt_get_in_set [OF that] by force
    note on = kv_keeps_protect [where v = "Some cur" and b = True, OF Some mem, where p = p]
    note off = kv_keeps_protect [OF Some, where v = None and p = p and b = "en_protection_known e", simplified]
    show ?thesis
      using Some on off by (auto simp: Let_def history.R_refl split: option.split)
  qed (simp add: history.R_refl)
  done

lemma keeps_rotation_write: "keeps (kv_keeps p) (rotation_write_encoded i ep b cur op)"
proof (rule history.keepsI)
  fix c
  show "kv_keeps p c (snd (rotation_write_encoded i ep b cur op c))"
  proof (cases "kc_get c (logical_path ep)")
    case None
    then show ?thesis by (simp add: rotation_write_encoded_def history.R_refl)
  next
    case (Some e)
    then have e: "kc_entry_or c (logical_path ep) None = e" by (simp add: kc_entry_or_def)
    show ?thesis
      using Some keeps_add_version [of p c "logical_path ep" None, unfolded e]
      by (auto simp: rotation_write_encoded_def Let_def history.R_refl intro!: sbind_keeps history.keepsI)
  qed
qed

lemma keeps_cutover: "keeps (kv_keeps p) (kv_rotation_cutover to_vec i ep data cur)"
  unfolding kv_rotation_cutover_def by (intro keeps_rules keeps_rotation_write)

lemma keeps_rollback: "keeps (kv_keeps p) (kv_rotation_rollback_copy_forward i ep cur v)"
  unfolding kv_rotation_rollback_copy_forward_def
  by (intro keeps_rules keeps_rollback_source keeps_rotation_write)

section \<open>Runs\<close>

text \<open>
  The calls a program can make on the store, with their arguments. \<open>set_version_state\<close> is left
  out: it is a hook that only the tests call, and it sets any state on any version.
\<close>

datatype kv_call =
    CallWrite id16 endpoint_request "(string \<times> json) list" "u64 option"
  | CallRead id16 endpoint_request
  | CallList id16 endpoint_request
  | CallMutate id16 endpoint_request "u64 list" secret_action
  | CallSoftDeleteLatest id16 endpoint_request
  | CallMetadata id16 endpoint_request
  | CallUpdateMetadata id16 endpoint_request metadata_update
  | CallPreflight id16 resource
  | CallPurge id16 resource purge_request
  | CallSnapshot endpoint_request
  | CallSnapshotProtection endpoint_request u64 bool
  | CallCutover id16 endpoint_request "(string \<times> json) list" u64
  | CallRollback id16 endpoint_request u64 u64
  | CallSetProtection string "u64 option"
  | CallSetUnknownProtection string
  | CallReplaceGrants "grant_record list"
  | CallMountCas bool
  | CallMountMax u16
  | CallSetTime u64
  | CallPathCas string "bool option"
  | CallPathMax string "u16 option"
  | CallFailNextRead
  | CallFailNextPurge

primrec kv_apply ::
  "(json \<Rightarrow> bytes option) \<Rightarrow> (bytes \<Rightarrow> json option) \<Rightarrow> (bytes \<Rightarrow> arr32) \<Rightarrow> kv_call \<Rightarrow> kv_catalog \<Rightarrow> kv_catalog" where
  "kv_apply tv fs h (CallWrite i ep data cas) c = snd (kv_write tv i ep data cas c)"
| "kv_apply tv fs h (CallRead i ep) c = snd (kv_read fs i ep c)"
| "kv_apply tv fs h (CallList i ep) c = snd (kv_list i ep c)"
| "kv_apply tv fs h (CallMutate i ep vs a) c = snd (mutate_versions i ep vs a c)"
| "kv_apply tv fs h (CallSoftDeleteLatest i ep) c = snd (soft_delete_latest i ep c)"
| "kv_apply tv fs h (CallMetadata i ep) c = snd (kv_metadata i ep c)"
| "kv_apply tv fs h (CallUpdateMetadata i ep u) c = snd (update_metadata i ep u c)"
| "kv_apply tv fs h (CallPreflight i r) c = snd (kv_purge_preflight i r c)"
| "kv_apply tv fs h (CallPurge i r rq) c = snd (kv_purge h i r rq c)"
| "kv_apply tv fs h (CallSnapshot ep) c = snd (kv_rotation_snapshot ep c)"
| "kv_apply tv fs h (CallSnapshotProtection ep cur b) c = snd (set_rotation_snapshot_protection ep cur b c)"
| "kv_apply tv fs h (CallCutover i ep data cur) c = snd (kv_rotation_cutover tv i ep data cur c)"
| "kv_apply tv fs h (CallRollback i ep cur v) c = snd (kv_rotation_rollback_copy_forward i ep cur v c)"
| "kv_apply tv fs h (CallSetProtection q v) c = snd (set_rotation_protection q v c)"
| "kv_apply tv fs h (CallSetUnknownProtection q) c = snd (set_unknown_rotation_protection q c)"
| "kv_apply tv fs h (CallReplaceGrants gs) c = replace_grants gs c"
| "kv_apply tv fs h (CallMountCas b) c = set_mount_cas_required b c"
| "kv_apply tv fs h (CallMountMax n) c = snd (set_mount_max_versions n c)"
| "kv_apply tv fs h (CallSetTime t) c = set_effective_unix_milliseconds t c"
| "kv_apply tv fs h (CallPathCas q b) c = set_path_cas_required q b c"
| "kv_apply tv fs h (CallPathMax q n) c = snd (set_path_max_versions q n c)"
| "kv_apply tv fs h CallFailNextRead c = fail_next_read_audit_commit c"
| "kv_apply tv fs h CallFailNextPurge c = fail_next_purge_audit_commit c"

definition kv_run ::
  "(json \<Rightarrow> bytes option) \<Rightarrow> (bytes \<Rightarrow> json option) \<Rightarrow> (bytes \<Rightarrow> arr32) \<Rightarrow> kv_call list \<Rightarrow> kv_catalog \<Rightarrow>
     kv_catalog" where
  "kv_run tv fs h calls c = foldl (\<lambda>c call. kv_apply tv fs h call c) c calls"

definition purges :: "string \<Rightarrow> kv_call \<Rightarrow> bool" where
  "purges p call =
     (case call of CallPurge i r rq \<Rightarrow> join CHR ''/'' (r_canonical_segments r) = p | _ \<Rightarrow> False)"

lemma kv_keeps_unknown: "kv_keeps p c (snd (set_unknown_rotation_protection q c))"
  by (auto simp: set_unknown_rotation_protection_def history.R_refl split: option.split
      intro!: kv_keeps_put_get entry_step_frame dest: entry_ok_protected entry_ok_max)

lemma kv_keeps_mount_max: "kv_keeps p c (snd (set_mount_max_versions n c))"
  by (auto simp: set_mount_max_versions_def kv_keeps_def kv_ok_def kc_get_def)

lemma kv_keeps_path_cas: "kv_keeps p c (set_path_cas_required q b c)"
  unfolding set_path_cas_required_def
  by (rule kv_keeps_put [where cas = b]) (auto intro!: entry_step_frame dest: entry_ok_protected entry_ok_max)

lemma kv_keeps_path_max: "kv_keeps p c (snd (set_path_max_versions q n c))"
  by (auto simp: set_path_max_versions_def history.R_refl split: option.splits
      intro!: kv_keeps_put [where cas = None] entry_step_frame dest: entry_ok_protected)

lemma kv_apply_keeps:
  assumes "\<not> purges p call"
  shows "kv_keeps p c (kv_apply tv fs h call c)"
  using assms keeps_write keeps_read keeps_list keeps_mutate keeps_soft_delete_latest keeps_metadata
    keeps_update_metadata keeps_preflight keeps_snapshot keeps_snapshot_protection keeps_cutover
    keeps_rollback keeps_set_protection keeps_purge
  unfolding keeps_def purges_def
  by (cases call)
    (auto simp: kv_keeps_unknown kv_keeps_mount_max kv_keeps_path_cas kv_keeps_path_max
      replace_grants_def set_mount_cas_required_def set_effective_unix_milliseconds_def
      fail_next_read_audit_commit_def fail_next_purge_audit_commit_def intro: kv_keeps_same)

lemma kv_run_keeps:
  "\<forall>call\<in>set calls. \<not> purges p call \<Longrightarrow> kv_keeps p c (kv_run tv fs h calls c)"
  unfolding kv_run_def
  by (induction calls arbitrary: c) (auto simp: history.R_refl intro: history.R_trans [OF kv_apply_keeps])

lemma kv_apply_ok: "kv_ok c \<Longrightarrow> kv_ok (kv_apply tv fs h call c)"
proof -
  assume ok: "kv_ok c"
  obtain p where "\<not> purges p call"
    by (cases call) (auto simp: purges_def intro: exI [where x = "CHR ''x'' # join CHR ''/'' _"])
  with kv_apply_keeps [OF this, of c tv fs h] ok show ?thesis by (simp add: kv_keeps_def)
qed

lemma kv_run_ok: "kv_ok c \<Longrightarrow> kv_ok (kv_run tv fs h calls c)"
  unfolding kv_run_def by (induction calls arbitrary: c) (auto intro: kv_apply_ok)

lemma catalog_new_ok: "kv_ok (catalog_new b t)"
  by (simp add: kv_ok_def catalog_new_def kc_get_def)

lemma length_filter_keys:
  assumes "btree m" and "distinct ks" and "set ks \<subseteq> fst ` set m"
  shows "length (filter (\<lambda>(k, _). k \<notin> set ks) m) = length m - length ks"
proof -
  have "length (filter (\<lambda>(k, _). k \<in> set ks) m) = length ks"
  proof -
    have "distinct (map fst (filter (\<lambda>(k, _). k \<in> set ks) m))"
      using btree_distinct [OF btree_filter [OF assms(1)]] .
    moreover have "set (map fst (filter (\<lambda>(k, _). k \<in> set ks) m)) = set ks"
      using assms(3) by force
    ultimately show ?thesis
      using assms(2) by (metis distinct_card length_map)
  qed
  moreover have "length (filter (\<lambda>(k, _). k \<in> set ks) m) + length (filter (\<lambda>(k, _). k \<notin> set ks) m) = length m"
    using sum_length_filter_compl [of "\<lambda>(k, _). k \<in> set ks" m] by (simp add: case_prod_unfold)
  ultimately show ?thesis by linarith
qed

lemma prune_reference_facts:
  assumes "btree (en_versions e)" and "\<not> en_retention_deferred e"
  shows "en_retention_deferred (prune_reference n e) \<longleftrightarrow> length (en_versions (prune_reference n e)) > n"
    and "k \<in> fst ` set (en_versions e) \<Longrightarrow> k \<notin> fst ` set (en_versions (prune_reference n e)) \<Longrightarrow>
      prunable e k \<and> (\<forall>k'\<in>fst ` set (en_versions (prune_reference n e)). prunable e k' \<longrightarrow> k < k')"
proof -
  let ?cs = "filter (prunable e) (map fst (en_versions e))"
  have cs: "bset ?cs"
    using assms(1) unfolding btree_iff_bset bset_def by (rule sorted_wrt_filter)
  have len: "length (en_versions (prune_reference n e)) = length (en_versions e) - length (pruned n e)"
  proof -
    have "distinct (pruned n e)" "set (pruned n e) \<subseteq> fst ` set (en_versions e)"
      using cs unfolding pruned_def by (auto simp: bset_iff dest!: in_set_takeD)
    from length_filter_keys [OF assms(1) this] show ?thesis
      by (simp add: prune_reference_def)
  qed
  show "en_retention_deferred (prune_reference n e) \<longleftrightarrow> length (en_versions (prune_reference n e)) > n"
    unfolding len using assms(2) length_filter_le [of "prunable e" "map fst (en_versions e)"]
    by (auto simp: prune_reference_def pruned_def)
  assume k: "k \<in> fst ` set (en_versions e)" "k \<notin> fst ` set (en_versions (prune_reference n e))"
  then have pruned: "k \<in> set (pruned n e)"
    by (force simp: prune_reference_def)
  have "k < k'" if "k' \<in> fst ` set (en_versions (prune_reference n e))" "prunable e k'" for k'
  proof -
    have "k' \<in> set ?cs" "k' \<notin> set (pruned n e)"
      using that by (auto simp: prune_reference_def)
    then have "k' \<in> set (drop (length (en_versions e) - n) ?cs)"
      unfolding pruned_def by (metis append_take_drop_id Un_iff set_append)
    moreover have "sorted_wrt (<) (take (length (en_versions e) - n) ?cs @ drop (length (en_versions e) - n) ?cs)"
      using cs by (simp add: bset_def)
    ultimately show ?thesis
      using pruned unfolding sorted_wrt_append pruned_def by blast
  qed
  moreover have "prunable e k"
    using pruned unfolding pruned_def by (auto dest: in_set_takeD)
  ultimately show "prunable e k \<and> (\<forall>k'\<in>fst ` set (en_versions (prune_reference n e)). prunable e k' \<longrightarrow> k < k')"
    by blast
qed

section \<open>Properties\<close>


definition sample_endpoint :: "endpoint_kind \<Rightarrow> endpoint_request" where
  "sample_endpoint kind =
     \<lparr>e_kind = kind, e_resource = \<lparr>r_mount = ''secret'', r_canonical_segments = [''app'', ''db'']\<rparr>,
      e_version = None\<rparr>"

definition sample_kv_grant :: grant_record where
  "sample_kv_grant = \<lparr>gr_id = 7, gr_owner_identity_id = 2, gr_generation = 1, gr_status = GrantActive,
     gr_mount = ''secret'', gr_scope = Subtree, gr_prefix_segments = [''app''],
     gr_capabilities = [SecretReadCurrent, SecretWrite, SecretDestroy]\<rparr>"

definition sample_calls :: "kv_call list" where
  "sample_calls = [CallReplaceGrants [sample_kv_grant],
     CallWrite 2 (sample_endpoint EpData) [(''k'', JString ''v'')] None]"

definition sample_to_vec :: "json \<Rightarrow> bytes option" where
  "sample_to_vec v = (if v = JObject [] then Some [1] else Some [2])"

definition sample_catalog :: kv_catalog where
  "sample_catalog = kv_run sample_to_vec (\<lambda>_. None) (\<lambda>_. 0) sample_calls (catalog_new False 5)"

lemmas kv_eval = kv_run_def kv_write_def sbind_def slift_def srequire_def kc_get_def kc_put_def
  kc_push_def kc_entry_or_def entry_new_def bt_get_def Let_def validate_endpoint_def encode_secret_def
  validate_secret_value_def str_chars_def str_bytes_def byte_of_char_def authorize_operation_def
  request_secret_def authorize_allow_iff permits_def shape_matches_def resource_of_def logical_path_def
  cas_conflict_def effective_cas_required_def add_version_def prune_def prune_loop.simps
  checked_add_def catalog_new_def replace_grants_def new_version_def audit_event_def

lemmas kv_samples = sample_endpoint_def sample_kv_grant_def sample_calls_def sample_to_vec_def

lemma sample_entry:
  "kc_get sample_catalog ''app/db'' = Some \<lparr>en_metadata_generation = 2, en_current_version = 1,
     en_versions = [(1, new_version [2] 5)], en_cas_required = None, en_max_versions = None,
     en_protected_version = None, en_protection_known = True, en_retention_deferred = False,
     en_custom_metadata = []\<rparr>"
  "kc_mount_max_versions sample_catalog = 10"
  by (simp_all add: sample_catalog_def kv_eval kv_samples)


text \<open>
  C26: Pruning is the retention rule. On a well-formed catalog it always succeeds and replaces the
  entry by the reference: as many versions are dropped as there are above the limit, oldest first,
  never the current or the rotation-protected one. Retention is reported as deferred exactly when
  more versions than the limit are left, and every dropped version is older than every version
  that was kept and could have been dropped.
\<close>

theorem prune_retention:
  assumes "kv_ok c" and "kc_get c p = Some e"
    and "n = unat (em_effective (effective_max_versions c p))"
  shows "\<exists>f. prune p c = (Ok (), kc_put p f c) \<and> f = prune_reference n (e\<lparr>en_retention_deferred := False\<rparr>)
    \<and> (en_retention_deferred f \<longleftrightarrow> n < length (en_versions f))
    \<and> (\<forall>k\<in>fst ` set (en_versions e) - fst ` set (en_versions f).
        prunable e k \<and> (\<forall>k'\<in>fst ` set (en_versions f). prunable e k' \<longrightarrow> k < k'))"
proof -
  let ?e = "e\<lparr>en_retention_deferred := False\<rparr>"
  have bt: "btree (en_versions ?e)"
    using assms(1,2) by (auto simp: kv_ok_def dest: entry_ok_btree)
  have same: "prunable ?e = prunable e"
    by (simp add: prunable_def fun_eq_iff)
  have n: "n = unat (case en_max_versions e of None \<Rightarrow> kc_mount_max_versions c | Some v \<Rightarrow> v)"
    using assms(2,3) by (simp add: effective_max_versions_def split: option.split)
  have "prune p c = (Ok (), kc_put p (prune_reference n ?e) c)"
    using assms(2) prune_loop_reference [OF bt] by (simp add: prune_def n)
  moreover have "en_retention_deferred (prune_reference n ?e) \<longleftrightarrow> n < length (en_versions (prune_reference n ?e))"
    by (rule prune_reference_facts(1) [OF bt]) simp
  moreover have "\<forall>k\<in>fst ` set (en_versions e) - fst ` set (en_versions (prune_reference n ?e)).
      prunable e k \<and> (\<forall>k'\<in>fst ` set (en_versions (prune_reference n ?e)). prunable e k' \<longrightarrow> k < k')"
    using prune_reference_facts(2) [OF bt, of _ n, unfolded same] by simp
  ultimately show ?thesis by blast
qed

theorem prune_retention_witness:
  "\<exists>f. prune ''app/db'' sample_catalog = (Ok (), kc_put ''app/db'' f sample_catalog)
     \<and> (en_retention_deferred f \<longleftrightarrow> 10 < length (en_versions f))"
proof -
  have ok: "kv_ok sample_catalog"
    unfolding sample_catalog_def by (rule kv_run_ok [OF catalog_new_ok])
  have "10 = unat (em_effective (effective_max_versions sample_catalog ''app/db''))"
    by (simp add: effective_max_versions_def sample_entry)
  from prune_retention [OF ok sample_entry(1) this] show ?thesis by blast
qed

end
