(* ===== verification/Kv_Behaviour.thy ===== *)
theory Kv_Behaviour
  imports Kv_Invariant
begin

text \<open>
  Authorization and auditing of the key-value service: what each operation shows when it succeeds
  and when it is denied, and, at the HTTP handler \<open>dispatch\<close>, that nothing is disclosed or changed
  without a grant and an audit event.
\<close>

section \<open>Authorization and the audit log\<close>

definition permitted :: "kv_catalog \<Rightarrow> id16 \<Rightarrow> authorization_request \<Rightarrow> bool" where
  "permitted c i rq \<longleftrightarrow> (\<exists>g\<in>set (kc_grants c). gr_owner_identity_id g = i \<and> permits rq g)"

lemma authorize_filter_permitted:
  "ad_allow (authorize rq (filter (\<lambda>g. gr_owner_identity_id g = i) (kc_grants c))) \<longleftrightarrow> permitted c i rq"
  by (auto simp: authorize_allow_iff permitted_def)

lemma authorize_operation_Ok [simp]:
  "authorize_operation i ep a c = (Ok u, d) \<longleftrightarrow>
     d = c \<and> (\<exists>rq. request_secret ep a = Ok rq \<and> permitted c i rq)"
  by (auto simp: authorize_operation_def authorize_filter_permitted Let_def split: result.splits)

lemma authorize_operation_Err [simp]:
  "authorize_operation i ep a c = (Err e, d) \<longleftrightarrow>
     (e = KvInvalid \<and> d = c \<and> \<not> is_ok (request_secret ep a))
     \<or> (e = KvPermissionDenied \<and> (\<exists>rq. request_secret ep a = Ok rq \<and> \<not> permitted c i rq)
        \<and> d = kc_push (audit_event i (logical_path ep) (audit_operation_of a) Denied None
               (Some ''permission-denied'')) c)"
  by (auto simp: authorize_operation_def authorize_filter_permitted Let_def is_ok_iff split: result.splits)

lemma authorize_all_Ok [simp]:
  "authorize_destroy_all i r c = (Ok u, d) \<longleftrightarrow>
     d = c \<and> (\<exists>rq. request_local_destroy_all r = Ok rq \<and> permitted c i rq)"
  by (auto simp: authorize_destroy_all_def authorize_filter_permitted Let_def split: result.splits)

lemma authorize_all_Err [simp]:
  "authorize_destroy_all i r c = (Err e, d) \<longleftrightarrow>
     (e = KvInvalid \<and> d = c \<and> \<not> is_ok (request_local_destroy_all r))
     \<or> (e = KvPermissionDenied \<and> (\<exists>rq. request_local_destroy_all r = Ok rq \<and> \<not> permitted c i rq)
        \<and> d = kc_push (audit_event i (join CHR ''/'' (r_canonical_segments r)) AuPurge Denied None
               (Some ''permission-denied'')) c)"
  by (auto simp: authorize_destroy_all_def authorize_filter_permitted Let_def is_ok_iff split: result.splits)

lemma kc_frame [simp]:
  "kc_audit (kc_put p e c) = kc_audit c" "kc_grants (kc_put p e c) = kc_grants c"
  "kc_effective_unix_milliseconds (kc_put p e c) = kc_effective_unix_milliseconds c"
  "kc_fail_next_read_audit_commit (kc_put p e c) = kc_fail_next_read_audit_commit c"
  "kc_audit (kc_push ev c) = kc_audit c @ [ev]" "kc_grants (kc_push ev c) = kc_grants c"
  "kc_entries (kc_push ev c) = kc_entries c" "kc_get (kc_push ev c) p = kc_get c p"
  "kc_fail_next_read_audit_commit (kc_push ev c) = kc_fail_next_read_audit_commit c"
  by (simp_all add: kc_put_def kc_push_def kc_get_def)

text \<open>The events a call appended are all successes of the caller on this resource.\<close>

definition logged :: "kv_catalog \<Rightarrow> kv_catalog \<Rightarrow> id16 \<Rightarrow> string \<Rightarrow> bool" where
  "logged c d i p \<longleftrightarrow> (\<exists>es. kc_audit d = kc_audit c @ es \<and> es \<noteq> [] \<and> (\<forall>ev\<in>set es.
     au_identity_id ev = i \<and> au_resource ev = ''secret/'' @ p \<and> au_outcome ev = Succeeded))"

lemma logged_push:
  "kc_audit d = kc_audit c \<Longrightarrow> logged c (kc_push (audit_event i p op Succeeded v r) d) i p"
  by (simp add: logged_def audit_event_def)

lemma push_versions_audit:
  "kc_audit (push_versions i p op vs c) =
     kc_audit c @ map (\<lambda>v. audit_event i p op Succeeded (Some v) None) vs"
  unfolding push_versions_def by (induction vs arbitrary: c) auto

lemma add_version_frame:
  "kc_audit (snd (add_version p e b t c)) = kc_audit c"
  "kc_grants (snd (add_version p e b t c)) = kc_grants c"
  by (auto simp: add_version_def Let_def split: option.split)

lemma prune_frame: "kc_audit (snd (prune p c)) = kc_audit c" "kc_grants (snd (prune p c)) = kc_grants c"
  by (auto simp: prune_def Let_def split: option.split)

lemma add_version_errors: "add_version p e b t c \<noteq> (Err KvPermissionDenied, d)"
  by (auto simp: add_version_def Let_def split: option.split)

lemma prune_errors: "prune p c \<noteq> (Err KvPermissionDenied, d)"
  by (auto simp: prune_def Let_def split: option.split)

text \<open>What each call of the handler shows when it succeeds and when it is denied.\<close>

definition call_ok :: "kv_catalog \<Rightarrow> id16 \<Rightarrow> endpoint_request \<Rightarrow> capability \<Rightarrow> kv_catalog \<Rightarrow> bool" where
  "call_ok c i ep cap d \<longleftrightarrow> logged c d i (logical_path ep) \<and>
     (\<exists>op. permitted c i \<lparr>rq_resource = resource_of (e_resource ep), rq_operation = op, rq_capability = cap\<rparr>)"

definition call_denied :: "kv_catalog \<Rightarrow> id16 \<Rightarrow> endpoint_request \<Rightarrow> kv_catalog \<Rightarrow> bool" where
  "call_denied c i ep d \<longleftrightarrow> (\<exists>op. d = kc_push (audit_event i (logical_path ep) op Denied None
     (Some ''permission-denied'')) c)"

primrec action_capability :: "secret_action \<Rightarrow> u64 option \<Rightarrow> capability" where
  "action_capability ActRead version = (if version = None then SecretReadCurrent else SecretReadHistory)"
| "action_capability ActMetadata version = SecretList"
| "action_capability ActList version = SecretList"
| "action_capability ActWrite version = SecretWrite"
| "action_capability ActSoftDelete version = SecretSoftDelete"
| "action_capability ActUndelete version = SecretUndelete"
| "action_capability ActDestroy version = SecretDestroy"

lemma request_secret_Ok:
  "request_secret ep a = Ok rq \<Longrightarrow> rq_resource rq = resource_of (e_resource ep)
     \<and> rq_capability rq = action_capability a (e_version ep)"
  by (cases a) (auto simp: request_secret_def split: if_splits)

lemma permitted_request:
  assumes "request_secret ep a = Ok rq" and "permitted c i rq"
  shows "\<exists>op. permitted c i \<lparr>rq_resource = resource_of (e_resource ep), rq_operation = op,
     rq_capability = action_capability a (e_version ep)\<rparr>"
  using assms request_secret_Ok [OF assms(1)] by (cases rq) auto

lemma kv_write_Ok:
  assumes "kv_write tv i ep data cas c = (Ok w, d)"
  shows "call_ok c i ep SecretWrite d"
proof -
  from assms obtain rq b s s2 u where rq: "request_secret ep ActWrite = Ok rq" "permitted c i rq"
    and add: "add_version (logical_path ep) (kc_entry_or c (logical_path ep) None) b
        (kc_effective_unix_milliseconds c) c = (Ok (wr_version w), s)"
    and prune: "prune (logical_path ep) s = (Ok u, s2)"
    and d: "d = kc_push (audit_event i (logical_path ep) AuWrite Succeeded (Some (wr_version w)) None) s2"
    by (auto simp: kv_write_def Let_def split: if_splits)
  have "kc_audit s2 = kc_audit c"
    using add_version_frame(1) [of "logical_path ep" "kc_entry_or c (logical_path ep) None" b
        "kc_effective_unix_milliseconds c" c] prune_frame(1) [of "logical_path ep" s] add prune by simp
  with d have "logged c d i (logical_path ep)" by (simp add: logged_push)
  with permitted_request [OF rq] show ?thesis by (simp add: call_ok_def)
qed

lemma kv_read_Ok:
  assumes "kv_read fs i ep c = (Ok r, d)"
  shows "call_ok c i ep (if e_version ep = None then SecretReadCurrent else SecretReadHistory) d"
  using assms
  by (auto simp: kv_read_def Let_def call_ok_def logged_push
      split: option.splits if_splits dest!: permitted_request)

lemma kv_list_Ok:
  assumes "kv_list i ep c = (Ok r, d)"
  shows "call_ok c i ep SecretList d"
  using assms
  by (auto simp: kv_list_def Let_def call_ok_def logged_push
      split: option.splits if_splits dest!: permitted_request)

lemma kv_metadata_Ok:
  assumes "kv_metadata i ep c = (Ok r, d)"
  shows "call_ok c i ep SecretList d"
  using assms
  by (auto simp: kv_metadata_def Let_def call_ok_def logged_push
      split: option.splits if_splits dest!: permitted_request)

lemma update_metadata_Ok:
  assumes "update_metadata i ep u c = (Ok r, d)"
  shows "call_ok c i ep SecretWrite d"
  using assms
  by (auto simp: update_metadata_def Let_def call_ok_def logged_push
      split: option.splits if_splits dest!: permitted_request)

lemma mutate_locked_logged:
  assumes "mutate_versions_locked i p vs a c = (Ok u, d)" and "vs \<noteq> []"
  shows "logged c d i p"
  using assms
  by (auto simp: mutate_versions_locked_def Let_def logged_def push_versions_audit audit_event_def
      split: option.splits if_splits prod.splits result.splits secret_action.splits)

lemma mutate_versions_Ok:
  assumes "mutate_versions i ep vs a c = (Ok u, d)"
  shows "call_ok c i ep (action_capability a (e_version ep)) d"
proof -
  from assms obtain rq where rq: "request_secret ep a = Ok rq" "permitted c i rq"
    and vs: "validate_versions vs = Ok ()"
    and run: "mutate_versions_locked i (logical_path ep) vs a c = (Ok u, d)"
    by (auto simp: mutate_versions_def)
  have "vs \<noteq> []" using vs by (auto simp: validate_versions_def)
  with permitted_request [OF rq] mutate_locked_logged [OF run] show ?thesis
    by (simp add: call_ok_def)
qed

lemma soft_delete_latest_Ok:
  assumes "soft_delete_latest i ep c = (Ok u, d)"
  shows "call_ok c i ep SecretSoftDelete d"
  using assms
  by (auto simp: soft_delete_latest_def Let_def call_ok_def split: option.splits
      dest!: permitted_request mutate_locked_logged)

lemmas call_oks = kv_write_Ok kv_read_Ok kv_list_Ok kv_metadata_Ok update_metadata_Ok
  mutate_versions_Ok soft_delete_latest_Ok

lemma validation_errors [simp]:
  "validate_endpoint ep k \<noteq> Err KvPermissionDenied"
  "validate_versions vs \<noteq> Err KvPermissionDenied"
  by (auto simp: validate_endpoint_def validate_versions_def Let_def)

lemma walk_errors [simp]:
  "walk v d n \<noteq> Err KvPermissionDenied"
  "walk_fields ps d n \<noteq> Err KvPermissionDenied"
  "walk_items vs d n \<noteq> Err KvPermissionDenied"
  by (induction v d n and ps d n and vs d n rule: walk_walk_fields_walk_items.induct)
    (auto split: json.splits)

lemma encode_secret_errors [simp]: "encode_secret tv data \<noteq> Err KvPermissionDenied"
  by (auto simp: encode_secret_def validate_secret_value_def Let_def)

lemma custom_metadata_errors [simp]: "validate_custom_metadata m \<noteq> Err KvPermissionDenied"
proof -
  have "validate_custom_loop m \<noteq> Err KvPermissionDenied"
    by (induction m) auto
  then show ?thesis by (simp add: validate_custom_metadata_def)
qed

lemma mutate_loop_errors: "fst (mutate_loop now a vs m) \<noteq> Err KvPermissionDenied"
  by (induction vs arbitrary: m) (auto split: option.split)

lemma mutate_locked_errors: "mutate_versions_locked i p vs a c \<noteq> (Err KvPermissionDenied, d)"
proof
  assume denied: "mutate_versions_locked i p vs a c = (Err KvPermissionDenied, d)"
  show False
  proof (cases "kc_get c p")
    case None
    with denied show False by (simp add: mutate_versions_locked_def Let_def)
  next
    case (Some e)
    obtain r m where "mutate_loop (kc_effective_unix_milliseconds c) a vs (en_versions e) = (r, m)"
      by (cases "mutate_loop (kc_effective_unix_milliseconds c) a vs (en_versions e)")
    with Some denied mutate_loop_errors [of "kc_effective_unix_milliseconds c" a vs "en_versions e"]
    show False
      by (cases r) (auto simp: mutate_versions_locked_def Let_def
          split: if_splits option.splits secret_action.splits)
  qed
qed

lemma kv_write_denied:
  "kv_write tv i ep data cas c = (Err KvPermissionDenied, d) \<Longrightarrow> call_denied c i ep d"
  by (auto simp: call_denied_def Let_def kv_write_def add_version_errors prune_errors split: if_splits option.splits)

lemma kv_read_denied:
  "kv_read fs i ep c = (Err KvPermissionDenied, d) \<Longrightarrow> call_denied c i ep d"
  by (auto simp: call_denied_def Let_def kv_read_def unavailable_def split: if_splits option.splits)

lemma kv_list_denied:
  "kv_list i ep c = (Err KvPermissionDenied, d) \<Longrightarrow> call_denied c i ep d"
  by (auto simp: call_denied_def Let_def kv_list_def split: if_splits option.splits)

lemma kv_metadata_denied:
  "kv_metadata i ep c = (Err KvPermissionDenied, d) \<Longrightarrow> call_denied c i ep d"
  by (auto simp: call_denied_def Let_def kv_metadata_def split: if_splits option.splits)

lemma update_metadata_denied:
  "update_metadata i ep u c = (Err KvPermissionDenied, d) \<Longrightarrow> call_denied c i ep d"
  by (auto simp: call_denied_def Let_def update_metadata_def split: if_splits option.splits)

lemma mutate_versions_denied:
  "mutate_versions i ep vs a c = (Err KvPermissionDenied, d) \<Longrightarrow> call_denied c i ep d"
  by (auto simp: call_denied_def Let_def mutate_versions_def mutate_locked_errors split: if_splits option.splits)

lemma soft_delete_latest_denied:
  "soft_delete_latest i ep c = (Err KvPermissionDenied, d) \<Longrightarrow> call_denied c i ep d"
  by (auto simp: call_denied_def Let_def soft_delete_latest_def mutate_locked_errors logical_path_def split: if_splits option.splits)

lemmas calls_denied = kv_write_denied kv_read_denied kv_list_denied kv_metadata_denied
  update_metadata_denied mutate_versions_denied soft_delete_latest_denied

section \<open>The audit log only grows\<close>

definition audit_grows :: "kv_catalog \<Rightarrow> kv_catalog \<Rightarrow> bool" where
  "audit_grows c d \<longleftrightarrow> (\<exists>es. kc_audit d = kc_audit c @ es)"

interpretation log: effect_preorder audit_grows
  by unfold_locales (auto simp: audit_grows_def)

lemma audit_grows_frame [simp]:
  "kc_audit d = kc_audit c \<Longrightarrow> audit_grows c d"
  "audit_grows c (kc_push ev c)"
  "audit_grows c (push_versions i p op vs d) \<longleftrightarrow> (\<exists>es. kc_audit d
     @ map (\<lambda>v. audit_event i p op Succeeded (Some v) None) vs = kc_audit c @ es)"
  by (simp_all add: audit_grows_def push_versions_audit)

lemmas log_rules = log.keeps_bind log.keeps_slift log.keeps_srequire

lemma log_authorize: "keeps audit_grows (authorize_operation i ep a)"
  by (rule log.keepsI) (simp add: authorize_operation_def Let_def split: result.split)

lemma log_authorize_all: "keeps audit_grows (authorize_destroy_all i r)"
  by (rule log.keepsI) (simp add: authorize_destroy_all_def Let_def split: result.split)

lemma log_prune: "keeps audit_grows (prune p)"
  by (rule log.keepsI) (simp add: prune_frame)

lemma log_add_version: "keeps audit_grows (add_version p e b t)"
  by (rule log.keepsI) (simp add: add_version_frame)

lemma log_write: "keeps audit_grows (kv_write tv i ep data cas)"
  unfolding kv_write_def Let_def
  by (intro log_rules log_authorize log.keepsI)
    (auto simp: log.keeps_bind [OF log_add_version log.keeps_bind [OF log_prune], unfolded keeps_def, rule_format])

lemma log_read: "keeps audit_grows (kv_read fs i ep)"
  unfolding kv_read_def Let_def
  by (intro log_rules log_authorize log.keepsI) (auto split: option.split)

lemma log_list: "keeps audit_grows (kv_list i ep)"
  unfolding kv_list_def Let_def
  by (intro log_rules log_authorize log.keepsI) (auto split: option.split)

lemma log_mutate_locked: "keeps audit_grows (mutate_versions_locked i p vs a)"
  by (rule log.keepsI)
    (auto simp: mutate_versions_locked_def Let_def split: option.split prod.split result.split secret_action.split)

lemma log_mutate: "keeps audit_grows (mutate_versions i ep vs a)"
  unfolding mutate_versions_def by (intro log_rules log_authorize log_mutate_locked)

lemma log_soft_delete_latest: "keeps audit_grows (soft_delete_latest i ep)"
  unfolding soft_delete_latest_def Let_def
  by (intro log_rules log_authorize log.keepsI)
    (auto simp: log_mutate_locked [unfolded keeps_def, rule_format] split: option.split)

lemma log_metadata: "keeps audit_grows (kv_metadata i ep)"
  unfolding kv_metadata_def Let_def
  by (intro log_rules log_authorize log.keepsI) (auto split: option.split)

lemma log_update_metadata: "keeps audit_grows (update_metadata i ep u)"
  unfolding update_metadata_def Let_def
  by (intro log_rules log_authorize log.keepsI) (auto simp: audit_grows_def split: option.split)

section \<open>The handler\<close>

text \<open>The capability an endpoint and a method call for.\<close>

definition required_capability :: "endpoint_request \<Rightarrow> string \<Rightarrow> capability" where
  "required_capability ep m =
     (case e_kind ep of
        EpData \<Rightarrow> if m = ''GET'' then action_capability ActRead (e_version ep)
                  else if m = ''DELETE'' then SecretSoftDelete else SecretWrite
      | EpMetadata \<Rightarrow> if m = ''GET'' then SecretList else SecretWrite
      | EpList \<Rightarrow> SecretList
      | EpDelete \<Rightarrow> SecretSoftDelete
      | EpUndelete \<Rightarrow> SecretUndelete
      | EpDestroy \<Rightarrow> SecretDestroy)"

lemma contract_status: "ct_status (contract k m r) \<in> {400, 404, 405, 501}"
  by (cases k) (simp_all add: contract_def)

lemma error_response_status:
  "hr_status (error_response e m k) \<notin> {200, 204}
     \<and> (hr_status (error_response e m k) = 403 \<longrightarrow> e = KvPermissionDenied)"
  by (cases e) (simp_all add: error_response_def vault_error_def compat_response_def bounded_error_def
      json_response_def contract_def Let_def)

definition no_store :: "http_response \<Rightarrow> bool" where
  "no_store r \<longleftrightarrow> (''cache-control'', ''no-store'') \<in> set (hr_headers r)"

text \<open>What the response of the handler says about the call behind it.\<close>

definition response_ok ::
  "kv_catalog \<Rightarrow> id16 \<Rightarrow> endpoint_request \<Rightarrow> capability \<Rightarrow> http_response \<times> kv_catalog \<Rightarrow> bool" where
  "response_ok c i ep cap rd \<longleftrightarrow>
     audit_grows c (snd rd)
     \<and> (hr_status (fst rd) \<in> {200, 204} \<longrightarrow> call_ok c i ep cap (snd rd) \<and> no_store (fst rd))
     \<and> (hr_status (fst rd) = 403 \<longrightarrow> call_denied c i ep (snd rd))"

lemma response_ok_error:
  "hr_status r \<notin> {200, 204, 403} \<Longrightarrow> response_ok c i ep cap (r, c)"
  by (simp add: response_ok_def)

lemma no_store_hygiene: "btree (hr_headers r) \<Longrightarrow> no_store (secret_response_hygiene r)"
  by (simp add: no_store_def secret_response_hygiene_def set_bt_remove set_bt_insert)

lemma hygiene_status [simp]: "hr_status (secret_response_hygiene r) = hr_status r"
  by (simp add: secret_response_hygiene_def)

lemma json_response_simps [simp]:
  "hr_status (json_response n b) = n" "btree (hr_headers (json_response n b))"
  "hr_status (status_response n) = n" "btree (hr_headers (status_response n))"
  by (simp_all add: json_response_def status_response_def btree_def)

lemma response_ok_answer:
  assumes "\<And>a d. call c = (Ok a, d) \<Longrightarrow> call_ok c i ep cap d"
    and "\<And>d. call c = (Err KvPermissionDenied, d) \<Longrightarrow> call_denied c i ep d"
    and "keeps audit_grows call"
    and "\<And>a. hr_status (respond a) \<in> {200, 204} \<and> btree (hr_headers (respond a))"
  shows "response_ok c i ep cap (answer m k respond call c)"
proof -
  obtain r d where r: "call c = (r, d)" by (cases "call c")
  have grows: "audit_grows c d" using log.keepsD [OF assms(3) r] .
  show ?thesis
  proof (cases r)
    case (Ok a)
    with r grows assms(1) assms(4) [of a] show ?thesis
      by (auto simp: answer_def response_ok_def no_store_hygiene)
  next
    case (Err e)
    with r grows assms(2) error_response_status [of e m k] show ?thesis
      by (auto simp: answer_def response_ok_def)
  qed
qed

lemma error_responses [simp]:
  "hr_status (vault_error n msg) = n" "hr_status (compat_response k m r) \<in> {400, 404, 405, 501}"
  using contract_status by (simp_all add: vault_error_def compat_response_def Let_def)

text \<open>The branches of the handler, one rule per kind of branch.\<close>

lemma response_ok_branch:
  "(P \<Longrightarrow> response_ok c i ep cap x) \<Longrightarrow> (\<not> P \<Longrightarrow> response_ok c i ep cap y) \<Longrightarrow>
     response_ok c i ep cap (if P then x else y)"
  "response_ok c i ep cap x \<Longrightarrow> (\<And>b. response_ok c i ep cap (f b)) \<Longrightarrow>
     response_ok c i ep cap (case ob of None \<Rightarrow> x | Some b \<Rightarrow> f b)"
  "(\<And>a. response_ok c i ep cap (g a)) \<Longrightarrow> (\<And>e. response_ok c i ep cap (h e)) \<Longrightarrow>
     response_ok c i ep cap (case r of Ok a \<Rightarrow> g a | Err e \<Rightarrow> h e)"
  "(\<And>a b. response_ok c i ep cap (j a b)) \<Longrightarrow> response_ok c i ep cap (case ab of (a, b) \<Rightarrow> j a b)"
  by (auto split: option.split result.split prod.split)

lemma dispatch_response_ok:
  "response_ok c i ep (required_capability ep m) (dispatch tv fs i ep ns m body c)"
proof -
  note answers = response_ok_answer [where c = c and i = i and ep = ep]
  have rd: "m = ''GET'' \<Longrightarrow> e_kind ep = EpData \<Longrightarrow> (\<And>a. hr_status (f a) \<in> {200, 204} \<and> btree (hr_headers (f a))) \<Longrightarrow>
      response_ok c i ep (required_capability ep m) (answer m k f (kv_read fs i ep) c)" for k f
    by (rule answers) (auto simp: required_capability_def log_read dest: kv_read_Ok calls_denied)
  have wr: "m = ''POST'' \<or> m = ''PUT'' \<Longrightarrow> e_kind ep = EpData \<Longrightarrow> (\<And>a. hr_status (f a) \<in> {200, 204} \<and> btree (hr_headers (f a))) \<Longrightarrow>
      response_ok c i ep (required_capability ep m) (answer m k f (kv_write tv i ep data cas) c)" for k f data cas
    by (rule answers) (auto simp: required_capability_def log_write dest: kv_write_Ok calls_denied)
  have dl: "m = ''DELETE'' \<Longrightarrow> e_kind ep = EpData \<Longrightarrow> (\<And>a. hr_status (f a) \<in> {200, 204} \<and> btree (hr_headers (f a))) \<Longrightarrow>
      response_ok c i ep (required_capability ep m) (answer m k f (soft_delete_latest i ep) c)" for k f
    by (rule answers) (auto simp: required_capability_def log_soft_delete_latest dest: soft_delete_latest_Ok calls_denied)
  have mu: "e_kind ep \<in> {EpDelete, EpUndelete, EpDestroy} \<Longrightarrow> (\<And>a. hr_status (f a) \<in> {200, 204} \<and> btree (hr_headers (f a))) \<Longrightarrow>
      response_ok c i ep (required_capability ep m)
        (answer m k f (mutate_versions i ep vs (kind_action (e_kind ep))) c)" for k f vs
    by (rule answers) (auto simp: required_capability_def kind_action_def log_mutate dest: mutate_versions_Ok calls_denied)
  have md: "m = ''GET'' \<Longrightarrow> e_kind ep = EpMetadata \<Longrightarrow> (\<And>a. hr_status (f a) \<in> {200, 204} \<and> btree (hr_headers (f a))) \<Longrightarrow>
      response_ok c i ep (required_capability ep m) (answer m k f (kv_metadata i ep) c)" for k f
    by (rule answers) (auto simp: required_capability_def log_metadata dest: kv_metadata_Ok calls_denied)
  have up: "m = ''POST'' \<or> m = ''PUT'' \<Longrightarrow> e_kind ep = EpMetadata \<Longrightarrow> (\<And>a. hr_status (f a) \<in> {200, 204} \<and> btree (hr_headers (f a))) \<Longrightarrow>
      response_ok c i ep (required_capability ep m) (answer m k f (update_metadata i ep u) c)" for k f u
    by (rule answers) (auto simp: required_capability_def log_update_metadata dest: update_metadata_Ok calls_denied)
  have ls: "e_kind ep = EpList \<Longrightarrow> (\<And>a. hr_status (f a) \<in> {200, 204} \<and> btree (hr_headers (f a))) \<Longrightarrow>
      response_ok c i ep (required_capability ep m) (answer m k f (kv_list i ep) c)" for k f
    by (rule answers) (auto simp: required_capability_def log_list dest: kv_list_Ok calls_denied)
  have er: "hr_status r \<notin> {200, 204, 403} \<Longrightarrow> response_ok c i ep (required_capability ep m) (r, c)" for r
    by (rule response_ok_error)
  have compat: "hr_status (compat_response k m' r) \<notin> {200, 204, 403}" for k m' r
    using error_responses(2) [of k m' r] by auto
  show ?thesis
    unfolding dispatch_def Let_def
    by (intro response_ok_branch rd wr dl mu md up ls er) (simp_all add: compat [simplified])
qed

text \<open>
  C23: Nothing is disclosed or changed over HTTP without a grant and an audit event. Whatever the
  request, the audit log only grows. A response with status 200 or 204 means that an active grant
  of the caller covers the resource and lists the capability that the endpoint and the method call
  for, that the call appended at least one event, all of them successes of this caller on this
  resource, and that the response is marked not to be stored. A response with status 403 means
  that the store is unchanged except for one event that records the denial.
\<close>

theorem dispatch_audited:
  assumes "dispatch tv fs i ep ns m body c = (r, d)"
  shows "(\<exists>es. kc_audit d = kc_audit c @ es)
    \<and> (hr_status r \<in> {200, 204} \<longrightarrow>
        (\<exists>g\<in>set (kc_grants c). gr_owner_identity_id g = i \<and> gr_status g = GrantActive
          \<and> shape_matches g (resource_of (e_resource ep))
          \<and> required_capability ep m \<in> set (gr_capabilities g))
        \<and> logged c d i (logical_path ep) \<and> no_store r)
    \<and> (hr_status r = 403 \<longrightarrow> (\<exists>op. d = kc_push (audit_event i (logical_path ep) op Denied None
          (Some ''permission-denied'')) c))"
  using dispatch_response_ok [of c i ep m tv fs ns body] unfolding assms
  by (auto simp: response_ok_def call_ok_def call_denied_def audit_grows_def permitted_def permits_def)

theorem dispatch_audited_witness:
  "\<exists>r d. dispatch sample_to_vec (\<lambda>_. Some JNull) 2 (sample_endpoint EpData) None ''GET'' None sample_catalog = (r, d)
     \<and> hr_status r = 200 \<and> logged sample_catalog d 2 ''app/db''"
proof -
  obtain r d where run: "dispatch sample_to_vec (\<lambda>_. Some JNull) 2 (sample_endpoint EpData) None ''GET'' None sample_catalog = (r, d)"
    by (cases "dispatch sample_to_vec (\<lambda>_. Some JNull) 2 (sample_endpoint EpData) None ''GET'' None sample_catalog")
  have "hr_status r = 200"
    using run sample_entry(1)
    by (auto simp: dispatch_def answer_def kv_read_def sbind_def slift_def validate_endpoint_def
        authorize_operation_def request_secret_def authorize_allow_iff permits_def shape_matches_def
        resource_of_def kv_samples logical_path_def Let_def bt_get_def new_version_def
        sample_catalog_def kv_eval split: prod.splits result.splits)
  moreover have "logical_path (sample_endpoint EpData) = ''app/db''"
    by (simp add: sample_endpoint_def logical_path_def)
  ultimately show ?thesis
    using run dispatch_audited [OF run] by auto
qed

end
