(* ===== verification/Kv_Contracts.thy ===== *)
theory Kv_Contracts
  imports Kv_Behaviour
begin

text \<open>
  What the operations of the KV service promise on their successful and failing branches: the
  check-and-set rule of writes and reading back what was written, the exact result of a listing,
  the purge ceremony, and the bounds on the values that are accepted.
\<close>

section \<open>Writing and reading back\<close>

lemma bt_insert_twice: "bt_insert k v (bt_insert k w m) = bt_insert k v m"
  by (induction k w m rule: bt_insert.induct) auto

lemma kc_put_twice: "kc_put p f (kc_put p g c) = kc_put p f c"
  by (simp add: kc_put_def bt_insert_twice)

lemma kc_put_get: "kc_get (kc_put p f c) p = Some f"
  by (simp add: kc_get_def kc_put_def)

lemma not_prunable_kept:
  assumes "btree (en_versions e)" and "\<not> prunable e k"
  shows "bt_get (en_versions (prune_loop n e)) k = bt_get (en_versions e) k"
proof -
  have "k \<notin> set (pruned n e)"
    using assms(2) unfolding pruned_def by (auto dest!: in_set_takeD)
  then show ?thesis
    by (simp add: prune_loop_reference [OF assms(1)] prune_reference_def bt_get_filter_keys)
qed

lemma prune_loop_frame:
  "btree (en_versions e) \<Longrightarrow> en_current_version (prune_loop n e) = en_current_version e"
  "btree (en_versions e) \<Longrightarrow> en_metadata_generation (prune_loop n e) = en_metadata_generation e"
  by (simp_all add: prune_loop_reference prune_reference_def)

text \<open>A write that passes its checks stores exactly one new version, as the current one.\<close>

lemma kv_write_stores:
  assumes "kv_ok c" and "validate_endpoint ep EpData = Ok ()" and "encode_secret tv data = Ok b"
    and "request_secret ep ActWrite = Ok rq" and "permitted c i rq"
    and "\<not> cas_conflict c (logical_path ep) cas"
    and "e = kc_entry_or c (logical_path ep) None"
    and "checked_add (en_current_version e) 1 = Some v" and "checked_add (en_metadata_generation e) 1 = Some g"
  shows "\<exists>f. kv_write tv i ep data cas c =
      (Ok \<lparr>wr_version = v, wr_created = kc_effective_unix_milliseconds c\<rparr>,
       kc_push (audit_event i (logical_path ep) AuWrite Succeeded (Some v) None) (kc_put (logical_path ep) f c))
    \<and> en_current_version f = v \<and> en_metadata_generation f = g
    \<and> bt_get (en_versions f) v = Some (new_version b (kc_effective_unix_milliseconds c))"
proof -
  let ?p = "logical_path ep" and ?t = "kc_effective_unix_milliseconds c"
  let ?f = "e\<lparr>en_current_version := v, en_metadata_generation := g,
      en_versions := bt_insert v (new_version b ?t) (en_versions e)\<rparr>"
  let ?n = "unat (case en_max_versions e of None \<Rightarrow> kc_mount_max_versions c | Some n \<Rightarrow> n)"
  let ?h = "prune_loop ?n (?f\<lparr>en_retention_deferred := False\<rparr>)"
  have "entry_ok e"
    using assms(1) entry_new_ok unfolding assms(7) by (auto simp: kc_entry_or_def kv_ok_def split: option.split)
  then have bt: "btree (en_versions (?f\<lparr>en_retention_deferred := False\<rparr>))"
    by (simp add: entry_ok_btree)
  have add: "add_version ?p e b ?t c = (Ok v, kc_put ?p ?f c)"
    using assms(8,9) by (simp add: add_version_def)
  have auth: "authorize_operation i ep ActWrite c = (Ok (), c)"
    using assms(4,5) by simp
  have prune: "prune ?p (kc_put ?p ?f c) = (Ok (), kc_put ?p ?h c)"
    by (simp add: prune_def kc_put_get kc_put_twice split: option.split)
  have "kv_write tv i ep data cas c = (Ok \<lparr>wr_version = v, wr_created = ?t\<rparr>,
      kc_push (audit_event i ?p AuWrite Succeeded (Some v) None) (kc_put ?p ?h c))"
    using assms(2,3,6) add prune unfolding assms(7)
    by (simp add: kv_write_def sbind_def slift_def Let_def auth)
  moreover have "bt_get (en_versions ?h) v = Some (new_version b ?t)"
    by (subst not_prunable_kept [OF bt]) (simp_all add: prunable_def)
  moreover have "en_current_version ?h = v" "en_metadata_generation ?h = g"
    using prune_loop_frame [OF bt] by simp_all
  ultimately show ?thesis by blast
qed

lemma cas_conflict_iff:
  "cas_conflict c p cas \<longleftrightarrow>
     (cas = None \<and> ec_effective (effective_cas_required c p))
     \<or> (cas = Some 0 \<and> kc_get c p \<noteq> None)
     \<or> (\<exists>n. cas = Some n \<and> n \<noteq> 0 \<and> n \<noteq> en_current_version (kc_entry_or c p None))"
  by (auto simp: cas_conflict_def kc_entry_or_def entry_new_def split: option.splits)

text \<open>
  C24: Check-and-set. For a valid and permitted write, the write is refused exactly when there is
  no \<open>cas\<close> although the path (or the mount, where the path has no setting) requires one, or \<open>cas\<close>
  is 0 and the path exists, or a positive \<open>cas\<close> is not the current version; then nothing but a
  failure event is recorded. Otherwise, unless a counter is at its maximum, the new version is the
  current version plus one, it becomes current with exactly the encoded payload and the effective
  time, the generation grows by one, and no other path changes.
\<close>

theorem kv_write_cas:
  assumes "kv_ok c" and "validate_endpoint ep EpData = Ok ()" and "encode_secret tv data = Ok b"
    and "request_secret ep ActWrite = Ok rq" and "permitted c i rq"
    and "p = logical_path ep" and "e = kc_entry_or c p None"
    and "conflict = ((cas = None \<and> ec_effective (effective_cas_required c p))
      \<or> (cas = Some 0 \<and> kc_get c p \<noteq> None)
      \<or> (\<exists>n. cas = Some n \<and> n \<noteq> 0 \<and> n \<noteq> en_current_version e))"
  shows "(conflict \<longrightarrow> kv_write tv i ep data cas c =
        (Err KvCasConflict, kc_push (audit_event i p AuWrite Failed None (Some ''cas-conflict'')) c))
    \<and> (\<not> conflict \<and> en_current_version e \<noteq> - 1 \<and> en_metadata_generation e \<noteq> - 1 \<longrightarrow>
        (\<exists>f v. kv_write tv i ep data cas c =
            (Ok \<lparr>wr_version = v, wr_created = kc_effective_unix_milliseconds c\<rparr>,
             kc_push (audit_event i p AuWrite Succeeded (Some v) None) (kc_put p f c))
          \<and> unat v = Suc (unat (en_current_version e)) \<and> en_current_version f = v
          \<and> unat (en_metadata_generation f) = Suc (unat (en_metadata_generation e))
          \<and> bt_get (en_versions f) v = Some (new_version b (kc_effective_unix_milliseconds c))))"
proof (intro conjI impI)
  have conflict: "conflict = cas_conflict c p cas"
    unfolding assms(7,8) by (simp add: cas_conflict_iff)
  have auth: "authorize_operation i ep ActWrite c = (Ok (), c)"
    using assms(4,5) by simp
  assume conflict
  then show "kv_write tv i ep data cas c =
      (Err KvCasConflict, kc_push (audit_event i p AuWrite Failed None (Some ''cas-conflict'')) c)"
    using assms(2,3) unfolding conflict assms(6)
    by (simp add: kv_write_def sbind_def slift_def Let_def auth)
next
  have conflict: "conflict = cas_conflict c p cas"
    unfolding assms(7,8) by (simp add: cas_conflict_iff)
  assume ok: "\<not> conflict \<and> en_current_version e \<noteq> - 1 \<and> en_metadata_generation e \<noteq> - 1"
  then obtain v g where v: "checked_add (en_current_version e) 1 = Some v"
    and g: "checked_add (en_metadata_generation e) 1 = Some g"
    using checked_add_1_defined by metis
  note stores = kv_write_stores [OF assms(1-5) _ _ v g]
  show "\<exists>f v. kv_write tv i ep data cas c =
            (Ok \<lparr>wr_version = v, wr_created = kc_effective_unix_milliseconds c\<rparr>,
             kc_push (audit_event i p AuWrite Succeeded (Some v) None) (kc_put p f c))
          \<and> unat v = Suc (unat (en_current_version e)) \<and> en_current_version f = v
          \<and> unat (en_metadata_generation f) = Suc (unat (en_metadata_generation e))
          \<and> bt_get (en_versions f) v = Some (new_version b (kc_effective_unix_milliseconds c))"
    using stores [of cas] ok checked_add_1_Some [OF v] checked_add_1_Some [OF g]
    unfolding conflict assms(6,7) by auto
qed

definition sample_request :: "authorization_operation \<Rightarrow> capability \<Rightarrow> authorization_request" where
  "sample_request operation capability =
     \<lparr>rq_resource = \<lparr>az_mount = ''secret'', az_segments = [''app'', ''db'']\<rparr>,
      rq_operation = operation, rq_capability = capability\<rparr>"

lemma sample_catalog_ok: "kv_ok sample_catalog"
  unfolding sample_catalog_def by (rule kv_run_ok [OF catalog_new_ok])

lemma sample_write:
  "validate_endpoint (sample_endpoint EpData) EpData = Ok ()"
  "encode_secret sample_to_vec [(''k'', JString ''w'')] = Ok [2]"
  "request_secret (sample_endpoint EpData) ActWrite = Ok (sample_request OpWrite SecretWrite)"
  "permitted sample_catalog 2 (sample_request OpWrite SecretWrite)"
  "logical_path (sample_endpoint EpData) = ''app/db''"
  "kc_effective_unix_milliseconds sample_catalog = 5"
  "kc_mount_cas_required sample_catalog = False"
  by (simp_all add: sample_catalog_def kv_eval kv_samples permitted_def sample_request_def)

theorem kv_write_cas_witness:
  "fst (kv_write sample_to_vec 2 (sample_endpoint EpData) [(''k'', JString ''w'')] (Some 0) sample_catalog)
     = Err KvCasConflict
   \<and> fst (kv_write sample_to_vec 2 (sample_endpoint EpData) [(''k'', JString ''w'')] (Some 1) sample_catalog)
     = Ok \<lparr>wr_version = 2, wr_created = 5\<rparr>"
proof -
  have v: "unat v = Suc (Suc 0) \<Longrightarrow> v = 2" for v :: u64
    by (simp add: word_unat_eq_iff)
  have top: "(1 :: u64) \<noteq> - 1" "(2 :: u64) \<noteq> - 1"
    by (simp_all add: word_unat_eq_iff unat_minus_one_eq)
  note cas = kv_write_cas [OF sample_catalog_ok sample_write(1-4) sample_write(5) [symmetric] refl refl]
  show ?thesis
    using cas [of "Some 0"] cas [of "Some 1"] v top
    by (auto simp: kc_entry_or_def sample_entry sample_write)
qed

text \<open>A read finds the version it asks for, when that version is live and decodes.\<close>

lemma kv_read_finds:
  assumes "validate_endpoint ep EpData = Ok ()"
    and "request_secret ep ActRead = Ok rq" and "permitted d i rq"
    and "kc_get d (logical_path ep) = Some e"
    and "v = (case e_version ep of None \<Rightarrow> en_current_version e | Some v \<Rightarrow> v)"
    and "bt_get (en_versions e) v = Some x" and "vv_state x = Live"
    and "\<not> kc_fail_next_read_audit_commit d" and "fs (vv_encoded x) = Some value"
  shows "kv_read fs i ep d = (Ok \<lparr>rr_data = value, rr_version = v, rr_created = vv_created_unix_milliseconds x\<rparr>,
    kc_push (audit_event i (logical_path ep) AuRead Succeeded (Some v) None) d)"
proof -
  have auth: "authorize_operation i ep ActRead d = (Ok (), d)"
    using assms(2,3) by simp
  show ?thesis
    using assms(1,4,6-9) unfolding assms(5)
    by (simp add: kv_read_def sbind_def slift_def Let_def auth)
qed

text \<open>What a successful write stored.\<close>

lemma kv_write_stored:
  assumes "kv_ok c" and "kv_write tv i ep data cas c = (Ok w, d)"
  shows "\<exists>b f. encode_secret tv data = Ok b
    \<and> d = kc_push (audit_event i (logical_path ep) AuWrite Succeeded (Some (wr_version w)) None)
        (kc_put (logical_path ep) f c)
    \<and> en_current_version f = wr_version w \<and> wr_created w = kc_effective_unix_milliseconds c
    \<and> bt_get (en_versions f) (wr_version w) = Some (new_version b (wr_created w))"
proof -
  let ?e = "kc_entry_or c (logical_path ep) None"
  from assms(2) obtain rq b s where rq: "request_secret ep ActWrite = Ok rq" "permitted c i rq"
    and ok: "validate_endpoint ep EpData = Ok ()" and b: "encode_secret tv data = Ok b"
    and cas: "\<not> cas_conflict c (logical_path ep) cas"
    and add: "add_version (logical_path ep) ?e b (kc_effective_unix_milliseconds c) c = (Ok (wr_version w), s)"
    by (auto simp: kv_write_def Let_def split: if_splits)
  from add obtain v g where v: "checked_add (en_current_version ?e) 1 = Some v"
    and g: "checked_add (en_metadata_generation ?e) 1 = Some g"
    by (auto simp: add_version_def Let_def split: option.splits)
  from kv_write_stores [OF assms(1) ok b rq cas refl v g] assms(2) b show ?thesis by auto
qed

lemma encode_secret_Ok: "encode_secret tv data = Ok b \<Longrightarrow> tv (JObject data) = Some b"
  by (auto simp: encode_secret_def rbind_eq_Ok split: if_splits)

text \<open>
  C25: Read after write. After a successful write, any permitted reader of that path (asking for the
  current version, or for the version the write returned) gets exactly the object that was written,
  with the version and the creation time the write reported, provided deserialisation inverts
  serialisation on that object and no audit failure is injected; the read leaves only its own event.
\<close>

theorem read_after_write:
  assumes "kv_ok c" and "kv_write tv i ep data cas c = (Ok w, d)"
    and serde: "\<And>b. tv (JObject data) = Some b \<Longrightarrow> fs b = Some (JObject data)"
    and "validate_endpoint ep' EpData = Ok ()" and "logical_path ep' = logical_path ep"
    and "e_version ep' \<in> {None, Some (wr_version w)}"
    and "request_secret ep' ActRead = Ok rq" and "permitted c j rq"
    and "\<not> kc_fail_next_read_audit_commit c"
  shows "kv_read fs j ep' d =
    (Ok \<lparr>rr_data = JObject data, rr_version = wr_version w, rr_created = wr_created w\<rparr>,
     kc_push (audit_event j (logical_path ep) AuRead Succeeded (Some (wr_version w)) None) d)"
proof -
  obtain b f where b: "encode_secret tv data = Ok b"
    and d: "d = kc_push (audit_event i (logical_path ep) AuWrite Succeeded (Some (wr_version w)) None)
        (kc_put (logical_path ep) f c)"
    and cur: "en_current_version f = wr_version w"
    and v: "bt_get (en_versions f) (wr_version w) = Some (new_version b (wr_created w))"
    using kv_write_stored [OF assms(1,2)] by auto
  have get: "kc_get d (logical_path ep') = Some f"
    using d assms(5) by (simp add: kc_put_get)
  have at: "wr_version w = (case e_version ep' of None \<Rightarrow> en_current_version f | Some v \<Rightarrow> v)"
    using assms(6) cur by auto
  have "permitted d j rq" "\<not> kc_fail_next_read_audit_commit d"
    using assms(8,9) unfolding d by (simp_all add: permitted_def)
  from kv_read_finds [OF assms(4,7) this(1) get at v _ this(2), of fs "JObject data"]
    serde [OF encode_secret_Ok [OF b]] assms(5)
  show ?thesis by (simp add: new_version_def)
qed

theorem read_after_write_witness:
  "\<exists>w d. kv_write sample_to_vec 2 (sample_endpoint EpData) [(''k'', JString ''w'')] (Some 1) sample_catalog = (Ok w, d)
     \<and> fst (kv_read (\<lambda>_. Some (JObject [(''k'', JString ''w'')])) 2 (sample_endpoint EpData) d)
       = Ok \<lparr>rr_data = JObject [(''k'', JString ''w'')], rr_version = wr_version w, rr_created = wr_created w\<rparr>"
proof -
  obtain w d where run: "kv_write sample_to_vec 2 (sample_endpoint EpData) [(''k'', JString ''w'')] (Some 1)
      sample_catalog = (Ok w, d)"
    by (simp add: sample_catalog_def kv_eval kv_samples)
  have "request_secret (sample_endpoint EpData) ActRead = Ok (sample_request OpReadCurrent SecretReadCurrent)"
    "permitted sample_catalog 2 (sample_request OpReadCurrent SecretReadCurrent)"
    "\<not> kc_fail_next_read_audit_commit sample_catalog" "e_version (sample_endpoint EpData) = None"
    by (simp_all add: sample_catalog_def kv_eval kv_samples permitted_def sample_request_def)
  from read_after_write [OF sample_catalog_ok run, where fs = "\<lambda>_. Some (JObject [(''k'', JString ''w'')])",
      OF _ sample_write(1) refl _ this(1,2,3)] this(4) run
  show ?thesis by auto
qed

section \<open>Listing\<close>

text \<open>The immediate children of a prefix among the stored paths; directories end in a slash.\<close>

definition children :: "string \<Rightarrow> string set \<Rightarrow> string set" where
  "children prefix paths =
     {k. k \<noteq> [] \<and> CHR ''/'' \<notin> set k \<and> prefix @ k \<in> paths}
     \<union> {k @ ''/'' | k rest. CHR ''/'' \<notin> set k \<and> prefix @ k @ ''/'' @ rest \<in> paths}"

lemma strip_prefix_iff: "strip_prefix xs ys = Some zs \<longleftrightarrow> xs = ys @ zs"
  by (induction xs ys rule: strip_prefix.induct) auto

lemma list_key_file: "CHR ''/'' \<notin> set k \<Longrightarrow> list_key k = k"
  by (simp add: list_key_def iffD2 [OF split_once_None])

lemma list_key_directory: "CHR ''/'' \<notin> set k \<Longrightarrow> list_key (k @ CHR ''/'' # rest) = k @ ''/''"
  by (simp add: list_key_def split_once_append)

lemma children_image:
  "children prefix paths = list_key ` {rest. rest \<noteq> [] \<and> prefix @ rest \<in> paths}" (is "_ = ?R")
proof
  show "children prefix paths \<subseteq> ?R"
    unfolding children_def
  proof (rule Un_least; clarify)
    fix k assume "CHR ''/'' \<notin> set k" "prefix @ k \<in> paths" "k \<noteq> []"
    then show "k \<in> ?R" by (intro rev_image_eqI [of k]) (simp_all add: list_key_file)
  next
    fix k rest assume "CHR ''/'' \<notin> set k" "prefix @ k @ ''/'' @ rest \<in> paths"
    then show "k @ ''/'' \<in> ?R"
      using list_key_directory [of k rest] by (intro rev_image_eqI [of "k @ ''/'' @ rest"]) simp_all
  qed
  show "?R \<subseteq> children prefix paths"
  proof clarsimp
    fix rest assume rest: "prefix @ rest \<in> paths" "rest \<noteq> []"
    show "list_key rest \<in> children prefix paths"
    proof (cases "CHR ''/'' \<in> set rest")
      case True
      then obtain k r where "rest = k @ CHR ''/'' # r" "CHR ''/'' \<notin> set k"
        by (auto dest: split_list_first)
      with rest show ?thesis by (auto simp: children_def list_key_directory)
    qed (use rest in \<open>simp add: children_def list_key_file\<close>)
  qed
qed

lemma children_step:
  "children prefix (insert path paths) =
     (case strip_prefix path prefix of None \<Rightarrow> {} | Some rest \<Rightarrow> if rest = [] then {} else {list_key rest})
     \<union> children prefix paths"
proof -
  have "{rest. rest \<noteq> [] \<and> prefix @ rest \<in> insert path paths} =
      (case strip_prefix path prefix of None \<Rightarrow> {} | Some rest \<Rightarrow> if rest = [] then {} else {rest})
      \<union> {rest. rest \<noteq> [] \<and> prefix @ rest \<in> paths}"
  proof (cases "strip_prefix path prefix")
    case None
    then have "path \<noteq> prefix @ rest" for rest by (metis strip_prefix_iff option.distinct(1))
    then show ?thesis using None by auto
  next
    case (Some rest)
    then have "path = prefix @ rest" by (simp add: strip_prefix_iff)
    then show ?thesis using Some by auto
  qed
  then show ?thesis unfolding children_image by (simp add: image_Un split: option.split)
qed

lemma finite_children: "finite (children prefix (set paths))"
  by (induction paths) (auto simp: children_step children_image [of _ "{}"] split: option.split)

lemma list_loop_children:
  "bset keys \<Longrightarrow> length keys \<le> MAX_LIST_RESULTS \<Longrightarrow>
   list_loop prefix paths keys =
     (let found = set keys \<union> children prefix (set paths)
      in if card found > MAX_LIST_RESULTS then None else Some (sorted_list_of_set found))"
proof (induction paths arbitrary: keys)
  case Nil
  then show ?case
    by (simp add: children_image bset_iff distinct_card sorted_list_of_set.idem_if_sorted_distinct)
next
  case (Cons path paths)
  have card: "card (set ks) = length ks" if "bset ks" for ks :: "string list"
    using that by (simp add: bset_iff distinct_card)
  show ?case
  proof (cases "strip_prefix path prefix")
    case (Some rest)
    let ?keys = "bs_insert (list_key rest) keys"
    have "length ?keys \<le> card (set ?keys \<union> children prefix (set paths))"
      unfolding card [OF bset_bs_insert [OF Cons.prems(1)], symmetric]
      by (rule card_mono) (auto simp: finite_children)
    then show ?thesis
      using Cons.IH [of keys] Cons.IH [of ?keys] Cons.prems Some
      by (auto simp: children_step Let_def)
  qed (use Cons in \<open>simp add: children_step\<close>)
qed

text \<open>
  C28: Listing is exact. A permitted listing of a prefix returns, in order and without repetition,
  exactly its immediate children: the names of the secrets directly under it, and the names, with a
  slash, of the directories that hold a deeper secret. It fails exactly when there are more than
  \<open>MAX_LIST_RESULTS\<close> of them. Either way no entry changes and one event is recorded.
\<close>

theorem kv_list_exact:
  assumes "validate_endpoint ep EpList = Ok ()"
    and "request_secret ep ActList = Ok rq" and "permitted c i rq"
    and "prefix = (if logical_path ep = [] then [] else logical_path ep @ ''/'')"
    and "found = children prefix (fst ` set (kc_entries c))"
  shows "kv_list i ep c =
    (if card found > MAX_LIST_RESULTS
     then (Err (KvBoundExceeded ''list_results''),
           kc_push (audit_event i (logical_path ep) AuList Failed None (Some ''list-result-limit'')) c)
     else (Ok (sorted_list_of_set found), kc_push (audit_event i (logical_path ep) AuList Succeeded None None) c))"
proof -
  have auth: "authorize_operation i ep ActList c = (Ok (), c)"
    using assms(2,3) by simp
  show ?thesis
    using assms(1) unfolding assms(4,5)
    by (simp add: kv_list_def sbind_def slift_def auth list_loop_children Let_def)
qed

definition sample_listed :: kv_catalog where
  "sample_listed = (replace_grants
     [sample_kv_grant\<lparr>gr_capabilities := [SecretList], gr_prefix_segments := [''app'']\<rparr>] (catalog_new False 5))
     \<lparr>kc_entries := [(''app/db'', entry_new None), (''app/db/x'', entry_new None), (''app/db/y/z'', entry_new None)]\<rparr>"

theorem kv_list_exact_witness:
  "fst (kv_list 2 (sample_endpoint EpList) sample_listed) =
     Ok (sorted_list_of_set (children ''app/db/'' {''app/db'', ''app/db/x'', ''app/db/y/z''}))"
proof -
  let ?found = "children ''app/db/'' {''app/db'', ''app/db/x'', ''app/db/y/z''}"
  have ok: "validate_endpoint (sample_endpoint EpList) EpList = Ok ()"
    "request_secret (sample_endpoint EpList) ActList = Ok (sample_request OpList SecretList)"
    "permitted sample_listed 2 (sample_request OpList SecretList)"
    by (simp_all add: sample_listed_def kv_eval kv_samples permitted_def sample_request_def)
  have path: "''app/db/'' = (if logical_path (sample_endpoint EpList) = [] then []
      else logical_path (sample_endpoint EpList) @ ''/'')"
    by (simp add: logical_path_def sample_endpoint_def)
  have found: "?found = children ''app/db/'' (fst ` set (kc_entries sample_listed))"
    by (simp add: sample_listed_def)
  have "?found = {''x'', ''y/''}"
    by (auto simp: children_step list_key_def children_image [of _ "{}"])
  then have "card ?found \<le> MAX_LIST_RESULTS" by simp
  with kv_list_exact [OF ok path found] show ?thesis by simp
qed

section \<open>The purge ceremony\<close>

text \<open>
  C27: Purging needs the whole ceremony. It succeeds exactly when the request is for the expected
  resource, gives a reason of 1 to 1024 bytes without control characters, the caller may destroy all
  versions of the resource, the path exists, its rotation protection is known and absent, the
  metadata generation and the version count are those the request was prepared for, and the
  confirmation is the digest of exactly that resource, generation, count and reason (and no audit
  failure is injected). Then that path and no other is removed and the reason is recorded;
  otherwise no entry changes.
\<close>

theorem kv_purge_exact:
  assumes "kv_purge hash i r request c = (res, d)"
    and "p = join CHR ''/'' (r_canonical_segments r)"
  shows "(is_ok res \<longleftrightarrow>
      pr_resource request = r
      \<and> pr_reason request \<noteq> [] \<and> length (pr_reason request) \<le> 1024 \<and> \<not> has_control (pr_reason request)
      \<and> (\<exists>rq. request_local_destroy_all r = Ok rq \<and> permitted c i rq)
      \<and> (\<exists>e. kc_get c p = Some e \<and> en_protection_known e \<and> en_protected_version e = None
          \<and> en_metadata_generation e = pr_expected_metadata_generation request
          \<and> version_count e = pr_expected_version_count request)
      \<and> pr_confirmation request = Some (hash (purge_message r (pr_expected_metadata_generation request)
          (pr_expected_version_count request) (pr_reason request)))
      \<and> \<not> kc_fail_next_purge_audit_commit c)
    \<and> (\<forall>q. kc_get d q = (if is_ok res \<and> q = p then None else kc_get c q))
    \<and> (is_ok res \<longrightarrow>
        kc_audit d = kc_audit c @ [audit_event i p AuPurge Succeeded None (Some (pr_reason request))])"
proof -
  have get: "kc_get (c\<lparr>kc_entries := bt_remove p (kc_entries c)\<rparr>) q = (if q = p then None else kc_get c q)" for q
    by (simp add: kc_get_def bt_get_remove)
  show ?thesis
  proof (cases "\<exists>rq. request_local_destroy_all r = Ok rq \<and> permitted c i rq")
    case True
    then have auth: "authorize_destroy_all i r c = (Ok (), c)" by simp
    show ?thesis
      using assms(1) get unfolding assms(2) kv_purge_def
      by (cases "kc_get c (join CHR ''/'' (r_canonical_segments r))")
        (auto simp: Let_def sbind_def auth True purge_confirmation_def kc_push_def kc_get_def split: if_splits)
  next
    case False
    then show ?thesis
      using assms(1) unfolding assms(2) kv_purge_def
      by (cases res) (auto simp: Let_def split: if_splits)
  qed
qed

definition sample_purge_request :: purge_request where
  "sample_purge_request = \<lparr>pr_resource = e_resource (sample_endpoint EpData), pr_expected_metadata_generation = 2,
     pr_expected_version_count = 1, pr_reason = ''bye'', pr_confirmation = Some 0\<rparr>"

theorem kv_purge_exact_witness:
  "\<exists>res d. kv_purge (\<lambda>_. 0) 2 (e_resource (sample_endpoint EpData)) sample_purge_request
      (replace_grants [sample_kv_grant\<lparr>gr_capabilities := [SecretDestroyAll]\<rparr>] sample_catalog) = (res, d)
    \<and> is_ok res \<and> kc_get d ''app/db'' = None"
proof -
  let ?c = "replace_grants [sample_kv_grant\<lparr>gr_capabilities := [SecretDestroyAll]\<rparr>] sample_catalog"
  obtain res d where run: "kv_purge (\<lambda>_. 0) 2 (e_resource (sample_endpoint EpData)) sample_purge_request ?c = (res, d)"
    by (cases "kv_purge (\<lambda>_. 0) 2 (e_resource (sample_endpoint EpData)) sample_purge_request ?c")
  have p: "''app/db'' = join CHR ''/'' (r_canonical_segments (e_resource (sample_endpoint EpData)))"
    by (simp add: sample_endpoint_def)
  have get: "kc_get ?c ''app/db'' = kc_get sample_catalog ''app/db''"
    by (simp add: replace_grants_def kc_get_def)
  have "is_ok res"
    unfolding kv_purge_exact [OF run p, THEN conjunct1] get sample_entry
    by (simp add: sample_purge_request_def sample_endpoint_def version_count_def has_control_def
        request_local_destroy_all_def permitted_def replace_grants_def sample_kv_grant_def permits_def
        shape_matches_def sample_catalog_def kv_eval kv_samples char_is_control_def)
  then show ?thesis using run kv_purge_exact [OF run p] by auto
qed

section \<open>Bounds on values\<close>

text \<open>The number of levels, the number of object fields at all levels, and the field names.\<close>

fun json_height :: "json \<Rightarrow> nat" and fields_height :: "(string \<times> json) list \<Rightarrow> nat"
  and items_height :: "json list \<Rightarrow> nat" where
  "json_height (JObject values) = Suc (fields_height values)"
| "json_height (JArray values) = Suc (items_height values)"
| "json_height _ = 1"
| "fields_height [] = 0"
| "fields_height ((_, value) # rest) = max (json_height value) (fields_height rest)"
| "items_height [] = 0"
| "items_height (value # rest) = max (json_height value) (items_height rest)"

fun json_fields :: "json \<Rightarrow> string list" and fields_fields :: "(string \<times> json) list \<Rightarrow> string list"
  and items_fields :: "json list \<Rightarrow> string list" where
  "json_fields (JObject values) = fields_fields values"
| "json_fields (JArray values) = items_fields values"
| "json_fields _ = []"
| "fields_fields [] = []"
| "fields_fields ((name, value) # rest) = name # json_fields value @ fields_fields rest"
| "items_fields [] = []"
| "items_fields (value # rest) = json_fields value @ items_fields rest"

definition names_ok :: "string list \<Rightarrow> bool" where
  "names_ok names \<longleftrightarrow> (\<forall>name\<in>set names. length (str_chars name) \<le> MAX_SECRET_FIELD_NAME_CHARS)"

lemma names_ok_simps [simp]:
  "names_ok []" "names_ok (xs @ ys) \<longleftrightarrow> names_ok xs \<and> names_ok ys"
  "names_ok (name # ys) \<longleftrightarrow> length (str_chars name) \<le> MAX_SECRET_FIELD_NAME_CHARS \<and> names_ok ys"
  by (auto simp: names_ok_def)

lemma fields_fields_length: "length kvs \<le> length (fields_fields kvs)"
  by (induction kvs) auto

lemma walk_exact:
  "n \<le> MAX_SECRET_FIELDS \<Longrightarrow> walk v d n = Ok m \<longleftrightarrow>
     m = n + length (json_fields v) \<and> m \<le> MAX_SECRET_FIELDS
     \<and> d + json_height v \<le> Suc MAX_SECRET_NESTING_DEPTH \<and> names_ok (json_fields v)"
  "n \<le> MAX_SECRET_FIELDS \<Longrightarrow> d \<le> Suc MAX_SECRET_NESTING_DEPTH \<Longrightarrow> walk_fields kvs d n = Ok m \<longleftrightarrow>
     m + length kvs = n + length (fields_fields kvs) \<and> m \<le> MAX_SECRET_FIELDS
     \<and> d + fields_height kvs \<le> Suc MAX_SECRET_NESTING_DEPTH \<and> names_ok (fields_fields kvs)"
  "n \<le> MAX_SECRET_FIELDS \<Longrightarrow> d \<le> Suc MAX_SECRET_NESTING_DEPTH \<Longrightarrow> walk_items vs d n = Ok m \<longleftrightarrow>
     m = n + length (items_fields vs) \<and> m \<le> MAX_SECRET_FIELDS
     \<and> d + items_height vs \<le> Suc MAX_SECRET_NESTING_DEPTH \<and> names_ok (items_fields vs)"
proof (induction v d n and kvs d n and vs d n arbitrary: m and m and m rule: walk_walk_fields_walk_items.induct)
  case (1 v d n)
  show ?case
  proof (cases v)
    case (JObject kvs)
    then show ?thesis using 1 fields_fields_length [of kvs] by auto
  qed (use 1 in auto)
next
  case (3 name v rest d n)
  then show ?case using fields_fields_length [of rest] by auto
next
  case (5 v rest d n)
  then show ?case by auto
qed auto

lemma walk_bound_errors:
  "walk v d n = Err e \<Longrightarrow> \<exists>what. e = KvBoundExceeded what"
  "walk_fields kvs d n = Err e \<Longrightarrow> \<exists>what. e = KvBoundExceeded what"
  "walk_items vs d n = Err e \<Longrightarrow> \<exists>what. e = KvBoundExceeded what"
  by (induction v d n and kvs d n and vs d n rule: walk_walk_fields_walk_items.induct)
    (auto split: if_splits json.splits)

text \<open>
  The bounds on a secret are exactly the documented ones. A value is accepted if and only if it
  has at most \<open>MAX_SECRET_NESTING_DEPTH\<close> levels, at most \<open>MAX_SECRET_FIELDS\<close> fields over all levels,
  and no field name of more than \<open>MAX_SECRET_FIELD_NAME_CHARS\<close> characters at any level; a rejection
  is always a bound error.
\<close>

theorem secret_value_bounds:
  "(is_ok (validate_secret_value data) \<longleftrightarrow>
      json_height (JObject data) \<le> MAX_SECRET_NESTING_DEPTH
      \<and> length (json_fields (JObject data)) \<le> MAX_SECRET_FIELDS
      \<and> list_all (\<lambda>name. length (str_chars name) \<le> MAX_SECRET_FIELD_NAME_CHARS) (json_fields (JObject data)))
   \<and> (validate_secret_value data = Ok () \<or> (\<exists>what. validate_secret_value data = Err (KvBoundExceeded what)))"
proof
  let ?n = "length data"
  have run: "walk_fields data 2 ?n = Ok m \<longleftrightarrow> m = length (fields_fields data) \<and> m \<le> MAX_SECRET_FIELDS
      \<and> 2 + fields_height data \<le> Suc MAX_SECRET_NESTING_DEPTH \<and> names_ok (fields_fields data)"
    if "?n \<le> MAX_SECRET_FIELDS" for m
    using walk_exact(2) [OF that, of 2 data m] by auto
  show "is_ok (validate_secret_value data) \<longleftrightarrow>
      json_height (JObject data) \<le> MAX_SECRET_NESTING_DEPTH
      \<and> length (json_fields (JObject data)) \<le> MAX_SECRET_FIELDS
      \<and> list_all (\<lambda>name. length (str_chars name) \<le> MAX_SECRET_FIELD_NAME_CHARS) (json_fields (JObject data))"
    using fields_fields_length [of data] run
    by (auto simp: validate_secret_value_def is_ok_iff names_ok_def list_all_iff Let_def)
  show "validate_secret_value data = Ok () \<or> (\<exists>what. validate_secret_value data = Err (KvBoundExceeded what))"
    by (cases "walk_fields data 2 ?n")
      (auto simp: validate_secret_value_def Let_def dest: walk_bound_errors(2))
qed

end
