(* ===== verification/Management.thy ===== *)
theory Management
  imports Identity_Grants
begin

text \<open>
  The management plane (\<open>control/management.rs\<close>): the registry that assigns every control command
  its phase and capability, and \<open>ManagementCatalog\<close>, the identities and grants with the log of
  completed requests and the audit log. A \<open>BTreeMap\<close> is its sorted association list. A call to
  \<open>expect\<close> that would panic gives \<open>None\<close> in \<open>principal_has_capability\<close>; in \<open>authorize_command\<close>
  the registry rules it out (\<open>command_rule_management\<close>).
\<close>

abbreviation (input) MANAGEMENT_OUTPUT_SCHEMA :: u16 where "MANAGEMENT_OUTPUT_SCHEMA \<equiv> 1"
abbreviation (input) MAX_PAGE_SIZE :: nat where "MAX_PAGE_SIZE \<equiv> 100"
abbreviation (input) MAX_REASON_BYTES :: nat where "MAX_REASON_BYTES \<equiv> 1024"

section \<open>The command registry\<close>

datatype command_phase = PhaseServer | PhaseLocal

datatype control_command =
  CmdIdentityCreate | CmdIdentityList | CmdIdentityShow | CmdIdentityDisable | CmdGrantAdd
  | CmdGrantRemove | CmdGrantList | CmdAuthzExplain | CmdCredentialIssue | CmdCredentialRevoke
  | CmdCheckpointPrepare | CmdCheckpointRegister | CmdCheckpointSign | CmdSigningTrustEnroll
  | CmdSigningTrustTransition | CmdBackupCreate | CmdBackupRecipientMutate
  | CmdBackupSignatureRegister | CmdBackupAbandon | CmdBackupReceiptRegister | CmdBackupList
  | CmdBackupShow | CmdBackupResume | CmdAuditExportCreate | CmdAuditExportRecipientMutate
  | CmdAuditExportSignatureRegister | CmdAuditExportAbandon | CmdAuditExportList
  | CmdAuditExportShow | CmdAuditExportResume | CmdTlsReload | CmdStoreMigratePlan
  | CmdStoreMigrateApply | CmdStoreMigrateAbort | CmdStoreCompactPlan | CmdStoreCompactApply
  | CmdStoreCompactAbort | CmdStoreReserveStatus | CmdStoreReserveRelease
  | CmdStoreReserveRecreate | CmdRecipientRewrap | CmdConsumerList | CmdConsumerShow
  | CmdConsumerReconcile | CmdConsumerCreate | CmdConsumerUpdate | CmdConsumerRetire
  | CmdRotationCreate | CmdRotationUpdate | CmdRotationRetire | CmdRotationLifecycle
  | CmdRotationCatalog | CmdRotationStatus | CmdRotationDue | CmdRotationInterval | CmdDoctor

definition control_command_all :: "control_command list" where
  "control_command_all =
     [CmdIdentityCreate, CmdIdentityList, CmdIdentityShow, CmdIdentityDisable, CmdGrantAdd,
      CmdGrantRemove, CmdGrantList, CmdAuthzExplain, CmdCredentialIssue, CmdCredentialRevoke,
      CmdCheckpointPrepare, CmdCheckpointRegister, CmdCheckpointSign, CmdSigningTrustEnroll,
      CmdSigningTrustTransition, CmdBackupCreate, CmdBackupRecipientMutate,
      CmdBackupSignatureRegister, CmdBackupAbandon, CmdBackupReceiptRegister, CmdBackupList,
      CmdBackupShow, CmdBackupResume, CmdAuditExportCreate, CmdAuditExportRecipientMutate,
      CmdAuditExportSignatureRegister, CmdAuditExportAbandon, CmdAuditExportList,
      CmdAuditExportShow, CmdAuditExportResume, CmdTlsReload, CmdStoreMigratePlan,
      CmdStoreMigrateApply, CmdStoreMigrateAbort, CmdStoreCompactPlan, CmdStoreCompactApply,
      CmdStoreCompactAbort, CmdStoreReserveStatus, CmdStoreReserveRelease,
      CmdStoreReserveRecreate, CmdRecipientRewrap, CmdConsumerList, CmdConsumerShow,
      CmdConsumerReconcile, CmdConsumerCreate, CmdConsumerUpdate, CmdConsumerRetire,
      CmdRotationCreate, CmdRotationUpdate, CmdRotationRetire, CmdRotationLifecycle,
      CmdRotationCatalog, CmdRotationStatus, CmdRotationDue, CmdRotationInterval, CmdDoctor]"

primrec command_rule :: "control_command \<Rightarrow> command_phase \<times> capability option" where
  "command_rule CmdIdentityCreate = (PhaseServer, Some IdentityGrantManage)"
| "command_rule CmdIdentityList = (PhaseServer, Some IdentityGrantManage)"
| "command_rule CmdIdentityShow = (PhaseServer, Some IdentityGrantManage)"
| "command_rule CmdIdentityDisable = (PhaseServer, Some IdentityGrantManage)"
| "command_rule CmdGrantAdd = (PhaseServer, Some IdentityGrantManage)"
| "command_rule CmdGrantRemove = (PhaseServer, Some IdentityGrantManage)"
| "command_rule CmdGrantList = (PhaseServer, Some IdentityGrantManage)"
| "command_rule CmdAuthzExplain = (PhaseServer, Some Diagnostics)"
| "command_rule CmdCredentialIssue = (PhaseServer, Some CredentialIssue)"
| "command_rule CmdCredentialRevoke = (PhaseServer, Some CredentialRevoke)"
| "command_rule CmdCheckpointPrepare = (PhaseServer, Some AuditCheckpointManage)"
| "command_rule CmdCheckpointRegister = (PhaseServer, Some AuditCheckpointManage)"
| "command_rule CmdCheckpointSign = (PhaseLocal, None)"
| "command_rule CmdSigningTrustEnroll = (PhaseServer, Some AuditCheckpointManage)"
| "command_rule CmdSigningTrustTransition = (PhaseServer, Some AuditCheckpointManage)"
| "command_rule CmdBackupCreate = (PhaseServer, Some Backup)"
| "command_rule CmdBackupRecipientMutate = (PhaseServer, Some BackupRecipientManage)"
| "command_rule CmdBackupSignatureRegister = (PhaseServer, Some Backup)"
| "command_rule CmdBackupAbandon = (PhaseServer, Some Backup)"
| "command_rule CmdBackupReceiptRegister = (PhaseServer, Some Backup)"
| "command_rule CmdBackupList = (PhaseServer, Some Backup)"
| "command_rule CmdBackupShow = (PhaseServer, Some Backup)"
| "command_rule CmdBackupResume = (PhaseServer, Some Backup)"
| "command_rule CmdAuditExportCreate = (PhaseServer, Some AuditExport)"
| "command_rule CmdAuditExportRecipientMutate = (PhaseServer, Some AuditExportRecipientManage)"
| "command_rule CmdAuditExportSignatureRegister = (PhaseServer, Some AuditExport)"
| "command_rule CmdAuditExportAbandon = (PhaseServer, Some AuditExport)"
| "command_rule CmdAuditExportList = (PhaseServer, Some AuditExport)"
| "command_rule CmdAuditExportShow = (PhaseServer, Some AuditExport)"
| "command_rule CmdAuditExportResume = (PhaseServer, Some AuditExport)"
| "command_rule CmdTlsReload = (PhaseServer, Some TransportManage)"
| "command_rule CmdStoreMigratePlan = (PhaseServer, Some Diagnostics)"
| "command_rule CmdStoreMigrateApply = (PhaseServer, Some StoreMaintenance)"
| "command_rule CmdStoreMigrateAbort = (PhaseServer, Some StoreMaintenance)"
| "command_rule CmdStoreCompactPlan = (PhaseServer, Some Diagnostics)"
| "command_rule CmdStoreCompactApply = (PhaseServer, Some StoreMaintenance)"
| "command_rule CmdStoreCompactAbort = (PhaseServer, Some StoreMaintenance)"
| "command_rule CmdStoreReserveStatus = (PhaseServer, Some StoreMaintenance)"
| "command_rule CmdStoreReserveRelease = (PhaseServer, Some StoreMaintenance)"
| "command_rule CmdStoreReserveRecreate = (PhaseServer, Some StoreMaintenance)"
| "command_rule CmdRecipientRewrap = (PhaseServer, Some KeyRotation)"
| "command_rule CmdConsumerList = (PhaseServer, Some ConsumerEnumerate)"
| "command_rule CmdConsumerShow = (PhaseServer, Some ConsumerEnumerate)"
| "command_rule CmdConsumerReconcile = (PhaseServer, Some ConsumerEnumerate)"
| "command_rule CmdConsumerCreate = (PhaseServer, Some RotationManage)"
| "command_rule CmdConsumerUpdate = (PhaseServer, Some RotationManage)"
| "command_rule CmdConsumerRetire = (PhaseServer, Some RotationManage)"
| "command_rule CmdRotationCreate = (PhaseServer, Some RotationManage)"
| "command_rule CmdRotationUpdate = (PhaseServer, Some RotationManage)"
| "command_rule CmdRotationRetire = (PhaseServer, Some RotationManage)"
| "command_rule CmdRotationLifecycle = (PhaseServer, Some RotationManage)"
| "command_rule CmdRotationCatalog = (PhaseServer, Some RotationManage)"
| "command_rule CmdRotationStatus = (PhaseServer, Some RotationManage)"
| "command_rule CmdRotationDue = (PhaseServer, Some RotationManage)"
| "command_rule CmdRotationInterval = (PhaseServer, Some RotationManage)"
| "command_rule CmdDoctor = (PhaseServer, Some Diagnostics)"

record command_authorization =
  ca_command :: control_command
  ca_phase :: command_phase
  ca_capability :: "capability option"

definition command_authorization :: "control_command \<Rightarrow> command_authorization" where
  "command_authorization command =
     (let (phase, capability) = command_rule command
      in \<lparr>ca_command = command, ca_phase = phase, ca_capability = capability\<rparr>)"

section \<open>Views\<close>

datatype credential_audience = AudienceControl | AudienceData

record management_principal =
  mp_identity_id :: id16
  mp_audience :: credential_audience
  mp_peer_uid :: u32
  mp_expected_uid :: u32
  mp_credential_active :: bool

datatype management_error =
  MgDenied | MgInvalid | MgConflict | MgNotFound | MgStaleGeneration | MgLimit

text \<open>\<open>format!("{byte:02x}")\<close> over the bytes of an id.\<close>

definition lower_hex :: "bytes \<Rightarrow> string" where
  "lower_hex bs = concat (map (\<lambda>b. [''0123456789abcdef'' ! (unat b div 16), ''0123456789abcdef'' ! (unat b mod 16)]) bs)"

definition encode_id :: "id16 \<Rightarrow> string" where
  "encode_id i = lower_hex (be_bytes 16 i)"

record identity_view =
  iv_id :: string
  iv_name :: string
  iv_kind :: string
  iv_status :: string
  iv_generation :: u64

definition identity_view_of :: "identity_record \<Rightarrow> identity_view" where
  "identity_view_of r =
     \<lparr>iv_id = encode_id (ir_id r), iv_name = ir_name r,
      iv_kind = (case ir_kind r of Human \<Rightarrow> ''human'' | Workload \<Rightarrow> ''workload''),
      iv_status = (case ir_status r of IdentityActive \<Rightarrow> ''active'' | IdentityRetired \<Rightarrow> ''disabled''),
      iv_generation = ir_generation r\<rparr>"

record grant_view =
  gv_id :: string
  gv_owner_identity_id :: string
  gv_generation :: u64
  gv_status :: string
  gv_mount :: string
  gv_scope :: string
  gv_prefix_segments :: "string list"
  gv_capabilities :: "u16 list"

definition grant_view_of :: "grant_record \<Rightarrow> grant_view" where
  "grant_view_of g =
     \<lparr>gv_id = encode_id (gr_id g), gv_owner_identity_id = encode_id (gr_owner_identity_id g),
      gv_generation = gr_generation g,
      gv_status = (case gr_status g of GrantActive \<Rightarrow> ''active'' | GrantRemoved \<Rightarrow> ''removed''),
      gv_mount = gr_mount g,
      gv_scope = (case gr_scope g of Exact \<Rightarrow> ''exact'' | Subtree \<Rightarrow> ''subtree''),
      gv_prefix_segments = gr_prefix_segments g,
      gv_capabilities = map capability_code (gr_capabilities g)\<rparr>"

record 'a page =
  pg_schema :: u16
  pg_items :: "'a list"
  pg_next_cursor :: "string option"

record explain_view =
  ex_schema :: u16
  ex_allow :: bool
  ex_resource_mount :: string
  ex_resource_segments :: "string list"
  ex_operation :: string
  ex_matched_grant :: "string option"
  ex_deny_reason :: "string option"

record management_audit =
  ma_request_id :: id16
  ma_actor_identity_id :: id16
  ma_command :: control_command
  ma_allowed :: bool
  ma_reason :: "string option"

record disable_result =
  dr_identity :: identity_view
  dr_affected_grant_count :: u64
  dr_affected_credential_count :: u64

section \<open>The catalog\<close>

record management_catalog =
  mc_identities :: "(id16 \<times> identity_record) list"
  mc_grants :: "(id16 \<times> grant_record) list"
  mc_completed_requests :: "(id16 \<times> (control_command \<times> id16)) list"
  mc_audit :: "management_audit list"

type_synonym 'a management = "(management_catalog, 'a, management_error) stateful"

primrec collect_rows ::
  "('r \<Rightarrow> id16) \<Rightarrow> 'r list \<Rightarrow> (id16 \<times> 'r) list \<Rightarrow> ((id16 \<times> 'r) list, management_error) result" where
  "collect_rows key [] rows = Ok rows"
| "collect_rows key (r # rs) rows =
     (if bt_contains rows (key r) then Err MgConflict
      else collect_rows key rs (bt_insert (key r) r rows))"

definition management_new ::
  "identity_record list \<Rightarrow> grant_record list \<Rightarrow> (management_catalog, management_error) result" where
  "management_new identities grants =
     rbind (collect_rows ir_id identities []) (\<lambda>identities_by_id.
     rbind (collect_rows gr_id grants []) (\<lambda>grants_by_id.
     rbind (map_err (\<lambda>_. MgInvalid)
              (validate_catalog (map snd identities_by_id) (map snd grants_by_id))) (\<lambda>_.
       Ok \<lparr>mc_identities = identities_by_id, mc_grants = grants_by_id,
           mc_completed_requests = [], mc_audit = []\<rparr>)))"

definition owned_grants :: "management_catalog \<Rightarrow> id16 \<Rightarrow> grant_record list" where
  "owned_grants m owner = filter (\<lambda>g. gr_owner_identity_id g = owner) (map snd (mc_grants m))"

definition identity_active :: "management_catalog \<Rightarrow> id16 \<Rightarrow> bool" where
  "identity_active m i =
     (case bt_get (mc_identities m) i of
        None \<Rightarrow> False
      | Some identity \<Rightarrow> ir_status identity = IdentityActive)"

text \<open>\<open>None\<close>: the capability is not a management capability and \<open>expect\<close> panics.\<close>

definition principal_has_capability ::
  "management_catalog \<Rightarrow> management_principal \<Rightarrow> capability \<Rightarrow> bool option" where
  "principal_has_capability m actor capability =
     (if mp_audience actor = AudienceControl
         \<and> mp_peer_uid actor = mp_expected_uid actor
         \<and> mp_credential_active actor
         \<and> identity_active m (mp_identity_id actor)
      then (case request_management capability of
              Err _ \<Rightarrow> None
            | Ok request \<Rightarrow> Some (ad_allow (authorize request (owned_grants m (mp_identity_id actor)))))
      else Some False)"

definition completed_request ::
  "management_catalog \<Rightarrow> id16 \<Rightarrow> control_command \<Rightarrow> id16 \<Rightarrow> (bool, management_error) result" where
  "completed_request m request_id command target =
     (case bt_get (mc_completed_requests m) request_id of
        Some previous \<Rightarrow> if previous = (command, target) then Ok True else Err MgConflict
      | None \<Rightarrow> Ok False)"

definition push_audit ::
  "management_principal \<Rightarrow> id16 \<Rightarrow> control_command \<Rightarrow> bool \<Rightarrow> string option \<Rightarrow>
     management_catalog \<Rightarrow> management_catalog" where
  "push_audit actor request_id command allowed reason m =
     m\<lparr>mc_audit := mc_audit m @ [\<lparr>ma_request_id = request_id,
          ma_actor_identity_id = mp_identity_id actor, ma_command = command,
          ma_allowed = allowed, ma_reason = reason\<rparr>]\<rparr>"

definition succeed ::
  "management_principal \<Rightarrow> id16 \<Rightarrow> control_command \<Rightarrow> id16 \<Rightarrow> string option \<Rightarrow>
     management_catalog \<Rightarrow> management_catalog" where
  "succeed actor request_id command target reason m =
     push_audit actor request_id command True reason
       (m\<lparr>mc_completed_requests := bt_insert request_id (command, target) (mc_completed_requests m)\<rparr>)"

definition fail ::
  "management_principal \<Rightarrow> id16 \<Rightarrow> control_command \<Rightarrow> management_error \<Rightarrow> 'a management" where
  "fail actor request_id command error m =
     (Err error, push_audit actor request_id command True None m)"

definition record_command_success ::
  "management_principal \<Rightarrow> id16 \<Rightarrow> control_command \<Rightarrow> id16 \<Rightarrow> string option \<Rightarrow> unit management" where
  "record_command_success actor request_id command target reason m =
     (case completed_request m request_id command target of
        Err e \<Rightarrow> (Err e, m)
      | Ok True \<Rightarrow> (Ok (), m)
      | Ok False \<Rightarrow> (Ok (), succeed actor request_id command target reason m))"

definition command_allowed :: "management_catalog \<Rightarrow> management_principal \<Rightarrow> control_command \<Rightarrow> bool" where
  "command_allowed m actor command =
     (let mapping = command_authorization command
      in ca_phase mapping = PhaseServer
         \<and> mp_audience actor = AudienceControl
         \<and> mp_peer_uid actor = mp_expected_uid actor
         \<and> mp_credential_active actor
         \<and> identity_active m (mp_identity_id actor)
         \<and> (case ca_capability mapping of
              None \<Rightarrow> False
            | Some capability \<Rightarrow>
                (case request_management capability of
                   Err _ \<Rightarrow> False
                 | Ok request \<Rightarrow> ad_allow (authorize request (owned_grants m (mp_identity_id actor))))))"

definition authorize_command :: "management_principal \<Rightarrow> control_command \<Rightarrow> id16 \<Rightarrow> unit management" where
  "authorize_command actor command request_id m =
     (if command_allowed m actor command then (Ok (), m)
      else (Err MgDenied, push_audit actor request_id command False None m))"

section \<open>Operations\<close>

definition valid_reason :: "string \<Rightarrow> bool" where
  "valid_reason reason \<longleftrightarrow> \<not> (reason = [] \<or> length reason > MAX_REASON_BYTES \<or> has_control reason)"

definition create_identity ::
  "management_principal \<Rightarrow> id16 \<Rightarrow> id16 \<Rightarrow> string \<Rightarrow> identity_kind \<Rightarrow> identity_view management" where
  "create_identity actor request_id i name kind =
     sbind (authorize_command actor CmdIdentityCreate request_id) (\<lambda>_ m.
       case completed_request m request_id CmdIdentityCreate i of
         Err e \<Rightarrow> (Err e, m)
       | Ok True \<Rightarrow> (ok_or MgConflict (map_option identity_view_of (bt_get (mc_identities m) i)), m)
       | Ok False \<Rightarrow>
           if i = 0 \<or> bt_contains (mc_identities m) i
              \<or> list_ex (\<lambda>identity. ir_name identity = name) (map snd (mc_identities m))
           then fail actor request_id CmdIdentityCreate MgConflict m
           else
             (case identity_new i name kind of
                Err _ \<Rightarrow> (Err MgInvalid, m)
              | Ok identity \<Rightarrow>
                  (Ok (identity_view_of identity),
                   succeed actor request_id CmdIdentityCreate i None
                     (m\<lparr>mc_identities := bt_insert i identity (mc_identities m)\<rparr>))))"

definition disable_result_of :: "management_catalog \<Rightarrow> identity_record \<Rightarrow> disable_result" where
  "disable_result_of m identity =
     \<lparr>dr_identity = identity_view_of identity,
      dr_affected_grant_count = word_of_nat (length (filter
        (\<lambda>g. gr_owner_identity_id g = ir_id identity \<and> gr_status g = GrantActive)
        (map snd (mc_grants m)))),
      dr_affected_credential_count = 0\<rparr>"

definition disable_identity ::
  "management_principal \<Rightarrow> id16 \<Rightarrow> id16 \<Rightarrow> u64 \<Rightarrow> string \<Rightarrow> disable_result management" where
  "disable_identity actor request_id i expected_generation reason =
     sbind (authorize_command actor CmdIdentityDisable request_id) (\<lambda>_ m.
       if \<not> valid_reason reason then fail actor request_id CmdIdentityDisable MgInvalid m
       else case completed_request m request_id CmdIdentityDisable i of
         Err e \<Rightarrow> (Err e, m)
       | Ok True \<Rightarrow> (ok_or MgConflict (map_option (disable_result_of m) (bt_get (mc_identities m) i)), m)
       | Ok False \<Rightarrow>
           (case bt_get (mc_identities m) i of
              None \<Rightarrow> fail actor request_id CmdIdentityDisable MgNotFound m
            | Some identity \<Rightarrow>
                (case identity_retire identity expected_generation of
                   Err _ \<Rightarrow> fail actor request_id CmdIdentityDisable MgStaleGeneration m
                 | Ok replacement \<Rightarrow>
                     let m = succeed actor request_id CmdIdentityDisable i (Some reason)
                               (m\<lparr>mc_identities := bt_insert i replacement (mc_identities m)\<rparr>)
                     in (Ok (disable_result_of m replacement), m))))"

definition same_grant :: "grant_record \<Rightarrow> grant_record \<Rightarrow> bool" where
  "same_grant g current \<longleftrightarrow>
     gr_status current = GrantActive \<and> gr_owner_identity_id current = gr_owner_identity_id g
     \<and> gr_mount current = gr_mount g \<and> gr_scope current = gr_scope g
     \<and> gr_prefix_segments current = gr_prefix_segments g
     \<and> gr_capabilities current = gr_capabilities g"

definition add_grant :: "management_principal \<Rightarrow> id16 \<Rightarrow> grant_record \<Rightarrow> grant_view management" where
  "add_grant actor request_id g =
     sbind (authorize_command actor CmdGrantAdd request_id) (\<lambda>_ m.
       case completed_request m request_id CmdGrantAdd (gr_id g) of
         Err e \<Rightarrow> (Err e, m)
       | Ok True \<Rightarrow> (ok_or MgConflict (map_option grant_view_of (bt_get (mc_grants m) (gr_id g))), m)
       | Ok False \<Rightarrow>
           if \<not> bt_contains (mc_identities m) (gr_owner_identity_id g)
              \<or> bt_contains (mc_grants m) (gr_id g)
              \<or> list_ex (same_grant g) (map snd (mc_grants m))
           then fail actor request_id CmdGrantAdd MgConflict m
           else if \<not> is_ok (grant_validate g) then fail actor request_id CmdGrantAdd MgInvalid m
           else (Ok (grant_view_of g),
                 succeed actor request_id CmdGrantAdd (gr_id g) None
                   (m\<lparr>mc_grants := bt_insert (gr_id g) g (mc_grants m)\<rparr>)))"

definition remove_grant ::
  "management_principal \<Rightarrow> id16 \<Rightarrow> id16 \<Rightarrow> u64 \<Rightarrow> string \<Rightarrow> grant_view management" where
  "remove_grant actor request_id i expected_generation reason =
     sbind (authorize_command actor CmdGrantRemove request_id) (\<lambda>_ m.
       if \<not> valid_reason reason then fail actor request_id CmdGrantRemove MgInvalid m
       else case completed_request m request_id CmdGrantRemove i of
         Err e \<Rightarrow> (Err e, m)
       | Ok True \<Rightarrow> (ok_or MgConflict (map_option grant_view_of (bt_get (mc_grants m) i)), m)
       | Ok False \<Rightarrow>
           (case bt_get (mc_grants m) i of
              None \<Rightarrow> fail actor request_id CmdGrantRemove MgNotFound m
            | Some current \<Rightarrow>
                (case grant_remove current (gr_owner_identity_id current) expected_generation of
                   Err _ \<Rightarrow> fail actor request_id CmdGrantRemove MgStaleGeneration m
                 | Ok replacement \<Rightarrow>
                     (Ok (grant_view_of replacement),
                      succeed actor request_id CmdGrantRemove i (Some reason)
                        (m\<lparr>mc_grants := bt_insert i replacement (mc_grants m)\<rparr>)))))"

definition after_cursor :: "id16 option \<Rightarrow> (id16 \<times> 'r) list \<Rightarrow> (id16 \<times> 'r) list" where
  "after_cursor cursor rows =
     filter (\<lambda>row. case cursor of None \<Rightarrow> True | Some c \<Rightarrow> c < fst row) rows"

definition page_of ::
  "(id16 \<times> 'r) list \<Rightarrow> id16 option \<Rightarrow> nat \<Rightarrow> ('r \<Rightarrow> 'v) \<Rightarrow> ('v page, management_error) result" where
  "page_of rows cursor limit render =
     (if \<not> (1 \<le> limit \<and> limit \<le> MAX_PAGE_SIZE) then Err MgLimit
      else
        let eligible = after_cursor cursor rows;
            taken = take limit eligible
        in Ok \<lparr>pg_schema = MANAGEMENT_OUTPUT_SCHEMA, pg_items = map (render \<circ> snd) taken,
               pg_next_cursor =
                 (if drop limit eligible \<noteq> [] then Some (encode_id (fst (last taken))) else None)\<rparr>)"

text \<open>The common end of the reading commands: record the success or the failure.\<close>

definition answer_read ::
  "management_principal \<Rightarrow> id16 \<Rightarrow> control_command \<Rightarrow> id16 \<Rightarrow> ('a, management_error) result \<Rightarrow> 'a management" where
  "answer_read actor request_id command target r m =
     (case r of
        Ok v \<Rightarrow> (Ok v, succeed actor request_id command target None m)
      | Err e \<Rightarrow> fail actor request_id command e m)"

definition list_identities ::
  "management_principal \<Rightarrow> id16 \<Rightarrow> id16 option \<Rightarrow> nat \<Rightarrow> identity_view page management" where
  "list_identities actor request_id cursor limit =
     sbind (authorize_command actor CmdIdentityList request_id) (\<lambda>_ m.
       answer_read actor request_id CmdIdentityList (case cursor of None \<Rightarrow> 0 | Some c \<Rightarrow> c)
         (page_of (mc_identities m) cursor limit identity_view_of) m)"

definition show_identity :: "management_principal \<Rightarrow> id16 \<Rightarrow> id16 \<Rightarrow> identity_view management" where
  "show_identity actor request_id i =
     sbind (authorize_command actor CmdIdentityShow request_id) (\<lambda>_ m.
       answer_read actor request_id CmdIdentityShow i
         (ok_or MgNotFound (map_option identity_view_of (bt_get (mc_identities m) i))) m)"

definition list_grants ::
  "management_principal \<Rightarrow> id16 \<Rightarrow> id16 \<Rightarrow> id16 option \<Rightarrow> nat \<Rightarrow> grant_view page management" where
  "list_grants actor request_id owner cursor limit =
     sbind (authorize_command actor CmdGrantList request_id) (\<lambda>_ m.
       answer_read actor request_id CmdGrantList owner
         (page_of (filter (\<lambda>(_, g). gr_owner_identity_id g = owner) (mc_grants m)) cursor limit
            grant_view_of) m)"

definition operation_name :: "authorization_operation \<Rightarrow> string" where
  "operation_name operation =
     (case operation of
        OpReadCurrent \<Rightarrow> ''read-current'' | OpReadHistory \<Rightarrow> ''read-history'' | OpList \<Rightarrow> ''list''
      | OpWrite \<Rightarrow> ''write'' | OpSoftDelete \<Rightarrow> ''soft-delete'' | OpUndelete \<Rightarrow> ''undelete''
      | OpDestroy \<Rightarrow> ''destroy'' | OpDestroyAll \<Rightarrow> ''destroy-all'' | OpManagement \<Rightarrow> ''management'')"

definition deny_reason_name :: "deny_reason \<Rightarrow> string" where
  "deny_reason_name reason =
     (case reason of
        NoGrantForMount \<Rightarrow> ''no-grant-for-mount'' | PrefixBoundaryMiss \<Rightarrow> ''prefix-boundary-miss''
      | MissingCapability \<Rightarrow> ''missing-capability'')"

definition explain ::
  "management_principal \<Rightarrow> id16 \<Rightarrow> id16 \<Rightarrow> authorization_request \<Rightarrow> explain_view management" where
  "explain actor request_id identity_id request =
     sbind (authorize_command actor CmdAuthzExplain request_id) (\<lambda>_ m.
       case bt_get (mc_identities m) identity_id of
         None \<Rightarrow> fail actor request_id CmdAuthzExplain MgNotFound m
       | Some identity \<Rightarrow>
           let decision =
                 (if ir_status identity = IdentityActive
                  then authorize request (owned_grants m identity_id)
                  else \<lparr>ad_allow = False, ad_resource = rq_resource request,
                        ad_operation = rq_operation request, ad_matched_grant = None,
                        ad_deny_reason = Some NoGrantForMount\<rparr>);
               view = \<lparr>ex_schema = MANAGEMENT_OUTPUT_SCHEMA, ex_allow = ad_allow decision,
                       ex_resource_mount = az_mount (ad_resource decision),
                       ex_resource_segments = az_segments (ad_resource decision),
                       ex_operation = operation_name (ad_operation decision),
                       ex_matched_grant = map_option encode_id (ad_matched_grant decision),
                       ex_deny_reason = map_option deny_reason_name (ad_deny_reason decision)\<rparr>
           in (Ok view, succeed actor request_id CmdAuthzExplain identity_id None m))"

end
