(* ===== verification/Management_Safety.thy ===== *)
theory Management_Safety
  imports Management
begin

text \<open>
  What the management plane promises: the transitions of the catalog as an abstract step relation
  with the authorization in its guards, that every operation is one of these steps, the invariant of
  the catalog along every run, and that following the cursors of the listings enumerates every row.
\<close>

section \<open>The registry\<close>

text \<open>The registry names management capabilities only, so \<open>expect\<close> in \<open>authorize_command\<close> holds.\<close>

lemma command_rule_management:
  "ca_capability (command_authorization c) = Some k \<Longrightarrow>
     request_management k = Ok \<lparr>rq_resource = \<lparr>az_mount = MANAGEMENT_MOUNT, az_segments = []\<rparr>,
       rq_operation = OpManagement, rq_capability = k\<rparr>"
  by (cases c) (auto simp: command_authorization_def request_management_def is_management_def is_secret_def
      capability_code.simps)

text \<open>Only a live control-plane credential of the right user, of an active identity, with a grant.\<close>

definition may_command :: "management_catalog \<Rightarrow> management_principal \<Rightarrow> capability \<Rightarrow> bool" where
  "may_command m actor k \<longleftrightarrow>
     mp_audience actor = AudienceControl \<and> mp_peer_uid actor = mp_expected_uid actor
     \<and> mp_credential_active actor \<and> identity_active m (mp_identity_id actor)
     \<and> (\<exists>g\<in>snd ` set (mc_grants m). gr_owner_identity_id g = mp_identity_id actor
          \<and> gr_status g = GrantActive \<and> k \<in> set (gr_capabilities g)
          \<and> shape_matches g \<lparr>az_mount = MANAGEMENT_MOUNT, az_segments = []\<rparr>)"

lemma set_owned_grants: "set (owned_grants m i) = {g \<in> snd ` set (mc_grants m). gr_owner_identity_id g = i}"
  by (auto simp: owned_grants_def)

lemma command_allowed_iff:
  "command_allowed m actor c \<longleftrightarrow> ca_phase (command_authorization c) = PhaseServer
     \<and> (\<exists>k. ca_capability (command_authorization c) = Some k \<and> may_command m actor k)"
  by (auto simp: command_allowed_def may_command_def authorize_allow_iff permits_def set_owned_grants
      command_rule_management Let_def split: option.split)

section \<open>The transitions\<close>

text \<open>
  One call on the catalog: denied with its event, unchanged rows with at most one event, or one of
  the four mutations, each by a permitted actor and recorded under its request id.
\<close>

inductive mgmt_step :: "management_catalog \<Rightarrow> management_catalog \<Rightarrow> bool" where
  step_denied: "\<not> command_allowed m actor c \<Longrightarrow> mgmt_step m (push_audit actor q c False None m)"
| step_rows: "mc_identities n = mc_identities m \<Longrightarrow> mc_grants n = mc_grants m \<Longrightarrow>
    mc_audit n = mc_audit m \<or> (\<exists>ev. mc_audit n = mc_audit m @ [ev] \<and> ma_allowed ev) \<Longrightarrow>
    mc_completed_requests n = mc_completed_requests m
      \<or> (\<exists>q t. mc_completed_requests n = bt_insert q t (mc_completed_requests m)) \<Longrightarrow> mgmt_step m n"
| step_create: "may_command m actor IdentityGrantManage \<Longrightarrow> identity_new i name kind = Ok r \<Longrightarrow>
    i \<notin> fst ` set (mc_identities m) \<Longrightarrow> name \<notin> (ir_name \<circ> snd) ` set (mc_identities m) \<Longrightarrow>
    mgmt_step m (succeed actor q CmdIdentityCreate i None
      (m\<lparr>mc_identities := bt_insert i r (mc_identities m)\<rparr>))"
| step_disable: "may_command m actor IdentityGrantManage \<Longrightarrow> valid_reason reason \<Longrightarrow>
    bt_get (mc_identities m) i = Some r \<Longrightarrow> identity_retire r g = Ok r' \<Longrightarrow>
    mgmt_step m (succeed actor q CmdIdentityDisable i (Some reason)
      (m\<lparr>mc_identities := bt_insert i r' (mc_identities m)\<rparr>))"
| step_grant: "may_command m actor IdentityGrantManage \<Longrightarrow> grant_validate g = Ok () \<Longrightarrow>
    gr_id g \<notin> fst ` set (mc_grants m) \<Longrightarrow> gr_owner_identity_id g \<in> fst ` set (mc_identities m) \<Longrightarrow>
    mgmt_step m (succeed actor q CmdGrantAdd (gr_id g) None
      (m\<lparr>mc_grants := bt_insert (gr_id g) g (mc_grants m)\<rparr>))"
| step_ungrant: "may_command m actor IdentityGrantManage \<Longrightarrow> valid_reason reason \<Longrightarrow>
    bt_get (mc_grants m) i = Some g \<Longrightarrow> grant_remove g (gr_owner_identity_id g) e = Ok g' \<Longrightarrow>
    mgmt_step m (succeed actor q CmdGrantRemove i (Some reason)
      (m\<lparr>mc_grants := bt_insert i g' (mc_grants m)\<rparr>))"

lemma push_audit_frame [simp]:
  "mc_identities (push_audit a q c b r m) = mc_identities m"
  "mc_grants (push_audit a q c b r m) = mc_grants m"
  "mc_completed_requests (push_audit a q c b r m) = mc_completed_requests m"
  by (simp_all add: push_audit_def)

lemma succeed_frame [simp]:
  "mc_identities (succeed a q c t r m) = mc_identities m" "mc_grants (succeed a q c t r m) = mc_grants m"
  by (simp_all add: succeed_def)

lemma step_same [simp]: "mgmt_step m m"
  by (rule step_rows) auto

lemma step_failed [simp]: "mgmt_step m (snd (fail actor q c e m))"
  by (rule step_rows) (auto simp: fail_def push_audit_def)

lemma step_succeeded [simp]: "mgmt_step m (succeed actor q c t reason m)"
  by (rule step_rows) (auto simp: succeed_def push_audit_def)

lemma step_answered [simp]: "mgmt_step m (snd (answer_read actor q c t r m))"
  by (cases r) (simp_all add: answer_read_def)

text \<open>A permitted call continues in the same catalog; a denied one ends there.\<close>

lemma step_authorized:
  "(command_allowed m actor c \<Longrightarrow> mgmt_step m (snd (f () m))) \<Longrightarrow>
   mgmt_step m (snd (sbind (authorize_command actor c q) f m))"
  by (simp add: sbind_def authorize_command_def step_denied)

lemmas may_manage = command_allowed_iff [of _ _ CmdIdentityCreate] command_allowed_iff [of _ _ CmdIdentityDisable]
  command_allowed_iff [of _ _ CmdGrantAdd] command_allowed_iff [of _ _ CmdGrantRemove]

lemma create_identity_step: "mgmt_step m (snd (create_identity actor q i name kind m))"
  unfolding create_identity_def
  by (rule step_authorized)
    (auto simp: may_manage command_authorization_def bt_contains_iff list_ex_iff image_iff
      split: result.splits bool.splits intro!: step_create)

lemma disable_identity_step: "mgmt_step m (snd (disable_identity actor q i g reason m))"
  unfolding disable_identity_def
  by (rule step_authorized)
    (auto simp: may_manage command_authorization_def Let_def
      split: result.splits bool.splits option.splits intro!: step_disable)

lemma add_grant_step: "mgmt_step m (snd (add_grant actor q g m))"
  unfolding add_grant_def
  by (rule step_authorized)
    (auto simp: may_manage command_authorization_def bt_contains_iff is_ok_iff
      split: result.splits bool.splits intro!: step_grant)

lemma remove_grant_step: "mgmt_step m (snd (remove_grant actor q i e reason m))"
  unfolding remove_grant_def
  by (rule step_authorized)
    (auto simp: may_manage command_authorization_def
      split: result.splits bool.splits option.splits intro!: step_ungrant)

lemma explain_step: "mgmt_step m (snd (explain actor q i request m))"
  unfolding explain_def by (rule step_authorized) (simp add: Let_def split: option.split)

lemma list_identities_step: "mgmt_step m (snd (list_identities actor q cursor limit m))"
  unfolding list_identities_def by (rule step_authorized) simp

lemma show_identity_step: "mgmt_step m (snd (show_identity actor q i m))"
  unfolding show_identity_def by (rule step_authorized) simp

lemma list_grants_step: "mgmt_step m (snd (list_grants actor q owner cursor limit m))"
  unfolding list_grants_def by (rule step_authorized) simp

lemma record_command_success_step: "mgmt_step m (snd (record_command_success actor q c t reason m))"
  by (simp add: record_command_success_def split: result.split bool.split)

lemma authorize_command_step: "mgmt_step m (snd (authorize_command actor c q m))"
  by (simp add: authorize_command_def step_denied)

text \<open>The calls of the catalog.\<close>

datatype mgmt_call =
  MgCreate management_principal id16 id16 string identity_kind
| MgDisable management_principal id16 id16 u64 string
| MgAddGrant management_principal id16 grant_record
| MgRemoveGrant management_principal id16 id16 u64 string
| MgListIdentities management_principal id16 "id16 option" nat
| MgShowIdentity management_principal id16 id16
| MgListGrants management_principal id16 id16 "id16 option" nat
| MgExplain management_principal id16 id16 authorization_request
| MgRecord management_principal id16 control_command id16 "string option"
| MgAuthorize management_principal control_command id16

primrec mgmt_apply :: "mgmt_call \<Rightarrow> management_catalog \<Rightarrow> management_catalog" where
  "mgmt_apply (MgCreate actor q i name kind) m = snd (create_identity actor q i name kind m)"
| "mgmt_apply (MgDisable actor q i g reason) m = snd (disable_identity actor q i g reason m)"
| "mgmt_apply (MgAddGrant actor q g) m = snd (add_grant actor q g m)"
| "mgmt_apply (MgRemoveGrant actor q i e reason) m = snd (remove_grant actor q i e reason m)"
| "mgmt_apply (MgListIdentities actor q cursor limit) m = snd (list_identities actor q cursor limit m)"
| "mgmt_apply (MgShowIdentity actor q i) m = snd (show_identity actor q i m)"
| "mgmt_apply (MgListGrants actor q owner cursor limit) m = snd (list_grants actor q owner cursor limit m)"
| "mgmt_apply (MgExplain actor q i request) m = snd (explain actor q i request m)"
| "mgmt_apply (MgRecord actor q c t reason) m = snd (record_command_success actor q c t reason m)"
| "mgmt_apply (MgAuthorize actor c q) m = snd (authorize_command actor c q m)"

lemma mgmt_apply_step: "mgmt_step m (mgmt_apply call m)"
  by (cases call)
    (simp_all add: create_identity_step disable_identity_step add_grant_step remove_grant_step
      list_identities_step show_identity_step list_grants_step explain_step record_command_success_step
      authorize_command_step)

section \<open>The invariant\<close>

definition mgmt_ok :: "management_catalog \<Rightarrow> bool" where
  "mgmt_ok m \<longleftrightarrow> btree (mc_identities m) \<and> btree (mc_grants m)
     \<and> (\<forall>(i, r)\<in>set (mc_identities m). ir_id r = i \<and> identity_validate r = Ok ())
     \<and> inj_on (ir_name \<circ> snd) (set (mc_identities m))
     \<and> (\<forall>(i, g)\<in>set (mc_grants m). gr_id g = i \<and> grant_validate g = Ok ()
          \<and> gr_owner_identity_id g \<in> fst ` set (mc_identities m))"

text \<open>A row either stays as it is or is retracted, once, with a greater generation.\<close>

definition identity_forward :: "identity_record \<Rightarrow> identity_record \<Rightarrow> bool" where
  "identity_forward r r' \<longleftrightarrow> r' = r \<or> (ir_status r = IdentityActive \<and> ir_generation r < ir_generation r'
     \<and> r' = r\<lparr>ir_status := IdentityRetired, ir_generation := ir_generation r'\<rparr>)"

definition grant_forward :: "grant_record \<Rightarrow> grant_record \<Rightarrow> bool" where
  "grant_forward g g' \<longleftrightarrow> g' = g \<or> (gr_status g = GrantActive \<and> gr_generation g < gr_generation g'
     \<and> g' = g\<lparr>gr_status := GrantRemoved, gr_generation := gr_generation g'\<rparr>)"

definition mgmt_le :: "management_catalog \<Rightarrow> management_catalog \<Rightarrow> bool" where
  "mgmt_le m n \<longleftrightarrow>
     (\<forall>i r. bt_get (mc_identities m) i = Some r \<longrightarrow>
        (\<exists>r'. bt_get (mc_identities n) i = Some r' \<and> identity_forward r r'))
     \<and> (\<forall>i g. bt_get (mc_grants m) i = Some g \<longrightarrow>
        (\<exists>g'. bt_get (mc_grants n) i = Some g' \<and> grant_forward g g'))
     \<and> (\<exists>es. mc_audit n = mc_audit m @ es)"

lemma forward_refl [simp]: "identity_forward r r" "grant_forward g g"
  by (simp_all add: identity_forward_def grant_forward_def)

lemma identity_forward_trans: "identity_forward a b \<Longrightarrow> identity_forward b c \<Longrightarrow> identity_forward a c"
  unfolding identity_forward_def by (cases a; cases b; cases c) auto

lemma grant_forward_trans: "grant_forward a b \<Longrightarrow> grant_forward b c \<Longrightarrow> grant_forward a c"
  unfolding grant_forward_def by (cases a; cases b; cases c) auto

lemma mgmt_le_trans: "mgmt_le a b \<Longrightarrow> mgmt_le b c \<Longrightarrow> mgmt_le a c"
  unfolding mgmt_le_def by (meson append_assoc identity_forward_trans grant_forward_trans) (metis append_assoc)

lemma identity_retire_forward: "identity_retire r g = Ok r' \<Longrightarrow>
    identity_forward r r' \<and> ir_id r' = ir_id r \<and> ir_name r' = ir_name r
    \<and> (identity_validate r = Ok () \<longrightarrow> identity_validate r' = Ok ())"
  using identity_cas.retract_forward [of r g r']
  by (auto simp: identity_retire_def identity_forward_def identity_validate_def word_neq_0_conv split: if_splits)

lemma grant_remove_forward: "grant_remove g (gr_owner_identity_id g) e = Ok g' \<Longrightarrow>
    grant_forward g g' \<and> gr_id g' = gr_id g \<and> gr_owner_identity_id g' = gr_owner_identity_id g
    \<and> (grant_validate g = Ok () \<longrightarrow> grant_validate g' = Ok ())"
  using grant_cas.retract_forward [of g "gr_owner_identity_id g" e g']
  by (auto simp: grant_remove_def grant_forward_def grant_validate_def word_neq_0_conv split: if_splits)

lemma identity_new_ok: "identity_new i name kind = Ok r \<Longrightarrow> ir_id r = i \<and> ir_name r = name \<and> identity_validate r = Ok ()"
  by (auto simp: identity_new_def Let_def)

text \<open>Replacing or adding one row.\<close>

lemma mgmt_ok_put_identity:
  assumes "mgmt_ok m" and "ir_id r = i" and "identity_validate r = Ok ()"
    and "\<And>j s. (j, s) \<in> set (mc_identities m) \<Longrightarrow> j \<noteq> i \<Longrightarrow> ir_name s \<noteq> ir_name r"
  shows "mgmt_ok (m\<lparr>mc_identities := bt_insert i r (mc_identities m)\<rparr>)"
proof -
  let ?ids = "bt_insert i r (mc_identities m)"
  have set: "set ?ids = insert (i, r) {p \<in> set (mc_identities m). fst p \<noteq> i}"
    using assms(1) by (simp add: mgmt_ok_def set_bt_insert)
  have "inj_on (ir_name \<circ> snd) {p \<in> set (mc_identities m). fst p \<noteq> i}"
    using assms(1) unfolding mgmt_ok_def by (blast intro: inj_on_subset)
  moreover have "ir_name r \<notin> (ir_name \<circ> snd) ` {p \<in> set (mc_identities m). fst p \<noteq> i}"
    using assms(4) by force
  ultimately have "inj_on (ir_name \<circ> snd) (set ?ids)"
    unfolding set by (auto simp: inj_on_insert)
  moreover have "\<forall>(j, s)\<in>set ?ids. ir_id s = j \<and> identity_validate s = Ok ()"
    using assms(1-3) unfolding set by (auto simp: mgmt_ok_def)
  ultimately show ?thesis
    using assms(1) unfolding mgmt_ok_def by auto
qed

lemma mgmt_ok_put_grant:
  assumes "mgmt_ok m" and "gr_id g = i" and "grant_validate g = Ok ()"
    and "gr_owner_identity_id g \<in> fst ` set (mc_identities m)"
  shows "mgmt_ok (m\<lparr>mc_grants := bt_insert i g (mc_grants m)\<rparr>)"
  using assms unfolding mgmt_ok_def by (auto simp: set_bt_insert)

lemma mgmt_ok_rows: "mc_identities n = mc_identities m \<Longrightarrow> mc_grants n = mc_grants m \<Longrightarrow> mgmt_ok m \<Longrightarrow> mgmt_ok n"
  by (simp add: mgmt_ok_def)

lemma mgmt_ok_succeed [simp]: "mgmt_ok (succeed a q c t r m) = mgmt_ok m"
  by (simp add: mgmt_ok_def)

lemma mgmt_ok_name: "mgmt_ok m \<Longrightarrow> (i, r) \<in> set (mc_identities m) \<Longrightarrow> (j, s) \<in> set (mc_identities m) \<Longrightarrow>
    ir_name r = ir_name s \<Longrightarrow> i = j"
  unfolding mgmt_ok_def inj_on_def by fastforce

lemma mgmt_step_ok: "mgmt_step m n \<Longrightarrow> mgmt_ok m \<Longrightarrow> mgmt_ok n"
proof (induction rule: mgmt_step.induct)
  case (step_create m actor i name kind r q)
  then show ?case
    using identity_new_ok [of i name kind r] by (force intro!: mgmt_ok_put_identity)
next
  case (step_disable m actor reason i r g r' q)
  then have row: "(i, r) \<in> set (mc_identities m)" by (simp add: bt_get_in_set)
  then have r: "ir_id r = i" "identity_validate r = Ok ()"
    using step_disable(5) by (auto simp: mgmt_ok_def)
  have "mgmt_ok (m\<lparr>mc_identities := bt_insert i r' (mc_identities m)\<rparr>)"
  proof (rule mgmt_ok_put_identity [OF step_disable(5)])
    show "ir_id r' = i" "identity_validate r' = Ok ()"
      using r identity_retire_forward [OF step_disable(4)] by simp_all
    show "ir_name s \<noteq> ir_name r'" if "(j, s) \<in> set (mc_identities m)" "j \<noteq> i" for j s
      using that mgmt_ok_name [OF step_disable(5) row] identity_retire_forward [OF step_disable(4)] by auto
  qed
  then show ?case by simp
next
  case (step_grant m actor g q)
  then show ?case by (simp add: mgmt_ok_put_grant)
next
  case (step_ungrant m actor reason i g e g' q)
  then have "(i, g) \<in> set (mc_grants m)" by (simp add: bt_get_in_set)
  then have "gr_id g = i" "grant_validate g = Ok ()" "gr_owner_identity_id g \<in> fst ` set (mc_identities m)"
    using step_ungrant(5) by (auto simp: mgmt_ok_def)
  then show ?case
    using grant_remove_forward [OF step_ungrant(4)] mgmt_ok_put_grant [OF step_ungrant(5), of g' i] by simp
qed (auto intro: mgmt_ok_rows)

lemma mgmt_le_refl: "mgmt_le m m"
  by (simp add: mgmt_le_def)

lemma mgmt_le_push [simp]: "mgmt_le m (push_audit a q c b r m)"
  by (simp add: mgmt_le_def push_audit_def)

lemma mgmt_le_succeed: "mgmt_le m n \<Longrightarrow> mgmt_le m (succeed a q c t r n)"
  by (auto simp: mgmt_le_def succeed_def push_audit_def)

lemma mgmt_step_le: "mgmt_step m n \<Longrightarrow> mgmt_ok m \<Longrightarrow> mgmt_le m n"
proof (induction rule: mgmt_step.induct)
  case (step_create m actor i name kind r q)
  then show ?case
    by (intro mgmt_le_succeed) (auto simp: mgmt_le_def mgmt_ok_def bt_get_insert bt_get_None [symmetric])
next
  case (step_disable m actor reason i r g r' q)
  then show ?case
    by (intro mgmt_le_succeed)
      (auto simp: mgmt_le_def mgmt_ok_def bt_get_insert identity_retire_forward)
next
  case (step_grant m actor g q)
  then show ?case
    by (intro mgmt_le_succeed) (auto simp: mgmt_le_def mgmt_ok_def bt_get_insert bt_get_None [symmetric])
next
  case (step_ungrant m actor reason i g e g' q)
  then show ?case
    by (intro mgmt_le_succeed)
      (auto simp: mgmt_le_def mgmt_ok_def bt_get_insert grant_remove_forward)
qed (auto simp: mgmt_le_def push_audit_def)

definition mgmt_move :: "management_catalog \<Rightarrow> management_catalog \<Rightarrow> bool" where
  "mgmt_move m n \<longleftrightarrow> mgmt_ok m \<and> mgmt_step m n"

interpretation management: step_invariant mgmt_ok mgmt_step mgmt_ok
  by unfold_locales (auto intro: mgmt_step_ok)

interpretation management_order: step_preorder mgmt_move mgmt_le
  by unfold_locales (auto simp: mgmt_move_def intro: mgmt_le_refl mgmt_le_trans mgmt_step_le)

definition mgmt_run :: "mgmt_call list \<Rightarrow> management_catalog \<Rightarrow> management_catalog" where
  "mgmt_run calls m = foldl (\<lambda>m call. mgmt_apply call m) m calls"

lemma mgmt_run_steps: "mgmt_ok m \<Longrightarrow> mgmt_move\<^sup>*\<^sup>* m (mgmt_run calls m) \<and> mgmt_ok (mgmt_run calls m)"
  unfolding mgmt_run_def
proof (induction calls rule: rev_induct)
  case (snoc call calls)
  then show ?case
    using mgmt_apply_step mgmt_step_ok
    by (auto simp: mgmt_move_def intro: rtranclp.rtrancl_into_rtrancl)
qed simp

lemma collect_rows_Ok:
  "collect_rows key rs rows = Ok rows' \<Longrightarrow> btree rows \<Longrightarrow>
     btree rows' \<and> set rows' = set rows \<union> (\<lambda>r. (key r, r)) ` set rs"
  by (induction rs arbitrary: rows)
    (auto simp: bt_contains_iff set_bt_insert image_iff split: if_splits) 

lemma validate_catalog_Ok:
  "validate_catalog is gs = Ok () \<longleftrightarrow>
     (\<forall>i\<in>set is. identity_validate i = Ok ()) \<and> distinct (map ir_id is) \<and> distinct (map ir_name is)
     \<and> (\<forall>g\<in>set gs. grant_validate g = Ok () \<and> gr_owner_identity_id g \<in> ir_id ` set is) \<and> distinct (map gr_id gs)"
  by (auto simp: validate_catalog_def validate_identities_Ok validate_grants_Ok bt_contains_identities_by_id)

lemma keyed_rows:
  "(\<forall>(i, r)\<in>set rows. key r = i) \<Longrightarrow> map key (map snd rows) = map fst rows"
  "(\<forall>(i, r)\<in>set rows. key r = i) \<Longrightarrow> key ` snd ` set rows = fst ` set rows"
  by (auto simp: image_iff split_beta) force

lemma mgmt_ok_validates:
  assumes "mgmt_ok m"
  shows "validate_catalog (map snd (mc_identities m)) (map snd (mc_grants m)) = Ok ()"
proof -
  have ids: "\<forall>(i, r)\<in>set (mc_identities m). ir_id r = i" and gs: "\<forall>(i, g)\<in>set (mc_grants m). gr_id g = i"
    using assms by (auto simp: mgmt_ok_def)
  have keys: "distinct (map fst (mc_identities m))" "distinct (map fst (mc_grants m))"
    using assms btree_distinct by (auto simp: mgmt_ok_def)
  then have "distinct (map ir_name (map snd (mc_identities m)))"
    using assms by (simp add: mgmt_ok_def distinct_map)
  moreover have "distinct (map ir_id (map snd (mc_identities m)))" "distinct (map gr_id (map snd (mc_grants m)))"
    unfolding keyed_rows(1) [OF ids] keyed_rows(1) [OF gs] using keys by simp_all
  ultimately show ?thesis
    using assms keyed_rows(2) [OF ids]
    by (auto simp: mgmt_ok_def validate_catalog_Ok simp del: map_map)
qed

lemma management_new_ok:
  assumes "management_new is gs = Ok m"
  shows "mgmt_ok m"
proof -
  from assms have ids: "collect_rows ir_id is [] = Ok (mc_identities m)"
    and gs: "collect_rows gr_id gs [] = Ok (mc_grants m)"
    and valid: "validate_catalog (map snd (mc_identities m)) (map snd (mc_grants m)) = Ok ()"
    by (auto simp: management_new_def)
  have rows: "btree (mc_identities m)" "btree (mc_grants m)" "\<forall>(i, r)\<in>set (mc_identities m). ir_id r = i"
    "\<forall>(i, g)\<in>set (mc_grants m). gr_id g = i"
    using collect_rows_Ok [OF ids] collect_rows_Ok [OF gs] by auto
  show ?thesis
    using rows valid keyed_rows(2) [OF rows(3)]
    by (auto simp: mgmt_ok_def validate_catalog_Ok distinct_map inj_on_def split_beta)
qed

section \<open>Properties\<close>


definition sample_actor :: management_principal where
  "sample_actor = \<lparr>mp_identity_id = 2, mp_audience = AudienceControl, mp_peer_uid = 0,
     mp_expected_uid = 0, mp_credential_active = True\<rparr>"

definition sample_admin_grant :: grant_record where
  "sample_admin_grant = \<lparr>gr_id = 8, gr_owner_identity_id = 2, gr_generation = 1, gr_status = GrantActive,
     gr_mount = ''sys'', gr_scope = Exact, gr_prefix_segments = [], gr_capabilities = [IdentityGrantManage]\<rparr>"

definition sample_management :: management_catalog where
  "sample_management = \<lparr>mc_identities = [(2, sample_identity)], mc_grants = [(8, sample_admin_grant)],
     mc_completed_requests = [], mc_audit = []\<rparr>"

lemmas management_samples = sample_actor_def sample_admin_grant_def sample_management_def sample_identity_def

lemma sample_management_new: "management_new [sample_identity] [sample_admin_grant] = Ok sample_management"
  by (simp add: management_new_def management_samples bt_contains_def bt_get_def validate_catalog_def
      identity_validate_def valid_label_def grant_validate_def valid_mount_def is_secret_def is_management_def
      identities_by_id_def str_bytes_def byte_of_char_def is_ascii_alphanumeric_def)

lemma sample_disable:
  "mgmt_apply (MgDisable sample_actor 5 2 3 ''left'') sample_management =
     succeed sample_actor 5 CmdIdentityDisable 2 (Some ''left'') (sample_management\<lparr>mc_identities :=
       [(2, sample_identity\<lparr>ir_status := IdentityRetired, ir_generation := 4\<rparr>)]\<rparr>)"
  by (simp add: disable_identity_def sbind_def authorize_command_def command_allowed_iff may_command_def
      command_authorization_def identity_active_def management_samples bt_get_def shape_matches_def
      valid_reason_def has_control_def str_chars_def str_bytes_def byte_of_char_def char_is_control_def
      completed_request_def identity_retire_def checked_add_def Let_def)


text \<open>
  C30: Every run of the management plane. From a catalog accepted at construction, after any calls
  the catalog still passes the catalog check, and whatever calls follow no row is lost: an identity
  or grant stays as it is or is retired, once, with a greater generation and no other change, and
  the audit log only grows. In particular a disabled identity never again passes the authorization
  of a control command.
\<close>

theorem management_runs:
  assumes "management_new is gs = Ok m0" and "m = mgmt_run calls m0" and "n = mgmt_run later m"
  shows "validate_catalog (map snd (mc_identities m)) (map snd (mc_grants m)) = Ok () \<and> mgmt_le m n
    \<and> (\<forall>r. bt_get (mc_identities m) (mp_identity_id actor) = Some r \<and> ir_status r = IdentityRetired \<longrightarrow>
        \<not> command_allowed n actor c)"
proof -
  have ok: "mgmt_ok m"
    using mgmt_run_steps [OF management_new_ok [OF assms(1)]] assms(2) by simp
  have le: "mgmt_le m n"
    using mgmt_run_steps [OF ok, of later] management_order.steps_le assms(3) by simp
  have "\<not> command_allowed n actor c"
    if r: "bt_get (mc_identities m) (mp_identity_id actor) = Some r" "ir_status r = IdentityRetired" for r
  proof -
    obtain r' where "bt_get (mc_identities n) (mp_identity_id actor) = Some r'" "identity_forward r r'"
      using le r(1) unfolding mgmt_le_def by blast
    with r(2) show ?thesis
      by (auto simp: identity_forward_def command_allowed_iff may_command_def identity_active_def)
  qed
  then show ?thesis using ok le by (simp add: mgmt_ok_validates)
qed

theorem management_runs_witness:
  "\<exists>m n. m = mgmt_run [MgDisable sample_actor 5 2 3 ''left''] sample_management
     \<and> n = mgmt_run [MgShowIdentity sample_actor 6 2] m \<and> \<not> command_allowed n sample_actor CmdIdentityShow"
proof -
  obtain m n where m: "m = mgmt_run [MgDisable sample_actor 5 2 3 ''left''] sample_management"
    and n: "n = mgmt_run [MgShowIdentity sample_actor 6 2] m" by blast
  have "bt_get (mc_identities m) (mp_identity_id sample_actor)
      = Some (sample_identity\<lparr>ir_status := IdentityRetired, ir_generation := 4\<rparr>)"
    unfolding m mgmt_run_def
    by (simp add: sample_disable bt_get_def del: mgmt_apply.simps) (simp add: sample_actor_def)
  with management_runs [OF sample_management_new m n] m n show ?thesis by auto
qed

section \<open>Listing\<close>

lemma hex_digit_inject:
  "m < 16 \<Longrightarrow> n < 16 \<Longrightarrow> ''0123456789abcdef'' ! m = ''0123456789abcdef'' ! n \<longleftrightarrow> m = n"
  by (rule nth_eq_iff_index_eq) simp_all

lemma lower_hex_inject: "length as = length bs \<Longrightarrow> lower_hex as = lower_hex bs \<longleftrightarrow> as = bs"
proof (induction as bs rule: list_induct2)
  case (Cons a as b bs)
  have digits: "unat x div 16 < 16" "unat x mod 16 < 16" for x :: u8
    using unat_u8_less [of x] by (simp_all add: div_less_iff_less_mult)
  have "unat a = unat b" if "unat a div 16 = unat b div 16" "unat a mod 16 = unat b mod 16"
    using that by (metis div_mult_mod_eq)
  then have "a = b" if "unat a div 16 = unat b div 16" "unat a mod 16 = unat b mod 16"
    using that by (simp add: word_unat_eq_iff)
  then show ?case
    using Cons hex_digit_inject [OF digits(1) digits(1), of a b] hex_digit_inject [OF digits(2) digits(2), of a b]
    by (auto simp: lower_hex_def)
qed simp

lemma encode_id_inject [simp]: "encode_id i = encode_id j \<longleftrightarrow> i = j"
  unfolding encode_id_def by (subst lower_hex_inject) (simp_all add: be_bytes_inject)

text \<open>
  A client that follows the cursors: it asks for a page, and while there is a next cursor decodes it
  (\<open>parse\<close>) and asks for the page after it.
\<close>

primrec enumerate_pages ::
  "(string \<Rightarrow> id16 option) \<Rightarrow> nat \<Rightarrow> (id16 \<times> 'r) list \<Rightarrow> ('r \<Rightarrow> 'v) \<Rightarrow> nat \<Rightarrow> id16 option \<Rightarrow> 'v list option" where
  "enumerate_pages parse 0 rows render limit cursor = None"
| "enumerate_pages parse (Suc n) rows render limit cursor =
     (case page_of rows cursor limit render of
        Err _ \<Rightarrow> None
      | Ok p \<Rightarrow>
          (case pg_next_cursor p of
             None \<Rightarrow> Some (pg_items p)
           | Some text \<Rightarrow>
               (case parse text of
                  None \<Rightarrow> None
                | Some c \<Rightarrow> map_option ((@) (pg_items p)) (enumerate_pages parse n rows render limit (Some c)))))"

lemma after_cursor_suffix:
  assumes "btree rows"
  shows "\<exists>pre. rows = pre @ after_cursor cursor rows"
proof (cases cursor)
  case (Some c)
  from assms show ?thesis
  proof (induction rows)
    case (Cons row rows)
    show ?case
    proof (cases "c < fst row")
      case True
      have "after_cursor cursor (row # rows) = row # rows"
        unfolding after_cursor_def by (rule filter_True) (use Cons.prems True Some in \<open>force simp: btree_Cons\<close>)
      then show ?thesis by (metis append_Nil)
    next
      case False
      have "\<exists>pre. rows = pre @ after_cursor cursor rows"
        using Cons by (simp add: btree_Cons)
      then show ?thesis using False Some by (auto simp: after_cursor_def) (metis append_Cons)
    qed
  qed (simp add: after_cursor_def)
qed (simp add: after_cursor_def)

lemma after_last:
  assumes "btree (xs @ ys)" and "xs \<noteq> []"
  shows "after_cursor (Some (fst (last xs))) (xs @ ys) = ys"
proof -
  obtain us u where xs: "xs = us @ [u]" using assms(2) by (cases xs rule: rev_cases) auto
  have "filter (\<lambda>row. fst u < fst row) us = []" "filter (\<lambda>row. fst u < fst row) ys = ys"
    using assms(1) unfolding xs by (force simp: btree_def sorted_wrt_append filter_empty_conv filter_id_conv)+
  then show ?thesis unfolding xs after_cursor_def by simp
qed

lemma after_cursor_take:
  assumes "btree rows" and "1 \<le> k" and "after_cursor cursor rows \<noteq> []"
  shows "after_cursor (Some (fst (last (take k (after_cursor cursor rows))))) rows = drop k (after_cursor cursor rows)"
proof -
  let ?e = "after_cursor cursor rows"
  obtain pre where pre: "rows = (pre @ take k ?e) @ drop k ?e"
    using after_cursor_suffix [OF assms(1), of cursor] by auto
  have "take k ?e \<noteq> []" using assms(2,3) by simp
  then show ?thesis
    using after_last [of "pre @ take k ?e" "drop k ?e"] pre assms(1) by (metis append_is_Nil_conv last_appendR)
qed

lemma enumerate_pages_from:
  assumes "btree rows" and "1 \<le> limit" and "limit \<le> MAX_PAGE_SIZE"
    and parse: "\<And>i. i \<in> fst ` set rows \<Longrightarrow> parse (encode_id i) = Some i"
  shows "length (after_cursor cursor rows) \<le> limit * n \<Longrightarrow> 1 \<le> n \<Longrightarrow>
    enumerate_pages parse n rows render limit cursor = Some (map (render \<circ> snd) (after_cursor cursor rows))"
proof (induction n arbitrary: cursor)
  case (Suc n)
  let ?e = "after_cursor cursor rows"
  let ?last = "fst (last (take limit ?e))"
  have page: "page_of rows cursor limit render = Ok \<lparr>pg_schema = MANAGEMENT_OUTPUT_SCHEMA,
      pg_items = map (render \<circ> snd) (take limit ?e),
      pg_next_cursor = (if drop limit ?e \<noteq> [] then Some (encode_id ?last) else None)\<rparr>"
    using assms(2,3) by (simp add: page_of_def Let_def)
  show ?case
  proof (cases "drop limit ?e = []")
    case False
    then have "take limit ?e \<noteq> []" using assms(2) by (cases ?e) auto
    then have "last (take limit ?e) \<in> set ?e" by (meson in_set_takeD last_in_set)
    then have "parse (encode_id ?last) = Some ?last"
      by (intro parse) (auto simp: after_cursor_def)
    moreover have "after_cursor (Some ?last) rows = drop limit ?e"
      using after_cursor_take [OF assms(1,2)] False by (metis drop_Nil)
    moreover have "1 \<le> n" "length (drop limit ?e) \<le> limit * n"
      using Suc.prems False by (cases n; simp)+
    moreover have "map (render \<circ> snd) (take limit ?e) @ map (render \<circ> snd) (drop limit ?e) = map (render \<circ> snd) ?e"
      by (simp flip: map_append)
    ultimately show ?thesis
      using page False Suc.IH [of "Some ?last"] by (simp add: comp_def)
  qed (use page in simp)
qed simp

text \<open>
  C31: Listing is complete. A client that follows the cursors of \<open>page\<close> from the beginning, with any
  legal page size, ends after at most one page per \<open>limit\<close> rows (and one more) and has then received
  every row exactly once, in order; the cursor decoder only has to invert the encoding of row ids.
\<close>

theorem pages_complete:
  assumes "btree rows" and "1 \<le> limit" and "limit \<le> 100"
    and "\<And>i. i \<in> fst ` set rows \<Longrightarrow> parse (encode_id i) = Some i"
  shows "enumerate_pages parse (Suc (length rows div limit)) rows render limit None = Some (map (render \<circ> snd) rows)"
proof -
  have "length rows \<le> limit * Suc (length rows div limit)"
    using dividend_less_div_times [of limit "length rows"] assms(2) by (simp add: mult.commute)
  then show ?thesis
    using enumerate_pages_from [OF assms, of None "Suc (length rows div limit)" render] by (simp add: after_cursor_def)
qed

definition sample_rows :: "(id16 \<times> string) list" where
  "sample_rows = [(2, ''a''), (3, ''bb''), (5, ''c'')]"

theorem pages_complete_witness:
  "enumerate_pages (\<lambda>s. find (\<lambda>i. encode_id i = s) [2, 3, 5]) (Suc (length sample_rows div 2))
     sample_rows length 2 None = Some [1, 2, 1]"
proof -
  have "find (\<lambda>j. encode_id j = encode_id i) [2, 3, 5] = Some i" if "i \<in> fst ` set sample_rows" for i
    using that by (auto simp: sample_rows_def)
  from pages_complete [of sample_rows 2, OF _ _ _ this, where render = length] show ?thesis
    by (simp add: btree_def sample_rows_def del: enumerate_pages.simps)
qed

end
