(* ===== verification/Rotation.thy ===== *)
theory Rotation
  imports Management Kv_Store
begin

text \<open>
  Secret rotation (\<open>rotation.rs\<close>): the rotation record and its codec, the classification of adoption
  from audited reads, and \<open>RotationCatalog\<close> with every operation. An operation works on the rotation
  catalog, the management catalog it is authorized and recorded in, and the KV service it protects,
  writes and prunes; \<open>rotation_world\<close> holds the three. A \<open>BTreeSet\<close> of ids is its sorted list;
  \<open>completed\<close>, of which only membership is used, is a list.
\<close>

abbreviation (input) MAX_IDS :: nat where "MAX_IDS \<equiv> 10000"
abbreviation (input) MAX_RESOURCE :: nat where "MAX_RESOURCE \<equiv> 1024"
abbreviation (input) MAX_HISTORY :: nat where "MAX_HISTORY \<equiv> 32"

section \<open>The record\<close>

datatype rotation_lifecycle = Prepared | Cutover | Completed | CancelledBeforeCutover | Superseded

primrec ro_lifecycle_code :: "rotation_lifecycle \<Rightarrow> u8" where
  "ro_lifecycle_code Prepared = 1"
| "ro_lifecycle_code Cutover = 2"
| "ro_lifecycle_code Completed = 3"
| "ro_lifecycle_code CancelledBeforeCutover = 4"
| "ro_lifecycle_code Superseded = 5"

definition ro_lifecycle_decode :: "u8 \<Rightarrow> (rotation_lifecycle, codec_error) result" where
  "ro_lifecycle_decode v =
     (if v = 1 then Ok Prepared else if v = 2 then Ok Cutover else if v = 3 then Ok Completed
      else if v = 4 then Ok CancelledBeforeCutover else if v = 5 then Ok Superseded else Err Invalid)"

definition lifecycle_terminal :: "rotation_lifecycle \<Rightarrow> bool" where
  "lifecycle_terminal s \<longleftrightarrow> s = Completed \<or> s = CancelledBeforeCutover \<or> s = Superseded"

record rotation_transition =
  rt_state :: rotation_lifecycle
  rt_effective_unix_seconds :: u64
  rt_version :: u64

record rotation_record =
  ro_id :: id16
  ro_resource :: string
  ro_state :: rotation_lifecycle
  ro_declared_consumers :: "id16 list"
  ro_authorized_identities :: "id16 list"
  ro_active_instances :: "id16 list"
  ro_protected_version :: u64
  ro_expected_cas :: u64
  ro_target_version :: "u64 option"
  ro_actor_identity_id :: id16
  ro_prepared_unix_seconds :: u64
  ro_cutover_unix_seconds :: "u64 option"
  ro_history :: "rotation_transition list"

datatype rotation_error =
  RoDenied | RoInvalid | RoConflict rotation_lifecycle | RoNotFound | RoStaleGeneration
  | RoCasConflict | RoProtectedVersionUnavailable | RoIntegrity | RoLimit

definition endpoint_for :: "string \<Rightarrow> (endpoint_request, rotation_error) result" where
  "endpoint_for resource =
     (let parts = split_on CHR ''/'' resource;
          mount = hd parts;
          segments = tl parts
      in if mount = [] \<or> segments = [] \<or> list_ex (\<lambda>s. s = []) segments then Err RoInvalid
         else Ok \<lparr>e_kind = EpData, e_resource = \<lparr>r_mount = mount, r_canonical_segments = segments\<rparr>,
                  e_version = None\<rparr>)"

definition rotation_validate :: "rotation_record \<Rightarrow> (unit, codec_error) result" where
  "rotation_validate r =
     (if ro_id r = 0 \<or> ro_actor_identity_id r = 0 \<or> \<not> is_ok (endpoint_for (ro_resource r))
         \<or> ro_protected_version r = 0 \<or> ro_expected_cas r = 0 \<or> ro_prepared_unix_seconds r = 0
         \<or> ro_history r = [] \<or> length (ro_history r) > MAX_HISTORY
         \<or> (ro_history r = [] \<or> rt_state (last (ro_history r)) \<noteq> ro_state r)
         \<or> (ro_target_version r \<noteq> None) \<noteq> (ro_cutover_unix_seconds r \<noteq> None)
         \<or> ((ro_state r = Prepared \<or> ro_state r = CancelledBeforeCutover) \<and> ro_target_version r \<noteq> None)
      then Err Invalid else Ok ())"

definition encode_ids :: "id16 list \<Rightarrow> bytes \<Rightarrow> (bytes, codec_error) result" where
  "encode_ids ids out =
     (if length ids > MAX_IDS then Err Limit
      else Ok (foldl (\<lambda>out i. enc_fixed (be_bytes 16 i) out) (enc_u32 (word_of_nat (length ids)) out) ids))"

primrec decode_id_loop :: "nat \<Rightarrow> id16 list \<Rightarrow> id16 list dec" where
  "decode_id_loop 0 ids = dret ids"
| "decode_id_loop (Suc n) ids =
     dbind (dec_fixed 16) (\<lambda>i.
     dbind (dcheck (i \<notin> set ids) Invalid) (\<lambda>_. decode_id_loop n (bs_insert i ids)))"

definition decode_ids :: "id16 list dec" where
  "decode_ids =
     dbind dec_u32 (\<lambda>n. dbind (dcheck (unat n \<le> MAX_IDS) Limit) (\<lambda>_. decode_id_loop (unat n) []))"

definition encode_opt_u64 :: "u64 option \<Rightarrow> bytes \<Rightarrow> bytes" where
  "encode_opt_u64 v out = (case v of None \<Rightarrow> enc_u8 0 out | Some v \<Rightarrow> enc_u64 v (enc_u8 1 out))"

definition decode_opt_u64 :: "u64 option dec" where
  "decode_opt_u64 =
     dbind dec_u8 (\<lambda>b. if b = 0 then dret None
       else if b = 1 then dbind dec_u64 (\<lambda>v. dret (Some v)) else dlift (Err Invalid))"

definition rotation_encode :: "rotation_record \<Rightarrow> (bytes, codec_error) result" where
  "rotation_encode r =
     rbind (rotation_validate r) (\<lambda>_.
       let out = enc_version 1;
           out = enc_fixed (be_bytes 16 (ro_id r)) out
       in rbind (enc_string (ro_resource r) MAX_RESOURCE out) (\<lambda>out.
          let out = enc_u8 (ro_lifecycle_code (ro_state r)) out
          in rbind (encode_ids (ro_declared_consumers r) out) (\<lambda>out.
          rbind (encode_ids (ro_authorized_identities r) out) (\<lambda>out.
          rbind (encode_ids (ro_active_instances r) out) (\<lambda>out.
          let out = enc_u64 (ro_protected_version r) out;
              out = enc_u64 (ro_expected_cas r) out;
              out = encode_opt_u64 (ro_target_version r) out;
              out = enc_fixed (be_bytes 16 (ro_actor_identity_id r)) out;
              out = enc_u64 (ro_prepared_unix_seconds r) out;
              out = encode_opt_u64 (ro_cutover_unix_seconds r) out;
              out = enc_u8 (word_of_nat (length (ro_history r))) out;
              out = foldl (\<lambda>out t. enc_u64 (rt_version t) (enc_u64 (rt_effective_unix_seconds t)
                      (enc_u8 (ro_lifecycle_code (rt_state t)) out))) out (ro_history r)
          in Ok (enc_finish out))))))"

definition decode_transition :: "rotation_transition dec" where
  "decode_transition =
     dbind dec_u8 (\<lambda>b. dbind (dlift (ro_lifecycle_decode b)) (\<lambda>state.
     dbind dec_u64 (\<lambda>seconds. dbind dec_u64 (\<lambda>version.
       dret \<lparr>rt_state = state, rt_effective_unix_seconds = seconds, rt_version = version\<rparr>))))"

definition rotation_decode :: "bytes \<Rightarrow> (rotation_record, codec_error) result" where
  "rotation_decode bs = run_dec 1 bs (
     dbind (dec_fixed 16) (\<lambda>i.
     dbind (dec_string MAX_RESOURCE) (\<lambda>resource.
     dbind dec_u8 (\<lambda>b. dbind (dlift (ro_lifecycle_decode b)) (\<lambda>state.
     dbind decode_ids (\<lambda>declared_consumers.
     dbind decode_ids (\<lambda>authorized_identities.
     dbind decode_ids (\<lambda>active_instances.
     dbind dec_u64 (\<lambda>protected_version.
     dbind dec_u64 (\<lambda>expected_cas.
     dbind decode_opt_u64 (\<lambda>target_version.
     dbind (dec_fixed 16) (\<lambda>actor_identity_id.
     dbind dec_u64 (\<lambda>prepared_unix_seconds.
     dbind decode_opt_u64 (\<lambda>cutover_unix_seconds.
     dbind dec_u8 (\<lambda>n_history.
     dbind (dcheck (\<not> (unat n_history = 0 \<or> unat n_history > MAX_HISTORY)) Limit) (\<lambda>_.
     dbind (dec_repeat (unat n_history) decode_transition) (\<lambda>history.
     dbind dec_finish (\<lambda>_.
     let value = \<lparr>ro_id = i, ro_resource = resource, ro_state = state,
                  ro_declared_consumers = declared_consumers,
                  ro_authorized_identities = authorized_identities,
                  ro_active_instances = active_instances, ro_protected_version = protected_version,
                  ro_expected_cas = expected_cas, ro_target_version = target_version,
                  ro_actor_identity_id = actor_identity_id,
                  ro_prepared_unix_seconds = prepared_unix_seconds,
                  ro_cutover_unix_seconds = cutover_unix_seconds, ro_history = history\<rparr>
     in dbind (dlift (rotation_validate value)) (\<lambda>_. dret value)))))))))))))))))))"

section \<open>Adoption\<close>

datatype adoption_class =
  OnCurrent | OnPrior | SilentSinceWrite | NoInstanceObservation | RetiredWithoutProof

definition adoption_name :: "adoption_class \<Rightarrow> string" where
  "adoption_name c =
     (case c of OnCurrent \<Rightarrow> ''on-current'' | OnPrior \<Rightarrow> ''on-prior''
      | SilentSinceWrite \<Rightarrow> ''silent-since-write'' | NoInstanceObservation \<Rightarrow> ''no-instance-observation''
      | RetiredWithoutProof \<Rightarrow> ''retired-without-proof'')"

record read_observation =
  ob_sequence :: u64
  ob_identity_id :: id16
  ob_consumer_instance_id :: "id16 option"
  ob_version :: u64
  ob_effective_unix_seconds :: u64

record adoption_member =
  am_kind :: string
  am_id :: id16
  am_class :: adoption_class
  am_fetched_version :: "u64 option"
  am_last_read_unix_seconds :: "u64 option"
  am_recency_lookback_exceeded :: bool

record rotation_snapshot_input =
  si_declared_consumers :: "id16 list"
  si_authorized_identities :: "id16 list"
  si_active_instances :: "id16 list"

text \<open>\<open>Iterator::max_by_key\<close>: the last of the elements with the greatest key.\<close>

fun max_by_sequence :: "read_observation list \<Rightarrow> read_observation option" where
  "max_by_sequence [] = None"
| "max_by_sequence (o1 # os) =
     (case max_by_sequence os of
        None \<Rightarrow> Some o1
      | Some o2 \<Rightarrow> Some (if ob_sequence o1 \<le> ob_sequence o2 then o2 else o1))"

definition latest_class ::
  "read_observation list \<Rightarrow> u64 \<Rightarrow> adoption_class \<times> u64 option \<times> u64 option" where
  "latest_class observed target_version =
     (case max_by_sequence observed of
        None \<Rightarrow> (SilentSinceWrite, None, None)
      | Some latest \<Rightarrow>
          (if ob_version latest = target_version then OnCurrent else OnPrior,
           Some (ob_version latest), Some (ob_effective_unix_seconds latest)))"

definition lookback_exceeded :: "u64 option \<Rightarrow> u64 option \<Rightarrow> u64 \<Rightarrow> bool" where
  "lookback_exceeded last_read lookback now =
     (case (last_read, lookback) of
        (Some read_at, Some window) \<Rightarrow> saturating_sub now read_at > window
      | _ \<Rightarrow> False)"

definition instance_member ::
  "read_observation list \<Rightarrow> u64 \<Rightarrow> id16 list \<Rightarrow> u64 option \<Rightarrow> u64 \<Rightarrow> id16 \<Rightarrow> adoption_member" where
  "instance_member window target_version retired lookback now i =
     (let (class, version, read_at) =
            latest_class (filter (\<lambda>ob. ob_consumer_instance_id ob = Some i) window) target_version
      in \<lparr>am_kind = ''instance'', am_id = i,
          am_class = (if i \<in> set retired \<and> class \<noteq> OnCurrent then RetiredWithoutProof else class),
          am_fetched_version = version, am_last_read_unix_seconds = read_at,
          am_recency_lookback_exceeded = lookback_exceeded read_at lookback now\<rparr>)"

definition find_member :: "adoption_member list \<Rightarrow> string \<Rightarrow> id16 \<Rightarrow> adoption_member option" where
  "find_member members kind i = find (\<lambda>m. am_kind m = kind \<and> am_id m = i) members"

definition identity_class :: "adoption_class list \<Rightarrow> adoption_class" where
  "identity_class classes =
     (case remdups classes of
        [c] \<Rightarrow> c
      | _ \<Rightarrow>
          if OnPrior \<in> set classes then OnPrior
          else if SilentSinceWrite \<in> set classes then SilentSinceWrite
          else if RetiredWithoutProof \<in> set classes then RetiredWithoutProof
          else OnCurrent)"

primrec max_option :: "u64 list \<Rightarrow> u64 option" where
  "max_option [] = None"
| "max_option (x # xs) = (case max_option xs of None \<Rightarrow> Some x | Some y \<Rightarrow> Some (max x y))"

definition identity_member ::
  "read_observation list \<Rightarrow> u64 \<Rightarrow> u64 option \<Rightarrow> u64 \<Rightarrow> (id16 \<times> id16) list \<Rightarrow> id16 list \<Rightarrow>
     adoption_member list \<Rightarrow> id16 \<Rightarrow> adoption_member" where
  "identity_member window target_version lookback now instance_to_identity active members i =
     (let instance_ids = filter (\<lambda>x. bt_get instance_to_identity x = Some i) active
      in if instance_ids = [] then
           let observed = filter (\<lambda>ob. ob_identity_id ob = i \<and> ob_consumer_instance_id ob = None) window;
               (class, version, read_at) =
                 (if observed = [] then (NoInstanceObservation, None, None)
                  else latest_class observed target_version)
           in \<lparr>am_kind = ''identity'', am_id = i, am_class = class, am_fetched_version = version,
               am_last_read_unix_seconds = read_at,
               am_recency_lookback_exceeded = lookback_exceeded read_at lookback now\<rparr>
         else
           let found = List.map_filter (\<lambda>x. find_member members ''instance'' x) instance_ids;
               read_at = max_option (List.map_filter am_last_read_unix_seconds found)
           in \<lparr>am_kind = ''identity'', am_id = i, am_class = identity_class (map am_class found),
               am_fetched_version =
                 (case List.map_filter am_fetched_version found of [] \<Rightarrow> None | v # _ \<Rightarrow> Some v),
               am_last_read_unix_seconds = read_at,
               am_recency_lookback_exceeded = lookback_exceeded read_at lookback now\<rparr>)"

definition consumer_class :: "adoption_class list \<Rightarrow> adoption_class" where
  "consumer_class classes =
     (if OnPrior \<in> set classes then OnPrior
      else if SilentSinceWrite \<in> set classes \<or> NoInstanceObservation \<in> set classes then SilentSinceWrite
      else if RetiredWithoutProof \<in> set classes then RetiredWithoutProof
      else OnCurrent)"

definition consumer_member ::
  "(id16 \<times> id16) list \<Rightarrow> id16 list \<Rightarrow> adoption_member list \<Rightarrow> id16 \<Rightarrow> adoption_member" where
  "consumer_member identity_to_consumer authorized members i =
     (let identities = filter (\<lambda>x. bt_get identity_to_consumer x = Some i) authorized
      in \<lparr>am_kind = ''consumer'', am_id = i,
          am_class =
            (if identities = [] then SilentSinceWrite
             else consumer_class (map am_class
                    (List.map_filter (\<lambda>x. find_member members ''identity'' x) identities))),
          am_fetched_version = None, am_last_read_unix_seconds = None,
          am_recency_lookback_exceeded = False\<rparr>)"

text \<open>The final \<open>sort_by\<close> is stable and orders by kind and then by id.\<close>

definition classify_adoption ::
  "rotation_snapshot_input \<Rightarrow> u64 \<Rightarrow> u64 \<Rightarrow> u64 \<Rightarrow> read_observation list \<Rightarrow> id16 list \<Rightarrow> u64 option \<Rightarrow> u64 \<Rightarrow>
     (id16 \<times> id16) list \<Rightarrow> (id16 \<times> id16) list \<Rightarrow> (adoption_member list, rotation_error) result" where
  "classify_adoption snapshot target_version cutover_sequence cutoff_sequence observations retired lookback now
       instance_to_identity identity_to_consumer =
     (if cutoff_sequence < cutover_sequence then Err RoInvalid
      else
        let window = filter (\<lambda>ob. cutover_sequence < ob_sequence ob \<and> ob_sequence ob \<le> cutoff_sequence) observations;
            members = map (instance_member window target_version retired lookback now) (si_active_instances snapshot);
            members = members @ map (identity_member window target_version lookback now instance_to_identity
                        (si_active_instances snapshot) members) (si_authorized_identities snapshot);
            members = members @ map (consumer_member identity_to_consumer (si_authorized_identities snapshot)
                        members) (si_declared_consumers snapshot)
        in Ok (sort_key (\<lambda>m. (am_kind m, am_id m)) members))"

section \<open>The catalog\<close>

record rotation_view =
  vw_record :: rotation_record
  vw_generation :: u64

record rotation_adoption_status =
  st_rotation_id :: id16
  st_resource :: string
  st_state :: rotation_lifecycle
  st_target_version :: u64
  st_cutover_sequence :: u64
  st_cutoff_sequence :: u64
  st_instances :: "adoption_member list"
  st_identities :: "adoption_member list"
  st_consumers :: "adoption_member list"

record rotation_closeout_report =
  cr_rotation_id :: id16
  cr_state :: rotation_lifecycle
  cr_acknowledged_unverified :: bool
  cr_warnings :: "string list"

record rotation_catalog =
  rc_store_id :: id16
  rc_mac_key :: arr32
  rc_rows :: "(id16 \<times> rotation_record sealed) list"
  rc_completed :: "(id16 \<times> control_command \<times> id16) list"

definition rotation_new :: "id16 \<Rightarrow> arr32 \<Rightarrow> rotation_catalog" where
  "rotation_new store_id mac_key =
     \<lparr>rc_store_id = store_id, rc_mac_key = mac_key, rc_rows = [], rc_completed = []\<rparr>"

record rotation_world =
  rw_catalog :: rotation_catalog
  rw_management :: management_catalog
  rw_kv :: kv_catalog

type_synonym 'a rotation = "(rotation_world, 'a, rotation_error) stateful"

primrec management_to_rotation :: "management_error \<Rightarrow> rotation_error" where
  "management_to_rotation MgDenied = RoDenied"
| "management_to_rotation MgNotFound = RoNotFound"
| "management_to_rotation MgStaleGeneration = RoStaleGeneration"
| "management_to_rotation MgLimit = RoLimit"
| "management_to_rotation MgInvalid = RoInvalid"
| "management_to_rotation MgConflict = RoInvalid"

definition map_kv :: "kv_error \<Rightarrow> rotation_error" where
  "map_kv e =
     (case e of
        KvCasConflict \<Rightarrow> RoCasConflict
      | KvNotFound \<Rightarrow> RoProtectedVersionUnavailable
      | KvVersionUnavailable _ _ _ \<Rightarrow> RoProtectedVersionUnavailable
      | KvInternal \<Rightarrow> RoIntegrity
      | _ \<Rightarrow> RoInvalid)"

text \<open>A call on the management catalog and a call on the KV service, with the error conversions.\<close>

definition on_management :: "'a management \<Rightarrow> 'a rotation" where
  "on_management f w =
     (let (r, m) = f (rw_management w)
      in (map_err management_to_rotation r, w\<lparr>rw_management := m\<rparr>))"

definition on_kv :: "'a kv \<Rightarrow> 'a rotation" where
  "on_kv f w = (let (r, c) = f (rw_kv w) in (map_err map_kv r, w\<lparr>rw_kv := c\<rparr>))"

definition require_state ::
  "rotation_view \<Rightarrow> u64 \<Rightarrow> rotation_lifecycle \<Rightarrow> (unit, rotation_error) result" where
  "require_state view expected_generation state =
     (if vw_generation view \<noteq> expected_generation then Err RoStaleGeneration
      else if ro_state (vw_record view) \<noteq> state then Err (RoConflict (ro_state (vw_record view)))
      else Ok ())"

definition validate_snapshot :: "rotation_snapshot_input \<Rightarrow> (unit, rotation_error) result" where
  "validate_snapshot v =
     (if length (si_declared_consumers v) > MAX_IDS \<or> length (si_authorized_identities v) > MAX_IDS
         \<or> length (si_active_instances v) > MAX_IDS
      then Err RoLimit else Ok ())"

definition validate_reason :: "string \<Rightarrow> (unit, rotation_error) result" where
  "validate_reason v =
     (if v = [] \<or> length v > 1024 \<or> has_control v then Err RoInvalid else Ok ())"

definition validate_effective_time :: "u64 \<Rightarrow> (unit, rotation_error) result" where
  "validate_effective_time v = (if v = 0 then Err RoInvalid else Ok ())"

definition ensure_history_room :: "rotation_view \<Rightarrow> (unit, rotation_error) result" where
  "ensure_history_room v =
     (if length (ro_history (vw_record v)) \<ge> MAX_HISTORY then Err RoLimit else Ok ())"

definition next_generation :: "u64 \<Rightarrow> (u64, rotation_error) result" where
  "next_generation v = ok_or RoLimit (checked_add v 1)"

definition install :: "keyed_hash \<Rightarrow> rotation_record \<Rightarrow> u64 \<Rightarrow> unit rotation" where
  "install keyed r generation w =
     (let c = rw_catalog w
      in case seal keyed rotation_encode RotationState 1 r generation (rc_mac_key c) (rc_store_id c)
               (be_bytes 16 (ro_id r)) of
           Err _ \<Rightarrow> (Err RoInvalid, w)
         | Ok sealed \<Rightarrow> (Ok (), w\<lparr>rw_catalog := c\<lparr>rc_rows := bt_insert (ro_id r) sealed (rc_rows c)\<rparr>\<rparr>))"

definition show_inner :: "keyed_hash \<Rightarrow> id16 \<Rightarrow> rotation_catalog \<Rightarrow> (rotation_view, rotation_error) result" where
  "show_inner keyed i c =
     (case bt_get (rc_rows c) i of
        None \<Rightarrow> Err RoNotFound
      | Some row \<Rightarrow>
          rbind (map_err (\<lambda>_. RoIntegrity)
                   (verify keyed rotation_encode RotationState 1 row (rc_mac_key c) (rc_store_id c) (be_bytes 16 i)))
            (\<lambda>_. Ok \<lparr>vw_record = s_value row, vw_generation = s_generation row\<rparr>))"

definition show_row :: "keyed_hash \<Rightarrow> id16 \<Rightarrow> rotation_view rotation" where
  "show_row keyed i w = (show_inner keyed i (rw_catalog w), w)"

definition mark_completed :: "id16 \<Rightarrow> control_command \<Rightarrow> id16 \<Rightarrow> unit rotation" where
  "mark_completed request_id command i w =
     (Ok (), w\<lparr>rw_catalog := (rw_catalog w)\<lparr>rc_completed :=
        List.insert (request_id, command, i) (rc_completed (rw_catalog w))\<rparr>\<rparr>)"

text \<open>
  How a lifecycle operation starts (authorization, then the retry of a completed request, answered by
  \<open>again\<close>) and how it ends (the new row, the request noted, the success recorded).
\<close>

definition lifecycle_call ::
  "management_principal \<Rightarrow> control_command \<Rightarrow> id16 \<Rightarrow> id16 \<Rightarrow> 'a rotation \<Rightarrow> 'a rotation \<Rightarrow> 'a rotation" where
  "lifecycle_call actor command request_id i again body =
     sbind (on_management (authorize_command actor command request_id)) (\<lambda>_ w.
       if (request_id, command, i) \<in> set (rc_completed (rw_catalog w)) then again w else body w)"

definition finish_call ::
  "keyed_hash \<Rightarrow> management_principal \<Rightarrow> control_command \<Rightarrow> id16 \<Rightarrow> string option \<Rightarrow> rotation_record \<Rightarrow> u64 \<Rightarrow>
     unit rotation" where
  "finish_call keyed actor command request_id reason r generation =
     sbind (install keyed r generation) (\<lambda>_.
     sbind (mark_completed request_id command (ro_id r)) (\<lambda>_.
       on_management (record_command_success actor request_id command (ro_id r) reason)))"

section \<open>Operations\<close>

definition open_rotation :: "string \<Rightarrow> rotation_catalog \<Rightarrow> rotation_record option" where
  "open_rotation resource c =
     find (\<lambda>r. ro_resource r = resource \<and> (ro_state r = Prepared \<or> ro_state r = Cutover))
       (map (s_value \<circ> snd) (rc_rows c))"

definition push_transition :: "rotation_lifecycle \<Rightarrow> u64 \<Rightarrow> u64 \<Rightarrow> rotation_record \<Rightarrow> rotation_record" where
  "push_transition state seconds version r =
     r\<lparr>ro_history := ro_history r @
        [\<lparr>rt_state = state, rt_effective_unix_seconds = seconds, rt_version = version\<rparr>]\<rparr>"

definition begin_checks :: "id16 \<Rightarrow> string \<Rightarrow> u64 \<Rightarrow> rotation_catalog \<Rightarrow> (unit, rotation_error) result" where
  "begin_checks i resource seconds c =
     (if i = 0 \<or> seconds = 0 then Err RoInvalid
      else if bt_contains (rc_rows c) i then Err RoInvalid
      else case open_rotation resource c of
             Some r \<Rightarrow> Err (RoConflict (ro_state r))
           | None \<Rightarrow> Ok ())"

definition rotation_begin ::
  "keyed_hash \<Rightarrow> management_principal \<Rightarrow> id16 \<Rightarrow> id16 \<Rightarrow> string \<Rightarrow> rotation_snapshot_input \<Rightarrow> u64 \<Rightarrow>
     rotation_view rotation" where
  "rotation_begin keyed actor request_id i resource snapshot seconds =
     lifecycle_call actor CmdRotationCreate request_id i (show_row keyed i) (\<lambda>w.
       sbind (slift (begin_checks i resource seconds (rw_catalog w))) (\<lambda>_.
       sbind (slift (validate_snapshot snapshot)) (\<lambda>_.
       sbind (slift (endpoint_for resource)) (\<lambda>endpoint.
       sbind (on_kv (kv_rotation_snapshot endpoint)) (\<lambda>current.
       sbind (on_kv (set_rotation_snapshot_protection endpoint (rs_current_version current) True)) (\<lambda>_.
         let r = \<lparr>ro_id = i, ro_resource = resource, ro_state = Prepared,
                  ro_declared_consumers = si_declared_consumers snapshot,
                  ro_authorized_identities = si_authorized_identities snapshot,
                  ro_active_instances = si_active_instances snapshot,
                  ro_protected_version = rs_current_version current,
                  ro_expected_cas = rs_current_version current, ro_target_version = None,
                  ro_actor_identity_id = mp_identity_id actor, ro_prepared_unix_seconds = seconds,
                  ro_cutover_unix_seconds = None,
                  ro_history = [\<lparr>rt_state = Prepared, rt_effective_unix_seconds = seconds,
                                 rt_version = rs_current_version current\<rparr>]\<rparr>
         in sbind (finish_call keyed actor CmdRotationCreate request_id None r 1) (\<lambda>_.
              show_row keyed i)))))) w)"

text \<open>The checks the later operations share: the row, its generation and state, room and a successor.\<close>

definition lifecycle_row ::
  "keyed_hash \<Rightarrow> id16 \<Rightarrow> u64 \<Rightarrow> rotation_lifecycle \<Rightarrow> (rotation_record \<times> u64 \<times> endpoint_request) rotation" where
  "lifecycle_row keyed i expected_generation state =
     sbind (show_row keyed i) (\<lambda>current.
     sbind (slift (require_state current expected_generation state)) (\<lambda>_.
     sbind (slift (ensure_history_room current)) (\<lambda>_.
     sbind (slift (next_generation expected_generation)) (\<lambda>generation.
     sbind (slift (endpoint_for (ro_resource (vw_record current)))) (\<lambda>endpoint.
       slift (Ok (vw_record current, generation, endpoint)))))))"

definition rotation_refresh ::
  "keyed_hash \<Rightarrow> management_principal \<Rightarrow> id16 \<Rightarrow> id16 \<Rightarrow> u64 \<Rightarrow> rotation_snapshot_input \<Rightarrow> u64 \<Rightarrow>
     rotation_view rotation" where
  "rotation_refresh keyed actor request_id i expected_generation snapshot seconds =
     lifecycle_call actor CmdRotationUpdate request_id i (show_row keyed i) (
       sbind (slift (validate_effective_time seconds)) (\<lambda>_.
       sbind (slift (validate_snapshot snapshot)) (\<lambda>_.
       sbind (lifecycle_row keyed i expected_generation Prepared) (\<lambda>(r, generation, endpoint).
       sbind (on_kv (kv_rotation_snapshot endpoint)) (\<lambda>live.
       sbind (on_kv (set_rotation_snapshot_protection endpoint (rs_current_version live) True)) (\<lambda>_.
         let r = push_transition Prepared seconds (rs_current_version live)
                   (r\<lparr>ro_declared_consumers := si_declared_consumers snapshot,
                      ro_authorized_identities := si_authorized_identities snapshot,
                      ro_active_instances := si_active_instances snapshot,
                      ro_protected_version := rs_current_version live,
                      ro_expected_cas := rs_current_version live,
                      ro_prepared_unix_seconds := seconds\<rparr>)
         in sbind (finish_call keyed actor CmdRotationUpdate request_id None r generation) (\<lambda>_.
              show_row keyed i)))))))"

definition rotation_cutover ::
  "keyed_hash \<Rightarrow> (json \<Rightarrow> bytes option) \<Rightarrow> management_principal \<Rightarrow> id16 \<Rightarrow> id16 \<Rightarrow> u64 \<Rightarrow>
     (string \<times> json) list \<Rightarrow> u64 \<Rightarrow> rotation_view rotation" where
  "rotation_cutover keyed to_vec actor request_id i expected_generation replacement seconds =
     lifecycle_call actor CmdRotationLifecycle request_id i (show_row keyed i) (
       sbind (slift (validate_effective_time seconds)) (\<lambda>_.
       sbind (lifecycle_row keyed i expected_generation Prepared) (\<lambda>(r, generation, endpoint).
       sbind (on_kv (kv_rotation_cutover to_vec (mp_identity_id actor) endpoint replacement (ro_expected_cas r)))
         (\<lambda>written.
         let r = push_transition Cutover seconds (wr_version written)
                   (r\<lparr>ro_state := Cutover, ro_target_version := Some (wr_version written),
                      ro_cutover_unix_seconds := Some seconds\<rparr>)
         in sbind (finish_call keyed actor CmdRotationLifecycle request_id None r generation) (\<lambda>_.
              show_row keyed i)))))"

definition rotation_cancel ::
  "keyed_hash \<Rightarrow> management_principal \<Rightarrow> id16 \<Rightarrow> id16 \<Rightarrow> u64 \<Rightarrow> u64 \<Rightarrow> string \<Rightarrow> rotation_view rotation" where
  "rotation_cancel keyed actor request_id i expected_generation seconds reason =
     lifecycle_call actor CmdRotationLifecycle request_id i (show_row keyed i) (
       sbind (slift (validate_effective_time seconds)) (\<lambda>_.
       sbind (slift (validate_reason reason)) (\<lambda>_.
       sbind (lifecycle_row keyed i expected_generation Prepared) (\<lambda>(r, generation, endpoint).
       sbind (on_kv (set_rotation_snapshot_protection endpoint (ro_protected_version r) False)) (\<lambda>_.
         let r = push_transition CancelledBeforeCutover seconds (ro_expected_cas r)
                   (r\<lparr>ro_state := CancelledBeforeCutover\<rparr>)
         in sbind (finish_call keyed actor CmdRotationLifecycle request_id (Some reason) r generation) (\<lambda>_.
              show_row keyed i))))))"

definition rotation_rollback ::
  "keyed_hash \<Rightarrow> management_principal \<Rightarrow> id16 \<Rightarrow> id16 \<Rightarrow> u64 \<Rightarrow> u64 \<Rightarrow> string \<Rightarrow> rotation_view rotation" where
  "rotation_rollback keyed actor request_id i expected_generation seconds reason =
     lifecycle_call actor CmdRotationLifecycle request_id i (show_row keyed i) (
       sbind (slift (validate_effective_time seconds)) (\<lambda>_.
       sbind (slift (validate_reason reason)) (\<lambda>_.
       sbind (lifecycle_row keyed i expected_generation Cutover) (\<lambda>(r, generation, endpoint).
       sbind (on_kv (kv_rotation_snapshot endpoint)) (\<lambda>live.
       sbind (on_kv (kv_rotation_rollback_copy_forward (mp_identity_id actor) endpoint
                (rs_current_version live) (ro_protected_version r))) (\<lambda>written.
       sbind (on_kv (set_rotation_snapshot_protection endpoint (ro_protected_version r) False)) (\<lambda>_.
         let r = push_transition Superseded seconds (wr_version written) (r\<lparr>ro_state := Superseded\<rparr>)
         in sbind (finish_call keyed actor CmdRotationLifecycle request_id (Some reason) r generation) (\<lambda>_.
              show_row keyed i))))))))"

definition supersede_after_plain_write :: "keyed_hash \<Rightarrow> id16 \<Rightarrow> u64 \<Rightarrow> u64 \<Rightarrow> rotation_view rotation" where
  "supersede_after_plain_write keyed i expected_generation seconds =
     sbind (slift (validate_effective_time seconds)) (\<lambda>_.
     sbind (lifecycle_row keyed i expected_generation Cutover) (\<lambda>(r, generation, endpoint).
     sbind (on_kv (kv_rotation_snapshot endpoint)) (\<lambda>live.
     sbind (srequire (\<not> rs_current_version live \<le> (case ro_target_version r of None \<Rightarrow> 0 | Some v \<Rightarrow> v))
              RoCasConflict) (\<lambda>_.
     sbind (on_kv (set_rotation_snapshot_protection endpoint (ro_protected_version r) False)) (\<lambda>_.
       let r = push_transition Superseded seconds (rs_current_version live) (r\<lparr>ro_state := Superseded\<rparr>)
       in sbind (install keyed r generation) (\<lambda>_. show_row keyed i))))))"

definition rotation_show :: "keyed_hash \<Rightarrow> management_principal \<Rightarrow> id16 \<Rightarrow> id16 \<Rightarrow> rotation_view rotation" where
  "rotation_show keyed actor request_id i =
     sbind (on_management (authorize_command actor CmdRotationStatus request_id)) (\<lambda>_. show_row keyed i)"

definition unresolved :: "adoption_member list \<Rightarrow> adoption_member list" where
  "unresolved members = filter (\<lambda>m. \<not> (am_class m = OnCurrent \<or> am_class m = RetiredWithoutProof)) members"

definition closeout_refused :: "adoption_member list \<Rightarrow> bool \<Rightarrow> string option \<Rightarrow> bool" where
  "closeout_refused members acknowledge_unverified reason \<longleftrightarrow>
     unresolved members \<noteq> [] \<and>
     (\<not> acknowledge_unverified \<or> (case reason of None \<Rightarrow> True | Some text \<Rightarrow> trim_is_empty text))"

definition rotation_complete ::
  "keyed_hash \<Rightarrow> management_principal \<Rightarrow> id16 \<Rightarrow> id16 \<Rightarrow> u64 \<Rightarrow> u64 \<Rightarrow> adoption_member list \<Rightarrow> bool \<Rightarrow>
     string option \<Rightarrow> u64 \<Rightarrow> rotation_closeout_report rotation" where
  "rotation_complete keyed actor request_id i expected_generation live_version members
       acknowledge_unverified reason seconds =
     lifecycle_call actor CmdRotationLifecycle request_id i
       (slift (Ok \<lparr>cr_rotation_id = i, cr_state = Completed,
                  cr_acknowledged_unverified = acknowledge_unverified, cr_warnings = []\<rparr>)) (
       sbind (slift (validate_effective_time seconds)) (\<lambda>_.
       sbind (show_row keyed i) (\<lambda>current.
       sbind (slift (require_state current expected_generation Cutover)) (\<lambda>_.
       sbind (slift (ensure_history_room current)) (\<lambda>_.
       sbind (slift (ok_or RoInvalid (ro_target_version (vw_record current)))) (\<lambda>target.
       sbind (srequire (live_version = target) (RoConflict (ro_state (vw_record current)))) (\<lambda>_.
       sbind (srequire (\<not> closeout_refused members acknowledge_unverified reason) RoInvalid) (\<lambda>_.
       sbind (slift (next_generation expected_generation)) (\<lambda>generation.
         let r = push_transition Completed seconds target ((vw_record current)\<lparr>ro_state := Completed\<rparr>)
         in sbind (finish_call keyed actor CmdRotationLifecycle request_id None r generation) (\<lambda>_.
              slift (Ok \<lparr>cr_rotation_id = i, cr_state = Completed,
                         cr_acknowledged_unverified = acknowledge_unverified,
                         cr_warnings = (if acknowledge_unverified then [''acknowledge-unverified''] else [])\<rparr>)))))))))))"

definition rotation_status ::
  "keyed_hash \<Rightarrow> management_principal \<Rightarrow> id16 \<Rightarrow> id16 \<Rightarrow> read_observation list \<Rightarrow> id16 list \<Rightarrow> u64 \<Rightarrow> u64 \<Rightarrow>
     u64 option \<Rightarrow> u64 \<Rightarrow> (id16 \<times> id16) list \<Rightarrow> (id16 \<times> id16) list \<Rightarrow> rotation_adoption_status rotation" where
  "rotation_status keyed actor request_id i observations retired cutover_sequence cutoff_sequence lookback now
       instance_to_identity identity_to_consumer =
     sbind (on_management (authorize_command actor CmdRotationStatus request_id)) (\<lambda>_.
     sbind (show_row keyed i) (\<lambda>view.
     let r = vw_record view
     in sbind (srequire (ro_state r = Cutover \<or> ro_state r = Completed) (RoConflict (ro_state r))) (\<lambda>_.
        sbind (slift (ok_or RoInvalid (ro_target_version r))) (\<lambda>target_version.
        sbind (slift (classify_adoption
                 \<lparr>si_declared_consumers = ro_declared_consumers r,
                  si_authorized_identities = ro_authorized_identities r,
                  si_active_instances = ro_active_instances r\<rparr>
                 target_version cutover_sequence cutoff_sequence observations retired lookback now
                 instance_to_identity identity_to_consumer)) (\<lambda>members.
          slift (Ok \<lparr>st_rotation_id = ro_id r, st_resource = ro_resource r, st_state = ro_state r,
                     st_target_version = target_version, st_cutover_sequence = cutover_sequence,
                     st_cutoff_sequence = cutoff_sequence,
                     st_instances = filter (\<lambda>m. am_kind m = ''instance'') members,
                     st_identities = filter (\<lambda>m. am_kind m = ''identity'') members,
                     st_consumers = filter (\<lambda>m. am_kind m = ''consumer'') members\<rparr>))))))"

definition list_skips ::
  "id16 option \<Rightarrow> string option \<Rightarrow> rotation_lifecycle option \<Rightarrow> u64 option \<Rightarrow> u64 option \<Rightarrow>
     id16 \<Rightarrow> rotation_record \<Rightarrow> bool" where
  "list_skips cursor resource state prepared_from prepared_to i r \<longleftrightarrow>
     (case cursor of None \<Rightarrow> False | Some c \<Rightarrow> i \<le> c)
     \<or> (case resource of None \<Rightarrow> False | Some v \<Rightarrow> ro_resource r \<noteq> v)
     \<or> (case state of None \<Rightarrow> False | Some v \<Rightarrow> ro_state r \<noteq> v)
     \<or> (case prepared_from of None \<Rightarrow> False | Some v \<Rightarrow> ro_prepared_unix_seconds r < v)
     \<or> (case prepared_to of None \<Rightarrow> False | Some v \<Rightarrow> v < ro_prepared_unix_seconds r)"

text \<open>The loop of \<open>list\<close>: it stops with one item more than the limit.\<close>

primrec rotation_list_loop ::
  "(id16 \<Rightarrow> rotation_record \<Rightarrow> bool) \<Rightarrow> (id16 \<Rightarrow> rotation_record sealed \<Rightarrow> bool) \<Rightarrow> nat \<Rightarrow>
     (id16 \<times> rotation_record sealed) list \<Rightarrow> rotation_view list \<Rightarrow> (rotation_view list, rotation_error) result" where
  "rotation_list_loop skips verified limit [] items = Ok items"
| "rotation_list_loop skips verified limit (row # rows) items =
     (if skips (fst row) (s_value (snd row)) then rotation_list_loop skips verified limit rows items
      else if \<not> verified (fst row) (snd row) then Err RoIntegrity
      else
        let items = items @ [\<lparr>vw_record = s_value (snd row), vw_generation = s_generation (snd row)\<rparr>]
        in if length items > limit then Ok items else rotation_list_loop skips verified limit rows items)"

definition rotation_list ::
  "keyed_hash \<Rightarrow> management_principal \<Rightarrow> id16 \<Rightarrow> id16 option \<Rightarrow> nat \<Rightarrow> string option \<Rightarrow> rotation_lifecycle option \<Rightarrow>
     u64 option \<Rightarrow> u64 option \<Rightarrow> rotation_view page rotation" where
  "rotation_list keyed actor request_id cursor limit resource state prepared_from prepared_to =
     sbind (on_management (authorize_command actor CmdRotationCatalog request_id)) (\<lambda>_ w.
       if limit = 0 \<or> limit > MAX_PAGE_SIZE
          \<or> (case (prepared_from, prepared_to) of (Some lo, Some hi) \<Rightarrow> hi < lo | _ \<Rightarrow> False)
       then (Err RoLimit, w)
       else
         let c = rw_catalog w
         in case rotation_list_loop (list_skips cursor resource state prepared_from prepared_to)
                   (\<lambda>i row. is_ok (verify keyed rotation_encode RotationState 1 row (rc_mac_key c) (rc_store_id c)
                                   (be_bytes 16 i))) limit (rc_rows c) [] of
              Err e \<Rightarrow> (Err e, w)
            | Ok items \<Rightarrow>
                (Ok \<lparr>pg_schema = MANAGEMENT_OUTPUT_SCHEMA, pg_items = take limit items,
                     pg_next_cursor =
                       (if length items > limit
                        then Some (encode_id (ro_id (vw_record (last (take limit items))))) else None)\<rparr>, w))"

section \<open>Intervals\<close>

record rotation_interval_policy =
  ip_interval_seconds :: "u64 option"
  ip_last_completed_rotation_unix_seconds :: "u64 option"
  ip_created_unix_seconds :: u64
  ip_last_non_rotation_write_unix_seconds :: "u64 option"

record secret_age_view =
  av_age_seconds :: u64
  av_age_basis :: string
  av_interval_seconds :: "u64 option"
  av_due :: bool
  av_changed_since_last_completed_rotation :: bool

definition secret_age_view_of :: "rotation_interval_policy \<Rightarrow> u64 \<Rightarrow> secret_age_view" where
  "secret_age_view_of policy now =
     (let (basis_time, age_basis) =
            (case ip_last_completed_rotation_unix_seconds policy of
               Some completed \<Rightarrow> (completed, ''last_completed_rotation'')
             | None \<Rightarrow> (ip_created_unix_seconds policy, ''creation''));
          age_seconds = saturating_sub now basis_time
      in \<lparr>av_age_seconds = age_seconds, av_age_basis = age_basis,
          av_interval_seconds = ip_interval_seconds policy,
          av_due = (case ip_interval_seconds policy of None \<Rightarrow> False | Some interval \<Rightarrow> interval \<le> age_seconds),
          av_changed_since_last_completed_rotation =
            (case (ip_last_completed_rotation_unix_seconds policy, ip_last_non_rotation_write_unix_seconds policy) of
               (Some completed, Some written) \<Rightarrow> completed < written
             | (None, Some _) \<Rightarrow> True
             | _ \<Rightarrow> False)\<rparr>)"

text \<open>\<open>next.or(current.and(None)).or(next)\<close>.\<close>

definition option_or :: "'a option \<Rightarrow> 'a option \<Rightarrow> 'a option" where
  "option_or a b = (case a of None \<Rightarrow> b | Some _ \<Rightarrow> a)"

definition apply_interval_mutation :: "u64 option \<Rightarrow> u64 option \<Rightarrow> (u64 option, rotation_error) result" where
  "apply_interval_mutation current following =
     (if following = Some 0 then Err RoInvalid
      else Ok (option_or (option_or following (case current of None \<Rightarrow> None | Some _ \<Rightarrow> None)) following))"

definition set_rotation_interval :: "u64 \<Rightarrow> (u64, rotation_error) result" where
  "set_rotation_interval seconds = (if seconds = 0 then Err RoInvalid else Ok seconds)"

definition clear_rotation_interval :: "u64 option" where
  "clear_rotation_interval = None"

end
