(* ===== verification/Rotation_Codec.thy ===== *)
theory Rotation_Codec
  imports Rotation
begin

text \<open>
  The codec of the rotation record. Decoding inverts encoding on every record whose id sets are
  sets, so the sealed rows of the catalog can be written and read back; the converse fails, because
  the id lists are accepted in any order.
\<close>

definition rotation_value_ok :: "rotation_record \<Rightarrow> bool" where
  "rotation_value_ok r \<longleftrightarrow> str_ok (ro_resource r) \<and> bset (ro_declared_consumers r)
     \<and> bset (ro_authorized_identities r) \<and> bset (ro_active_instances r)"

definition ids_wire :: "id16 list \<Rightarrow> bytes" where
  "ids_wire ids = be_bytes 4 (word_of_nat (length ids) :: u32) @ concat (map (be_bytes 16) ids)"

definition transition_wire :: "rotation_transition \<Rightarrow> bytes" where
  "transition_wire t = ro_lifecycle_code (rt_state t) # be_bytes 8 (rt_effective_unix_seconds t) @ be_bytes 8 (rt_version t)"

lemma lifecycle_decode_code [simp]: "ro_lifecycle_decode (ro_lifecycle_code s) = Ok s"
  by (cases s) (simp_all add: ro_lifecycle_decode_def)

lemma foldl_ids: "foldl (\<lambda>out i. out @ be_bytes 16 i) out ids = out @ concat (map (be_bytes 16) ids)"
  by (induction ids arbitrary: out) auto

lemma encode_ids_Ok: "encode_ids ids out = Ok out' \<longleftrightarrow> length ids \<le> MAX_IDS \<and> out' = out @ ids_wire ids"
  by (auto simp: encode_ids_def ids_wire_def codec_simps foldl_ids)

lemma foldl_transitions:
  "foldl (\<lambda>out t. out @ ro_lifecycle_code (rt_state t) # be_bytes 8 (rt_effective_unix_seconds t) @ be_bytes 8 (rt_version t))
     out ts = out @ concat (map transition_wire ts)"
  by (induction ts arbitrary: out) (auto simp: transition_wire_def)

lemma encode_opt: "encode_opt_u64 v out = out @ option_wire (be_bytes 8) v"
  by (cases v) (simp_all add: encode_opt_u64_def codec_simps)

lemma rotation_encode_Ok:
  "rotation_encode r = Ok bs \<longleftrightarrow> rotation_validate r = Ok () \<and> length (ro_resource r) \<le> MAX_RESOURCE
     \<and> length (ro_declared_consumers r) \<le> MAX_IDS \<and> length (ro_authorized_identities r) \<le> MAX_IDS
     \<and> length (ro_active_instances r) \<le> MAX_IDS
     \<and> bs = 1 # be_bytes 16 (ro_id r) @ be_bytes 4 (word_of_nat (length (ro_resource r)) :: u32)
       @ str_bytes (ro_resource r) @ ro_lifecycle_code (ro_state r) # ids_wire (ro_declared_consumers r)
       @ ids_wire (ro_authorized_identities r) @ ids_wire (ro_active_instances r)
       @ be_bytes 8 (ro_protected_version r) @ be_bytes 8 (ro_expected_cas r)
       @ option_wire (be_bytes 8) (ro_target_version r) @ be_bytes 16 (ro_actor_identity_id r)
       @ be_bytes 8 (ro_prepared_unix_seconds r) @ option_wire (be_bytes 8) (ro_cutover_unix_seconds r)
       @ word_of_nat (length (ro_history r)) # concat (map transition_wire (ro_history r))"
  unfolding rotation_encode_def
  by (auto simp: Let_def codec_simps encode_ids_Ok encode_opt foldl_transitions)

lemma reads_id_loop:
  "distinct is \<Longrightarrow> set ids \<inter> set is = {} \<Longrightarrow>
     reads (decode_id_loop (length is) ids) (concat (map (be_bytes 16) is)) (foldl (\<lambda>s i. bs_insert i s) ids is)"
  by (induction "is" arbitrary: ids) (auto intro!: reads_dret reads_rules)

lemma reads_decode_ids:
  assumes "length is \<le> MAX_IDS" and "distinct is"
  shows "reads decode_ids (ids_wire is) (foldl (\<lambda>s i. bs_insert i s) [] is)"
  using assms reads_id_loop [of "is" "[]"]
  by (auto simp: decode_ids_def ids_wire_def unat_len_u32 intro!: reads_rules)

lemma foldl_bs_insert_set:
  "set (foldl (\<lambda>s i. bs_insert i s) ids is) = set ids \<union> set is"
  "bset ids \<Longrightarrow> bset (foldl (\<lambda>s i. bs_insert i s) ids is)"
  by (induction "is" arbitrary: ids) auto

lemma reads_ids:
  assumes "length is \<le> MAX_IDS" and "distinct is" and "bset ids" and "set ids = set is"
  shows "reads decode_ids (ids_wire is) ids"
proof -
  have "foldl (\<lambda>s i. bs_insert i s) [] is = ids"
    using assms(3,4) by (intro bset_eq) (simp_all add: foldl_bs_insert_set)
  then show ?thesis using reads_decode_ids [OF assms(1,2)] by simp
qed

lemma reads_opt: "reads decode_opt_u64 (option_wire (be_bytes 8) v) v"
  by (cases v) (auto simp: decode_opt_u64_def intro!: reads_rules)

lemma reads_transitions: "reads (dec_repeat (length ts) decode_transition) (concat (map transition_wire ts)) ts"
proof (rule reads_dec_repeat)
  show "reads decode_transition (transition_wire t) t" for t
    by (cases t) (auto simp: decode_transition_def transition_wire_def intro!: reads_rules)
qed

definition rotation_wire :: "rotation_record \<Rightarrow> id16 list \<Rightarrow> bytes" where
  "rotation_wire r ds = 1 # be_bytes 16 (ro_id r) @ be_bytes 4 (word_of_nat (length (ro_resource r)) :: u32)
     @ str_bytes (ro_resource r) @ ro_lifecycle_code (ro_state r) # ids_wire ds
     @ ids_wire (ro_authorized_identities r) @ ids_wire (ro_active_instances r)
     @ be_bytes 8 (ro_protected_version r) @ be_bytes 8 (ro_expected_cas r)
     @ option_wire (be_bytes 8) (ro_target_version r) @ be_bytes 16 (ro_actor_identity_id r)
     @ be_bytes 8 (ro_prepared_unix_seconds r) @ option_wire (be_bytes 8) (ro_cutover_unix_seconds r)
     @ word_of_nat (length (ro_history r)) # concat (map transition_wire (ro_history r))"

text \<open>The declared consumers may come in any order.\<close>

lemma rotation_decode_any_order:
  assumes "rotation_value_ok r" "rotation_encode r = Ok bs" "vec_ok (rotation_wire r ds)"
    and "distinct ds" "set ds = set (ro_declared_consumers r)"
  shows "rotation_decode (rotation_wire r ds) = Ok r"
proof -
  have ids: "bset (ro_declared_consumers r)" "bset (ro_authorized_identities r)" "bset (ro_active_instances r)"
    using assms(1) by (simp_all add: rotation_value_ok_def)
  then have distinct: "distinct (ro_authorized_identities r)" "distinct (ro_active_instances r)"
    "length ds = length (ro_declared_consumers r)"
    using assms(4,5) by (auto simp: bset_iff) (metis distinct_card)
  have enc: "rotation_validate r = Ok ()" "length ds \<le> MAX_IDS" "length (ro_resource r) \<le> MAX_RESOURCE"
    "length (ro_authorized_identities r) \<le> MAX_IDS" "length (ro_active_instances r) \<le> MAX_IDS"
    using assms(2) distinct(3) by (auto simp: rotation_encode_Ok)
  then have hist: "ro_history r \<noteq> []" "length (ro_history r) \<le> MAX_HISTORY"
    by (auto simp: rotation_validate_def split: if_splits)
  then have len: "unat (word_of_nat (length (ro_history r)) :: u8) = length (ro_history r)"
    by (simp add: unat_u8_of_nat)
  have eta: "\<lparr>ro_id = ro_id r, ro_resource = ro_resource r, ro_state = ro_state r,
      ro_declared_consumers = ro_declared_consumers r, ro_authorized_identities = ro_authorized_identities r,
      ro_active_instances = ro_active_instances r, ro_protected_version = ro_protected_version r,
      ro_expected_cas = ro_expected_cas r, ro_target_version = ro_target_version r,
      ro_actor_identity_id = ro_actor_identity_id r, ro_prepared_unix_seconds = ro_prepared_unix_seconds r,
      ro_cutover_unix_seconds = ro_cutover_unix_seconds r, ro_history = ro_history r\<rparr> = r"
    by simp
  note lists = reads_ids [OF enc(2) assms(4) ids(1) assms(5) [symmetric]]
    reads_ids [OF enc(4) distinct(1) ids(2) refl] reads_ids [OF enc(5) distinct(2) ids(3) refl]
  show ?thesis
    using assms(1,3) enc hist unfolding rotation_wire_def rotation_decode_def rotation_value_ok_def
    by (auto simp: Let_def len eta
        intro!: run_dec_accepts accepts_intros accepts_bind [OF reads_opt] accepts_bind_end [OF reads_transitions]
          accepts_bind [OF lists(1)] accepts_bind [OF lists(2)] accepts_bind [OF lists(3)])
qed

lemma rotation_encode_wire: "rotation_encode r = Ok bs \<Longrightarrow> bs = rotation_wire r (ro_declared_consumers r)"
  by (simp add: rotation_encode_Ok rotation_wire_def)

lemma rotation_decode_encode:
  "rotation_value_ok r \<Longrightarrow> rotation_encode r = Ok bs \<Longrightarrow> vec_ok bs \<Longrightarrow> rotation_decode bs = Ok r"
  using rotation_decode_any_order [of r bs "ro_declared_consumers r"] rotation_encode_wire [of r bs]
  by (simp add: rotation_value_ok_def bset_iff)

interpretation rotation_row: clear_record rotation_encode rotation_decode rotation_value_ok RotationState 1
  using rotation_decode_encode by unfold_locales

definition sample_rotation :: rotation_record where
  "sample_rotation = \<lparr>ro_id = 9, ro_resource = ''secret/app/db'', ro_state = Prepared,
     ro_declared_consumers = [1, 2], ro_authorized_identities = [], ro_active_instances = [],
     ro_protected_version = 1, ro_expected_cas = 1, ro_target_version = None, ro_actor_identity_id = 2,
     ro_prepared_unix_seconds = 5, ro_cutover_unix_seconds = None,
     ro_history = [\<lparr>rt_state = Prepared, rt_effective_unix_seconds = 5, rt_version = 1\<rparr>]\<rparr>"

text \<open>The codec of the rotation record is not canonical: two byte strings decode to the same record.\<close>

theorem rotation_decode_not_canonical:
  "\<exists>r as bs. as \<noteq> bs \<and> rotation_decode as = Ok r \<and> rotation_decode bs = Ok r"
proof -
  let ?r = sample_rotation
  have ok: "rotation_value_ok ?r"
    by (simp add: rotation_value_ok_def sample_rotation_def str_ok_def utf8_valid_def str_bytes_def
        byte_of_char_def bset_def)
  have "rotation_validate ?r = Ok ()"
    by (simp add: rotation_validate_def sample_rotation_def endpoint_for_def Let_def)
  then have enc: "rotation_encode ?r = Ok (rotation_wire ?r [1, 2])"
    by (simp add: rotation_encode_Ok rotation_wire_def sample_rotation_def)
  have vec: "vec_ok (rotation_wire ?r ds)" if "length ds = 2" for ds
    using that
    by (simp add: vec_ok_def rotation_wire_def ids_wire_def sample_rotation_def transition_wire_def length_concat comp_def
        sum_list_triv)
  have "be_bytes 16 (1 :: id16) \<noteq> be_bytes 16 (2 :: id16)"
    by (simp add: be_bytes_inject)
  then have "rotation_wire ?r [1, 2] \<noteq> rotation_wire ?r [2, 1]"
    by (simp add: rotation_wire_def ids_wire_def)
  moreover have dec: "rotation_decode (rotation_wire ?r ds) = Ok ?r" if "length ds = 2" "distinct ds" "set ds = {1, 2}" for ds
  proof -
    have "set ds = set (ro_declared_consumers ?r)" using that(3) by (simp add: sample_rotation_def)
    then show ?thesis using rotation_decode_any_order [OF ok enc vec [OF that(1)] that(2)] by simp
  qed
  have "rotation_decode (rotation_wire ?r [1, 2]) = Ok ?r" "rotation_decode (rotation_wire ?r [2, 1]) = Ok ?r"
    using dec [of "[1, 2]"] dec [of "[2, 1]"] by (simp_all add: insert_commute)
  ultimately show ?thesis by blast
qed

end
