(* ===== verification/Rotation_Safety.thy ===== *)
theory Rotation_Safety
  imports Rotation_Codec Kv_Contracts Management_Safety
begin

text \<open>
  What rotations promise, whatever calls on the KV service and on the management plane are mixed in:
  the rows of the catalog follow the lifecycle, a resource has at most one open rotation, finished
  rotations never change, and a rollback brings back the value the rotation cut over from.
\<close>

section \<open>The lifecycle of a record\<close>

inductive lifecycle_move :: "rotation_record \<Rightarrow> rotation_record \<Rightarrow> bool" where
  move_refresh: "ro_state r = Prepared \<Longrightarrow>
    lifecycle_move r (push_transition Prepared t v
      (r\<lparr>ro_declared_consumers := ds, ro_authorized_identities := is, ro_active_instances := as,
         ro_protected_version := v, ro_expected_cas := v, ro_prepared_unix_seconds := t\<rparr>))"
| move_cutover: "ro_state r = Prepared \<Longrightarrow>
    lifecycle_move r (push_transition Cutover t v
      (r\<lparr>ro_state := Cutover, ro_target_version := Some v, ro_cutover_unix_seconds := Some t\<rparr>))"
| move_cancel: "ro_state r = Prepared \<Longrightarrow>
    lifecycle_move r (push_transition CancelledBeforeCutover t v (r\<lparr>ro_state := CancelledBeforeCutover\<rparr>))"
| move_supersede: "ro_state r = Cutover \<Longrightarrow>
    lifecycle_move r (push_transition Superseded t v (r\<lparr>ro_state := Superseded\<rparr>))"
| move_complete: "ro_state r = Cutover \<Longrightarrow>
    lifecycle_move r (push_transition Completed t v (r\<lparr>ro_state := Completed\<rparr>))"

definition lifecycle_next :: "rotation_lifecycle \<Rightarrow> rotation_lifecycle \<Rightarrow> bool" where
  "lifecycle_next a b \<longleftrightarrow>
     a = Prepared \<and> (b = Prepared \<or> b = Cutover \<or> b = CancelledBeforeCutover)
     \<or> a = Cutover \<and> (b = Completed \<or> b = Superseded)"

definition lifecycle_ok :: "rotation_record \<Rightarrow> bool" where
  "lifecycle_ok r \<longleftrightarrow>
     ro_history r \<noteq> [] \<and> rt_state (hd (ro_history r)) = Prepared \<and> rt_state (last (ro_history r)) = ro_state r
     \<and> successively (\<lambda>a b. lifecycle_next (rt_state a) (rt_state b)) (ro_history r)
     \<and> ro_expected_cas r = ro_protected_version r
     \<and> (ro_target_version r = None \<longleftrightarrow> ro_state r = Prepared \<or> ro_state r = CancelledBeforeCutover)"

text \<open>Between two states of a row: nothing happened, or it was open and its history has grown.\<close>

definition record_forward :: "rotation_record \<Rightarrow> rotation_record \<Rightarrow> bool" where
  "record_forward r r' \<longleftrightarrow> r' = r \<or>
     (\<not> lifecycle_terminal (ro_state r) \<and> ro_id r' = ro_id r \<and> ro_resource r' = ro_resource r
      \<and> (\<exists>ts. ts \<noteq> [] \<and> ro_history r' = ro_history r @ ts)
      \<and> (ro_state r = Cutover \<longrightarrow> lifecycle_terminal (ro_state r')
           \<and> ro_protected_version r' = ro_protected_version r \<and> ro_target_version r' = ro_target_version r))"

lemma lifecycle_move_ok: "lifecycle_move r r' \<Longrightarrow> lifecycle_ok r \<Longrightarrow> lifecycle_ok r'"
  by (induction rule: lifecycle_move.induct)
    (auto simp: lifecycle_ok_def push_transition_def successively_append_iff lifecycle_next_def)

lemma lifecycle_move_forward: "lifecycle_move r r' \<Longrightarrow> record_forward r r'"
  by (induction rule: lifecycle_move.induct)
    (auto simp: record_forward_def push_transition_def lifecycle_terminal_def)

lemma record_forward_trans: "record_forward a b \<Longrightarrow> record_forward b c \<Longrightarrow> record_forward a c"
  by (auto simp: record_forward_def)

lemma lifecycle_move_history: "lifecycle_move r r' \<Longrightarrow>
    length (ro_history r') = Suc (length (ro_history r)) \<and> ro_id r' = ro_id r \<and> ro_resource r' = ro_resource r
    \<and> \<not> lifecycle_terminal (ro_state r)"
  by (induction rule: lifecycle_move.induct) (auto simp: push_transition_def lifecycle_terminal_def)

section \<open>Steps of the catalog\<close>

abbreviation row_verifies :: "keyed_hash \<Rightarrow> rotation_catalog \<Rightarrow> id16 \<Rightarrow> rotation_record sealed \<Rightarrow> bool" where
  "row_verifies keyed c i s \<equiv>
     verify keyed rotation_encode RotationState 1 s (rc_mac_key c) (rc_store_id c) (be_bytes 16 i) = Ok ()"

definition may_install :: "keyed_hash \<Rightarrow> rotation_catalog \<Rightarrow> rotation_record \<Rightarrow> u64 \<Rightarrow> bool" where
  "may_install keyed c r g \<longleftrightarrow>
     (\<not> bt_contains (rc_rows c) (ro_id r) \<and> open_rotation (ro_resource r) c = None \<and> g = 1
        \<and> ro_state r = Prepared \<and> length (ro_history r) = 1 \<and> lifecycle_ok r)
     \<or> (\<exists>v. show_inner keyed (ro_id r) c = Ok v \<and> length (ro_history (vw_record v)) < MAX_HISTORY
          \<and> checked_add (vw_generation v) 1 = Some g \<and> lifecycle_move (vw_record v) r)"

definition same_rows :: "rotation_world \<Rightarrow> rotation_world \<Rightarrow> bool" where
  "same_rows w w' \<longleftrightarrow> rc_rows (rw_catalog w') = rc_rows (rw_catalog w)
     \<and> rc_store_id (rw_catalog w') = rc_store_id (rw_catalog w)
     \<and> rc_mac_key (rw_catalog w') = rc_mac_key (rw_catalog w)"

inductive rotation_step :: "keyed_hash \<Rightarrow> rotation_world \<Rightarrow> rotation_world \<Rightarrow> bool" for keyed where
  step_quiet: "same_rows w w' \<Longrightarrow> rotation_step keyed w w'"
| step_install: "may_install keyed (rw_catalog w) r g \<Longrightarrow>
    seal keyed rotation_encode RotationState 1 r g (rc_mac_key (rw_catalog w)) (rc_store_id (rw_catalog w))
      (be_bytes 16 (ro_id r)) = Ok s \<Longrightarrow>
    same_rows (w\<lparr>rw_catalog := (rw_catalog w)\<lparr>rc_rows := bt_insert (ro_id r) s (rc_rows (rw_catalog w))\<rparr>\<rparr>) w' \<Longrightarrow>
    rotation_step keyed w w'"

interpretation quiet: effect_preorder same_rows
  by unfold_locales (auto simp: same_rows_def)

lemma quiet_management: "keeps same_rows (on_management f)"
  by (auto simp: keeps_def on_management_def same_rows_def split: prod.split)

lemma quiet_kv: "keeps same_rows (on_kv f)"
  by (auto simp: keeps_def on_kv_def same_rows_def split: prod.split)

lemma quiet_show: "keeps same_rows (show_row keyed i)"
  by (simp add: keeps_def show_row_def same_rows_def)

lemma quiet_mark: "keeps same_rows (mark_completed q c i)"
  by (simp add: keeps_def mark_completed_def same_rows_def)

lemma quiet_row: "keeps same_rows (lifecycle_row keyed i g state)"
  unfolding lifecycle_row_def by (intro quiet.keeps_bind quiet.keeps_slift quiet_show)

lemmas quiet_rules = quiet.keeps_slift quiet.keeps_srequire quiet_management quiet_kv quiet_show quiet_mark quiet_row

definition moves :: "keyed_hash \<Rightarrow> 'a rotation \<Rightarrow> rotation_world \<Rightarrow> bool" where
  "moves keyed m w \<longleftrightarrow> rotation_step keyed w (snd (m w))"

lemma moves_quiet: "keeps same_rows m \<Longrightarrow> moves keyed m w"
  by (simp add: moves_def keeps_def step_quiet)

lemma same_rows_inner: "same_rows w w' \<Longrightarrow> show_inner keyed i (rw_catalog w') = show_inner keyed i (rw_catalog w)"
  by (simp add: same_rows_def show_inner_def split: option.split)

lemma same_rows_install: "same_rows w w' \<Longrightarrow> may_install keyed (rw_catalog w') r g = may_install keyed (rw_catalog w) r g"
  by (simp add: may_install_def same_rows_inner) (simp add: same_rows_def open_rotation_def)

lemma step_after: "same_rows w w' \<Longrightarrow> rotation_step keyed w' w'' \<Longrightarrow> rotation_step keyed w w''"
proof (erule rotation_step.cases)
  assume same: "same_rows w w'"
  show "rotation_step keyed w w''" if "w' = u" "w'' = u'" "same_rows u u'" for u u'
    using quiet.R_trans [OF same] that by (simp add: step_quiet)
  show "rotation_step keyed w w''"
    if u: "w' = u" "w'' = u'" and may: "may_install keyed (rw_catalog u) r g"
      and sealed: "seal keyed rotation_encode RotationState 1 r g (rc_mac_key (rw_catalog u))
        (rc_store_id (rw_catalog u)) (be_bytes 16 (ro_id r)) = Ok s"
      and rows: "same_rows (u\<lparr>rw_catalog := (rw_catalog u)\<lparr>rc_rows := bt_insert (ro_id r) s (rc_rows (rw_catalog u))\<rparr>\<rparr>) u'"
    for u r g s u'
  proof (rule step_install)
    show "may_install keyed (rw_catalog w) r g"
      using may same_rows_install [OF same] u(1) by simp
  qed (use sealed rows same u in \<open>simp_all add: same_rows_def\<close>)
qed

lemma moves_bind:
  assumes "keeps same_rows m" and "\<And>a w'. m w = (Ok a, w') \<Longrightarrow> same_rows w w' \<Longrightarrow> moves keyed (f a) w'"
  shows "moves keyed (sbind m f) w"
proof -
  obtain r w' where r: "m w = (r, w')" by (cases "m w")
  then have same: "same_rows w w'" using assms(1) by (rule quiet.keepsD [rotated])
  then show ?thesis
    using r assms(2) by (cases r) (auto simp: moves_def sbind_def intro: step_quiet step_after)
qed

lemma sbind_assoc: "sbind (sbind m k) f = sbind m (\<lambda>a. sbind (k a) f)"
  by (rule ext) (simp add: sbind_def split: prod.split result.split)

lemma moves_install:
  assumes may: "may_install keyed (rw_catalog w) r g" and quiet: "\<And>a. keeps same_rows (f a)"
  shows "moves keyed (sbind (install keyed r g) f) w"
proof (cases "seal keyed rotation_encode RotationState 1 r g (rc_mac_key (rw_catalog w)) (rc_store_id (rw_catalog w))
    (be_bytes 16 (ro_id r))")
  case (Ok s)
  let ?w = "w\<lparr>rw_catalog := (rw_catalog w)\<lparr>rc_rows := bt_insert (ro_id r) s (rc_rows (rw_catalog w))\<rparr>\<rparr>"
  have "sbind (install keyed r g) f w = f () ?w"
    using Ok by (simp add: sbind_def install_def Let_def)
  moreover have "same_rows ?w (snd (f () ?w))"
    using quiet [of "()"] by (simp add: keeps_def)
  ultimately show ?thesis
    using step_install [OF may Ok] by (simp add: moves_def)
next
  case (Err e)
  then have "snd (sbind (install keyed r g) f w) = w"
    by (simp add: sbind_def install_def Let_def)
  then show ?thesis by (simp add: moves_def step_quiet quiet.R_refl)
qed

lemma moves_finish:
  "may_install keyed (rw_catalog w) r g \<Longrightarrow> (\<And>a. keeps same_rows (f a)) \<Longrightarrow>
   moves keyed (sbind (finish_call keyed actor c q reason r g) f) w"
  unfolding finish_call_def sbind_assoc by (intro moves_install quiet.keeps_bind quiet_rules)

lemma moves_lifecycle_call:
  "(\<And>w'. same_rows w w' \<Longrightarrow> moves keyed body w') \<Longrightarrow> keeps same_rows again \<Longrightarrow>
   moves keyed (lifecycle_call actor c q i again body) w"
  unfolding lifecycle_call_def
  by (rule moves_bind [OF quiet_management]) (simp add: moves_def step_quiet keeps_def)

text \<open>The row read by the later operations may be replaced by its successor.\<close>

definition rows_keyed :: "rotation_world \<Rightarrow> bool" where
  "rows_keyed w \<longleftrightarrow> (\<forall>i s. bt_get (rc_rows (rw_catalog w)) i = Some s \<longrightarrow> ro_id (s_value s) = i)"

lemma show_inner_row: "show_inner keyed i c = Ok v \<Longrightarrow>
    \<exists>s. bt_get (rc_rows c) i = Some s \<and> row_verifies keyed c i s \<and> vw_record v = s_value s \<and> vw_generation v = s_generation s"
  by (auto simp: show_inner_def split: option.splits)

lemma rows_keyed_same: "same_rows w w' \<Longrightarrow> rows_keyed w \<Longrightarrow> rows_keyed w'"
  by (simp add: rows_keyed_def same_rows_def)

lemma show_row_Ok [simp]: "show_row keyed i w = (Ok v, w') \<longleftrightarrow> w' = w \<and> show_inner keyed i (rw_catalog w) = Ok v"
  by (auto simp: show_row_def)

lemma lifecycle_row_Ok:
  "lifecycle_row keyed i g state w = (Ok (r, g', ep), w') \<Longrightarrow> w' = w \<and> (\<exists>v. show_inner keyed i (rw_catalog w) = Ok v
     \<and> vw_generation v = g \<and> ro_state r = state \<and> length (ro_history r) < MAX_HISTORY
     \<and> r = vw_record v \<and> checked_add g 1 = Some g' \<and> endpoint_for (ro_resource r) = Ok ep)"
  by (auto simp: lifecycle_row_def require_state_def ensure_history_room_def next_generation_def split: if_splits)

lemma may_advance:
  assumes "show_inner keyed i (rw_catalog w) = Ok v" and "same_rows w w'" and "rows_keyed w"
    and "length (ro_history (vw_record v)) < MAX_HISTORY" and "checked_add (vw_generation v) 1 = Some g"
    and "lifecycle_move (vw_record v) r"
  shows "may_install keyed (rw_catalog w') r g"
proof -
  have "ro_id r = i"
    using show_inner_row [OF assms(1)] assms(3) lifecycle_move_history [OF assms(6)] by (auto simp: rows_keyed_def)
  then show ?thesis
    using assms by (auto simp: may_install_def same_rows_inner [OF assms(2)])
qed

lemma may_advance_row:
  assumes "lifecycle_row keyed i g state w = (Ok (r, g', ep), w1)" and "same_rows w w'" and "rows_keyed w"
    and "ro_state r = state \<Longrightarrow> lifecycle_move r r'"
  shows "may_install keyed (rw_catalog w') r' g'"
  using lifecycle_row_Ok [OF assms(1)] may_advance [OF _ assms(2,3)] assms(4) by auto

lemma moves_bind_here:
  "keeps same_rows (m w) \<Longrightarrow> (\<And>a w'. m w w = (Ok a, w') \<Longrightarrow> same_rows w w' \<Longrightarrow> moves keyed (f a) w') \<Longrightarrow>
   moves keyed (\<lambda>w. sbind (m w) f w) w"
  using moves_bind [of "m w" w keyed f] by (simp add: moves_def)

lemmas moves_rules = moves_finish moves_install moves_bind_here moves_bind quiet_rules

lemma may_begin:
  assumes "begin_checks i resource t (rw_catalog w) = Ok ()" and "same_rows w w'"
    and "ro_id r = i" and "ro_resource r = resource"
    and "ro_state r = Prepared" and "length (ro_history r) = 1" and "lifecycle_ok r"
  shows "may_install keyed (rw_catalog w') r 1"
  using assms
  by (auto simp: may_install_def begin_checks_def same_rows_def open_rotation_def split: if_splits option.splits)

lemma begin_moves: "moves keyed (rotation_begin keyed actor q i resource snapshot t) w"
  unfolding rotation_begin_def Let_def
  by (rule moves_lifecycle_call [OF _ quiet_show], intro moves_rules, clarsimp, erule may_begin)
    (auto simp: lifecycle_ok_def same_rows_def)

lemma refresh_moves: "rows_keyed w \<Longrightarrow> moves keyed (rotation_refresh keyed actor q i g snapshot t) w"
  unfolding rotation_refresh_def Let_def
  by (rule moves_lifecycle_call [OF _ quiet_show], intro moves_rules, clarsimp, intro moves_rules,
      erule may_advance_row)
    (auto simp: same_rows_def rows_keyed_def intro: move_refresh)

lemma cutover_moves: "rows_keyed w \<Longrightarrow> moves keyed (rotation_cutover keyed tv actor q i g data t) w"
  unfolding rotation_cutover_def Let_def
  by (rule moves_lifecycle_call [OF _ quiet_show], intro moves_rules, clarsimp, intro moves_rules,
      erule may_advance_row)
    (auto simp: same_rows_def rows_keyed_def intro: move_cutover)

lemma cancel_moves: "rows_keyed w \<Longrightarrow> moves keyed (rotation_cancel keyed actor q i g t reason) w"
  unfolding rotation_cancel_def Let_def
  by (rule moves_lifecycle_call [OF _ quiet_show], intro moves_rules, clarsimp, intro moves_rules,
      erule may_advance_row)
    (auto simp: same_rows_def rows_keyed_def intro: move_cancel)

lemma rollback_moves: "rows_keyed w \<Longrightarrow> moves keyed (rotation_rollback keyed actor q i g t reason) w"
  unfolding rotation_rollback_def Let_def
  by (rule moves_lifecycle_call [OF _ quiet_show], intro moves_rules, clarsimp, intro moves_rules,
      erule may_advance_row)
    (auto simp: same_rows_def rows_keyed_def intro: move_supersede)

lemma supersede_moves: "rows_keyed w \<Longrightarrow> moves keyed (supersede_after_plain_write keyed i g t) w"
  unfolding supersede_after_plain_write_def Let_def
  by (intro moves_rules, clarsimp, intro moves_rules, erule may_advance_row)
    (auto simp: same_rows_def rows_keyed_def intro: move_supersede)

lemma complete_moves: "rows_keyed w \<Longrightarrow> moves keyed (rotation_complete keyed actor q i g v ms ack reason t) w"
  unfolding rotation_complete_def Let_def
  by (rule moves_lifecycle_call [OF _ quiet.keeps_slift], intro moves_rules, clarsimp, rule may_advance, assumption)
    (auto simp: same_rows_def rows_keyed_def require_state_def ensure_history_room_def next_generation_def
      split: if_splits intro: move_complete)

lemma show_moves: "moves keyed (rotation_show keyed actor q i) w"
  unfolding rotation_show_def by (intro moves_quiet quiet.keeps_bind quiet_rules)

lemma status_moves:
  "moves keyed (rotation_status keyed actor q i obs retired lo hi lookback t instance_map consumer_map) w"
  unfolding rotation_status_def Let_def by (intro moves_quiet quiet.keeps_bind quiet_rules)

lemma list_moves: "moves keyed (rotation_list keyed actor q cursor limit resource state lo hi) w"
  unfolding rotation_list_def
  by (intro moves_quiet quiet.keeps_bind quiet_rules)
    (auto simp: keeps_def Let_def quiet.R_refl split: result.split)

section \<open>The invariant of the catalog\<close>

definition is_open :: "rotation_record \<Rightarrow> bool" where
  "is_open r \<longleftrightarrow> ro_state r = Prepared \<or> ro_state r = Cutover"

definition rotation_ok :: "keyed_hash \<Rightarrow> rotation_world \<Rightarrow> bool" where
  "rotation_ok keyed w \<longleftrightarrow> (let c = rw_catalog w in btree (rc_rows c)
     \<and> (\<forall>i s. bt_get (rc_rows c) i = Some s \<longrightarrow> ro_id (s_value s) = i \<and> row_verifies keyed c i s
          \<and> lifecycle_ok (s_value s) \<and> unat (s_generation s) = length (ro_history (s_value s)))
     \<and> (\<forall>i s j t. bt_get (rc_rows c) i = Some s \<longrightarrow> bt_get (rc_rows c) j = Some t \<longrightarrow>
          is_open (s_value s) \<longrightarrow> is_open (s_value t) \<longrightarrow> ro_resource (s_value s) = ro_resource (s_value t) \<longrightarrow> i = j))"

definition rotation_le :: "rotation_world \<Rightarrow> rotation_world \<Rightarrow> bool" where
  "rotation_le w w' \<longleftrightarrow> (\<forall>i s. bt_get (rc_rows (rw_catalog w)) i = Some s \<longrightarrow>
     (\<exists>s'. bt_get (rc_rows (rw_catalog w')) i = Some s' \<and> record_forward (s_value s) (s_value s')
        \<and> s_generation s \<le> s_generation s'))"

lemma rotation_ok_same: "same_rows w w' \<Longrightarrow> rotation_ok keyed w = rotation_ok keyed w'"
  by (simp add: rotation_ok_def same_rows_def Let_def)

lemma rotation_ok_keyed: "rotation_ok keyed w \<Longrightarrow> rows_keyed w"
  by (simp add: rotation_ok_def rows_keyed_def Let_def)

lemma open_rotation_None:
  "open_rotation resource c = None \<Longrightarrow> bt_get (rc_rows c) i = Some s \<Longrightarrow> is_open (s_value s) \<Longrightarrow>
     ro_resource (s_value s) \<noteq> resource"
  unfolding open_rotation_def by (drule bt_get_in_set) (auto simp: find_None_iff is_open_def)

lemma may_install_cases:
  assumes "may_install keyed (rw_catalog w) r g"
  obtains (first) "bt_get (rc_rows (rw_catalog w)) (ro_id r) = None" "open_rotation (ro_resource r) (rw_catalog w) = None"
      "g = 1" "length (ro_history r) = 1" "lifecycle_ok r"
    | (later) s where "bt_get (rc_rows (rw_catalog w)) (ro_id r) = Some s" "lifecycle_move (s_value s) r"
      "checked_add (s_generation s) 1 = Some g"
  using assms unfolding may_install_def bt_contains_def
  by (elim disjE conjE exE) (blast, metis show_inner_row)

lemma rotation_okD:
  assumes "rotation_ok keyed w" and "bt_get (rc_rows (rw_catalog w)) i = Some s"
  shows "ro_id (s_value s) = i" "row_verifies keyed (rw_catalog w) i s" "lifecycle_ok (s_value s)"
    "unat (s_generation s) = length (ro_history (s_value s))"
    "bt_get (rc_rows (rw_catalog w)) j = Some t \<Longrightarrow> is_open (s_value s) \<Longrightarrow> is_open (s_value t) \<Longrightarrow>
       ro_resource (s_value s) = ro_resource (s_value t) \<Longrightarrow> i = j"
  using assms unfolding rotation_ok_def Let_def by blast+

lemma lifecycle_move_open: "lifecycle_move r r' \<Longrightarrow> is_open r"
  by (erule lifecycle_move.cases) (simp_all add: is_open_def)

lemma may_install_row:
  assumes ok: "rotation_ok keyed w" and may: "may_install keyed (rw_catalog w) r g"
  shows "lifecycle_ok r \<and> unat g = length (ro_history r)
      \<and> (\<forall>s. bt_get (rc_rows (rw_catalog w)) (ro_id r) = Some s \<longrightarrow> record_forward (s_value s) r \<and> s_generation s \<le> g)
      \<and> (\<forall>j t. bt_get (rc_rows (rw_catalog w)) j = Some t \<longrightarrow> is_open (s_value t) \<longrightarrow>
           ro_resource (s_value t) = ro_resource r \<longrightarrow> j = ro_id r)"
  using may
proof (cases rule: may_install_cases)
  case first
  then show ?thesis using open_rotation_None by auto
next
  case (later s)
  note row = rotation_okD [OF ok later(1)] and move = later(2)
  have g: "unat g = Suc (unat (s_generation s))" "s_generation s < g"
    using checked_add_1_Some [OF later(3)] checked_add_1_Some_less [OF later(3)] by auto
  show ?thesis
  proof (intro conjI allI impI)
    show "lifecycle_ok r" by (rule lifecycle_move_ok [OF move row(3)])
    show "unat g = length (ro_history r)"
      using g(1) row(4) lifecycle_move_history [OF move] by simp
    show "record_forward (s_value t) r" "s_generation t \<le> g" if "bt_get (rc_rows (rw_catalog w)) (ro_id r) = Some t" for t
      using that later(1) lifecycle_move_forward [OF move] g(2) by simp_all
    show "j = ro_id r" if "bt_get (rc_rows (rw_catalog w)) j = Some t" "is_open (s_value t)"
      "ro_resource (s_value t) = ro_resource r" for j t
      using row(5) [OF that(1) lifecycle_move_open [OF move] that(2)] lifecycle_move_history [OF move] that(3) by simp
  qed
qed

lemma rotation_step_ok:
  assumes "rotation_step keyed w w'" and "rotation_ok keyed w"
  shows "rotation_ok keyed w' \<and> rotation_le w w'"
  using assms(1)
proof cases
  case step_quiet
  then show ?thesis
    using assms(2) rotation_ok_same [OF step_quiet] by (auto simp: rotation_le_def same_rows_def record_forward_def)
next
  case (step_install r g s)
  let ?rows = "rc_rows (rw_catalog w)"
  have bt: "btree ?rows" using assms(2) by (simp add: rotation_ok_def Let_def)
  have rows: "rc_rows (rw_catalog w') = bt_insert (ro_id r) s ?rows"
    and key: "rc_mac_key (rw_catalog w') = rc_mac_key (rw_catalog w)" "rc_store_id (rw_catalog w') = rc_store_id (rw_catalog w)"
    using step_install(3) by (auto simp: same_rows_def)
  have s: "s_value s = r" "s_generation s = g" "row_verifies keyed (rw_catalog w') (ro_id r) s"
    using step_install(2) rotation_row.seal_fields rotation_row.seal_verify by (auto simp: key)
  note row = may_install_row [OF assms(2) step_install(1)]
  have "rotation_ok keyed w'"
    unfolding rotation_ok_def Let_def rows
    using rotation_okD [OF assms(2)] row s bt key by (auto simp: bt_get_insert split: if_splits)
  moreover have "rotation_le w w'"
    unfolding rotation_le_def rows using row s bt by (auto simp: bt_get_insert record_forward_def)
  ultimately show ?thesis by blast
qed

section \<open>Runs\<close>

text \<open>The calls of the rotation catalog, mixed with calls on the KV service and on the management plane.\<close>

datatype rotation_call =
    RcBegin management_principal id16 id16 string rotation_snapshot_input u64
  | RcRefresh management_principal id16 id16 u64 rotation_snapshot_input u64
  | RcCutover management_principal id16 id16 u64 "(string \<times> json) list" u64
  | RcCancel management_principal id16 id16 u64 u64 string
  | RcRollback management_principal id16 id16 u64 u64 string
  | RcSupersede id16 u64 u64
  | RcComplete management_principal id16 id16 u64 u64 "adoption_member list" bool "string option" u64
  | RcShow management_principal id16 id16
  | RcStatus management_principal id16 id16 "read_observation list" "id16 list" u64 u64 "u64 option" u64
      "(id16 \<times> id16) list" "(id16 \<times> id16) list"
  | RcList management_principal id16 "id16 option" nat "string option" "rotation_lifecycle option"
      "u64 option" "u64 option"

datatype world_call = OnRotation rotation_call | OnKv kv_call | OnManagement mgmt_call

primrec rotation_apply ::
  "keyed_hash \<Rightarrow> (json \<Rightarrow> bytes option) \<Rightarrow> rotation_call \<Rightarrow> rotation_world \<Rightarrow> rotation_world" where
  "rotation_apply k tv (RcBegin a q i resource snapshot t) w = snd (rotation_begin k a q i resource snapshot t w)"
| "rotation_apply k tv (RcRefresh a q i g snapshot t) w = snd (rotation_refresh k a q i g snapshot t w)"
| "rotation_apply k tv (RcCutover a q i g data t) w = snd (rotation_cutover k tv a q i g data t w)"
| "rotation_apply k tv (RcCancel a q i g t reason) w = snd (rotation_cancel k a q i g t reason w)"
| "rotation_apply k tv (RcRollback a q i g t reason) w = snd (rotation_rollback k a q i g t reason w)"
| "rotation_apply k tv (RcSupersede i g t) w = snd (supersede_after_plain_write k i g t w)"
| "rotation_apply k tv (RcComplete a q i g v ms ack reason t) w =
     snd (rotation_complete k a q i g v ms ack reason t w)"
| "rotation_apply k tv (RcShow a q i) w = snd (rotation_show k a q i w)"
| "rotation_apply k tv (RcStatus a q i obs retired lo hi lookback t ii ic) w =
     snd (rotation_status k a q i obs retired lo hi lookback t ii ic w)"
| "rotation_apply k tv (RcList a q cursor limit resource state lo hi) w =
     snd (rotation_list k a q cursor limit resource state lo hi w)"

primrec world_apply ::
  "keyed_hash \<Rightarrow> (json \<Rightarrow> bytes option) \<Rightarrow> (bytes \<Rightarrow> json option) \<Rightarrow> (bytes \<Rightarrow> arr32) \<Rightarrow> world_call \<Rightarrow>
     rotation_world \<Rightarrow> rotation_world" where
  "world_apply k tv fs h (OnRotation call) w = rotation_apply k tv call w"
| "world_apply k tv fs h (OnKv call) w = w\<lparr>rw_kv := kv_apply tv fs h call (rw_kv w)\<rparr>"
| "world_apply k tv fs h (OnManagement call) w = w\<lparr>rw_management := mgmt_apply call (rw_management w)\<rparr>"

definition world_run ::
  "keyed_hash \<Rightarrow> (json \<Rightarrow> bytes option) \<Rightarrow> (bytes \<Rightarrow> json option) \<Rightarrow> (bytes \<Rightarrow> arr32) \<Rightarrow> world_call list \<Rightarrow>
     rotation_world \<Rightarrow> rotation_world" where
  "world_run k tv fs h calls w = foldl (\<lambda>w call. world_apply k tv fs h call w) w calls"

lemma rotation_apply_step: "rows_keyed w \<Longrightarrow> rotation_step k w (rotation_apply k tv call w)"
  using begin_moves refresh_moves cutover_moves cancel_moves rollback_moves supersede_moves complete_moves
    show_moves status_moves list_moves
  by (cases call) (simp_all add: moves_def)

lemma world_apply_step: "rows_keyed w \<Longrightarrow> rotation_step k w (world_apply k tv fs h call w)"
  by (cases call) (auto intro: rotation_apply_step step_quiet simp: same_rows_def)

definition world_step :: "keyed_hash \<Rightarrow> rotation_world \<Rightarrow> rotation_world \<Rightarrow> bool" where
  "world_step k w w' \<longleftrightarrow> rotation_ok k w \<and> rotation_step k w w'"

interpretation rotations: step_invariant "rotation_ok k" "world_step k" "rotation_ok k" for k
  by unfold_locales (auto simp: world_step_def dest: rotation_step_ok)

lemma rotation_le_refl: "rotation_le w w"
  by (simp add: rotation_le_def record_forward_def)

lemma rotation_le_trans: "rotation_le u v \<Longrightarrow> rotation_le v w \<Longrightarrow> rotation_le u w"
  unfolding rotation_le_def by (meson order_trans record_forward_trans)

interpretation rotation_order: step_preorder "world_step k" rotation_le for k
  by unfold_locales
    (auto simp: world_step_def rotation_le_refl intro: rotation_le_trans dest: rotation_step_ok)

lemma world_run_steps: "rotation_ok k w \<Longrightarrow> (world_step k)\<^sup>*\<^sup>* w (world_run k tv fs h calls w)"
proof (induction calls arbitrary: w)
  case (Cons call calls)
  let ?w = "world_apply k tv fs h call w"
  have step: "world_step k w ?w"
    using Cons.prems rotation_ok_keyed by (auto simp: world_step_def intro: world_apply_step)
  then have "(world_step k)\<^sup>*\<^sup>* ?w (world_run k tv fs h calls ?w)"
    by (intro Cons.IH rotations.step_inv [OF Cons.prems])
  with step show ?case by (simp add: world_run_def converse_rtranclp_into_rtranclp)
qed (simp add: world_run_def)

lemma world_run_ok: "rotation_ok k w \<Longrightarrow> rotation_ok k (world_run k tv fs h calls w)"
  by (rule rotations.steps_inv [OF world_run_steps])

lemma world_run_le: "rotation_ok k w \<Longrightarrow> rotation_le w (world_run k tv fs h calls w)"
  by (rule rotation_order.steps_le [OF world_run_steps])

section \<open>What the calls leave of the KV store\<close>

definition path_kept :: "string \<Rightarrow> rotation_world \<Rightarrow> rotation_world \<Rightarrow> bool" where
  "path_kept p w w' \<longleftrightarrow> kv_keeps p (rw_kv w) (rw_kv w')"

interpretation kept: effect_preorder "path_kept p" for p
  by unfold_locales (auto simp: path_kept_def history.R_refl intro: history.R_trans)

lemma kept_management: "keeps (path_kept p) (on_management f)"
  by (auto simp: keeps_def on_management_def path_kept_def history.R_refl split: prod.split)

lemma kept_kv: "keeps (kv_keeps p) f \<Longrightarrow> keeps (path_kept p) (on_kv f)"
  by (simp add: keeps_def on_kv_def path_kept_def case_prod_unfold Let_def)

lemma kept_show: "keeps (path_kept p) (show_row k i)"
  by (simp add: keeps_def show_row_def path_kept_def history.R_refl)

lemma kept_mark: "keeps (path_kept p) (mark_completed q c i)"
  by (simp add: keeps_def mark_completed_def path_kept_def history.R_refl)

lemma kept_install: "keeps (path_kept p) (install k r g)"
  by (simp add: keeps_def install_def Let_def path_kept_def history.R_refl split: result.split)

lemma kept_row: "keeps (path_kept p) (lifecycle_row k i g state)"
  unfolding lifecycle_row_def by (intro kept.keeps_bind kept.keeps_slift kept_show)

lemma kept_finish: "keeps (path_kept p) (finish_call k a c q reason r g)"
  unfolding finish_call_def by (intro kept.keeps_bind kept_install kept_mark kept_management)

lemma keeps_if: "keeps R f \<Longrightarrow> keeps R g \<Longrightarrow> keeps R (\<lambda>s. if P s then f s else g s)"
  by (simp add: keeps_def)

lemma kept_call:
  "keeps (path_kept p) again \<Longrightarrow> keeps (path_kept p) body \<Longrightarrow> keeps (path_kept p) (lifecycle_call a c q i again body)"
  unfolding lifecycle_call_def by (intro kept.keeps_bind kept_management keeps_if)

lemma kept_bind_here:
  "(\<And>w. keeps (path_kept p) (m w)) \<Longrightarrow> (\<And>a. keeps (path_kept p) (f a)) \<Longrightarrow>
   keeps (path_kept p) (\<lambda>w. sbind (m w) f w)"
  using kept.keeps_bind by (fastforce simp: keeps_def)

lemmas kept_rules = kept_call kept_finish kept_install kept_row kept_show kept_mark kept_management kept_kv
  keeps_snapshot keeps_snapshot_protection keeps_cutover keeps_rollback
  kept.keeps_slift kept.keeps_srequire kept.keeps_bind

lemma rotation_apply_kept: "path_kept p w (rotation_apply k tv call w)"
proof -
  have "keeps (path_kept p) (rotation_begin k a q i resource snapshot t)" for a q i resource snapshot t
    unfolding rotation_begin_def Let_def by (intro kept_bind_here kept_rules)
  moreover have "keeps (path_kept p) (rotation_refresh k a q i g snapshot t)" for a q i g snapshot t
    unfolding rotation_refresh_def Let_def by (intro kept_rules, clarsimp, intro kept_rules)
  moreover have "keeps (path_kept p) (rotation_cutover k tv a q i g data t)" for a q i g data t
    unfolding rotation_cutover_def Let_def by (intro kept_rules, clarsimp, intro kept_rules)
  moreover have "keeps (path_kept p) (rotation_cancel k a q i g t reason)" for a q i g t reason
    unfolding rotation_cancel_def Let_def by (intro kept_rules, clarsimp, intro kept_rules)
  moreover have "keeps (path_kept p) (rotation_rollback k a q i g t reason)" for a q i g t reason
    unfolding rotation_rollback_def Let_def by (intro kept_rules, clarsimp, intro kept_rules)
  moreover have "keeps (path_kept p) (supersede_after_plain_write k i g t)" for i g t
    unfolding supersede_after_plain_write_def Let_def by (intro kept_rules, clarsimp, intro kept_rules)
  moreover have "keeps (path_kept p) (rotation_complete k a q i g v ms ack reason t)" for a q i g v ms ack reason t
    unfolding rotation_complete_def Let_def by (intro kept_rules)
  moreover have "keeps (path_kept p) (rotation_show k a q i)" for a q i
    unfolding rotation_show_def by (intro kept_rules)
  moreover have "keeps (path_kept p) (rotation_status k a q i obs retired lo hi lookback t ii ic)"
    for a q i obs retired lo hi lookback t ii ic
    unfolding rotation_status_def Let_def by (intro kept_rules)
  moreover have "keeps (path_kept p) (rotation_list k a q cursor limit resource state lo hi)"
    for a q cursor limit resource state lo hi
    unfolding rotation_list_def
    by (intro kept_rules) (auto simp: keeps_def Let_def kept.R_refl split: result.split)
  ultimately show ?thesis by (cases call) (simp_all add: keeps_def)
qed

definition call_purges :: "string \<Rightarrow> world_call \<Rightarrow> bool" where
  "call_purges p call = (case call of OnKv c \<Rightarrow> purges p c | _ \<Rightarrow> False)"

lemma world_apply_kept: "\<not> call_purges p call \<Longrightarrow> path_kept p w (world_apply k tv fs h call w)"
  by (cases call)
    (auto simp: call_purges_def path_kept_def history.R_refl kv_apply_keeps rotation_apply_kept [unfolded path_kept_def])

lemma world_run_kept: "\<forall>call\<in>set calls. \<not> call_purges p call \<Longrightarrow> path_kept p w (world_run k tv fs h calls w)"
  unfolding world_run_def
  by (induction calls arbitrary: w) (auto simp: kept.R_refl intro: kept.R_trans [OF world_apply_kept])

section \<open>From cutover to rollback\<close>

lemma authorize_Ok: "authorize_command actor c q m = (Ok (), m') \<Longrightarrow> m' = m"
  by (simp add: authorize_command_def split: if_splits)

lemma on_kv_Ok: "on_kv f w = (Ok a, w') \<longleftrightarrow> (\<exists>c. f (rw_kv w) = (Ok a, c) \<and> w' = w\<lparr>rw_kv := c\<rparr>)"
  by (cases "f (rw_kv w)"; cases "fst (f (rw_kv w))") (auto simp: on_kv_def)

lemma on_management_Ok: "on_management f w = (Ok a, w') \<longleftrightarrow> (\<exists>m. f (rw_management w) = (Ok a, m) \<and> w' = w\<lparr>rw_management := m\<rparr>)"
  by (cases "f (rw_management w)"; cases "fst (f (rw_management w))") (auto simp: on_management_def)

lemma lifecycle_call_fresh:
  assumes "(q, c, i) \<notin> set (rc_completed (rw_catalog w))"
    and "lifecycle_call actor c q i again body w = (Ok v, w')"
  shows "body w = (Ok v, w')"
  using assms by (auto simp: lifecycle_call_def on_management_Ok dest!: authorize_Ok)

lemma install_Ok:
  "install k r g w = (Ok (), w') \<Longrightarrow> rw_kv w' = rw_kv w
     \<and> (\<exists>s. s_value s = r \<and> rc_rows (rw_catalog w') = bt_insert (ro_id r) s (rc_rows (rw_catalog w)))"
  using rotation_row.seal_fields by (fastforce simp: install_def Let_def split: result.splits)

lemma finish_call_Ok:
  assumes "finish_call k actor c q reason r g w = (Ok (), w')"
  shows "rw_kv w' = rw_kv w \<and> (\<exists>s. s_value s = r \<and> rc_rows (rw_catalog w') = bt_insert (ro_id r) s (rc_rows (rw_catalog w)))"
proof -
  obtain w1 where "install k r g w = (Ok (), w1)" "rw_kv w' = rw_kv w1" "rc_rows (rw_catalog w') = rc_rows (rw_catalog w1)"
    using assms by (auto simp: finish_call_def mark_completed_def on_management_Ok)
  with install_Ok show ?thesis by fastforce
qed

lemma cutover_Ok:
  assumes "rotation_cutover k tv actor q i g data t w = (Ok v, w')"
    and "(q, CmdRotationLifecycle, i) \<notin> set (rc_completed (rw_catalog w))" and "rotation_ok k w"
  shows "\<exists>r ep wr s. show_inner k i (rw_catalog w) = Ok r \<and> ro_state (vw_record r) = Prepared
     \<and> endpoint_for (ro_resource (vw_record r)) = Ok ep
     \<and> kv_rotation_cutover tv (mp_identity_id actor) ep data (ro_protected_version (vw_record r)) (rw_kv w) = (Ok wr, rw_kv w')
     \<and> bt_get (rc_rows (rw_catalog w')) i = Some s \<and> ro_state (s_value s) = Cutover
     \<and> ro_protected_version (s_value s) = ro_protected_version (vw_record r)
     \<and> ro_resource (s_value s) = ro_resource (vw_record r) \<and> s_value s = vw_record v"
proof -
  obtain r g' ep wr c u where row: "lifecycle_row k i g Prepared w = (Ok (r, g', ep), u)"
    and wr: "kv_rotation_cutover tv (mp_identity_id actor) ep data (ro_expected_cas r) (rw_kv u) = (Ok wr, c)"
    and fin: "finish_call k actor CmdRotationLifecycle q None (push_transition Cutover t (wr_version wr)
        (r\<lparr>ro_state := Cutover, ro_target_version := Some (wr_version wr), ro_cutover_unix_seconds := Some t\<rparr>)) g'
        (u\<lparr>rw_kv := c\<rparr>) = (Ok (), w')" and shown: "show_inner k i (rw_catalog w') = Ok v"
    using lifecycle_call_fresh [OF assms(2) assms(1) [unfolded rotation_cutover_def]]
    by (auto simp: Let_def on_kv_Ok)
  obtain view where view: "show_inner k i (rw_catalog w) = Ok view" "vw_record view = r" "ro_state r = Prepared"
    "endpoint_for (ro_resource r) = Ok ep" and u: "u = w"
    using lifecycle_row_Ok [OF row] by auto
  obtain s where s: "bt_get (rc_rows (rw_catalog w)) i = Some s" "s_value s = r"
    using show_inner_row [OF view(1)] view(2) by auto
  have bt: "btree (rc_rows (rw_catalog w))" using assms(3) by (simp add: rotation_ok_def Let_def)
  have "ro_expected_cas r = ro_protected_version r" "ro_id r = i"
    using rotation_okD [OF assms(3) s(1)] s(2) by (simp_all add: lifecycle_ok_def)
  then show ?thesis
    using view wr finish_call_Ok [OF fin] show_inner_row [OF shown] u bt
    by (auto simp: push_transition_def bt_get_insert intro!: exI [of _ view])
qed

lemma rollback_Ok:
  assumes "rotation_rollback k actor q i g t reason w = (Ok v, w')"
    and "(q, CmdRotationLifecycle, i) \<notin> set (rc_completed (rw_catalog w))"
  shows "\<exists>r ep cur wr c. show_inner k i (rw_catalog w) = Ok r \<and> ro_state (vw_record r) = Cutover
     \<and> endpoint_for (ro_resource (vw_record r)) = Ok ep
     \<and> kv_rotation_rollback_copy_forward (mp_identity_id actor) ep cur (ro_protected_version (vw_record r)) (rw_kv w) = (Ok wr, c)
     \<and> set_rotation_snapshot_protection ep (ro_protected_version (vw_record r)) False c = (Ok (), rw_kv w')"
proof -
  have snap: "kv_rotation_snapshot ep c = (Ok a, c') \<Longrightarrow> c' = c" for ep c a c'
    by (auto simp: kv_rotation_snapshot_def split: option.splits if_splits)
  obtain r g' ep cur wr c d u where row: "lifecycle_row k i g Cutover w = (Ok (r, g', ep), u)"
    and wr: "kv_rotation_rollback_copy_forward (mp_identity_id actor) ep cur (ro_protected_version r) (rw_kv u) = (Ok wr, c)"
    and off: "set_rotation_snapshot_protection ep (ro_protected_version r) False c = (Ok (), d)"
    and fin: "finish_call k actor CmdRotationLifecycle q (Some reason)
       (push_transition Superseded t (wr_version wr) (r\<lparr>ro_state := Superseded\<rparr>)) g' (u\<lparr>rw_kv := d\<rparr>) = (Ok (), w')"
    using lifecycle_call_fresh [OF assms(2) assms(1) [unfolded rotation_rollback_def]]
    by (auto simp: Let_def on_kv_Ok dest!: snap)
  show ?thesis
    using lifecycle_row_Ok [OF row] wr off finish_call_Ok [OF fin] by (auto, blast)
qed

lemma rollback_copies:
  assumes "kv_rotation_rollback_copy_forward actor ep cur v c = (Ok wr, c')" and "kv_ok c"
  shows "\<exists>e x f. kc_get c (logical_path ep) = Some e \<and> bt_get (en_versions e) v = Some x \<and> vv_state x \<noteq> Destroyed
     \<and> kc_get c' (logical_path ep) = Some f \<and> en_current_version e < en_current_version f
     \<and> (\<exists>t. bt_get (en_versions f) (en_current_version f) = Some (new_version (vv_encoded x) t))"
proof -
  let ?p = "logical_path ep"
  obtain b where src: "rollback_source ep cur v c = (Ok b, c)"
    and wr: "rotation_write_encoded actor ep b cur AuRotationRollback c = (Ok wr, c')"
    using assms(1) by (auto simp: kv_rotation_rollback_copy_forward_def rollback_source_def split: option.splits if_splits)
  obtain e x where e: "kc_get c ?p = Some e" and x: "bt_get (en_versions e) v = Some x" "vv_state x \<noteq> Destroyed" "b = vv_encoded x"
    using src by (auto simp: rollback_source_def split: option.splits if_splits)
  have ok: "entry_ok e" and bt: "btree (kc_entries c)"
    using assms(2) e by (auto simp: kv_ok_def)
  obtain n g where n: "checked_add (en_current_version e) 1 = Some n" and c': "kc_get c' ?p = Some (e\<lparr>en_current_version := n,
      en_metadata_generation := g, en_versions := bt_insert n (new_version b (kc_effective_unix_milliseconds c)) (en_versions e)\<rparr>)"
    using wr e bt
    by (auto simp: rotation_write_encoded_def add_version_def Let_def kc_push_def kc_get_def kc_put_def bt_get_insert
        split: option.splits if_splits)
  have "btree (en_versions e)" using ok by (simp add: entry_ok_def)
  then show ?thesis
    using e x c' checked_add_1_Some_less [OF n] by (auto simp: bt_get_insert)
qed

lemma protection_released:
  assumes "set_rotation_snapshot_protection ep v False c = (Ok (), c')" and "kv_ok c" and "kc_get c (logical_path ep) = Some e"
  shows "\<exists>f. kc_get c' (logical_path ep) = Some f \<and> en_current_version f = en_current_version e \<and> en_protected_version f = None
     \<and> bt_get (en_versions f) (en_current_version f) = bt_get (en_versions e) (en_current_version e)"
proof -
  let ?p = "logical_path ep"
  obtain g where prune: "prune ?p (kc_put ?p (e\<lparr>en_protected_version := None, en_metadata_generation := g\<rparr>) c) = (Ok (), c')"
    using assms(1,3) by (auto simp: set_rotation_snapshot_protection_def Let_def split: option.splits if_splits)
  have bt: "btree (kc_entries c)" "btree (en_versions e)"
    using assms(2,3) by (auto simp: kv_ok_def entry_ok_def)
  let ?e = "e\<lparr>en_protected_version := None, en_metadata_generation := g, en_retention_deferred := False\<rparr>"
  obtain n where "kc_get c' ?p = Some (prune_reference n ?e)"
    using prune bt prune_loop_reference [of ?e]
    by (auto simp: prune_def kc_get_put kc_put_def kc_get_def bt_get_insert)
  moreover have "bt_get (en_versions (prune_reference n ?e)) (en_current_version e) = bt_get (en_versions e) (en_current_version e)"
    using bt(2) by (simp add: prune_reference_def bt_get_filter_keys) (auto simp: pruned_def prunable_def dest: in_set_takeD)
  ultimately show ?thesis by (auto simp: prune_reference_def)
qed

section \<open>Runs from a new catalog\<close>

definition world_new :: "id16 \<Rightarrow> arr32 \<Rightarrow> management_catalog \<Rightarrow> bool \<Rightarrow> u64 \<Rightarrow> rotation_world" where
  "world_new store_id mac_key m cas t =
     \<lparr>rw_catalog = rotation_new store_id mac_key, rw_management = m, rw_kv = catalog_new cas t\<rparr>"

lemma world_new_ok: "rotation_ok k (world_new store_id mac_key m cas t)"
  by (simp add: rotation_ok_def world_new_def rotation_new_def Let_def)

lemma world_apply_kv_ok: "kv_ok (rw_kv w) \<Longrightarrow> kv_ok (rw_kv (world_apply k tv fs h call w))"
  using rotation_apply_kept [of _ w k tv] by (cases call) (auto simp: path_kept_def kv_keeps_def kv_apply_ok)

lemma world_run_kv_ok: "kv_ok (rw_kv w) \<Longrightarrow> kv_ok (rw_kv (world_run k tv fs h calls w))"
  unfolding world_run_def by (induction calls arbitrary: w) (auto intro: world_apply_kv_ok)

lemma world_apply_ok: "rotation_ok k w \<Longrightarrow> rotation_ok k (world_apply k tv fs h call w)"
  using rotation_step_ok [OF world_apply_step [OF rotation_ok_keyed]] by blast

lemma cutover_row_stays:
  assumes "rotation_ok k w" and "bt_get (rc_rows (rw_catalog w)) i = Some s" and "ro_state (s_value s) = Cutover"
    and "show_inner k i (rw_catalog (world_run k tv fs h calls w)) = Ok r" and "ro_state (vw_record r) = Cutover"
  shows "vw_record r = s_value s"
proof -
  obtain s' where "bt_get (rc_rows (rw_catalog (world_run k tv fs h calls w))) i = Some s'"
    and forward: "record_forward (s_value s) (s_value s')"
    using world_run_le [OF assms(1), of tv fs h calls] assms(2) unfolding rotation_le_def by blast
  with show_inner_row [OF assms(4)] have "vw_record r = s_value s'" by auto
  with forward assms(3,5) show ?thesis by (auto simp: record_forward_def lifecycle_terminal_def)
qed

lemma payload_kept:
  assumes "path_kept p w w'" and "kv_ok (rw_kv w)" and "kc_get (rw_kv w) p = Some e" and "kc_get (rw_kv w') p = Some e'"
    and "bt_get (en_versions e') (en_current_version e) = Some x'" and "vv_state x' \<noteq> Destroyed"
  shows "\<exists>x. bt_get (en_versions e) (en_current_version e) = Some x \<and> vv_encoded x' = vv_encoded x
    \<and> en_current_version e \<le> en_current_version e'"
proof -
  have "entry_le e e'" using assms(1-4) by (auto simp: path_kept_def kv_keeps_def)
  with assms(5,6) show ?thesis unfolding entry_le_def value_le_def by (metis order_refl)
qed

section \<open>A sample\<close>

definition sample_hash :: keyed_hash where
  "sample_hash key message = 0"

definition sample_row :: "rotation_record \<Rightarrow> u64 \<Rightarrow> rotation_record sealed" where
  "sample_row r g = \<lparr>s_generation = g, s_value = r, s_class = RotationState, s_schema_version = 1,
     s_mac_format_version = MAC_FORMAT_VERSION, s_mac = 0\<rparr>"

definition sample_prepared :: rotation_record where
  "sample_prepared = sample_rotation\<lparr>ro_declared_consumers := []\<rparr>"

definition sample_cut :: rotation_record where
  "sample_cut = push_transition Cutover 6 2 (sample_prepared\<lparr>ro_state := Cutover, ro_target_version := Some 2,
     ro_cutover_unix_seconds := Some 6\<rparr>)"

definition sample_rotators :: management_catalog where
  "sample_rotators = sample_management\<lparr>mc_grants :=
     [(8, sample_admin_grant\<lparr>gr_capabilities := [RotationManage]\<rparr>)]\<rparr>"

lemma sample_seal:
  assumes "is_ok (rotation_encode r)"
  shows "seal sample_hash rotation_encode RotationState 1 r g key store_id (be_bytes 16 i) = Ok (sample_row r g)"
    "verify sample_hash rotation_encode RotationState 1 (sample_row r g) key store_id (be_bytes 16 i) = Ok ()"
proof -
  obtain bs where "rotation_encode r = Ok bs" using assms by (cases "rotation_encode r") auto
  then show "seal sample_hash rotation_encode RotationState 1 r g key store_id (be_bytes 16 i) = Ok (sample_row r g)"
    by (simp add: seal_def record_mac_def sample_hash_def sample_row_def flip: length_greater_0_conv)
  then show "verify sample_hash rotation_encode RotationState 1 (sample_row r g) key store_id (be_bytes 16 i) = Ok ()"
    by (rule rotation_row.seal_verify)
qed

lemma sample_encodes:
  assumes "rotation_validate r = Ok ()" and "length (ro_resource r) \<le> MAX_RESOURCE"
    and "ro_declared_consumers r = []" "ro_authorized_identities r = []" "ro_active_instances r = []"
  shows "is_ok (rotation_encode r)"
proof -
  have "\<exists>bs. rotation_encode r = Ok bs" using assms by (simp add: rotation_encode_Ok)
  then show ?thesis by auto
qed

lemmas rotation_samples = sample_prepared_def sample_cut_def sample_rotation_def push_transition_def

lemma sample_encode: "is_ok (rotation_encode sample_prepared)" "is_ok (rotation_encode sample_cut)"
  "is_ok (rotation_encode (push_transition Superseded 7 3 (sample_cut\<lparr>ro_state := Superseded\<rparr>)))"
  by (rule sample_encodes; simp add: rotation_samples rotation_validate_def endpoint_for_def Let_def)+

lemma sample_allowed:
  assumes "c = CmdRotationCreate \<or> c = CmdRotationLifecycle"
    and "mc_identities m = mc_identities sample_rotators" "mc_grants m = mc_grants sample_rotators"
  shows "command_allowed m sample_actor c"
  using assms
  by (auto simp: command_allowed_iff may_command_def
      command_authorization_def identity_active_def management_samples sample_rotators_def bt_get_def shape_matches_def)

definition sample_entry_of :: "u64 \<Rightarrow> u64 \<Rightarrow> (u64 \<times> version_value) list \<Rightarrow> u64 option \<Rightarrow> kv_entry" where
  "sample_entry_of g v vs protected = \<lparr>en_metadata_generation = g, en_current_version = v,
     en_versions = vs, en_cas_required = None, en_max_versions = None,
     en_protected_version = protected, en_protection_known = True, en_retention_deferred = False,
     en_custom_metadata = []\<rparr>"

definition sample_begun :: rotation_world where
  "sample_begun = \<lparr>rw_catalog = \<lparr>rc_store_id = 1, rc_mac_key = 0, rc_rows = [(9, sample_row sample_prepared 1)],
       rc_completed = [(21, CmdRotationCreate, 9)]\<rparr>,
     rw_management = succeed sample_actor 21 CmdRotationCreate 9 None sample_rotators,
     rw_kv = kc_put ''app/db'' (sample_entry_of 3 1 [(1, new_version [2] 5)] (Some 1)) sample_catalog\<rparr>"

definition sample_cut_over :: rotation_world where
  "sample_cut_over = \<lparr>rw_catalog = \<lparr>rc_store_id = 1, rc_mac_key = 0, rc_rows = [(9, sample_row sample_cut 2)],
       rc_completed = [(22, CmdRotationLifecycle, 9), (21, CmdRotationCreate, 9)]\<rparr>,
     rw_management = succeed sample_actor 22 CmdRotationLifecycle 9 None (rw_management sample_begun),
     rw_kv = kc_push (audit_event 2 ''app/db'' AuRotationCutover Succeeded (Some 2) None)
       (kc_put ''app/db'' (sample_entry_of 4 2 [(1, new_version [2] 5), (2, new_version [2] 5)] (Some 1))
         (rw_kv sample_begun))\<rparr>"

lemma sample_catalog_facts: "btree (kc_entries sample_catalog)" "kc_effective_unix_milliseconds sample_catalog = 5"
  by (simp_all add: sample_catalog_def kv_eval kv_samples btree_def)

lemmas sample_kv_simps = sample_catalog_facts sample_entry kc_get_put sample_entry_of_def

lemma sample_endpoint_for: "endpoint_for ''secret/app/db'' = Ok (sample_endpoint EpData)"
  by (simp add: endpoint_for_def sample_endpoint_def Let_def)

lemma sample_path: "logical_path (sample_endpoint k) = ''app/db''" "validate_endpoint (sample_endpoint EpData) EpData = Ok ()"
  by (simp_all add: logical_path_def sample_endpoint_def validate_endpoint_def)

lemma sample_install:
  "is_ok (rotation_encode r) \<Longrightarrow> install sample_hash r g w = (Ok (), w\<lparr>rw_catalog := (rw_catalog w)\<lparr>rc_rows :=
     bt_insert (ro_id r) (sample_row r g) (rc_rows (rw_catalog w))\<rparr>\<rparr>)"
  by (simp add: install_def Let_def sample_seal)

lemma sample_finish:
  "is_ok (rotation_encode r) \<Longrightarrow> bt_get (mc_completed_requests (rw_management w)) q = None \<Longrightarrow>
   finish_call sample_hash actor c q reason r g w = (Ok (), \<lparr>rw_catalog = (rw_catalog w)\<lparr>rc_rows :=
       bt_insert (ro_id r) (sample_row r g) (rc_rows (rw_catalog w)),
       rc_completed := List.insert (q, c, ro_id r) (rc_completed (rw_catalog w))\<rparr>,
     rw_management = succeed actor q c (ro_id r) reason (rw_management w), rw_kv = rw_kv w\<rparr>)"
  by (simp add: finish_call_def sbind_def sample_install mark_completed_def on_management_def record_command_success_def
      completed_request_def)

lemma sample_show:
  "is_ok (rotation_encode r) \<Longrightarrow> bt_get (rc_rows c) i = Some (sample_row r g) \<Longrightarrow>
   show_inner sample_hash i c = Ok \<lparr>vw_record = r, vw_generation = g\<rparr>"
  by (simp add: show_inner_def sample_seal) (simp add: sample_row_def)

definition sample_start :: "kv_catalog \<Rightarrow> rotation_world" where
  "sample_start c = \<lparr>rw_catalog = rotation_new 1 0, rw_management = sample_rotators, rw_kv = c\<rparr>"

lemma sample_begin:
  "rotation_begin sample_hash sample_actor 21 9 ''secret/app/db''
     \<lparr>si_declared_consumers = [], si_authorized_identities = [], si_active_instances = []\<rparr> 5
     \<lparr>rw_catalog = rotation_new 1 0, rw_management = sample_rotators, rw_kv = sample_catalog\<rparr>
   = (Ok \<lparr>vw_record = sample_prepared, vw_generation = 1\<rparr>, sample_begun)"
proof -
  have kv: "kv_rotation_snapshot (sample_endpoint EpData) sample_catalog =
      (Ok \<lparr>rs_current_version = 1, rs_protection = None\<rparr>, sample_catalog)"
    "set_rotation_snapshot_protection (sample_endpoint EpData) 1 True sample_catalog = (Ok (), rw_kv sample_begun)"
    by (simp_all add: kv_rotation_snapshot_def set_rotation_snapshot_protection_def sbind_def slift_def sample_path
        sample_kv_simps bt_get_def new_version_def Let_def checked_add_def sample_begun_def)
  have row: "\<lparr>ro_id = 9, ro_resource = ''secret/app/db'', ro_state = Prepared, ro_declared_consumers = [],
      ro_authorized_identities = [], ro_active_instances = [], ro_protected_version = 1, ro_expected_cas = 1,
      ro_target_version = None, ro_actor_identity_id = mp_identity_id sample_actor, ro_prepared_unix_seconds = 5, ro_cutover_unix_seconds = None,
      ro_history = [\<lparr>rt_state = Prepared, rt_effective_unix_seconds = 5, rt_version = 1\<rparr>]\<rparr> = sample_prepared"
    by (simp add: rotation_samples sample_actor_def)
  have id: "ro_id sample_prepared = 9" by (simp add: rotation_samples)
  have fresh: "mc_completed_requests sample_rotators = []"
    by (simp add: sample_rotators_def sample_management_def)
  have allowed: "on_management (authorize_command sample_actor CmdRotationCreate 21) (sample_start sample_catalog)
      = (Ok (), sample_start sample_catalog)"
    by (simp add: on_management_def authorize_command_def sample_allowed sample_start_def)
  show ?thesis
    unfolding sample_start_def [symmetric]
    by (simp add: rotation_begin_def lifecycle_call_def sbind_def allowed,
      simp add: sample_start_def rotation_new_def slift_def sbind_def begin_checks_def bt_contains_def bt_get_def open_rotation_def validate_snapshot_def
        sample_endpoint_for on_kv_def kv Let_def row sample_finish sample_encode id fresh,
      simp add: sample_begun_def sample_show sample_encode bt_get_def)
qed

lemma sample_row_read:
  assumes "is_ok (rotation_encode r)" and "bt_get (rc_rows (rw_catalog w)) 9 = Some (sample_row r g)"
    and "ro_resource r = ''secret/app/db''" and "length (ro_history r) < MAX_HISTORY" and "checked_add g 1 = Some g'"
  shows "lifecycle_row sample_hash 9 g (ro_state r) w = (Ok (r, g', sample_endpoint EpData), w)"
  using assms by (simp add: lifecycle_row_def sbind_def show_row_def sample_show slift_def require_state_def ensure_history_room_def
      next_generation_def sample_endpoint_for)

lemma sample_cutover:
  "rotation_cutover sample_hash sample_to_vec sample_actor 22 9 1 [(''k'', JString ''w'')] 6 sample_begun
   = (Ok \<lparr>vw_record = sample_cut, vw_generation = 2\<rparr>, sample_cut_over)"
proof -
  have kv: "kv_rotation_cutover sample_to_vec 2 (sample_endpoint EpData) [(''k'', JString ''w'')] 1 (rw_kv sample_begun)
      = (Ok \<lparr>wr_version = 2, wr_created = 5\<rparr>, rw_kv sample_cut_over)"
    by (simp add: kv_rotation_cutover_def sample_path encode_secret_def validate_secret_value_def str_chars_def str_bytes_def
        byte_of_char_def sample_to_vec_def rotation_write_encoded_def Let_def sample_begun_def sample_cut_over_def sample_kv_simps
        add_version_def checked_add_def sbind_def)
  have row: "lifecycle_row sample_hash 9 1 Prepared sample_begun = (Ok (sample_prepared, 2, sample_endpoint EpData), sample_begun)"
    using sample_row_read [OF sample_encode(1), of sample_begun 1 2]
    by (simp add: sample_begun_def bt_get_def checked_add_def) (simp add: rotation_samples)
  have facts: "ro_expected_cas sample_prepared = 1" "ro_id sample_cut = 9" "mp_identity_id sample_actor = 2"
    by (simp_all add: rotation_samples sample_actor_def)
  have fresh: "(22, CmdRotationLifecycle, 9) \<notin> set (rc_completed (rw_catalog sample_begun))"
    "bt_get (mc_completed_requests (rw_management sample_begun)) 22 = None"
    by (simp_all add: sample_begun_def succeed_def push_audit_def sample_rotators_def sample_management_def bt_get_def)
  have allowed: "on_management (authorize_command sample_actor CmdRotationLifecycle 22) sample_begun = (Ok (), sample_begun)"
    by (simp add: on_management_def authorize_command_def sample_allowed sample_begun_def succeed_def push_audit_def)
  show ?thesis
    by (simp add: rotation_cutover_def lifecycle_call_def sbind_def allowed fresh validate_effective_time_def
        slift_def row on_kv_def facts kv Let_def flip: sample_cut_def,
      simp add: sample_finish sample_encode fresh facts,
        simp add: sample_cut_over_def sample_begun_def sample_show sample_encode bt_get_def)
qed


lemma sample_rollback:
  "\<exists>w. rotation_rollback sample_hash sample_actor 23 9 2 7 ''bad'' sample_cut_over
   = (Ok \<lparr>vw_record = push_transition Superseded 7 3 (sample_cut\<lparr>ro_state := Superseded\<rparr>), vw_generation = 3\<rparr>, w)"
proof -
  let ?entry = "sample_entry_of 5 3 [(1, new_version [2] 5), (2, new_version [2] 5), (3, new_version [2] 5)] (Some 1)"
  let ?kv = "kc_push (audit_event 2 ''app/db'' AuRotationRollback Succeeded (Some 3) None)
      (kc_put ''app/db'' ?entry (rw_kv sample_cut_over))"
  have entry: "kc_get (rw_kv sample_cut_over) ''app/db'' = Some (sample_entry_of 4 2 [(1, new_version [2] 5), (2, new_version [2] 5)] (Some 1))"
    "btree (kc_entries (rw_kv sample_cut_over))" "kc_effective_unix_milliseconds (rw_kv sample_cut_over) = 5"
    "kc_mount_max_versions (rw_kv sample_cut_over) = 10"
    by (simp_all add: sample_cut_over_def sample_begun_def kc_push_def kc_put_def kc_get_def bt_get_insert sample_catalog_facts sample_entry)
  have kv: "kv_rotation_snapshot (sample_endpoint EpData) (rw_kv sample_cut_over) =
      (Ok \<lparr>rs_current_version = 2, rs_protection = Some 1\<rparr>, rw_kv sample_cut_over)"
    "kv_rotation_rollback_copy_forward 2 (sample_endpoint EpData) 2 1 (rw_kv sample_cut_over) = (Ok \<lparr>wr_version = 3, wr_created = 5\<rparr>, ?kv)"
    by (simp_all add: kv_rotation_snapshot_def kv_rotation_rollback_copy_forward_def rollback_source_def sbind_def slift_def
        rotation_write_encoded_def sample_path entry sample_entry_of_def bt_get_def new_version_def Let_def add_version_def checked_add_def)
  have "kc_get ?kv ''app/db'' = Some ?entry" "btree (kc_entries ?kv)"
    using entry(2) by (simp_all add: kc_push_def kc_put_def kc_get_def bt_get_insert)
  then obtain c where off: "set_rotation_snapshot_protection (sample_endpoint EpData) 1 False ?kv = (Ok (), c)"
    by (simp add: set_rotation_snapshot_protection_def sample_path sample_entry_of_def Let_def checked_add_def prune_def kc_get_put)
  have row: "lifecycle_row sample_hash 9 2 Cutover sample_cut_over = (Ok (sample_cut, 3, sample_endpoint EpData), sample_cut_over)"
    using sample_row_read [OF sample_encode(2), of sample_cut_over 2 3]
    by (simp add: sample_cut_over_def bt_get_def checked_add_def) (simp add: rotation_samples)
  have facts: "ro_protected_version sample_cut = 1" "ro_id (push_transition Superseded 7 3 (sample_cut\<lparr>ro_state := Superseded\<rparr>)) = 9"
    "mp_identity_id sample_actor = 2"
    by (simp_all add: rotation_samples sample_actor_def)
  have fresh: "(23, CmdRotationLifecycle, 9) \<notin> set (rc_completed (rw_catalog sample_cut_over))"
    "bt_get (mc_completed_requests (rw_management sample_cut_over)) 23 = None"
    by (simp_all add: sample_cut_over_def sample_begun_def succeed_def push_audit_def sample_rotators_def sample_management_def bt_get_def)
  have allowed: "on_management (authorize_command sample_actor CmdRotationLifecycle 23) sample_cut_over = (Ok (), sample_cut_over)"
    by (simp add: on_management_def authorize_command_def sample_allowed sample_cut_over_def sample_begun_def succeed_def push_audit_def)
  have reason: "validate_reason ''bad'' = Ok ()"
    by (simp add: validate_reason_def has_control_def str_chars_def str_bytes_def byte_of_char_def char_is_control_def)
  show ?thesis
    by (simp add: rotation_rollback_def lifecycle_call_def sbind_def allowed fresh validate_effective_time_def reason
        slift_def row on_kv_def facts kv off Let_def sample_finish sample_encode)
     (simp add: sample_cut_over_def sample_show sample_encode bt_get_def)
qed

definition sample_world_calls :: "world_call list" where
  "sample_world_calls = map OnKv sample_calls @ [OnRotation (RcBegin sample_actor 21 9 ''secret/app/db''
     \<lparr>si_declared_consumers = [], si_authorized_identities = [], si_active_instances = []\<rparr> 5)]"

lemma world_run_kv:
  "world_run k tv fs h (map OnKv calls @ later) w = world_run k tv fs h later (w\<lparr>rw_kv := kv_run tv fs h calls (rw_kv w)\<rparr>)"
  by (induction calls arbitrary: w) (simp_all add: world_run_def kv_run_def)

lemma sample_world_run:
  "sample_begun = world_run sample_hash sample_to_vec (\<lambda>_. None) (\<lambda>_. 0) sample_world_calls (world_new 1 0 sample_rotators False 5)"
  unfolding sample_world_calls_def world_run_kv
  using sample_begin by (simp add: world_run_def world_new_def flip: sample_catalog_def)

section \<open>Properties\<close>

text \<open>
  C32: Every run of rotations. Whatever calls on rotations, on the KV service and on the management
  plane are made on a new catalog, failed ones included: each row carries a valid tag, its history is a
  path of the lifecycle that starts in the prepared and ends in the current state, its generation
  counts that history, and no other open rotation has the same resource. And whatever calls follow, the row
  is still there: a finished rotation has not changed, and an open one is as it was or has a longer
  history with the same beginning.
\<close>

theorem rotation_runs:
  assumes "w = world_run k tv fs h calls (world_new store_id mac_key m cas t)"
    and "bt_get (rc_rows (rw_catalog w)) i = Some s"
  shows "row_verifies k (rw_catalog w) i s \<and> ro_id (s_value s) = i \<and> lifecycle_ok (s_value s)
    \<and> unat (s_generation s) = length (ro_history (s_value s))
    \<and> (\<forall>j u. bt_get (rc_rows (rw_catalog w)) j = Some u \<and> is_open (s_value s) \<and> is_open (s_value u)
          \<and> ro_resource (s_value u) = ro_resource (s_value s) \<longrightarrow> j = i)
    \<and> (\<exists>s'. bt_get (rc_rows (rw_catalog (world_run k tv fs h later w))) i = Some s'
          \<and> record_forward (s_value s) (s_value s') \<and> s_generation s \<le> s_generation s')"
proof -
  have ok: "rotation_ok k w"
    unfolding assms(1) by (rule world_run_ok [OF world_new_ok])
  have le: "rotation_le w (world_run k tv fs h later w)"
    by (rule world_run_le [OF ok])
  have "j = i" if "bt_get (rc_rows (rw_catalog w)) j = Some u" "is_open (s_value s)" "is_open (s_value u)"
    "ro_resource (s_value u) = ro_resource (s_value s)" for j u
    using rotation_okD(5) [OF ok that(1) assms(2) that(3,2,4)] .
  moreover have "\<exists>s'. bt_get (rc_rows (rw_catalog (world_run k tv fs h later w))) i = Some s'
      \<and> record_forward (s_value s) (s_value s') \<and> s_generation s \<le> s_generation s'"
    using le assms(2) unfolding rotation_le_def by blast
  ultimately show ?thesis
    using rotation_okD(1-4) [OF ok assms(2)] by blast
qed

theorem rotation_runs_witness:
  "\<exists>s s'. bt_get (rc_rows (rw_catalog sample_begun)) 9 = Some s \<and> lifecycle_ok (s_value s)
     \<and> bt_get (rc_rows (rw_catalog (world_run sample_hash sample_to_vec (\<lambda>_. None) (\<lambda>_. 0)
          [OnRotation (RcCutover sample_actor 22 9 1 [(''k'', JString ''w'')] 6)] sample_begun))) 9 = Some s'
     \<and> record_forward (s_value s) (s_value s')"
proof -
  have "bt_get (rc_rows (rw_catalog sample_begun)) 9 = Some (sample_row sample_prepared 1)"
    by (simp add: sample_begun_def bt_get_def)
  with rotation_runs [OF sample_world_run this] show ?thesis by blast
qed

text \<open>
  C33: A rollback restores the value. Take any state reached from a new catalog in which a cutover of a
  rotation succeeds, any calls after it that do not purge the secret, plain writes and deletions
  included, and a rollback that then succeeds (neither being the retry of an earlier request). The
  secret then has a new current version, live and with the payload that was current
  before the cutover, and no version of it is protected any more.
\<close>

theorem rollback_restores:
  assumes "w0 = world_run k tv fs h calls (world_new store_id mac_key m cas t0)"
    and "rotation_cutover k tv a q i g data t w0 = (Ok v, w1)"
    and "(q, CmdRotationLifecycle, i) \<notin> set (rc_completed (rw_catalog w0))"
    and "endpoint_for (ro_resource (vw_record v)) = Ok ep"
    and "w2 = world_run k tv fs h later w1" and "\<forall>call\<in>set later. \<not> call_purges (logical_path ep) call"
    and "rotation_rollback k a' q' i g' t' reason w2 = (Ok v', w3)"
    and "(q', CmdRotationLifecycle, i) \<notin> set (rc_completed (rw_catalog w2))"
  shows "\<exists>e x e' x'. kc_get (rw_kv w0) (logical_path ep) = Some e
    \<and> bt_get (en_versions e) (en_current_version e) = Some x
    \<and> kc_get (rw_kv w3) (logical_path ep) = Some e' \<and> en_current_version e < en_current_version e'
    \<and> bt_get (en_versions e') (en_current_version e') = Some x'
    \<and> vv_encoded x' = vv_encoded x \<and> vv_state x' = Live \<and> en_protected_version e' = None"
proof -
  let ?p = "logical_path ep"
  have ok: "rotation_ok k w0" and kv: "kv_ok (rw_kv w0)"
    unfolding assms(1) by (rule world_run_ok [OF world_new_ok], rule world_run_kv_ok)
      (simp add: world_new_def catalog_new_ok)
  obtain r wr s where r: "show_inner k i (rw_catalog w0) = Ok r"
    and cut: "kv_rotation_cutover tv (mp_identity_id a) ep data (ro_protected_version (s_value s)) (rw_kv w0) = (Ok wr, rw_kv w1)"
    and s: "bt_get (rc_rows (rw_catalog w1)) i = Some s" "ro_state (s_value s) = Cutover" "s_value s = vw_record v"
    using cutover_Ok [OF assms(2,3) ok] assms(4) by fastforce
  have w1: "w1 = world_apply k tv fs h (OnRotation (RcCutover a q i g data t)) w0"
    by (simp add: assms(2))
  have ok1: "rotation_ok k w1" and kv1: "kv_ok (rw_kv w1)"
    unfolding w1 by (rule world_apply_ok [OF ok], rule world_apply_kv_ok [OF kv])
  obtain r2 ep2 cur wr2 c where r2: "show_inner k i (rw_catalog w2) = Ok r2" "ro_state (vw_record r2) = Cutover"
      "endpoint_for (ro_resource (vw_record r2)) = Ok ep2"
    and copy: "kv_rotation_rollback_copy_forward (mp_identity_id a') ep2 cur (ro_protected_version (vw_record r2)) (rw_kv w2) = (Ok wr2, c)"
    and off: "set_rotation_snapshot_protection ep2 (ro_protected_version (vw_record r2)) False c = (Ok (), rw_kv w3)"
    using rollback_Ok [OF assms(7,8)] by blast
  have same: "vw_record r2 = s_value s"
    by (rule cutover_row_stays [OF ok1 s(1,2) r2(1) [unfolded assms(5)] r2(2)])
  then have ep2: "ep2 = ep" using r2(3) assms(4) s(3) by simp
  have kv2: "kv_ok (rw_kv w2)" unfolding assms(5) by (rule world_run_kv_ok [OF kv1])
  obtain e2 x2 f where e2: "kc_get (rw_kv w2) ?p = Some e2" "bt_get (en_versions e2) (ro_protected_version (s_value s)) = Some x2"
      "vv_state x2 \<noteq> Destroyed" "en_current_version e2 < en_current_version f"
    and f: "kc_get c ?p = Some f" "\<exists>t. bt_get (en_versions f) (en_current_version f) = Some (new_version (vv_encoded x2) t)"
    using rollback_copies [OF copy kv2] unfolding same ep2 by blast
  obtain e where e: "kc_get (rw_kv w0) ?p = Some e" "en_current_version e = ro_protected_version (s_value s)"
    using cut by (auto simp: kv_rotation_cutover_def rotation_write_encoded_def Let_def split: option.splits if_splits)
  have "path_kept ?p w0 w2"
    unfolding assms(5) w1
    by (rule kept.R_trans [OF world_apply_kept world_run_kept [OF assms(6)]]) (simp add: call_purges_def)
  then obtain x where x: "bt_get (en_versions e) (en_current_version e) = Some x" "vv_encoded x2 = vv_encoded x"
    "en_current_version e \<le> en_current_version e2"
    using payload_kept [OF _ kv e(1) e2(1)] e2(2,3) e(2) by metis
  have "kv_ok c"
    using keeps_rollback copy kv2 by (metis history.keepsD kv_keeps_def)
  from protection_released [OF off [unfolded ep2] this f(1)] show ?thesis
    using e(1) x f(2) e2(4) by (fastforce simp: new_version_def)
qed

theorem rollback_restores_witness:
  "\<exists>w3 e x e' x'. snd (rotation_rollback sample_hash sample_actor 23 9 2 7 ''bad'' sample_cut_over) = w3
     \<and> kc_get (rw_kv sample_begun) ''app/db'' = Some e
     \<and> bt_get (en_versions e) (en_current_version e) = Some x
     \<and> kc_get (rw_kv w3) ''app/db'' = Some e' \<and> en_current_version e < en_current_version e'
     \<and> bt_get (en_versions e') (en_current_version e') = Some x' \<and> vv_encoded x' = vv_encoded x"
proof -
  obtain v w3 where rolled: "rotation_rollback sample_hash sample_actor 23 9 2 7 ''bad'' sample_cut_over = (Ok v, w3)"
    using sample_rollback by blast
  have fresh: "(22, CmdRotationLifecycle, 9) \<notin> set (rc_completed (rw_catalog sample_begun))"
    "(23, CmdRotationLifecycle, 9) \<notin> set (rc_completed (rw_catalog sample_cut_over))"
    by (simp_all add: sample_begun_def sample_cut_over_def)
  have ep: "endpoint_for (ro_resource (vw_record \<lparr>vw_record = sample_cut, vw_generation = 2\<rparr>)) = Ok (sample_endpoint EpData)"
    using sample_endpoint_for by (simp add: rotation_samples)
  have later: "sample_cut_over = world_run sample_hash sample_to_vec (\<lambda>_. None) (\<lambda>_. 0) [] sample_cut_over"
    by (simp add: world_run_def)
  from rollback_restores [OF sample_world_run sample_cutover fresh(1) ep later _ rolled fresh(2)] rolled
  show ?thesis by (auto simp: sample_path)
qed

text \<open>
  What the requests of the lifecycle share. A request is remembered by its id, its rotation and the
  one command of cutover, cancellation, rollback and completion: asked with the request id of the
  cutover, a completion reports the completed state and does nothing.
\<close>

theorem complete_with_cutover_request:
  assumes "authorize_command a CmdRotationLifecycle q (rw_management w) = (Ok (), rw_management w)"
    and "(q, CmdRotationLifecycle, i) \<in> set (rc_completed (rw_catalog w))"
  shows "rotation_complete k a q i g v ms ack reason t w =
    (Ok \<lparr>cr_rotation_id = i, cr_state = Completed, cr_acknowledged_unverified = ack, cr_warnings = []\<rparr>, w)"
  using assms by (simp add: rotation_complete_def lifecycle_call_def sbind_def on_management_def)

definition same_kv :: "rotation_world \<Rightarrow> rotation_world \<Rightarrow> bool" where
  "same_kv w w' \<longleftrightarrow> rw_kv w' = rw_kv w"

interpretation kv_frame: effect_preorder same_kv
  by unfold_locales (simp_all add: same_kv_def)

text \<open>A completion does not touch the KV service: the version the rotation protects stays protected.\<close>

theorem complete_keeps_protection: "rw_kv (snd (rotation_complete k a q i g v ms ack reason t w)) = rw_kv w"
proof -
  have kv: "keeps same_kv (on_management f)" "keeps same_kv (show_row k i)" "keeps same_kv (install k r g)"
    "keeps same_kv (mark_completed q c i)" for f :: "unit management" and i r g q c
    by (simp_all add: keeps_def same_kv_def on_management_def show_row_def install_def mark_completed_def case_prod_unfold Let_def
        split: result.split)
  have "keeps same_kv (rotation_complete k a q i g v ms ack reason t)"
    unfolding rotation_complete_def finish_call_def lifecycle_call_def Let_def
    by (intro kv_frame.keeps_bind kv_frame.keeps_slift kv_frame.keeps_srequire kv keeps_if)
  then show ?thesis by (simp add: keeps_def same_kv_def)
qed

end
