(* ===== verification/Rotation_Adoption.thy ===== *)
theory Rotation_Adoption
  imports Rotation
begin

text \<open>
  What closing a rotation without an override shows about the consumers: the classification of the
  reads since the cutover leaves nothing unresolved only when every instance has fetched the new value.
\<close>

section \<open>Reads in the window\<close>

definition in_window :: "u64 \<Rightarrow> u64 \<Rightarrow> read_observation \<Rightarrow> bool" where
  "in_window lo hi ob \<longleftrightarrow> lo < ob_sequence ob \<and> ob_sequence ob \<le> hi"

text \<open>The last read of a group of readers after the cutover fetched the target version.\<close>

definition adopted :: "(read_observation \<Rightarrow> bool) \<Rightarrow> u64 \<Rightarrow> u64 \<Rightarrow> u64 \<Rightarrow> read_observation list \<Rightarrow> bool" where
  "adopted mine target lo hi obs \<longleftrightarrow> (\<exists>ob\<in>set obs. mine ob \<and> in_window lo hi ob \<and> ob_version ob = target
     \<and> (\<forall>ob'\<in>set obs. mine ob' \<and> in_window lo hi ob' \<longrightarrow> ob_sequence ob' \<le> ob_sequence ob))"

lemma max_by_sequence_None: "max_by_sequence obs = None \<longleftrightarrow> obs = []"
  by (cases obs) (auto split: option.split)

lemma max_by_sequence_Some:
  "max_by_sequence obs = Some ob \<Longrightarrow> ob \<in> set obs \<and> (\<forall>ob'\<in>set obs. ob_sequence ob' \<le> ob_sequence ob)"
proof (induction obs arbitrary: ob)
  case (Cons a obs)
  show ?case
  proof (cases "max_by_sequence obs")
    case None
    then show ?thesis using Cons.prems by (simp add: max_by_sequence_None)
  next
    case (Some b)
    then show ?thesis
      using Cons.prems Cons.IH [OF Some] by (auto split: if_splits)
  qed
qed simp

lemma latest_class_current:
  "fst (latest_class (filter mine (filter (in_window lo hi) obs)) target) = OnCurrent \<Longrightarrow> adopted mine target lo hi obs"
  unfolding adopted_def
  by (auto simp: latest_class_def split: option.splits if_splits dest!: max_by_sequence_Some)

lemma latest_class_range: "fst (latest_class obs target) \<in> {OnCurrent, OnPrior, SilentSinceWrite}"
  by (auto simp: latest_class_def split: option.split)

section \<open>Members\<close>

abbreviation resolved :: "adoption_member \<Rightarrow> bool" where
  "resolved m \<equiv> am_class m = OnCurrent \<or> am_class m = RetiredWithoutProof"

lemma instance_member_fields [simp]:
  "am_kind (instance_member w t rs lb now i) = ''instance''" "am_id (instance_member w t rs lb now i) = i"
  by (simp_all add: instance_member_def case_prod_unfold Let_def)

lemma identity_member_fields [simp]:
  "am_kind (identity_member w t lb now ii as ms i) = ''identity''" "am_id (identity_member w t lb now ii as ms i) = i"
  by (simp_all add: identity_member_def case_prod_unfold Let_def)

lemma instance_resolved:
  "resolved (instance_member (filter (in_window lo hi) obs) target retired lb now i) \<Longrightarrow>
   i \<in> set retired \<or> adopted (\<lambda>ob. ob_consumer_instance_id ob = Some i) target lo hi obs"
  using latest_class_current [where mine = "\<lambda>ob. ob_consumer_instance_id ob = Some i"]
    latest_class_range [of "filter (\<lambda>ob. ob_consumer_instance_id ob = Some i) (filter (in_window lo hi) obs)" target]
  by (auto simp: instance_member_def case_prod_unfold Let_def split: if_splits)

lemma identity_resolved:
  assumes "resolved (identity_member (filter (in_window lo hi) obs) target lb now ii active ms i)"
    and "\<forall>x\<in>set active. bt_get ii x \<noteq> Some i"
  shows "adopted (\<lambda>ob. ob_identity_id ob = i \<and> ob_consumer_instance_id ob = None) target lo hi obs"
proof -
  let ?reads = "filter (\<lambda>ob. ob_identity_id ob = i \<and> ob_consumer_instance_id ob = None) (filter (in_window lo hi) obs)"
  have none: "filter (\<lambda>x. bt_get ii x = Some i) active = []" using assms(2) by (simp add: filter_empty_conv)
  have "fst (latest_class ?reads target) = OnCurrent"
    using assms(1) latest_class_range [of ?reads target]
    by (cases "?reads = []") (auto simp: identity_member_def none case_prod_unfold Let_def)
  then show ?thesis by (rule latest_class_current)
qed

lemma consumer_resolved:
  assumes "resolved (consumer_member ic authorized ms i)"
  shows "\<exists>x\<in>set authorized. bt_get ic x = Some i"
  using assms by (auto simp: consumer_member_def Let_def filter_empty_conv split: if_splits)

section \<open>Closing a rotation\<close>

lemma not_refused: "\<not> closeout_refused members False reason \<Longrightarrow> m \<in> set members \<Longrightarrow> resolved m"
  by (auto simp: closeout_refused_def unresolved_def filter_empty_conv)

text \<open>
  C34: Closing a rotation proves adoption. When the classification of the reads between the cutover and
  the cutoff is one that a completion accepts without an override, each snapshotted instance is retired
  or its last read in that window fetched the new version, the same holds for each authorized identity
  without instances (which cannot be retired), and each declared consumer has an authorized identity.
\<close>

theorem closeout_adopted:
  assumes "classify_adoption snapshot target lo hi obs retired lookback now ii ic = Ok members"
    and "\<not> closeout_refused members False reason"
  shows "(\<forall>i\<in>set (si_active_instances snapshot).
        i \<in> set retired \<or> adopted (\<lambda>ob. ob_consumer_instance_id ob = Some i) target lo hi obs)
    \<and> (\<forall>i\<in>set (si_authorized_identities snapshot). (\<forall>x\<in>set (si_active_instances snapshot). bt_get ii x \<noteq> Some i) \<longrightarrow>
        adopted (\<lambda>ob. ob_identity_id ob = i \<and> ob_consumer_instance_id ob = None) target lo hi obs)
    \<and> (\<forall>i\<in>set (si_declared_consumers snapshot). \<exists>x\<in>set (si_authorized_identities snapshot). bt_get ic x = Some i)"
proof -
  let ?w = "filter (in_window lo hi) obs"
  let ?is = "map (instance_member ?w target retired lookback now) (si_active_instances snapshot)"
  let ?ds = "map (identity_member ?w target lookback now ii (si_active_instances snapshot) ?is) (si_authorized_identities snapshot)"
  let ?cs = "map (consumer_member ic (si_authorized_identities snapshot) (?is @ ?ds)) (si_declared_consumers snapshot)"
  have "set members = set (?is @ ?ds @ ?cs)"
    using assms(1) by (auto simp: classify_adoption_def in_window_def [abs_def] Let_def split: if_splits)
  then have "\<forall>m\<in>set (?is @ ?ds @ ?cs). resolved m"
    using not_refused [OF assms(2)] by simp
  then show ?thesis
    by (intro conjI ballI impI instance_resolved identity_resolved consumer_resolved) auto
qed

theorem closeout_adopted_witness:
  "adopted (\<lambda>ob. ob_consumer_instance_id ob = Some 4) 2 10 20
     [\<lparr>ob_sequence = 12, ob_identity_id = 3, ob_consumer_instance_id = Some 4, ob_version = 1, ob_effective_unix_seconds = 6\<rparr>,
      \<lparr>ob_sequence = 15, ob_identity_id = 3, ob_consumer_instance_id = Some 4, ob_version = 2, ob_effective_unix_seconds = 7\<rparr>]"
proof -
  let ?obs = "[\<lparr>ob_sequence = 12, ob_identity_id = 3, ob_consumer_instance_id = Some 4, ob_version = 1, ob_effective_unix_seconds = 6\<rparr>,
      \<lparr>ob_sequence = 15, ob_identity_id = 3, ob_consumer_instance_id = Some 4, ob_version = 2, ob_effective_unix_seconds = 7\<rparr>]"
  let ?s = "\<lparr>si_declared_consumers = [5], si_authorized_identities = [3], si_active_instances = [4 :: id16]\<rparr>"
  obtain members where members: "classify_adoption ?s 2 10 20 ?obs [] None 9 [(4, 3)] [(3, 5)] = Ok members"
    and "\<not> closeout_refused members False None"
    by (simp add: classify_adoption_def instance_member_def identity_member_def consumer_member_def latest_class_def
        find_member_def bt_get_def map_filter_simps identity_class_def consumer_class_def closeout_refused_def unresolved_def
        lookback_exceeded_def Let_def)
  from closeout_adopted [OF this] show ?thesis by simp
qed

end
