(* ===== verification/Credential.thy ===== *)
theory Credential
  imports Management
begin

text \<open>
  Bearer credentials (\<open>credential.rs\<close>): their text form, the records the server keeps of them, how they
  are issued and how a presented one is verified. Base64 is a library: \<open>b64\<close> is its encoder and \<open>unb64\<close>
  its decoder. The source of randomness is a function on a state of its own, which asked for \<open>n\<close> bytes
  answers with bytes or fails.
\<close>

section \<open>Kinds and audiences\<close>

abbreviation (input) CREDENTIAL_FORMAT_VERSION :: u16 where "CREDENTIAL_FORMAT_VERSION \<equiv> 1"
abbreviation (input) ACCESSOR_BYTES :: nat where "ACCESSOR_BYTES \<equiv> 16"
abbreviation (input) SECRET_BYTES :: nat where "SECRET_BYTES \<equiv> 32"
abbreviation (input) ACCESSOR_TEXT_BYTES :: nat where "ACCESSOR_TEXT_BYTES \<equiv> 22"
abbreviation (input) SECRET_TEXT_BYTES :: nat where "SECRET_TEXT_BYTES \<equiv> 43"
abbreviation (input) ACCESSOR_COLLISION_ATTEMPTS :: nat where "ACCESSOR_COLLISION_ATTEMPTS \<equiv> 8"
abbreviation (input) ROLE_TOKEN_MIN_TTL_SECONDS :: u64 where "ROLE_TOKEN_MIN_TTL_SECONDS \<equiv> 60"
abbreviation (input) ROLE_TOKEN_DEFAULT_TTL_SECONDS :: u64 where "ROLE_TOKEN_DEFAULT_TTL_SECONDS \<equiv> 3600"
abbreviation (input) ROLE_TOKEN_MAX_TTL_SECONDS :: u64 where "ROLE_TOKEN_MAX_TTL_SECONDS \<equiv> 86400"
abbreviation (input) SECRET_ID_MIN_USES :: u32 where "SECRET_ID_MIN_USES \<equiv> 1"
abbreviation (input) SECRET_ID_MAX_USES :: u32 where "SECRET_ID_MAX_USES \<equiv> 1000"
abbreviation (input) MAX_CREDENTIAL_LABEL :: nat where "MAX_CREDENTIAL_LABEL \<equiv> 255"

datatype credential_kind = KindToken | KindSecretId

primrec credential_kind_label :: "credential_kind \<Rightarrow> string" where
  "credential_kind_label KindToken = ''token''"
| "credential_kind_label KindSecretId = ''secret-id''"

primrec credential_kind_code :: "credential_kind \<Rightarrow> u8" where
  "credential_kind_code KindToken = 1"
| "credential_kind_code KindSecretId = 2"

definition credential_kind_decode :: "u8 \<Rightarrow> (credential_kind, codec_error) result" where
  "credential_kind_decode b = (if b = 1 then Ok KindToken else if b = 2 then Ok KindSecretId else Err Invalid)"

primrec credential_audience_label :: "credential_audience \<Rightarrow> string" where
  "credential_audience_label AudienceControl = ''control''"
| "credential_audience_label AudienceData = ''data''"

primrec credential_audience_code :: "credential_audience \<Rightarrow> u8" where
  "credential_audience_code AudienceControl = 1"
| "credential_audience_code AudienceData = 2"

definition credential_audience_decode :: "u8 \<Rightarrow> (credential_audience, codec_error) result" where
  "credential_audience_decode b =
     (if b = 1 then Ok AudienceControl else if b = 2 then Ok AudienceData else Err Invalid)"

datatype credential_error = CeInvalid | CeConflict | CeCollisionExhausted | CeRandom

section \<open>The text form\<close>

type_synonym base64_encode = "bytes \<Rightarrow> string"
type_synonym base64_decode = "string \<Rightarrow> bytes option"

record credential_wire =
  cw_kind :: credential_kind
  cw_audience :: credential_audience
  cw_accessor :: id16
  cw_secret :: arr32

definition wire_new ::
  "credential_kind \<Rightarrow> credential_audience \<Rightarrow> id16 \<Rightarrow> arr32 \<Rightarrow> (credential_wire, credential_error) result" where
  "wire_new kind audience accessor secret =
     (if accessor = 0 \<or> secret = 0 then Err CeInvalid
      else Ok \<lparr>cw_kind = kind, cw_audience = audience, cw_accessor = accessor, cw_secret = secret\<rparr>)"

definition wire_encode :: "base64_encode \<Rightarrow> credential_wire \<Rightarrow> string" where
  "wire_encode b64 w =
     credential_kind_label (cw_kind w) @ ''.'' @ credential_audience_label (cw_audience w) @ ''.''
       @ b64 (be_bytes 16 (cw_accessor w)) @ ''.'' @ b64 (be_bytes 32 (cw_secret w))"

definition kind_from_label :: "string \<Rightarrow> (credential_kind, credential_error) result" where
  "kind_from_label s =
     (if s = ''token'' then Ok KindToken else if s = ''secret-id'' then Ok KindSecretId else Err CeInvalid)"

definition audience_from_label :: "string \<Rightarrow> (credential_audience, credential_error) result" where
  "audience_from_label s =
     (if s = ''control'' then Ok AudienceControl else if s = ''data'' then Ok AudienceData else Err CeInvalid)"

text \<open>Decoding into a buffer of \<open>n\<close> zero bytes: the rest of the buffer stays zero.\<close>

definition decode_into :: "base64_decode \<Rightarrow> nat \<Rightarrow> string \<Rightarrow> (bytes, credential_error) result" where
  "decode_into unb64 n text =
     (case unb64 text of
        None \<Rightarrow> Err CeInvalid
      | Some bs \<Rightarrow> if length bs > n then Err CeInvalid else Ok (bs @ replicate (n - length bs) 0))"

definition wire_parse ::
  "base64_encode \<Rightarrow> base64_decode \<Rightarrow> string \<Rightarrow> (credential_wire, credential_error) result" where
  "wire_parse b64 unb64 value =
     (case split_on CHR ''.'' value of
        [kind_text, audience_text, accessor_text, secret_text] \<Rightarrow>
          rbind (kind_from_label kind_text) (\<lambda>kind.
          rbind (audience_from_label audience_text) (\<lambda>audience.
          if length accessor_text \<noteq> ACCESSOR_TEXT_BYTES \<or> length secret_text \<noteq> SECRET_TEXT_BYTES
             \<or> CHR ''='' \<in> set accessor_text \<or> CHR ''='' \<in> set secret_text
          then Err CeInvalid
          else
            rbind (decode_into unb64 ACCESSOR_BYTES accessor_text) (\<lambda>accessor.
            rbind (decode_into unb64 SECRET_BYTES secret_text) (\<lambda>secret.
            rbind (wire_new kind audience (of_be_bytes accessor) (of_be_bytes secret)) (\<lambda>wire.
              if wire_encode b64 wire \<noteq> value then Err CeInvalid else Ok wire)))))
      | _ \<Rightarrow> Err CeInvalid)"

section \<open>Credential records\<close>

record credential_record =
  cd_id :: id16
  cd_accessor :: id16
  cd_verifier :: arr32
  cd_kind :: credential_kind
  cd_audience :: credential_audience
  cd_identity_id :: id16
  cd_issue_epoch :: u64
  cd_expires_at_effective_seconds :: u64
  cd_status :: token_status
  cd_generation :: u64
  cd_label :: string
  cd_created_at_effective_seconds :: u64
  cd_issuer_identity_id :: id16
  cd_issuance_request_id :: id16
  cd_parent_accessor :: "id16 option"
  cd_consumer_instance_id :: "id16 option"

definition credential_validate :: "credential_record \<Rightarrow> (unit, codec_error) result" where
  "credential_validate r =
     (if cd_id r = 0 \<or> cd_accessor r = 0 \<or> cd_identity_id r = 0 \<or> cd_issue_epoch r = 0
         \<or> cd_generation r = 0 \<or> cd_label r = [] \<or> length (cd_label r) > MAX_CREDENTIAL_LABEL
         \<or> list_ex (\<lambda>c. c \<in> {CHR 0x00, CHR ''/'', CHR 0x0A, CHR 0x0D}) (cd_label r)
         \<or> cd_created_at_effective_seconds r = 0
         \<or> cd_expires_at_effective_seconds r \<le> cd_created_at_effective_seconds r
         \<or> cd_issuer_identity_id r = 0 \<or> cd_issuance_request_id r = 0
      then Err Invalid else Ok ())"

definition credential_revoke :: "credential_record \<Rightarrow> u64 \<Rightarrow> (credential_record, credential_error) result" where
  "credential_revoke r expected_generation =
     (if cd_status r \<noteq> TokenActive \<or> cd_generation r \<noteq> expected_generation then Err CeConflict
      else rbind (ok_or CeInvalid (checked_add (cd_generation r) 1)) (\<lambda>generation.
             Ok (r\<lparr>cd_status := TokenRevoked, cd_generation := generation\<rparr>)))"

primrec token_status_code :: "token_status \<Rightarrow> u8" where
  "token_status_code TokenActive = 1"
| "token_status_code TokenRevoked = 2"

definition token_status_decode :: "u8 \<Rightarrow> (token_status, codec_error) result" where
  "token_status_decode b = (if b = 1 then Ok TokenActive else if b = 2 then Ok TokenRevoked else Err Invalid)"

definition encode_optional_fixed :: "id16 option \<Rightarrow> bytes \<Rightarrow> bytes" where
  "encode_optional_fixed v out =
     (case v of None \<Rightarrow> enc_u8 0 out | Some v \<Rightarrow> enc_fixed (be_bytes 16 v) (enc_u8 1 out))"

definition decode_optional_fixed :: "id16 option dec" where
  "decode_optional_fixed = dec_option (dec_fixed 16)"

definition credential_encode :: "credential_record \<Rightarrow> (bytes, codec_error) result" where
  "credential_encode r =
     rbind (credential_validate r) (\<lambda>_.
       let out = enc_version 1;
           out = enc_u16 CREDENTIAL_FORMAT_VERSION out;
           out = enc_fixed (be_bytes 16 (cd_id r)) out;
           out = enc_fixed (be_bytes 16 (cd_accessor r)) out;
           out = enc_fixed (be_bytes 32 (cd_verifier r)) out;
           out = enc_u8 (credential_kind_code (cd_kind r)) out;
           out = enc_u8 (credential_audience_code (cd_audience r)) out;
           out = enc_fixed (be_bytes 16 (cd_identity_id r)) out;
           out = enc_u64 (cd_issue_epoch r) out;
           out = enc_u64 (cd_expires_at_effective_seconds r) out;
           out = enc_u8 (token_status_code (cd_status r)) out;
           out = enc_u64 (cd_generation r) out
       in rbind (enc_string (cd_label r) MAX_CREDENTIAL_LABEL out) (\<lambda>out.
          let out = enc_u64 (cd_created_at_effective_seconds r) out;
              out = enc_fixed (be_bytes 16 (cd_issuer_identity_id r)) out;
              out = enc_fixed (be_bytes 16 (cd_issuance_request_id r)) out;
              out = encode_optional_fixed (cd_parent_accessor r) out;
              out = encode_optional_fixed (cd_consumer_instance_id r) out
          in Ok (enc_finish out)))"

definition credential_decode :: "bytes \<Rightarrow> (credential_record, codec_error) result" where
  "credential_decode bs = run_dec 1 bs (
     dbind dec_u16 (\<lambda>schema.
     dbind (dcheck (schema = CREDENTIAL_FORMAT_VERSION) UnknownVersion) (\<lambda>_.
     dbind (dec_fixed 16) (\<lambda>i.
     dbind (dec_fixed 16) (\<lambda>accessor.
     dbind (dec_fixed 32) (\<lambda>verifier.
     dbind dec_u8 (\<lambda>b. dbind (dlift (credential_kind_decode b)) (\<lambda>kind.
     dbind dec_u8 (\<lambda>b. dbind (dlift (credential_audience_decode b)) (\<lambda>audience.
     dbind (dec_fixed 16) (\<lambda>identity_id.
     dbind dec_u64 (\<lambda>issue_epoch.
     dbind dec_u64 (\<lambda>expires_at.
     dbind dec_u8 (\<lambda>b. dbind (dlift (token_status_decode b)) (\<lambda>status.
     dbind dec_u64 (\<lambda>generation.
     dbind (dec_string MAX_CREDENTIAL_LABEL) (\<lambda>label.
     dbind dec_u64 (\<lambda>created_at.
     dbind (dec_fixed 16) (\<lambda>issuer.
     dbind (dec_fixed 16) (\<lambda>request_id.
     dbind decode_optional_fixed (\<lambda>parent.
     dbind decode_optional_fixed (\<lambda>consumer_instance.
     dbind dec_finish (\<lambda>_.
     let value = \<lparr>cd_id = i, cd_accessor = accessor, cd_verifier = verifier, cd_kind = kind,
                  cd_audience = audience, cd_identity_id = identity_id, cd_issue_epoch = issue_epoch,
                  cd_expires_at_effective_seconds = expires_at, cd_status = status,
                  cd_generation = generation, cd_label = label,
                  cd_created_at_effective_seconds = created_at, cd_issuer_identity_id = issuer,
                  cd_issuance_request_id = request_id, cd_parent_accessor = parent,
                  cd_consumer_instance_id = consumer_instance\<rparr>
     in dbind (dlift (credential_validate value)) (\<lambda>_. dret value))))))))))))))))))))))))"

record credential_epoch =
  ce_current :: u64
  ce_generation :: u64

definition epoch_bump :: "credential_epoch \<Rightarrow> u64 \<Rightarrow> (credential_epoch, credential_error) result" where
  "epoch_bump e expected =
     (if ce_current e \<noteq> expected \<or> ce_generation e \<noteq> expected then Err CeConflict
      else rbind (ok_or CeInvalid (checked_add expected 1)) (\<lambda>following.
             Ok \<lparr>ce_current = following, ce_generation = following\<rparr>))"

definition epoch_encode :: "credential_epoch \<Rightarrow> (bytes, codec_error) result" where
  "epoch_encode e =
     (if ce_current e = 0 \<or> ce_generation e \<noteq> ce_current e then Err Invalid
      else Ok (enc_finish (enc_u64 (ce_generation e) (enc_u64 (ce_current e) (enc_version 1)))))"

definition epoch_decode :: "bytes \<Rightarrow> (credential_epoch, codec_error) result" where
  "epoch_decode bs = run_dec 1 bs (
     dbind dec_u64 (\<lambda>current.
     dbind dec_u64 (\<lambda>generation.
     dbind dec_finish (\<lambda>_.
     dbind (dcheck (\<not> (current = 0 \<or> generation \<noteq> current)) Invalid) (\<lambda>_.
       dret \<lparr>ce_current = current, ce_generation = generation\<rparr>)))))"

section \<open>Issuing\<close>

record issued_credential =
  is_wire :: string
  is_record :: credential_record

record credential_issue_metadata =
  im_id :: id16
  im_identity_id :: id16
  im_kind :: credential_kind
  im_audience :: credential_audience
  im_issue_epoch :: u64
  im_expires_at_effective_seconds :: u64
  im_created_at_effective_seconds :: u64
  im_issuer_identity_id :: id16
  im_issuance_request_id :: id16
  im_parent_accessor :: "id16 option"
  im_consumer_instance_id :: "id16 option"

definition token_from_secret_id ::
  "credential_record \<Rightarrow> id16 \<Rightarrow> u64 \<Rightarrow> u64 \<Rightarrow> id16 \<Rightarrow> (credential_issue_metadata, credential_error) result" where
  "token_from_secret_id parent i created_at expires_at request_id =
     (if cd_kind parent \<noteq> KindSecretId \<or> cd_status parent \<noteq> TokenActive then Err CeInvalid
      else Ok \<lparr>im_id = i, im_identity_id = cd_identity_id parent, im_kind = KindToken,
               im_audience = AudienceData, im_issue_epoch = cd_issue_epoch parent,
               im_expires_at_effective_seconds = expires_at,
               im_created_at_effective_seconds = created_at,
               im_issuer_identity_id = cd_identity_id parent, im_issuance_request_id = request_id,
               im_parent_accessor = Some (cd_accessor parent),
               im_consumer_instance_id = cd_consumer_instance_id parent\<rparr>)"

definition require_workload_tracking :: "id16 option \<Rightarrow> bool \<Rightarrow> (id16 option, credential_error) result" where
  "require_workload_tracking consumer_instance_id identity_only_accepted =
     (if consumer_instance_id = None \<and> \<not> identity_only_accepted then Err CeInvalid
      else Ok consumer_instance_id)"

definition credential_mac_input ::
  "id16 \<Rightarrow> credential_kind \<Rightarrow> credential_audience \<Rightarrow> id16 \<Rightarrow> u64 \<Rightarrow> arr32 \<Rightarrow> bytes" where
  "credential_mac_input store_id kind audience accessor issue_epoch secret =
     str_bytes ''ops-light-secrets-server.credential-verifier.v1'' @ [0] @ concat (map frame
       [be_bytes 16 store_id, [credential_kind_code kind], [credential_audience_code audience],
        be_bytes 16 accessor, be_bytes 8 issue_epoch, be_bytes 32 secret])"

definition credential_mac ::
  "keyed_hash \<Rightarrow> arr32 \<Rightarrow> id16 \<Rightarrow> credential_kind \<Rightarrow> credential_audience \<Rightarrow> id16 \<Rightarrow> u64 \<Rightarrow> arr32 \<Rightarrow> arr32" where
  "credential_mac keyed key store_id kind audience accessor issue_epoch secret =
     keyed key (credential_mac_input store_id kind audience accessor issue_epoch secret)"

type_synonym 'r random_source = "nat \<Rightarrow> 'r \<Rightarrow> bytes option \<times> 'r"

definition random_fill :: "'r random_source \<Rightarrow> nat \<Rightarrow> 'e \<Rightarrow> ('r, bytes, 'e) stateful" where
  "random_fill random n e r = (case random n r of (None, r) \<Rightarrow> (Err e, r) | (Some bs, r) \<Rightarrow> (Ok bs, r))"

primrec draw_accessor ::
  "'r random_source \<Rightarrow> (id16 \<Rightarrow> bool) \<Rightarrow> nat \<Rightarrow> ('r, id16 option, credential_error) stateful" where
  "draw_accessor random accessor_exists 0 = slift (Ok None)"
| "draw_accessor random accessor_exists (Suc n) =
     sbind (random_fill random ACCESSOR_BYTES CeRandom) (\<lambda>bs.
       let candidate = of_be_bytes bs
       in if candidate \<noteq> 0 \<and> \<not> accessor_exists candidate then slift (Ok (Some candidate))
          else draw_accessor random accessor_exists n)"

definition issue_credential ::
  "keyed_hash \<Rightarrow> base64_encode \<Rightarrow> arr32 \<Rightarrow> id16 \<Rightarrow> credential_issue_metadata \<Rightarrow> string \<Rightarrow> (id16 \<Rightarrow> bool) \<Rightarrow>
     'r random_source \<Rightarrow> ('r, issued_credential, credential_error) stateful" where
  "issue_credential keyed b64 verifier_key store_id metadata label accessor_exists random =
     sbind (draw_accessor random accessor_exists ACCESSOR_COLLISION_ATTEMPTS) (\<lambda>drawn.
     sbind (slift (ok_or CeCollisionExhausted drawn)) (\<lambda>accessor.
     sbind (random_fill random SECRET_BYTES CeRandom) (\<lambda>bs.
       let secret = of_be_bytes bs
       in sbind (srequire (secret \<noteq> 0) CeRandom) (\<lambda>_.
            let verifier = credential_mac keyed verifier_key store_id (im_kind metadata)
                             (im_audience metadata) accessor (im_issue_epoch metadata) secret
            in sbind (slift (wire_new (im_kind metadata) (im_audience metadata) accessor secret)) (\<lambda>wire.
                 let r = \<lparr>cd_id = im_id metadata, cd_accessor = accessor, cd_verifier = verifier,
                          cd_kind = im_kind metadata, cd_audience = im_audience metadata,
                          cd_identity_id = im_identity_id metadata,
                          cd_issue_epoch = im_issue_epoch metadata,
                          cd_expires_at_effective_seconds = im_expires_at_effective_seconds metadata,
                          cd_status = TokenActive, cd_generation = 1, cd_label = label,
                          cd_created_at_effective_seconds = im_created_at_effective_seconds metadata,
                          cd_issuer_identity_id = im_issuer_identity_id metadata,
                          cd_issuance_request_id = im_issuance_request_id metadata,
                          cd_parent_accessor = im_parent_accessor metadata,
                          cd_consumer_instance_id = im_consumer_instance_id metadata\<rparr>
                 in sbind (slift (map_err (\<lambda>_. CeInvalid) (credential_validate r))) (\<lambda>_.
                      slift (Ok \<lparr>is_wire = wire_encode b64 wire, is_record = r\<rparr>)))))))"

section \<open>Verification\<close>

datatype credential_reject_reason =
    RejMalformed | RejWrongKind | RejWrongAudience | RejUnknownAccessor | RejInvalidSecret
  | RejEpochChanged | RejRevoked | RejExpired

record verifier_work =
  wk_accessor_lookups :: u8
  wk_epoch_reads :: u8
  wk_mac_computations :: u8
  wk_compared_bytes :: u8

record credential_verification =
  cv_authenticated_id :: "id16 option"
  cv_reason :: "credential_reject_reason option"
  cv_work :: verifier_work

record credential_context =
  cx_expected_kind :: credential_kind
  cx_expected_audience :: credential_audience
  cx_current_epoch :: u64
  cx_effective_seconds :: u64
  cx_store_id :: id16
  cx_verifier_key :: arr32

definition constant_time_equal :: "arr32 \<Rightarrow> arr32 \<Rightarrow> bool" where
  "constant_time_equal left right \<longleftrightarrow>
     foldl (\<lambda>difference (l, r). difference OR (l XOR r)) (0 :: u8)
       (zip (be_bytes 32 left) (be_bytes 32 right)) = 0"

definition record_reason :: "credential_context \<Rightarrow> bool \<Rightarrow> credential_record \<Rightarrow> credential_reject_reason option" where
  "record_reason context mac_valid r =
     (if \<not> mac_valid then Some RejInvalidSecret
      else if cd_issue_epoch r \<noteq> cx_current_epoch context then Some RejEpochChanged
      else if cd_status r = TokenRevoked then Some RejRevoked
      else if cx_effective_seconds context \<ge> cd_expires_at_effective_seconds r then Some RejExpired
      else None)"

definition verify_credential ::
  "keyed_hash \<Rightarrow> base64_encode \<Rightarrow> base64_decode \<Rightarrow> string \<Rightarrow> credential_context \<Rightarrow>
     (id16 \<Rightarrow> credential_record option) \<Rightarrow> credential_verification" where
  "verify_credential keyed b64 unb64 raw context lookup =
     (let (accessor, secret, surface_ok, parse_reason) =
            (case wire_parse b64 unb64 raw of
               Ok wire \<Rightarrow>
                 (cw_accessor wire, cw_secret wire,
                  cw_kind wire = cx_expected_kind context \<and> cw_audience wire = cx_expected_audience context,
                  if cw_kind wire \<noteq> cx_expected_kind context then Some RejWrongKind
                  else if cw_audience wire \<noteq> cx_expected_audience context then Some RejWrongAudience
                  else None)
             | Err _ \<Rightarrow> (0, 0, False, Some RejMalformed));
          found = (if surface_ok then lookup accessor else None);
          expected = (case found of Some r \<Rightarrow> cd_verifier r | None \<Rightarrow> 0);
          actual =
            (case found of
               None \<Rightarrow> credential_mac keyed (cx_verifier_key context) (cx_store_id context)
                         (cx_expected_kind context) (cx_expected_audience context) 0
                         (cx_current_epoch context) secret
             | Some r \<Rightarrow> credential_mac keyed (cx_verifier_key context) (cx_store_id context)
                          (cd_kind r) (cd_audience r) (cd_accessor r) (cd_issue_epoch r) secret);
          mac_valid = constant_time_equal actual expected;
          reason = (case parse_reason of
                      Some reason \<Rightarrow> Some reason
                    | None \<Rightarrow> (case found of None \<Rightarrow> None | Some r \<Rightarrow> record_reason context mac_valid r));
          reason = (case reason of
                      Some reason \<Rightarrow> Some reason
                    | None \<Rightarrow> if found = None then Some RejUnknownAccessor else None)
      in \<lparr>cv_authenticated_id = (if reason = None then map_option cd_id found else None),
          cv_reason = reason,
          cv_work = \<lparr>wk_accessor_lookups = 1, wk_epoch_reads = 1, wk_mac_computations = 1,
                     wk_compared_bytes = 32\<rparr>\<rparr>)"

definition validate_ttl :: "u64 \<Rightarrow> u64 \<Rightarrow> u64 \<Rightarrow> (u64, credential_error) result" where
  "validate_ttl v minimum maximum = (if minimum \<le> v \<and> v \<le> maximum then Ok v else Err CeInvalid)"

definition validate_secret_id_uses :: "u32 \<Rightarrow> (u32, credential_error) result" where
  "validate_secret_id_uses v =
     (if SECRET_ID_MIN_USES \<le> v \<and> v \<le> SECRET_ID_MAX_USES then Ok v else Err CeInvalid)"

end
