(* ===== verification/Auth.thy ===== *)
theory Auth
  imports Credential Kv_Http
begin

text \<open>
  AppRole login and token authentication (\<open>auth.rs\<close>). The catalog is the state the service keeps behind
  its lock; an operation maps it to a result and the next catalog. The identifier of a request, which the
  handlers take from a header or from the source of randomness, is an argument.
\<close>

section \<open>Roles\<close>

abbreviation (input) APPROLE_SCHEMA_VERSION :: u16 where "APPROLE_SCHEMA_VERSION \<equiv> 3"
abbreviation (input) SECRET_ID_USAGE_SCHEMA_VERSION :: u16 where "SECRET_ID_USAGE_SCHEMA_VERSION \<equiv> 4"
abbreviation (input) MAX_ROLE_ID :: nat where "MAX_ROLE_ID \<equiv> 255"
abbreviation (input) MAX_ROLE_NAME :: nat where "MAX_ROLE_NAME \<equiv> 255"

datatype auth_error =
    AeInvalidInput | AeInvalidCredentials | AeUnauthenticated | AeAlreadyCommitted id16 | AeConflict | AeRandom

primrec credential_to_auth :: "credential_error \<Rightarrow> auth_error" where
  "credential_to_auth CeRandom = AeRandom"
| "credential_to_auth CeCollisionExhausted = AeRandom"
| "credential_to_auth CeConflict = AeConflict"
| "credential_to_auth CeInvalid = AeInvalidInput"

definition valid_public_label :: "string \<Rightarrow> nat \<Rightarrow> bool" where
  "valid_public_label s maximum \<longleftrightarrow> s \<noteq> [] \<and> length s \<le> maximum \<and> \<not> has_control s
     \<and> \<not> list_ex (\<lambda>c. c \<in> {CHR ''/'', CHR 0x5C}) s"

datatype approle_status = RoleActive | RoleDeleted

primrec approle_status_code :: "approle_status \<Rightarrow> u8" where
  "approle_status_code RoleActive = 1"
| "approle_status_code RoleDeleted = 2"

definition approle_status_decode :: "u8 \<Rightarrow> (approle_status, codec_error) result" where
  "approle_status_decode b = (if b = 1 then Ok RoleActive else if b = 2 then Ok RoleDeleted else Err Invalid)"

record approle_record =
  ar_id :: id16
  ar_role_id :: string
  ar_name :: string
  ar_identity_id :: id16
  ar_token_ttl_seconds :: u64
  ar_status :: approle_status
  ar_generation :: u64

definition approle_validate :: "approle_record \<Rightarrow> (unit, codec_error) result" where
  "approle_validate r =
     (if ar_id r = 0 \<or> ar_identity_id r = 0 \<or> ar_generation r = 0
         \<or> \<not> valid_public_label (ar_role_id r) MAX_ROLE_ID \<or> \<not> valid_public_label (ar_name r) MAX_ROLE_NAME
         \<or> \<not> is_ok (validate_ttl (ar_token_ttl_seconds r) ROLE_TOKEN_MIN_TTL_SECONDS ROLE_TOKEN_MAX_TTL_SECONDS)
      then Err Invalid else Ok ())"

definition approle_new ::
  "id16 \<Rightarrow> string \<Rightarrow> string \<Rightarrow> id16 \<Rightarrow> u64 option \<Rightarrow> (approle_record, auth_error) result" where
  "approle_new i role_id name identity_id token_ttl_seconds =
     rbind (map_err (\<lambda>_. AeInvalidInput)
              (validate_ttl (case token_ttl_seconds of None \<Rightarrow> ROLE_TOKEN_DEFAULT_TTL_SECONDS | Some t \<Rightarrow> t)
                 ROLE_TOKEN_MIN_TTL_SECONDS ROLE_TOKEN_MAX_TTL_SECONDS)) (\<lambda>ttl.
       let value = \<lparr>ar_id = i, ar_role_id = role_id, ar_name = name, ar_identity_id = identity_id,
                    ar_token_ttl_seconds = ttl, ar_status = RoleActive, ar_generation = 1\<rparr>
       in rbind (map_err (\<lambda>_. AeInvalidInput) (approle_validate value)) (\<lambda>_. Ok value))"

definition approle_delete :: "approle_record \<Rightarrow> u64 \<Rightarrow> (approle_record, auth_error) result" where
  "approle_delete r expected_generation =
     (if ar_status r \<noteq> RoleActive \<or> ar_generation r \<noteq> expected_generation then Err AeConflict
      else rbind (ok_or AeInvalidInput (checked_add (ar_generation r) 1)) (\<lambda>generation.
             Ok (r\<lparr>ar_status := RoleDeleted, ar_generation := generation\<rparr>)))"

definition approle_encode :: "approle_record \<Rightarrow> (bytes, codec_error) result" where
  "approle_encode r =
     rbind (approle_validate r) (\<lambda>_.
       let out = enc_version 1;
           out = enc_u16 APPROLE_SCHEMA_VERSION out;
           out = enc_fixed (be_bytes 16 (ar_id r)) out
       in rbind (enc_string (ar_role_id r) MAX_ROLE_ID out) (\<lambda>out.
          rbind (enc_string (ar_name r) MAX_ROLE_NAME out) (\<lambda>out.
          let out = enc_fixed (be_bytes 16 (ar_identity_id r)) out;
              out = enc_u64 (ar_token_ttl_seconds r) out;
              out = enc_u8 (approle_status_code (ar_status r)) out;
              out = enc_u64 (ar_generation r) out
          in Ok (enc_finish out))))"

definition approle_decode :: "bytes \<Rightarrow> (approle_record, codec_error) result" where
  "approle_decode bs = run_dec 1 bs (
     dbind dec_u16 (\<lambda>schema.
     dbind (dcheck (schema = APPROLE_SCHEMA_VERSION) UnknownVersion) (\<lambda>_.
     dbind (dec_fixed 16) (\<lambda>i.
     dbind (dec_string MAX_ROLE_ID) (\<lambda>role_id.
     dbind (dec_string MAX_ROLE_NAME) (\<lambda>name.
     dbind (dec_fixed 16) (\<lambda>identity_id.
     dbind dec_u64 (\<lambda>ttl.
     dbind dec_u8 (\<lambda>b. dbind (dlift (approle_status_decode b)) (\<lambda>status.
     dbind dec_u64 (\<lambda>generation.
     dbind dec_finish (\<lambda>_.
     let value = \<lparr>ar_id = i, ar_role_id = role_id, ar_name = name, ar_identity_id = identity_id,
                  ar_token_ttl_seconds = ttl, ar_status = status, ar_generation = generation\<rparr>
     in dbind (dlift (approle_validate value)) (\<lambda>_. dret value)))))))))))))"

definition approle_seal ::
  "keyed_hash \<Rightarrow> approle_record \<Rightarrow> arr32 \<Rightarrow> id16 \<Rightarrow> (approle_record sealed, codec_error) result" where
  "approle_seal keyed r key store_id =
     rbind (approle_validate r) (\<lambda>_.
       seal keyed approle_encode CredentialMetadata APPROLE_SCHEMA_VERSION r (ar_generation r) key store_id
         (be_bytes 16 (ar_id r)))"

section \<open>Uses of a secret id\<close>

record secret_id_usage =
  su_accessor :: id16
  su_role_id :: id16
  su_initial_uses :: u32
  su_remaining_uses :: u32
  su_generation :: u64

definition usage_validate :: "secret_id_usage \<Rightarrow> (unit, codec_error) result" where
  "usage_validate u =
     (if su_accessor u = 0 \<or> su_role_id u = 0 \<or> su_generation u = 0
         \<or> \<not> is_ok (validate_secret_id_uses (su_initial_uses u))
         \<or> su_remaining_uses u > su_initial_uses u
      then Err Invalid else Ok ())"

definition usage_new :: "id16 \<Rightarrow> id16 \<Rightarrow> u32 \<Rightarrow> (secret_id_usage, auth_error) result" where
  "usage_new accessor role_id uses =
     rbind (map_err (\<lambda>_. AeInvalidInput) (validate_secret_id_uses uses)) (\<lambda>_.
       if accessor = 0 \<or> role_id = 0 then Err AeInvalidInput
       else Ok \<lparr>su_accessor = accessor, su_role_id = role_id, su_initial_uses = uses,
                su_remaining_uses = uses, su_generation = 1\<rparr>)"

definition usage_consume :: "secret_id_usage \<Rightarrow> (secret_id_usage, auth_error) result" where
  "usage_consume u =
     (if su_remaining_uses u = 0 then Err AeInvalidCredentials
      else rbind (ok_or AeInvalidInput (checked_add (su_generation u) 1)) (\<lambda>generation.
             Ok (u\<lparr>su_remaining_uses := su_remaining_uses u - 1, su_generation := generation\<rparr>)))"

definition usage_encode :: "secret_id_usage \<Rightarrow> (bytes, codec_error) result" where
  "usage_encode u =
     rbind (usage_validate u) (\<lambda>_.
       let out = enc_version 1;
           out = enc_u16 SECRET_ID_USAGE_SCHEMA_VERSION out;
           out = enc_fixed (be_bytes 16 (su_accessor u)) out;
           out = enc_fixed (be_bytes 16 (su_role_id u)) out;
           out = enc_u32 (su_initial_uses u) out;
           out = enc_u32 (su_remaining_uses u) out;
           out = enc_u64 (su_generation u) out
       in Ok (enc_finish out))"

definition usage_decode :: "bytes \<Rightarrow> (secret_id_usage, codec_error) result" where
  "usage_decode bs = run_dec 1 bs (
     dbind dec_u16 (\<lambda>schema.
     dbind (dcheck (schema = SECRET_ID_USAGE_SCHEMA_VERSION) UnknownVersion) (\<lambda>_.
     dbind (dec_fixed 16) (\<lambda>accessor.
     dbind (dec_fixed 16) (\<lambda>role_id.
     dbind dec_u32 (\<lambda>initial.
     dbind dec_u32 (\<lambda>remaining.
     dbind dec_u64 (\<lambda>generation.
     dbind dec_finish (\<lambda>_.
     let value = \<lparr>su_accessor = accessor, su_role_id = role_id, su_initial_uses = initial,
                  su_remaining_uses = remaining, su_generation = generation\<rparr>
     in dbind (dlift (usage_validate value)) (\<lambda>_. dret value))))))))))"

definition usage_seal ::
  "keyed_hash \<Rightarrow> secret_id_usage \<Rightarrow> arr32 \<Rightarrow> id16 \<Rightarrow> (secret_id_usage sealed, codec_error) result" where
  "usage_seal keyed u key store_id =
     rbind (usage_validate u) (\<lambda>_.
       seal keyed usage_encode CredentialMetadata SECRET_ID_USAGE_SCHEMA_VERSION u (su_generation u) key store_id
         (be_bytes 16 (su_accessor u)))"

section \<open>The catalog\<close>

datatype auth_audit_outcome = AuthSucceeded | AuthDenied | AuthUnsupported
datatype auth_operation = OpAuthenticate | OpAppRoleLogin | OpLookupSelf | OpRenewSelf

record auth_audit_event =
  ae_request_id :: id16
  ae_operation :: auth_operation
  ae_outcome :: auth_audit_outcome
  ae_credential_accessor :: "id16 option"
  ae_identity_id :: "id16 option"

record login_success =
  ls_credential :: issued_credential
  ls_lease_duration :: u64
  ls_role_name :: string
  ls_identity_id :: id16

record lookup_self_data =
  ld_accessor :: string
  ld_creation_time :: u64
  ld_display_name :: string
  ld_entity_id :: string
  ld_expire_time :: u64
  ld_issue_time :: u64
  ld_lease_duration :: u64
  ld_renewable :: bool
  ld_ttl :: u64
  ld_token_type :: string

record auth_catalog =
  ac_store_id :: id16
  ac_verifier_key :: arr32
  ac_current_epoch :: u64
  ac_effective_seconds :: u64
  ac_roles :: "(string \<times> approle_record) list"
  ac_identities :: "(id16 \<times> identity_record) list"
  ac_credentials :: "(id16 \<times> credential_record) list"
  ac_usages :: "(id16 \<times> secret_id_usage) list"
  ac_audit :: "auth_audit_event list"

type_synonym 'a auth = "(auth_catalog, 'a, auth_error) stateful"

definition auth_new :: "id16 \<Rightarrow> arr32 \<Rightarrow> u64 \<Rightarrow> u64 \<Rightarrow> (auth_catalog, auth_error) result" where
  "auth_new store_id verifier_key current_epoch effective_seconds =
     (if store_id = 0 \<or> verifier_key = 0 \<or> current_epoch = 0 \<or> effective_seconds = 0 then Err AeInvalidInput
      else Ok \<lparr>ac_store_id = store_id, ac_verifier_key = verifier_key, ac_current_epoch = current_epoch,
               ac_effective_seconds = effective_seconds, ac_roles = [], ac_identities = [],
               ac_credentials = [], ac_usages = [], ac_audit = []\<rparr>)"

definition set_effective_seconds :: "u64 \<Rightarrow> unit auth" where
  "set_effective_seconds v c =
     (if v < ac_effective_seconds c then (Err AeInvalidInput, c) else (Ok (), c\<lparr>ac_effective_seconds := v\<rparr>))"

definition active_identity :: "auth_catalog \<Rightarrow> id16 \<Rightarrow> bool" where
  "active_identity c i =
     (case bt_get (ac_identities c) i of None \<Rightarrow> False | Some identity \<Rightarrow> ir_status identity = IdentityActive)"

definition insert_role :: "approle_record \<Rightarrow> unit auth" where
  "insert_role role =
     sbind (slift (map_err (\<lambda>_. AeInvalidInput) (approle_validate role))) (\<lambda>_ c.
       if \<not> active_identity c (ar_identity_id role) \<or> bt_contains (ac_roles c) (ar_role_id role)
          \<or> list_ex (\<lambda>existing. ar_id existing = ar_id role \<or> ar_name existing = ar_name role)
              (map snd (ac_roles c))
       then (Err AeConflict, c)
       else (Ok (), c\<lparr>ac_roles := bt_insert (ar_role_id role) role (ac_roles c)\<rparr>))"

definition insert_identity :: "identity_record \<Rightarrow> unit auth" where
  "insert_identity identity =
     sbind (slift (map_err (\<lambda>_. AeInvalidInput) (identity_encode identity))) (\<lambda>_ c.
       if bt_contains (ac_identities c) (ir_id identity) then (Err AeConflict, c)
       else (Ok (), c\<lparr>ac_identities := bt_insert (ir_id identity) identity (ac_identities c)\<rparr>))"

definition replace_identity :: "identity_record \<Rightarrow> unit auth" where
  "replace_identity identity =
     sbind (slift (map_err (\<lambda>_. AeInvalidInput) (identity_encode identity))) (\<lambda>_ c.
       case bt_get (ac_identities c) (ir_id identity) of
         None \<Rightarrow> (Err AeConflict, c)
       | Some current \<Rightarrow>
           (case checked_add (ir_generation current) 1 of
              None \<Rightarrow> (Err AeConflict, c)
            | Some generation \<Rightarrow>
                if ir_generation identity \<noteq> generation \<or> ir_name identity \<noteq> ir_name current
                   \<or> ir_kind identity \<noteq> ir_kind current
                then (Err AeConflict, c)
                else (Ok (), c\<lparr>ac_identities := bt_insert (ir_id identity) identity (ac_identities c)\<rparr>)))"

definition delete_role :: "string \<Rightarrow> u64 \<Rightarrow> unit auth" where
  "delete_role role_id expected_generation c =
     (case bt_get (ac_roles c) role_id of
        None \<Rightarrow> (Err AeConflict, c)
      | Some current \<Rightarrow>
          (case approle_delete current expected_generation of
             Err e \<Rightarrow> (Err e, c)
           | Ok replacement \<Rightarrow> (Ok (), c\<lparr>ac_roles := bt_insert role_id replacement (ac_roles c)\<rparr>)))"

definition insert_secret_id :: "id16 \<Rightarrow> credential_record \<Rightarrow> u32 \<Rightarrow> unit auth" where
  "insert_secret_id role_record_id credential uses c =
     (if cd_kind credential \<noteq> KindSecretId \<or> cd_audience credential \<noteq> AudienceData
         \<or> \<not> list_ex (\<lambda>role. ar_id role = role_record_id \<and> ar_identity_id role = cd_identity_id credential
                             \<and> ar_status role = RoleActive) (map snd (ac_roles c))
         \<or> bt_contains (ac_credentials c) (cd_accessor credential)
      then (Err AeInvalidInput, c)
      else case usage_new (cd_accessor credential) role_record_id uses of
             Err e \<Rightarrow> (Err e, c)
           | Ok usage \<Rightarrow>
               (Ok (), c\<lparr>ac_usages := bt_insert (cd_accessor credential) usage (ac_usages c),
                         ac_credentials := bt_insert (cd_accessor credential) credential (ac_credentials c)\<rparr>))"

definition insert_token :: "credential_record \<Rightarrow> unit auth" where
  "insert_token credential c =
     (if cd_kind credential \<noteq> KindToken \<or> \<not> active_identity c (cd_identity_id credential)
         \<or> bt_contains (ac_credentials c) (cd_accessor credential)
      then (Err AeInvalidInput, c)
      else (Ok (), c\<lparr>ac_credentials := bt_insert (cd_accessor credential) credential (ac_credentials c)\<rparr>))"

definition credential_by_request :: "auth_catalog \<Rightarrow> id16 \<Rightarrow> credential_record option" where
  "credential_by_request c request_id =
     find (\<lambda>r. cd_issuance_request_id r = request_id) (map snd (ac_credentials c))"

definition replace_credential :: "credential_record \<Rightarrow> unit auth" where
  "replace_credential replacement c =
     (case bt_get (ac_credentials c) (cd_accessor replacement) of
        None \<Rightarrow> (Err AeConflict, c)
      | Some current \<Rightarrow>
          if cd_id replacement \<noteq> cd_id current then (Err AeConflict, c)
          else (case checked_add (cd_generation current) 1 of
                  None \<Rightarrow> (Err AeConflict, c)
                | Some generation \<Rightarrow>
                    if cd_generation replacement \<noteq> generation then (Err AeConflict, c)
                    else (Ok (), c\<lparr>ac_credentials :=
                            bt_insert (cd_accessor replacement) replacement (ac_credentials c)\<rparr>)))"

primrec revoke_accessors :: "id16 list \<Rightarrow> unit auth" where
  "revoke_accessors [] = slift (Ok ())"
| "revoke_accessors (a # as) = (\<lambda>c.
     case bt_get (ac_credentials c) a of
       None \<Rightarrow> revoke_accessors as c
     | Some current \<Rightarrow>
         if cd_status current = TokenActive then
           sbind (slift (map_err (\<lambda>_. AeConflict) (credential_revoke current (cd_generation current)))) (\<lambda>r.
           sbind (replace_credential r) (\<lambda>_. revoke_accessors as)) c
         else revoke_accessors as c)"

definition remove_secret_ids_for_role :: "id16 \<Rightarrow> nat auth" where
  "remove_secret_ids_for_role role_record_id c =
     (let accessors = map su_accessor (filter (\<lambda>u. su_role_id u = role_record_id) (map snd (ac_usages c)))
      in sbind (revoke_accessors accessors) (\<lambda>_. slift (Ok (length accessors))) c)"

section \<open>Login and authentication\<close>

definition auth_event ::
  "id16 \<Rightarrow> auth_operation \<Rightarrow> auth_audit_outcome \<Rightarrow> id16 option \<Rightarrow> id16 option \<Rightarrow> auth_catalog \<Rightarrow> auth_catalog" where
  "auth_event request_id operation outcome accessor identity_id c =
     c\<lparr>ac_audit := ac_audit c @ [\<lparr>ae_request_id = request_id, ae_operation = operation, ae_outcome = outcome,
          ae_credential_accessor = accessor, ae_identity_id = identity_id\<rparr>]\<rparr>"

definition wire_accessor :: "base64_encode \<Rightarrow> base64_decode \<Rightarrow> string \<Rightarrow> id16 option" where
  "wire_accessor b64 unb64 text = (case wire_parse b64 unb64 text of Ok w \<Rightarrow> Some (cw_accessor w) | Err _ \<Rightarrow> None)"

definition auth_context :: "auth_catalog \<Rightarrow> credential_kind \<Rightarrow> credential_audience \<Rightarrow> credential_context" where
  "auth_context c kind audience =
     \<lparr>cx_expected_kind = kind, cx_expected_audience = audience, cx_current_epoch = ac_current_epoch c,
      cx_effective_seconds = ac_effective_seconds c, cx_store_id = ac_store_id c,
      cx_verifier_key = ac_verifier_key c\<rparr>"

text \<open>The checks of \<open>login\<close>: the role, the secret id and its uses, when all of them hold.\<close>

definition login_candidate ::
  "keyed_hash \<Rightarrow> base64_encode \<Rightarrow> base64_decode \<Rightarrow> auth_catalog \<Rightarrow> string \<Rightarrow> string \<Rightarrow>
     (approle_record \<times> credential_record \<times> secret_id_usage) option" where
  "login_candidate keyed b64 unb64 c role_id secret_id =
     (let verification = verify_credential keyed b64 unb64 secret_id (auth_context c KindSecretId AudienceData)
                           (bt_get (ac_credentials c))
      in case wire_accessor b64 unb64 secret_id of
           None \<Rightarrow> None
         | Some accessor \<Rightarrow>
             (case (bt_get (ac_roles c) role_id, bt_get (ac_credentials c) accessor, bt_get (ac_usages c) accessor) of
                (Some role, Some parent, Some usage) \<Rightarrow>
                  if cv_reason verification = None \<and> ar_status role = RoleActive
                     \<and> ar_id role = su_role_id usage \<and> ar_identity_id role = cd_identity_id parent
                     \<and> su_remaining_uses usage > 0
                  then Some (role, parent, usage) else None
              | _ \<Rightarrow> None))"

definition on_random :: "('r, 'a, 'e) stateful \<Rightarrow> (auth_catalog \<times> 'r, 'a, 'e) stateful" where
  "on_random f s = (let (a, r) = f (snd s) in (a, (fst s, r)))"

primrec unique_id_loop :: "'r random_source \<Rightarrow> credential_record list \<Rightarrow> nat \<Rightarrow> ('r, id16, auth_error) stateful" where
  "unique_id_loop random rows 0 = slift (Err AeRandom)"
| "unique_id_loop random rows (Suc n) =
     sbind (random_fill random 16 AeRandom) (\<lambda>bs.
       let i = of_be_bytes bs
       in if i \<noteq> 0 \<and> list_all (\<lambda>r. cd_id r \<noteq> i) rows then slift (Ok i) else unique_id_loop random rows n)"

definition unique_id :: "'r random_source \<Rightarrow> credential_record list \<Rightarrow> ('r, id16, auth_error) stateful" where
  "unique_id random rows = unique_id_loop random rows ACCESSOR_COLLISION_ATTEMPTS"

definition map_state_err :: "('e \<Rightarrow> 'f) \<Rightarrow> ('s, 'a, 'e) stateful \<Rightarrow> ('s, 'a, 'f) stateful" where
  "map_state_err f m s = (let (r, s) = m s in (map_err f r, s))"

text \<open>The second half of \<open>login\<close>, with the checked role, secret id and uses.\<close>

definition login_issue ::
  "keyed_hash \<Rightarrow> base64_encode \<Rightarrow> 'r random_source \<Rightarrow> approle_record \<Rightarrow> credential_record \<Rightarrow> secret_id_usage \<Rightarrow>
     id16 \<Rightarrow> id16 \<Rightarrow> (auth_catalog \<times> 'r, login_success, auth_error) stateful" where
  "login_issue keyed b64 random role parent usage accessor request_id =
     sbind (slift (usage_consume usage)) (\<lambda>replacement_usage s.
     sbind (on_random (unique_id random (map snd (ac_credentials (fst s))))) (\<lambda>i (c, r).
       sbind (slift (ok_or AeInvalidInput (checked_add (ac_effective_seconds c) (ar_token_ttl_seconds role)))) (\<lambda>expires.
       sbind (slift (map_err credential_to_auth
                (token_from_secret_id parent i (ac_effective_seconds c) expires request_id))) (\<lambda>metadata.
       sbind (on_random (map_state_err credential_to_auth
                (issue_credential keyed b64 (ac_verifier_key c) (ac_store_id c) metadata
                   (''approle:'' @ ar_name role) (bt_contains (ac_credentials c)) random))) (\<lambda>issued (c, r).
         let c = c\<lparr>ac_usages := bt_insert accessor replacement_usage (ac_usages c),
                   ac_credentials := bt_insert (cd_accessor (is_record issued)) (is_record issued) (ac_credentials c)\<rparr>;
             c = auth_event request_id OpAppRoleLogin AuthSucceeded (Some accessor) (Some (ar_identity_id role)) c
         in (Ok \<lparr>ls_credential = issued, ls_lease_duration = ar_token_ttl_seconds role,
                 ls_role_name = ar_name role, ls_identity_id = ar_identity_id role\<rparr>, (c, r))))) (c, r)) s)"

definition auth_login ::
  "keyed_hash \<Rightarrow> base64_encode \<Rightarrow> base64_decode \<Rightarrow> 'r random_source \<Rightarrow> string \<Rightarrow> string \<Rightarrow> id16 \<Rightarrow>
     (auth_catalog \<times> 'r, login_success, auth_error) stateful" where
  "auth_login keyed b64 unb64 random role_id secret_id request_id = (\<lambda>(c, r).
     let denied = (\<lambda>accessor. (Err AeInvalidCredentials,
                     (auth_event request_id OpAppRoleLogin AuthDenied accessor None c, r)))
     in if request_id = 0 \<or> \<not> valid_public_label role_id MAX_ROLE_ID then denied None
        else case credential_by_request c request_id of
               Some existing \<Rightarrow> (Err (AeAlreadyCommitted (cd_accessor existing)), (c, r))
             | None \<Rightarrow>
                 (case login_candidate keyed b64 unb64 c role_id secret_id of
                    None \<Rightarrow> denied (wire_accessor b64 unb64 secret_id)
                  | Some (role, parent, usage) \<Rightarrow>
                      (case wire_accessor b64 unb64 secret_id of
                         None \<Rightarrow> denied None
                       | Some accessor \<Rightarrow>
                           login_issue keyed b64 random role parent usage accessor request_id (c, r))))"

definition authenticated_credential ::
  "keyed_hash \<Rightarrow> base64_encode \<Rightarrow> base64_decode \<Rightarrow> auth_catalog \<Rightarrow> string \<Rightarrow> credential_audience \<Rightarrow>
     (id16 \<times> credential_record) option" where
  "authenticated_credential keyed b64 unb64 c token audience =
     (case wire_accessor b64 unb64 token of
        None \<Rightarrow> None
      | Some accessor \<Rightarrow>
          if cv_reason (verify_credential keyed b64 unb64 token (auth_context c KindToken audience)
               (bt_get (ac_credentials c))) \<noteq> None
          then None
          else (case bt_get (ac_credentials c) accessor of
                  None \<Rightarrow> None
                | Some r \<Rightarrow> if \<not> active_identity c (cd_identity_id r) then None else Some (accessor, r)))"

definition auth_lookup_self ::
  "keyed_hash \<Rightarrow> base64_encode \<Rightarrow> base64_decode \<Rightarrow> string \<Rightarrow> id16 \<Rightarrow> lookup_self_data auth" where
  "auth_lookup_self keyed b64 unb64 token request_id c =
     (case authenticated_credential keyed b64 unb64 c token AudienceData of
        None \<Rightarrow>
          (Err AeUnauthenticated,
           auth_event request_id OpLookupSelf AuthDenied (wire_accessor b64 unb64 token) None c)
      | Some (accessor, r) \<Rightarrow>
          if cd_expires_at_effective_seconds r < ac_effective_seconds c then (Err AeUnauthenticated, c)
          else
            (Ok \<lparr>ld_accessor = b64 (be_bytes 16 accessor),
                 ld_creation_time = cd_created_at_effective_seconds r, ld_display_name = cd_label r,
                 ld_entity_id = encode_id (cd_identity_id r),
                 ld_expire_time = cd_expires_at_effective_seconds r,
                 ld_issue_time = cd_created_at_effective_seconds r,
                 ld_lease_duration =
                   saturating_sub (cd_expires_at_effective_seconds r) (cd_created_at_effective_seconds r),
                 ld_renewable = False,
                 ld_ttl = cd_expires_at_effective_seconds r - ac_effective_seconds c,
                 ld_token_type = ''service''\<rparr>,
             auth_event request_id OpLookupSelf AuthSucceeded (Some accessor) (Some (cd_identity_id r)) c))"

definition renew_unsupported :: "id16 \<Rightarrow> auth_catalog \<Rightarrow> auth_catalog" where
  "renew_unsupported request_id c = auth_event request_id OpRenewSelf AuthUnsupported None None c"

definition authenticate_with_request ::
  "keyed_hash \<Rightarrow> base64_encode \<Rightarrow> base64_decode \<Rightarrow> string \<Rightarrow> credential_audience \<Rightarrow> id16 \<Rightarrow> id16 auth" where
  "authenticate_with_request keyed b64 unb64 token audience request_id c =
     (let authenticated = authenticated_credential keyed b64 unb64 c token audience;
          (outcome, identity_id) =
            (case authenticated of
               None \<Rightarrow> (AuthDenied, None)
             | Some (_, r) \<Rightarrow> (AuthSucceeded, Some (cd_identity_id r)));
          c = auth_event request_id OpAuthenticate outcome (wire_accessor b64 unb64 token) identity_id c
      in (case authenticated of None \<Rightarrow> Err AeUnauthenticated | Some (_, r) \<Rightarrow> Ok (cd_identity_id r), c))"

section \<open>Handlers\<close>

text \<open>
  \<open>token_auth_guard\<close> and \<open>control_token_auth_guard\<close> differ in the audience. The token is the bytes of the
  header that the input checks have let through.
\<close>

definition token_auth_guard ::
  "keyed_hash \<Rightarrow> base64_encode \<Rightarrow> base64_decode \<Rightarrow> credential_audience \<Rightarrow> bytes option \<Rightarrow> id16 \<Rightarrow>
     (id16 \<Rightarrow> auth_catalog \<Rightarrow> http_response \<times> auth_catalog) \<Rightarrow> auth_catalog \<Rightarrow> http_response \<times> auth_catalog" where
  "token_auth_guard keyed b64 unb64 audience token request_id following c =
     (case token of
        None \<Rightarrow> (vault_error 403 ''permission denied'', c)
      | Some bs \<Rightarrow>
          if \<not> utf8_valid bs then (vault_error 403 ''permission denied'', c)
          else (case authenticate_with_request keyed b64 unb64 (bytes_str bs) audience request_id c of
                  (Err _, c) \<Rightarrow> (vault_error 403 ''permission denied'', c)
                | (Ok identity_id, c) \<Rightarrow> following identity_id c))"

definition login_body :: "base64_encode \<Rightarrow> login_success \<Rightarrow> json" where
  "login_body b64 success =
     json_object [(''auth'', json_object [
       (''accessor'', JString (b64 (be_bytes 16 (cd_accessor (is_record (ls_credential success)))))),
       (''client_token'', JString (is_wire (ls_credential success))),
       (''entity_id'', JString (encode_id (ls_identity_id success))),
       (''lease_duration'', JNumber (PosInt (ls_lease_duration success))),
       (''metadata'', json_object [(''role_name'', JString (ls_role_name success))]),
       (''mfa_requirement'', JNull),
       (''num_uses'', JNumber (PosInt 0)),
       (''orphan'', JBool True),
       (''policies'', JArray []),
       (''renewable'', JBool False),
       (''token_policies'', JArray []),
       (''token_type'', JString ''service'')])]"

definition approle_login ::
  "keyed_hash \<Rightarrow> base64_encode \<Rightarrow> base64_decode \<Rightarrow> 'r random_source \<Rightarrow> json option \<Rightarrow> id16 \<Rightarrow>
     auth_catalog \<times> 'r \<Rightarrow> http_response \<times> (auth_catalog \<times> 'r)" where
  "approle_login keyed b64 unb64 random body request_id s =
     (let invalid = (vault_error 400 ''invalid request'', s)
      in case body of
           Some (JObject members) \<Rightarrow>
             if length members \<noteq> 2 then invalid
             else (case (bt_get members ''role_id'', bt_get members ''secret_id'') of
                     (Some (JString role_id), Some (JString secret_id)) \<Rightarrow>
                       (case auth_login keyed b64 unb64 random role_id secret_id request_id s of
                          (Ok success, s) \<Rightarrow> (json_response 200 (login_body b64 success), s)
                        | (Err _, s) \<Rightarrow> (vault_error 400 ''invalid role_id or secret_id'', s))
                   | _ \<Rightarrow> invalid)
         | _ \<Rightarrow> invalid)"

definition lookup_self_body :: "lookup_self_data \<Rightarrow> json" where
  "lookup_self_body d =
     json_object [(''data'', json_object [
       (''accessor'', JString (ld_accessor d)),
       (''creation_time'', JNumber (PosInt (ld_creation_time d))),
       (''display_name'', JString (ld_display_name d)),
       (''entity_id'', JString (ld_entity_id d)),
       (''expire_time'', JNumber (PosInt (ld_expire_time d))),
       (''issue_time'', JNumber (PosInt (ld_issue_time d))),
       (''lease_duration'', JNumber (PosInt (ld_lease_duration d))),
       (''renewable'', JBool (ld_renewable d)),
       (''ttl'', JNumber (PosInt (ld_ttl d))),
       (''type'', JString (ld_token_type d))])]"

definition handle_lookup_self ::
  "keyed_hash \<Rightarrow> base64_encode \<Rightarrow> base64_decode \<Rightarrow> bytes option \<Rightarrow> id16 \<Rightarrow> auth_catalog \<Rightarrow>
     http_response \<times> auth_catalog" where
  "handle_lookup_self keyed b64 unb64 token request_id c =
     (case token of
        None \<Rightarrow> (vault_error 403 ''permission denied'', c)
      | Some bs \<Rightarrow>
          if \<not> utf8_valid bs then (vault_error 403 ''permission denied'', c)
          else (case auth_lookup_self keyed b64 unb64 (bytes_str bs) request_id c of
                  (Ok d, c) \<Rightarrow> (json_response 200 (lookup_self_body d), c)
                | (Err _, c) \<Rightarrow> (vault_error 403 ''permission denied'', c)))"

definition handle_renew_self ::
  "keyed_hash \<Rightarrow> base64_encode \<Rightarrow> base64_decode \<Rightarrow> string \<Rightarrow> bytes option \<Rightarrow> id16 \<Rightarrow> id16 \<Rightarrow> auth_catalog \<Rightarrow>
     http_response \<times> auth_catalog" where
  "handle_renew_self keyed b64 unb64 http_method token request_id renew_request_id =
     token_auth_guard keyed b64 unb64 AudienceData token request_id (\<lambda>_ c.
       (compat_response TokenRenewal (Some http_method) (Some TokenRenewSelf),
        renew_unsupported renew_request_id c))"

end
