(* ===== verification/Credential_Safety.thy ===== *)
theory Credential_Safety
  imports Credential
begin

text \<open>
  The codecs of the credential records, the text form of a credential, and what a successful
  verification shows.
\<close>

section \<open>Codecs\<close>

lemma credential_kind_decode_Ok [simp]: "credential_kind_decode b = Ok k \<longleftrightarrow> b = credential_kind_code k"
  by (cases k) (auto simp: credential_kind_decode_def split: if_splits)

lemma credential_audience_decode_Ok [simp]: "credential_audience_decode b = Ok a \<longleftrightarrow> b = credential_audience_code a"
  by (cases a) (auto simp: credential_audience_decode_def split: if_splits)

lemma token_status_decode_Ok [simp]: "token_status_decode b = Ok s \<longleftrightarrow> b = token_status_code s"
  by (cases s) (auto simp: token_status_decode_def split: if_splits)

lemma encode_optional_fixed_wire: "encode_optional_fixed v out = out @ option_wire (be_bytes 16) v"
  by (cases v) (simp_all add: encode_optional_fixed_def codec_simps)

lemma reads_decode_optional_fixed: "reads decode_optional_fixed (option_wire (be_bytes 16) v) v"
  unfolding decode_optional_fixed_def by (rule reads_option) (auto intro!: reads_dec_fixed)

lemma trace_decode_optional_fixed:
  "decode_optional_fixed d = Ok (v, d') \<Longrightarrow> consumed d0 ws d \<Longrightarrow> consumed d0 (ws @ option_wire (be_bytes 16) v) d'"
  unfolding decode_optional_fixed_def
  using trace_option [where w = "be_bytes 16" and P = "\<lambda>_. True"] trace_fixed16 by blast

definition credential_ok :: "credential_record \<Rightarrow> bool" where
  "credential_ok r \<longleftrightarrow> str_ok (cd_label r)"

interpretation credential_codec: strict_canonical credential_encode credential_decode credential_ok
proof unfold_locales
  fix r bs
  assume "credential_ok r" "credential_encode r = Ok bs" "vec_ok bs"
  then show "credential_decode bs = Ok r"
    by (cases r) (auto simp: credential_encode_def credential_decode_def credential_ok_def encode_optional_fixed_wire
        Let_def codec_simps intro!: run_dec_accepts accepts_intros accepts_bind [OF reads_decode_optional_fixed]
          accepts_bind_end [OF reads_decode_optional_fixed])
next
  fix r bs
  assume dec: "credential_decode bs = Ok r"
  show "credential_ok r \<and> credential_encode r = Ok bs"
    by (insert dec, unfold credential_decode_def, elim trace_start, clarsimp simp: Let_def,
        (drule (1) trace_dests trace_decode_optional_fixed | drule (2) trace_finish | erule conjE)+,
        auto simp: credential_encode_def credential_ok_def encode_optional_fixed_wire codec_simps)
qed

interpretation credential_row: strict_clear_record credential_encode credential_decode credential_ok CredentialMetadata 1
  by unfold_locales

interpretation epoch_codec: strict_canonical epoch_encode epoch_decode "\<lambda>_. True"
proof unfold_locales
  fix e bs
  assume "epoch_encode e = Ok bs" "vec_ok bs"
  then show "epoch_decode bs = Ok e"
    by (cases e) (auto simp: epoch_encode_def epoch_decode_def codec_simps split: if_splits
        intro!: run_dec_accepts accepts_intros)
next
  fix e bs
  assume dec: "epoch_decode bs = Ok e"
  show "True \<and> epoch_encode e = Ok bs"
    by (insert dec, unfold epoch_decode_def, elim trace_start, clarsimp,
        (drule (1) trace_dests | drule (2) trace_finish | erule conjE)+,
        auto simp: epoch_encode_def codec_simps)
qed

interpretation epoch_row: strict_clear_record epoch_encode epoch_decode "\<lambda>_. True" CredentialMetadata 2
  by unfold_locales

section \<open>The text form\<close>

text \<open>
  What the program relies on of the Base64 library (URL-safe, without padding): decoding inverts
  encoding, and an encoding has four characters for three bytes, none of them a dot or an equals sign.
\<close>

definition base64_ok :: "base64_encode \<Rightarrow> base64_decode \<Rightarrow> bool" where
  "base64_ok b64 unb64 \<longleftrightarrow> (\<forall>bs. unb64 (b64 bs) = Some bs \<and> length (b64 bs) = (4 * length bs + 2) div 3
     \<and> CHR ''.'' \<notin> set (b64 bs) \<and> CHR ''='' \<notin> set (b64 bs))"

lemma wire_parse_Ok:
  "wire_parse b64 unb64 value = Ok w \<Longrightarrow> value = wire_encode b64 w \<and> cw_accessor w \<noteq> 0 \<and> cw_secret w \<noteq> 0"
  by (auto simp: wire_parse_def wire_new_def split: list.splits if_splits)

lemma label_no_dot: "CHR ''.'' \<notin> set (credential_kind_label k)" "CHR ''.'' \<notin> set (credential_audience_label a)"
   apply (cases k; simp)
  apply (cases a; simp)
  done

lemma from_label [simp]:
  "kind_from_label (credential_kind_label k) = Ok k" "audience_from_label (credential_audience_label a) = Ok a"
  by (cases k; simp add: kind_from_label_def) (cases a; simp add: audience_from_label_def)

lemma wire_parse_encode:
  assumes "base64_ok b64 unb64" and "cw_accessor w \<noteq> 0" "cw_secret w \<noteq> 0"
  shows "wire_parse b64 unb64 (wire_encode b64 w) = Ok w"
proof -
  let ?ks = "[credential_kind_label (cw_kind w), credential_audience_label (cw_audience w),
      b64 (be_bytes 16 (cw_accessor w)), b64 (be_bytes 32 (cw_secret w))]"
  have b64: "unb64 (b64 bs) = Some bs" "length (b64 bs) = (4 * length bs + 2) div 3"
    "CHR ''.'' \<notin> set (b64 bs)" "CHR ''='' \<notin> set (b64 bs)" for bs
    using assms(1) by (auto simp: base64_ok_def)
  have "wire_encode b64 w = join CHR ''.'' ?ks"
    by (simp add: wire_encode_def)
  then have "split_on CHR ''.'' (wire_encode b64 w) = ?ks"
    using b64(3) label_no_dot by (simp only:) (rule split_on_join, auto)
  then show ?thesis
    using assms(2,3) by (cases w) (simp add: wire_parse_def b64 decode_into_def of_be_be_bytes wire_new_def)
qed

lemma wire_parse_iff:
  "base64_ok b64 unb64 \<Longrightarrow>
   wire_parse b64 unb64 value = Ok w \<longleftrightarrow> value = wire_encode b64 w \<and> cw_accessor w \<noteq> 0 \<and> cw_secret w \<noteq> 0"
  using wire_parse_Ok wire_parse_encode by blast

lemma wire_encode_inject:
  assumes "base64_ok b64 unb64" and "cw_accessor w \<noteq> 0" "cw_secret w \<noteq> 0"
    and "cw_accessor w' \<noteq> 0" "cw_secret w' \<noteq> 0"
  shows "wire_encode b64 w = wire_encode b64 w' \<longleftrightarrow> w = w'"
  using wire_parse_encode [OF assms(1,2,3)] wire_parse_encode [OF assms(1,4,5)] by (metis result.inject(1))

section \<open>Base64 as a number in base 64\<close>

text \<open>
  The Base64 text of \<open>n\<close> bytes is the big-endian number they form, shifted to a multiple of six bits and
  written with that many digits. This function meets the contract above and serves in the samples.
\<close>

definition base64_alphabet :: string where
  "base64_alphabet = ''ABCDEFGHIJKLMNOPQRSTUVWXYZabcdefghijklmnopqrstuvwxyz0123456789-_''"

primrec base64_digits :: "nat \<Rightarrow> nat \<Rightarrow> nat list" where
  "base64_digits 0 v = []"
| "base64_digits (Suc m) v = base64_digits m (v div 64) @ [v mod 64]"

definition base64url :: base64_encode where
  "base64url bs = (let m = (4 * length bs + 2) div 3
     in map (\<lambda>d. base64_alphabet ! d) (base64_digits m (be_nat bs * 2 ^ (6 * m - 8 * length bs))))"

definition base64url_digit :: "char \<Rightarrow> nat option" where
  "base64url_digit c = find (\<lambda>d. base64_alphabet ! d = c) [0..<64]"

definition base64url_decode :: base64_decode where
  "base64url_decode text =
     (case those (map base64url_digit text) of
        None \<Rightarrow> None
      | Some ds \<Rightarrow>
          let m = length ds; n = 6 * m div 8; v = foldl (\<lambda>a d. a * 64 + d) 0 ds
          in if v mod 2 ^ (6 * m - 8 * n) \<noteq> 0 then None else Some (nat_be n (v div 2 ^ (6 * m - 8 * n))))"

lemma base64_digits_less: "d \<in> set (base64_digits m v) \<Longrightarrow> d < 64"
  by (induction m arbitrary: v) auto

lemma length_base64_digits [simp]: "length (base64_digits m v) = m"
  by (induction m arbitrary: v) auto

lemma foldl_base64_digits: "foldl (\<lambda>a d. a * 64 + d) 0 (base64_digits m v) = v mod 64 ^ m"
proof (induction m arbitrary: v)
  case (Suc m)
  have "v mod 64 ^ Suc m = (v div 64) mod 64 ^ m * 64 + v mod 64"
    using mod_mult2_eq [of v 64 "64 ^ m"] by simp
  with Suc show ?case by simp
qed simp

lemma base64_alphabet_facts: "length base64_alphabet = 64" "distinct base64_alphabet"
  "CHR ''.'' \<notin> set base64_alphabet" "CHR ''='' \<notin> set base64_alphabet"
  by (simp_all add: base64_alphabet_def)

lemma base64url_digit_nth: "d < 64 \<Longrightarrow> base64url_digit (base64_alphabet ! d) = Some d"
  using base64_alphabet_facts
  by (auto simp: base64url_digit_def find_Some_iff nth_eq_iff_index_eq intro!: exI [of _ d])

lemma those_map_Some: "(\<And>x. x \<in> set xs \<Longrightarrow> f x = Some (g x)) \<Longrightarrow> those (map f xs) = Some (map g xs)"
  by (induction xs) auto

lemma base64url_round_trip: "base64url_decode (base64url bs) = Some bs"
proof -
  define n where "n = length bs"
  define m where "m = (4 * n + 2) div 3"
  define v where "v = be_nat bs * 2 ^ (6 * m - 8 * n)"
  have m: "8 * n \<le> 6 * m" "3 * m div 4 = n" by (auto simp: m_def)
  have "v < 2 ^ (8 * n) * 2 ^ (6 * m - 8 * n)"
    using be_nat_less [of bs] by (simp add: v_def n_def power_mult)
  also have "\<dots> = 2 ^ (6 * m)"
    using m(1) by (simp flip: power_add)
  also have "\<dots> = 64 ^ m"
    by (simp add: power_mult)
  finally have fold: "foldl (\<lambda>a d. a * 64 + d) 0 (base64_digits m v) = v"
    by (simp add: foldl_base64_digits)
  have digits: "those (map base64url_digit (map (\<lambda>d. base64_alphabet ! d) (base64_digits m v))) = Some (base64_digits m v)"
    using those_map_Some [of "base64_digits m v" "base64url_digit \<circ> (\<lambda>d. base64_alphabet ! d)" id]
    by (simp add: base64_digits_less base64url_digit_nth)
  have "base64url bs = map (\<lambda>d. base64_alphabet ! d) (base64_digits m v)"
    by (simp only: base64url_def Let_def v_def m_def n_def)
  then show ?thesis
    using fold digits by (simp add: base64url_decode_def Let_def m(2)) (simp add: v_def n_def nat_be_be_nat)
qed

lemma base64url_ok: "base64_ok base64url base64url_decode"
proof -
  have "set (base64url bs) \<subseteq> set base64_alphabet" for bs
    using base64_digits_less base64_alphabet_facts(1) by (fastforce simp: base64url_def Let_def)
  then show ?thesis
    using base64_alphabet_facts(3,4) base64url_round_trip by (auto simp: base64_ok_def base64url_def Let_def)
qed

section \<open>Verification\<close>

lemma constant_time_equal_eq [simp]: "constant_time_equal a b \<longleftrightarrow> a = b"
  by (simp add: constant_time_equal_def fold_difference be_bytes_inject)

lemma credential_code_inject [simp]:
  "credential_kind_code k = credential_kind_code k' \<longleftrightarrow> k = k'" "credential_audience_code a = credential_audience_code a' \<longleftrightarrow> a = a'"
   apply (cases k; cases k'; simp)
  apply (cases a; cases a'; simp)
  done

text \<open>The message a verifier is computed over determines every field.\<close>

lemma credential_mac_input_inject:
  assumes "credential_mac_input st k a acc e s = credential_mac_input st' k' a' acc' e' s'"
  shows "st = st' \<and> k = k' \<and> a = a' \<and> acc = acc' \<and> e = e' \<and> s = s'"
proof -
  have "[be_bytes 16 st, [credential_kind_code k], [credential_audience_code a], be_bytes 16 acc, be_bytes 8 e, be_bytes 32 s]
      = [be_bytes 16 st', [credential_kind_code k'], [credential_audience_code a'], be_bytes 16 acc', be_bytes 8 e', be_bytes 32 s']"
    by (rule frames_inject) (use assms in \<open>auto simp: credential_mac_input_def vec_ok_def\<close>)
  then show ?thesis by (simp add: be_bytes_inject)
qed

lemma verify_reason_None:
  "cv_reason (verify_credential keyed b64 unb64 raw cx lookup) = None \<longleftrightarrow>
     (\<exists>w r. wire_parse b64 unb64 raw = Ok w \<and> cw_kind w = cx_expected_kind cx \<and> cw_audience w = cx_expected_audience cx
        \<and> lookup (cw_accessor w) = Some r
        \<and> cd_verifier r = credential_mac keyed (cx_verifier_key cx) (cx_store_id cx) (cd_kind r) (cd_audience r)
            (cd_accessor r) (cd_issue_epoch r) (cw_secret w)
        \<and> cd_issue_epoch r = cx_current_epoch cx \<and> cd_status r = TokenActive
        \<and> cx_effective_seconds cx < cd_expires_at_effective_seconds r)"
proof (cases "wire_parse b64 unb64 raw")
  case (Ok w)
  have status: "cd_status r \<noteq> TokenRevoked \<longleftrightarrow> cd_status r = TokenActive" for r
    by (cases "cd_status r") auto
  show ?thesis
    by (cases "lookup (cw_accessor w)")
      (auto simp: Ok verify_credential_def record_reason_def Let_def not_le status split: if_splits option.splits)
qed (simp add: verify_credential_def Let_def)

lemma verify_authenticated:
  "cv_authenticated_id (verify_credential keyed b64 unb64 raw cx lookup) = Some i \<Longrightarrow>
   \<exists>w r. wire_parse b64 unb64 raw = Ok w \<and> lookup (cw_accessor w) = Some r \<and> cd_id r = i
     \<and> cv_reason (verify_credential keyed b64 unb64 raw cx lookup) = None"
  by (cases "wire_parse b64 unb64 raw")
    (auto simp: verify_credential_def Let_def split: if_splits option.splits)

section \<open>Issuing\<close>

lemma draw_accessor_Ok: "draw_accessor random e n s = (Ok (Some a), s') \<Longrightarrow> a \<noteq> 0 \<and> \<not> e a"
  by (induction n arbitrary: s) (auto simp: Let_def split: if_splits)

lemma issue_credential_Ok:
  assumes "issue_credential keyed b64 key store_id md label e random s = (Ok ic, s')"
  shows "\<exists>accessor secret. accessor \<noteq> 0 \<and> secret \<noteq> 0 \<and> \<not> e accessor
     \<and> is_wire ic = wire_encode b64 \<lparr>cw_kind = im_kind md, cw_audience = im_audience md, cw_accessor = accessor, cw_secret = secret\<rparr>
     \<and> credential_validate (is_record ic) = Ok ()
     \<and> is_record ic = \<lparr>cd_id = im_id md, cd_accessor = accessor,
          cd_verifier = credential_mac keyed key store_id (im_kind md) (im_audience md) accessor (im_issue_epoch md) secret,
          cd_kind = im_kind md, cd_audience = im_audience md, cd_identity_id = im_identity_id md, cd_issue_epoch = im_issue_epoch md,
          cd_expires_at_effective_seconds = im_expires_at_effective_seconds md, cd_status = TokenActive, cd_generation = 1,
          cd_label = label, cd_created_at_effective_seconds = im_created_at_effective_seconds md,
          cd_issuer_identity_id = im_issuer_identity_id md, cd_issuance_request_id = im_issuance_request_id md,
          cd_parent_accessor = im_parent_accessor md, cd_consumer_instance_id = im_consumer_instance_id md\<rparr>"
  using assms
  by (auto simp: issue_credential_def Let_def wire_new_def ok_or_def split: option.splits if_splits dest!: draw_accessor_Ok)
    (metis credential_wire.select_convs)

definition collides :: "(bytes \<Rightarrow> arr32) \<Rightarrow> bytes \<Rightarrow> bytes \<Rightarrow> bool" where
  "collides hash m m' \<longleftrightarrow> m \<noteq> m' \<and> hash m = hash m'"

lemma issued_credential:
  assumes "issue_credential keyed b64 key store_id md label e random s = (Ok ic, s')" and "base64_ok b64 unb64"
  obtains w where "wire_parse b64 unb64 (is_wire ic) = Ok w" "is_wire ic = wire_encode b64 w"
    "cw_accessor w \<noteq> 0" "cw_secret w \<noteq> 0" "\<not> e (cw_accessor w)"
    "cw_kind w = im_kind md" "cw_audience w = im_audience md"
    "cd_accessor (is_record ic) = cw_accessor w" "cd_kind (is_record ic) = im_kind md"
    "cd_audience (is_record ic) = im_audience md" "cd_issue_epoch (is_record ic) = im_issue_epoch md"
    "cd_expires_at_effective_seconds (is_record ic) = im_expires_at_effective_seconds md"
    "cd_verifier (is_record ic) = credential_mac keyed key store_id (im_kind md) (im_audience md) (cw_accessor w)
       (im_issue_epoch md) (cw_secret w)"
proof -
  obtain acc secret where nz: "acc \<noteq> 0" "secret \<noteq> 0" "\<not> e acc"
    and wire: "is_wire ic = wire_encode b64 \<lparr>cw_kind = im_kind md, cw_audience = im_audience md, cw_accessor = acc, cw_secret = secret\<rparr>"
    and rec: "cd_accessor (is_record ic) = acc" "cd_kind (is_record ic) = im_kind md" "cd_audience (is_record ic) = im_audience md"
      "cd_issue_epoch (is_record ic) = im_issue_epoch md"
      "cd_expires_at_effective_seconds (is_record ic) = im_expires_at_effective_seconds md"
      "cd_verifier (is_record ic) = credential_mac keyed key store_id (im_kind md) (im_audience md) acc
        (im_issue_epoch md) secret"
    using issue_credential_Ok [OF assms(1)] by auto
  let ?w = "\<lparr>cw_kind = im_kind md, cw_audience = im_audience md, cw_accessor = acc, cw_secret = secret\<rparr>"
  have "wire_parse b64 unb64 (is_wire ic) = Ok ?w"
    unfolding wire by (rule wire_parse_encode [OF assms(2)]) (simp_all add: nz)
  with that [of ?w] nz wire rec show thesis by simp
qed

text \<open>
  C35: What a bearer credential proves. A credential just issued verifies as long as its kind, audience and
  epoch are the expected ones, its record is not revoked and it has not expired, and otherwise the first of
  these is the reason reported. And text that verifies for its accessor carries the issued secret, with the
  expected labels for kind and audience in front, unless the keyed hash takes the same value on the two
  different messages made from the issued and the presented secret.
\<close>

theorem issued_credential_verifies:
  assumes "issue_credential keyed b64 (cx_verifier_key cx) (cx_store_id cx) md label e random s = (Ok ic, s')"
    and "base64_ok b64 unb64" and "wire_parse b64 unb64 (is_wire ic) = Ok w"
    and "lookup (cw_accessor w) = Some ((is_record ic)\<lparr>cd_status := status, cd_generation := g\<rparr>)"
  shows "cv_reason (verify_credential keyed b64 unb64 (is_wire ic) cx lookup) =
      (if im_kind md \<noteq> cx_expected_kind cx then Some RejWrongKind
       else if im_audience md \<noteq> cx_expected_audience cx then Some RejWrongAudience
       else if im_issue_epoch md \<noteq> cx_current_epoch cx then Some RejEpochChanged
       else if status = TokenRevoked then Some RejRevoked
       else if im_expires_at_effective_seconds md \<le> cx_effective_seconds cx then Some RejExpired
       else None)
    \<and> (\<forall>raw w'. wire_parse b64 unb64 raw = Ok w' \<and> cw_accessor w' = cw_accessor w
          \<and> cv_reason (verify_credential keyed b64 unb64 raw cx lookup) = None \<longrightarrow>
        w' = w\<lparr>cw_kind := cx_expected_kind cx, cw_audience := cx_expected_audience cx\<rparr>
        \<or> collides (keyed (cx_verifier_key cx))
            (credential_mac_input (cx_store_id cx) (im_kind md) (im_audience md) (cw_accessor w) (im_issue_epoch md) (cw_secret w'))
            (credential_mac_input (cx_store_id cx) (im_kind md) (im_audience md) (cw_accessor w) (im_issue_epoch md) (cw_secret w)))"
proof -
  obtain w0 where w0: "wire_parse b64 unb64 (is_wire ic) = Ok w0" and rec: "cw_kind w0 = im_kind md" "cw_audience w0 = im_audience md"
    "cd_accessor (is_record ic) = cw_accessor w0" "cd_kind (is_record ic) = im_kind md"
    "cd_audience (is_record ic) = im_audience md" "cd_issue_epoch (is_record ic) = im_issue_epoch md"
    "cd_expires_at_effective_seconds (is_record ic) = im_expires_at_effective_seconds md"
    "cd_verifier (is_record ic) = credential_mac keyed (cx_verifier_key cx) (cx_store_id cx) (im_kind md) (im_audience md)
       (cw_accessor w0) (im_issue_epoch md) (cw_secret w0)"
    by (rule issued_credential [OF assms(1,2)])
  have [simp]: "w0 = w" using assms(3) w0 by simp
  have "w' = w\<lparr>cw_kind := cx_expected_kind cx, cw_audience := cx_expected_audience cx\<rparr>
      \<or> collides (keyed (cx_verifier_key cx))
          (credential_mac_input (cx_store_id cx) (im_kind md) (im_audience md) (cw_accessor w) (im_issue_epoch md) (cw_secret w'))
          (credential_mac_input (cx_store_id cx) (im_kind md) (im_audience md) (cw_accessor w) (im_issue_epoch md) (cw_secret w))"
    if "wire_parse b64 unb64 raw = Ok w'" "cw_accessor w' = cw_accessor w"
      and none: "cv_reason (verify_credential keyed b64 unb64 raw cx lookup) = None" for raw w'
    using none that(1,2) assms(4) rec by (cases w, cases w') (auto simp: verify_reason_None credential_mac_def collides_def dest: credential_mac_input_inject)
  moreover have "cv_reason (verify_credential keyed b64 unb64 (is_wire ic) cx lookup) =
      (if im_kind md \<noteq> cx_expected_kind cx then Some RejWrongKind
       else if im_audience md \<noteq> cx_expected_audience cx then Some RejWrongAudience
       else if im_issue_epoch md \<noteq> cx_current_epoch cx then Some RejEpochChanged
       else if status = TokenRevoked then Some RejRevoked
       else if im_expires_at_effective_seconds md \<le> cx_effective_seconds cx then Some RejExpired
       else None)"
    using assms(3,4) rec by (auto simp: verify_credential_def record_reason_def Let_def)
  ultimately show ?thesis by blast
qed

definition sample_random :: "unit random_source" where
  "sample_random n r = (Some (nat_be n 7), r)"

definition sample_metadata :: credential_issue_metadata where
  "sample_metadata = \<lparr>im_id = 5, im_identity_id = 2, im_kind = KindToken, im_audience = AudienceData, im_issue_epoch = 3,
     im_expires_at_effective_seconds = 100, im_created_at_effective_seconds = 10, im_issuer_identity_id = 2,
     im_issuance_request_id = 6, im_parent_accessor = None, im_consumer_instance_id = None\<rparr>"

definition sample_context :: "credential_audience \<Rightarrow> credential_context" where
  "sample_context audience = \<lparr>cx_expected_kind = KindToken, cx_expected_audience = audience, cx_current_epoch = 3,
     cx_effective_seconds = 50, cx_store_id = 1, cx_verifier_key = 4\<rparr>"

definition sample_keyed :: keyed_hash where
  "sample_keyed key message = 0"

lemma sample_issue:
  "\<exists>ic. issue_credential sample_keyed base64url (cx_verifier_key (sample_context a)) (cx_store_id (sample_context a)) sample_metadata
     ''approle:ci'' (\<lambda>_. False) sample_random () = (Ok ic, ())"
proof -
  have nz: "(of_be_bytes (nat_be 16 7) :: id16) \<noteq> 0" "(of_be_bytes (nat_be 32 7) :: arr32) \<noteq> 0"
    by (simp_all add: of_be_bytes_def be_nat_nat_be)
  then have "draw_accessor sample_random (\<lambda>_. False) (Suc 7) () = (Ok (Some (of_be_bytes (nat_be 16 7))), ())"
    by (simp add: random_fill_def sbind_def sample_random_def Let_def slift_def del: Suc_numeral)
  then have draw: "draw_accessor sample_random (\<lambda>_. False) 8 () = (Ok (Some (of_be_bytes (nat_be 16 7))), ())"
    by simp
  show ?thesis
    by (simp add: issue_credential_def sbind_def draw slift_def srequire_def random_fill_def Let_def nz wire_new_def
        credential_validate_def sample_metadata_def sample_random_def sample_context_def)
qed

theorem issued_credential_verifies_witness:
  "\<exists>ic :: issued_credential. cv_reason (verify_credential sample_keyed base64url base64url_decode (is_wire ic) (sample_context AudienceData)
       (\<lambda>_. Some (is_record ic))) = None"
proof -
  obtain ic where ic: "issue_credential sample_keyed base64url (cx_verifier_key (sample_context AudienceData))
      (cx_store_id (sample_context AudienceData)) sample_metadata ''approle:ci'' (\<lambda>_. False) sample_random () = (Ok ic, ())"
    using sample_issue by blast
  obtain w where w: "wire_parse base64url base64url_decode (is_wire ic) = Ok w"
    using issued_credential [OF ic base64url_ok] by blast
  have row: "(\<lambda>_. Some (is_record ic)) (cw_accessor w)
      = Some ((is_record ic)\<lparr>cd_status := cd_status (is_record ic), cd_generation := cd_generation (is_record ic)\<rparr>)"
    by simp
  have "cd_status (is_record ic) = TokenActive" using issue_credential_Ok [OF ic] by auto
  with issued_credential_verifies [OF ic base64url_ok w row]
  have "cv_reason (verify_credential sample_keyed base64url base64url_decode (is_wire ic) (sample_context AudienceData)
      (\<lambda>_. Some (is_record ic))) = None"
    by (simp add: sample_metadata_def sample_context_def)
  then show ?thesis by (rule exI)
qed

text \<open>
  C36: The labels of a credential are not bound. Verification compares the kind and the audience written in
  the text with the expected ones, and takes those of the record into the keyed hash, but never compares
  the two: an active, unexpired credential of the current epoch, issued for any kind and audience, verifies for
  every other kind and audience once its two labels are rewritten.
\<close>

theorem relabelled_credential_verifies:
  assumes "issue_credential keyed b64 (cx_verifier_key cx) (cx_store_id cx) md label e random s = (Ok ic, s')"
    and "base64_ok b64 unb64" and "wire_parse b64 unb64 (is_wire ic) = Ok w" and "lookup (cw_accessor w) = Some (is_record ic)"
    and "im_issue_epoch md = cx_current_epoch cx" and "cx_effective_seconds cx < im_expires_at_effective_seconds md"
    and "raw = wire_encode b64 (w\<lparr>cw_kind := cx_expected_kind cx, cw_audience := cx_expected_audience cx\<rparr>)"
  shows "cv_reason (verify_credential keyed b64 unb64 raw cx lookup) = None
    \<and> cv_authenticated_id (verify_credential keyed b64 unb64 raw cx lookup) = Some (cd_id (is_record ic))"
proof -
  obtain w0 where w0: "wire_parse b64 unb64 (is_wire ic) = Ok w0" "cw_accessor w0 \<noteq> 0" "cw_secret w0 \<noteq> 0"
    and rec: "cw_kind w0 = im_kind md" "cw_audience w0 = im_audience md"
    "cd_accessor (is_record ic) = cw_accessor w0" "cd_kind (is_record ic) = im_kind md"
    "cd_audience (is_record ic) = im_audience md" "cd_issue_epoch (is_record ic) = im_issue_epoch md"
    "cd_expires_at_effective_seconds (is_record ic) = im_expires_at_effective_seconds md"
    "cd_verifier (is_record ic) = credential_mac keyed (cx_verifier_key cx) (cx_store_id cx) (im_kind md) (im_audience md)
       (cw_accessor w0) (im_issue_epoch md) (cw_secret w0)"
    by (rule issued_credential [OF assms(1,2)])
  have [simp]: "w0 = w" using assms(3) w0 by simp
  have status: "cd_status (is_record ic) = TokenActive"
    using issue_credential_Ok [OF assms(1)] by auto
  have "wire_parse b64 unb64 raw = Ok (w\<lparr>cw_kind := cx_expected_kind cx, cw_audience := cx_expected_audience cx\<rparr>)"
    unfolding assms(7) by (rule wire_parse_encode [OF assms(2)]) (use w0 in simp_all)
  then show ?thesis
    using assms(4-6) rec status by (simp add: verify_credential_def record_reason_def Let_def)
qed

theorem relabelled_credential_verifies_witness:
  "\<exists>(ic :: issued_credential) raw. im_audience sample_metadata = AudienceData
     \<and> cv_reason (verify_credential sample_keyed base64url base64url_decode raw (sample_context AudienceControl)
         (\<lambda>_. Some (is_record ic))) = None
     \<and> cd_audience (is_record ic) = AudienceData"
proof -
  obtain ic where ic: "issue_credential sample_keyed base64url (cx_verifier_key (sample_context AudienceControl))
      (cx_store_id (sample_context AudienceControl)) sample_metadata ''approle:ci'' (\<lambda>_. False) sample_random () = (Ok ic, ())"
    using sample_issue by blast
  obtain w where w: "wire_parse base64url base64url_decode (is_wire ic) = Ok w"
    and "cd_audience (is_record ic) = im_audience sample_metadata"
    using issued_credential [OF ic base64url_ok] by blast
  moreover from relabelled_credential_verifies [OF ic base64url_ok w refl _ _ refl]
  have "\<exists>raw. cv_reason (verify_credential sample_keyed base64url base64url_decode raw (sample_context AudienceControl)
      (\<lambda>_. Some (is_record ic))) = None"
    by (auto simp: sample_metadata_def sample_context_def)
  ultimately show ?thesis by (auto simp: sample_metadata_def)
qed

end
