(* ===== verification/Auth_Safety.thy ===== *)
theory Auth_Safety
  imports Auth Credential_Safety
begin

text \<open>
  The codecs of roles and uses, and what the auth catalog promises along every run: a secret id never logs
  in more often than it may, and a login happens entirely or not at all.
\<close>

section \<open>Codecs\<close>

lemma approle_status_decode_Ok [simp]: "approle_status_decode b = Ok s \<longleftrightarrow> b = approle_status_code s"
  by (cases s) (auto simp: approle_status_decode_def split: if_splits)

definition approle_ok :: "approle_record \<Rightarrow> bool" where
  "approle_ok r \<longleftrightarrow> str_ok (ar_role_id r) \<and> str_ok (ar_name r)"

interpretation approle_codec: strict_canonical approle_encode approle_decode approle_ok
proof unfold_locales
  fix r bs
  assume "approle_ok r" "approle_encode r = Ok bs" "vec_ok bs"
  then show "approle_decode bs = Ok r"
    by (cases r) (auto simp: approle_encode_def approle_decode_def approle_ok_def Let_def codec_simps
        intro!: run_dec_accepts accepts_intros)
next
  fix r bs
  assume dec: "approle_decode bs = Ok r"
  show "approle_ok r \<and> approle_encode r = Ok bs"
    by (insert dec, unfold approle_decode_def, elim trace_start, clarsimp simp: Let_def,
        (drule (1) trace_dests | drule (2) trace_finish | erule conjE)+,
        auto simp: approle_encode_def approle_ok_def codec_simps)
qed

interpretation approle_row: strict_clear_record approle_encode approle_decode approle_ok CredentialMetadata 3
  by unfold_locales

interpretation usage_codec: strict_canonical usage_encode usage_decode "\<lambda>_. True"
proof unfold_locales
  fix u bs
  assume "usage_encode u = Ok bs" "vec_ok bs"
  then show "usage_decode bs = Ok u"
    by (cases u) (auto simp: usage_encode_def usage_decode_def Let_def codec_simps intro!: run_dec_accepts accepts_intros)
next
  fix u bs
  assume dec: "usage_decode bs = Ok u"
  show "True \<and> usage_encode u = Ok bs"
    by (insert dec, unfold usage_decode_def, elim trace_start, clarsimp simp: Let_def,
        (drule (1) trace_dests | drule (2) trace_finish | erule conjE)+,
        auto simp: usage_encode_def codec_simps)
qed

interpretation usage_row: strict_clear_record usage_encode usage_decode "\<lambda>_. True" CredentialMetadata 4
  by unfold_locales

section \<open>Login\<close>

lemma on_random_eq: "on_random f s = (a, s') \<longleftrightarrow> (\<exists>r. f (snd s) = (a, r) \<and> s' = (fst s, r))"
  by (auto simp: on_random_def Let_def split: prod.split)

lemma map_state_err_eq:
  "map_state_err f m s = (Ok a, s') \<longleftrightarrow> m s = (Ok a, s')"
  "map_state_err f m s = (Err e, s') \<longleftrightarrow> (\<exists>e'. m s = (Err e', s') \<and> e = f e')"
  by (cases "m s"; cases "fst (m s)"; auto simp: map_state_err_def)+

lemma unique_id_loop_Ok: "unique_id_loop random rows n s = (Ok i, s') \<Longrightarrow> i \<noteq> 0 \<and> (\<forall>r\<in>set rows. cd_id r \<noteq> i)"
  by (induction n arbitrary: s) (auto simp: Let_def list_all_iff split: if_splits)

definition login_done ::
  "approle_record \<Rightarrow> credential_record \<Rightarrow> secret_id_usage \<Rightarrow> id16 \<Rightarrow> id16 \<Rightarrow> login_success \<Rightarrow> auth_catalog \<Rightarrow>
     auth_catalog \<Rightarrow> bool" where
  "login_done role parent usage accessor request_id success c d \<longleftrightarrow>
     (\<exists>usage'. usage_consume usage = Ok usage' \<and> (let t = is_record (ls_credential success) in
        \<not> bt_contains (ac_credentials c) (cd_accessor t) \<and> (\<forall>r\<in>set (map snd (ac_credentials c)). cd_id r \<noteq> cd_id t)
        \<and> cd_kind t = KindToken \<and> cd_audience t = AudienceData \<and> cd_status t = TokenActive
        \<and> cd_identity_id t = cd_identity_id parent \<and> cd_issue_epoch t = cd_issue_epoch parent
        \<and> checked_add (ac_effective_seconds c) (ar_token_ttl_seconds role) = Some (cd_expires_at_effective_seconds t)
        \<and> cd_created_at_effective_seconds t = ac_effective_seconds c \<and> cd_issuance_request_id t = request_id
        \<and> cd_parent_accessor t = Some (cd_accessor parent)
        \<and> ls_lease_duration success = ar_token_ttl_seconds role \<and> ls_identity_id success = ar_identity_id role
        \<and> d = auth_event request_id OpAppRoleLogin AuthSucceeded (Some accessor) (Some (ar_identity_id role))
            (c\<lparr>ac_usages := bt_insert accessor usage' (ac_usages c),
               ac_credentials := bt_insert (cd_accessor t) t (ac_credentials c)\<rparr>)))"

lemma login_issue_Ok:
  assumes "login_issue keyed b64 random role parent usage accessor request_id (c, r) = (Ok success, (d, r'))"
  shows "login_done role parent usage accessor request_id success c d"
proof -
  obtain usage' i r1 expires md issued where use: "usage_consume usage = Ok usage'"
    and i: "unique_id random (map snd (ac_credentials c)) r = (Ok i, r1)"
    and expires: "checked_add (ac_effective_seconds c) (ar_token_ttl_seconds role) = Some expires"
    and md: "token_from_secret_id parent i (ac_effective_seconds c) expires request_id = Ok md"
    and issued: "issue_credential keyed b64 (ac_verifier_key c) (ac_store_id c) md (''approle:'' @ ar_name role)
        (bt_contains (ac_credentials c)) random r1 = (Ok issued, r')"
    and d: "d = auth_event request_id OpAppRoleLogin AuthSucceeded (Some accessor) (Some (ar_identity_id role))
        (c\<lparr>ac_usages := bt_insert accessor usage' (ac_usages c),
           ac_credentials := bt_insert (cd_accessor (is_record issued)) (is_record issued) (ac_credentials c)\<rparr>)"
    and success: "success = \<lparr>ls_credential = issued, ls_lease_duration = ar_token_ttl_seconds role,
        ls_role_name = ar_name role, ls_identity_id = ar_identity_id role\<rparr>"
    using assms by (simp add: login_issue_def on_random_eq map_state_err_eq Let_def) (elim exE conjE, simp)
  have fresh: "\<forall>x\<in>set (map snd (ac_credentials c)). cd_id x \<noteq> i"
    using unique_id_loop_Ok [OF i [unfolded unique_id_def]] by simp
  have md: "im_id md = i" "im_kind md = KindToken" "im_audience md = AudienceData" "im_identity_id md = cd_identity_id parent"
    "im_issue_epoch md = cd_issue_epoch parent" "im_expires_at_effective_seconds md = expires"
    "im_created_at_effective_seconds md = ac_effective_seconds c" "im_issuance_request_id md = request_id"
    "im_parent_accessor md = Some (cd_accessor parent)"
    using md by (auto simp: token_from_secret_id_def split: if_splits)
  have token: "\<not> bt_contains (ac_credentials c) (cd_accessor (is_record issued))" "cd_id (is_record issued) = i"
    "cd_kind (is_record issued) = KindToken" "cd_audience (is_record issued) = AudienceData"
    "cd_status (is_record issued) = TokenActive" "cd_identity_id (is_record issued) = cd_identity_id parent"
    "cd_issue_epoch (is_record issued) = cd_issue_epoch parent" "cd_expires_at_effective_seconds (is_record issued) = expires"
    "cd_created_at_effective_seconds (is_record issued) = ac_effective_seconds c"
    "cd_issuance_request_id (is_record issued) = request_id"
    "cd_parent_accessor (is_record issued) = Some (cd_accessor parent)"
    using issue_credential_Ok [OF issued] md by (elim exE conjE; simp)+
  show ?thesis
    unfolding login_done_def Let_def success
    by (intro exI [of _ usage'] conjI) (use use expires d fresh token in simp_all)
qed

lemma login_issue_Err:
  "login_issue keyed b64 random role parent usage accessor request_id (c, r) = (Err e, (d, r')) \<Longrightarrow> d = c"
  by (auto simp: login_issue_def on_random_eq map_state_err_eq Let_def)

lemma login_candidate_Some:
  "login_candidate keyed b64 unb64 c role_id secret_id = Some (role, parent, usage) \<longleftrightarrow>
     (\<exists>accessor. wire_accessor b64 unb64 secret_id = Some accessor
       \<and> cv_reason (verify_credential keyed b64 unb64 secret_id (auth_context c KindSecretId AudienceData)
            (bt_get (ac_credentials c))) = None
       \<and> bt_get (ac_roles c) role_id = Some role \<and> bt_get (ac_credentials c) accessor = Some parent
       \<and> bt_get (ac_usages c) accessor = Some usage \<and> ar_status role = RoleActive \<and> ar_id role = su_role_id usage
       \<and> ar_identity_id role = cd_identity_id parent \<and> 0 < su_remaining_uses usage)"
  by (auto simp: login_candidate_def Let_def split: option.splits)

lemma auth_login_Ok:
  assumes "auth_login keyed b64 unb64 random role_id secret_id request_id (c, r) = (Ok success, (d, r'))"
  shows "request_id \<noteq> 0 \<and> credential_by_request c request_id = None
    \<and> (\<exists>role parent usage accessor. wire_accessor b64 unb64 secret_id = Some accessor
       \<and> login_candidate keyed b64 unb64 c role_id secret_id = Some (role, parent, usage)
       \<and> login_done role parent usage accessor request_id success c d)"
  using assms by (auto simp: auth_login_def Let_def split: if_splits option.splits dest: login_issue_Ok)

lemma auth_login_Err:
  assumes "auth_login keyed b64 unb64 random role_id secret_id request_id (c, r) = (Err e, (d, r'))"
  shows "d = c \<or> e = AeInvalidCredentials
    \<and> (\<exists>accessor. d = auth_event request_id OpAppRoleLogin AuthDenied accessor None c)"
  using assms by (auto simp: auth_login_def Let_def split: if_splits option.splits dest: login_issue_Err)

section \<open>Runs\<close>

datatype auth_call =
    AcLogin string string id16
  | AcLookupSelf string id16
  | AcAuthenticate string credential_audience id16
  | AcRenew id16
  | AcSetSeconds u64
  | AcInsertRole approle_record
  | AcDeleteRole string u64
  | AcInsertIdentity identity_record
  | AcReplaceIdentity identity_record
  | AcInsertSecretId id16 credential_record u32
  | AcInsertToken credential_record
  | AcReplaceCredential credential_record
  | AcRemoveSecretIds id16

definition auth_only :: "'a auth \<Rightarrow> auth_catalog \<times> 'r \<Rightarrow> auth_catalog \<times> 'r" where
  "auth_only f s = (snd (f (fst s)), snd s)"

primrec auth_apply ::
  "keyed_hash \<Rightarrow> base64_encode \<Rightarrow> base64_decode \<Rightarrow> 'r random_source \<Rightarrow> auth_call \<Rightarrow> auth_catalog \<times> 'r \<Rightarrow>
     auth_catalog \<times> 'r" where
  "auth_apply k b u rnd (AcLogin role secret q) s = snd (auth_login k b u rnd role secret q s)"
| "auth_apply k b u rnd (AcLookupSelf token q) s = auth_only (auth_lookup_self k b u token q) s"
| "auth_apply k b u rnd (AcAuthenticate token audience q) s = auth_only (authenticate_with_request k b u token audience q) s"
| "auth_apply k b u rnd (AcRenew q) s = (renew_unsupported q (fst s), snd s)"
| "auth_apply k b u rnd (AcSetSeconds t) s = auth_only (set_effective_seconds t) s"
| "auth_apply k b u rnd (AcInsertRole role) s = auth_only (insert_role role) s"
| "auth_apply k b u rnd (AcDeleteRole role g) s = auth_only (delete_role role g) s"
| "auth_apply k b u rnd (AcInsertIdentity i) s = auth_only (insert_identity i) s"
| "auth_apply k b u rnd (AcReplaceIdentity i) s = auth_only (replace_identity i) s"
| "auth_apply k b u rnd (AcInsertSecretId role r uses) s = auth_only (insert_secret_id role r uses) s"
| "auth_apply k b u rnd (AcInsertToken r) s = auth_only (insert_token r) s"
| "auth_apply k b u rnd (AcReplaceCredential r) s = auth_only (replace_credential r) s"
| "auth_apply k b u rnd (AcRemoveSecretIds role) s = auth_only (remove_secret_ids_for_role role) s"

definition auth_run ::
  "keyed_hash \<Rightarrow> base64_encode \<Rightarrow> base64_decode \<Rightarrow> 'r random_source \<Rightarrow> auth_call list \<Rightarrow> auth_catalog \<times> 'r \<Rightarrow>
     auth_catalog \<times> 'r" where
  "auth_run k b u rnd calls s = foldl (\<lambda>s call. auth_apply k b u rnd call s) s calls"

definition login_events :: "auth_catalog \<Rightarrow> auth_audit_event list" where
  "login_events c = filter (\<lambda>e. ae_operation e = OpAppRoleLogin \<and> ae_outcome e = AuthSucceeded) (ac_audit c)"

definition logins :: "auth_catalog \<Rightarrow> id16 \<Rightarrow> nat" where
  "logins c a = length (filter (\<lambda>e. ae_credential_accessor e = Some a) (login_events c))"

definition auth_ok :: "auth_catalog \<Rightarrow> bool" where
  "auth_ok c \<longleftrightarrow> btree (ac_usages c) \<and> btree (ac_credentials c)
     \<and> (\<forall>a u. bt_get (ac_usages c) a = Some u \<longrightarrow> bt_get (ac_credentials c) a \<noteq> None
          \<and> su_initial_uses u \<le> 1000 \<and> unat (su_remaining_uses u) + logins c a = unat (su_initial_uses u))
     \<and> (\<forall>e\<in>set (login_events c). \<exists>a. ae_credential_accessor e = Some a \<and> bt_get (ac_usages c) a \<noteq> None)"

text \<open>The calls that log nobody in and give no secret id.\<close>

definition auth_quiet :: "auth_catalog \<Rightarrow> auth_catalog \<Rightarrow> bool" where
  "auth_quiet c d \<longleftrightarrow> ac_usages d = ac_usages c \<and> login_events d = login_events c
     \<and> (btree (ac_credentials c) \<longrightarrow> btree (ac_credentials d)
          \<and> (\<forall>a. bt_get (ac_credentials c) a \<noteq> None \<longrightarrow> bt_get (ac_credentials d) a \<noteq> None))"

interpretation auth_frame: effect_preorder auth_quiet
  by unfold_locales (auto simp: auth_quiet_def)

lemma auth_quiet_ok: "auth_quiet c d \<Longrightarrow> auth_ok c \<Longrightarrow> auth_ok d"
  by (auto simp: auth_quiet_def auth_ok_def logins_def)

lemma auth_quiet_event:
  "\<not> (operation = OpAppRoleLogin \<and> outcome = AuthSucceeded) \<Longrightarrow> auth_quiet c (auth_event q operation outcome a i c)"
  by (simp add: auth_quiet_def auth_event_def login_events_def)

lemma auth_quiet_credential: "auth_quiet c (c\<lparr>ac_credentials := bt_insert a r (ac_credentials c)\<rparr>)"
  by (simp add: auth_quiet_def login_events_def bt_get_insert)

lemma quiet_replace: "keeps auth_quiet (replace_credential r)"
  by (auto simp: keeps_def replace_credential_def auth_frame.R_refl auth_quiet_credential split: option.split)

lemma quiet_revoke: "keeps auth_quiet (revoke_accessors as)"
proof (induction as)
  case (Cons a as)
  have "keeps auth_quiet (sbind (slift x) (\<lambda>r. sbind (replace_credential r) (\<lambda>_. revoke_accessors as)))" for x
    by (intro auth_frame.keeps_bind auth_frame.keeps_slift quiet_replace Cons.IH)
  with Cons.IH show ?case by (auto simp: keeps_def split: option.split)
qed (simp add: auth_frame.keeps_slift)

lemma quiet_calls:
  "keeps auth_quiet (auth_lookup_self k b u token q)" "keeps auth_quiet (authenticate_with_request k b u token audience q)"
  "keeps auth_quiet (set_effective_seconds t)" "keeps auth_quiet (insert_role role)" "keeps auth_quiet (delete_role role_id g)"
  "keeps auth_quiet (insert_identity i)" "keeps auth_quiet (replace_identity i)" "keeps auth_quiet (insert_token r)"
  "keeps auth_quiet (remove_secret_ids_for_role role_record)"
proof -
  show "keeps auth_quiet (auth_lookup_self k b u token q)"
    by (auto simp: keeps_def auth_lookup_self_def auth_frame.R_refl auth_quiet_event split: option.split)
  show "keeps auth_quiet (authenticate_with_request k b u token audience q)"
    by (auto simp: keeps_def authenticate_with_request_def Let_def auth_quiet_event split: option.split)
  show "keeps auth_quiet (set_effective_seconds t)"
    by (simp add: keeps_def set_effective_seconds_def auth_quiet_def login_events_def)
  show "keeps auth_quiet (insert_role role)" "keeps auth_quiet (insert_identity i)" "keeps auth_quiet (replace_identity i)"
    unfolding insert_role_def insert_identity_def replace_identity_def
    by (intro auth_frame.keeps_bind auth_frame.keeps_slift;
        auto simp: keeps_def auth_quiet_def login_events_def split: option.split)+
  show "keeps auth_quiet (delete_role role_id g)"
    by (auto simp: keeps_def delete_role_def auth_quiet_def login_events_def split: option.split result.split)
  show "keeps auth_quiet (insert_token r)"
    by (simp add: keeps_def insert_token_def auth_frame.R_refl auth_quiet_credential)
  have "keeps auth_quiet (sbind (revoke_accessors as) (\<lambda>_. slift (Ok n)))" for as and n :: nat
    by (intro auth_frame.keeps_bind auth_frame.keeps_slift quiet_revoke)
  then show "keeps auth_quiet (remove_secret_ids_for_role role_record)"
    by (simp add: keeps_def remove_secret_ids_for_role_def Let_def)
qed

lemma insert_secret_id_ok: "auth_ok c \<Longrightarrow> auth_ok (snd (insert_secret_id role r uses c))"
proof -
  assume ok: "auth_ok c"
  let ?a = "cd_accessor r"
  have "auth_ok (c\<lparr>ac_usages := bt_insert ?a u (ac_usages c), ac_credentials := bt_insert ?a r (ac_credentials c)\<rparr>)"
    if "usage_new ?a role uses = Ok u" and none: "bt_get (ac_credentials c) ?a = None" for u
  proof -
    let ?c = "c\<lparr>ac_usages := bt_insert ?a u (ac_usages c), ac_credentials := bt_insert ?a r (ac_credentials c)\<rparr>"
    have u: "su_initial_uses u \<le> 1000" "su_remaining_uses u = su_initial_uses u"
      using that(1) by (auto simp: usage_new_def validate_secret_id_uses_def split: if_splits)
    have "bt_get (ac_usages c) ?a = None" using ok none unfolding auth_ok_def by (metis not_Some_eq)
    then have "logins c ?a = 0"
      using ok by (auto simp: auth_ok_def logins_def filter_empty_conv)
    moreover have "login_events ?c = login_events c" by (simp add: login_events_def)
    moreover have "\<exists>a. ae_credential_accessor e = Some a \<and> bt_get (bt_insert ?a u (ac_usages c)) a \<noteq> None"
      if "e \<in> set (login_events c)" for e
      using ok that by (fastforce simp: auth_ok_def bt_get_insert)
    ultimately show ?thesis
      using ok u unfolding auth_ok_def logins_def by (simp add: bt_get_insert)
  qed
  then show ?thesis
    using ok by (auto simp: insert_secret_id_def bt_contains_def split: result.split)
qed

lemma usage_consume_Ok:
  "usage_consume u = Ok u' \<Longrightarrow> unat (su_remaining_uses u) = Suc (unat (su_remaining_uses u'))
     \<and> su_initial_uses u' = su_initial_uses u"
  by (auto simp: usage_consume_def ok_or_def unat_minus_one unat_gt_0 split: if_splits option.splits)

lemma login_done_ok:
  assumes ok: "auth_ok c" and "bt_get (ac_usages c) a = Some usage"
    and "login_done role parent usage a q success c d"
  shows "auth_ok d"
proof -
  obtain u' t where u': "usage_consume usage = Ok u'" and t: "\<not> bt_contains (ac_credentials c) (cd_accessor t)"
    and d: "d = auth_event q OpAppRoleLogin AuthSucceeded (Some a) (Some (ar_identity_id role))
        (c\<lparr>ac_usages := bt_insert a u' (ac_usages c), ac_credentials := bt_insert (cd_accessor t) t (ac_credentials c)\<rparr>)"
    using assms(3) unfolding login_done_def Let_def by blast
  have events: "login_events d = login_events c @ [\<lparr>ae_request_id = q, ae_operation = OpAppRoleLogin, ae_outcome = AuthSucceeded,
      ae_credential_accessor = Some a, ae_identity_id = Some (ar_identity_id role)\<rparr>]"
    by (simp add: d login_events_def auth_event_def)
  have logins: "logins d x = logins c x + (if x = a then 1 else 0)" for x
    by (simp add: logins_def events)
  have rows: "ac_usages d = bt_insert a u' (ac_usages c)" "ac_credentials d = bt_insert (cd_accessor t) t (ac_credentials c)"
    by (simp_all add: d auth_event_def)
  have bt: "btree (ac_usages c)" "btree (ac_credentials c)" using ok by (simp_all add: auth_ok_def)
  have old: "bt_get (ac_credentials c) x \<noteq> None" "su_initial_uses u \<le> 1000"
    "unat (su_remaining_uses u) + logins c x = unat (su_initial_uses u)" if "bt_get (ac_usages c) x = Some u" for x u
    using ok that by (auto simp: auth_ok_def)
  show ?thesis
    unfolding auth_ok_def rows events
  proof (intro conjI allI impI)
    show "btree (bt_insert a u' (ac_usages c))" "btree (bt_insert (cd_accessor t) t (ac_credentials c))"
      using bt by simp_all
    fix x u assume "bt_get (bt_insert a u' (ac_usages c)) x = Some u"
    then have cases: "x = a \<and> u = u' \<or> x \<noteq> a \<and> bt_get (ac_usages c) x = Some u"
      using bt by (auto simp: bt_get_insert split: if_splits)
    then show "bt_get (bt_insert (cd_accessor t) t (ac_credentials c)) x \<noteq> None"
      using old(1) assms(2) bt by (auto simp: bt_get_insert)
    show "su_initial_uses u \<le> 1000"
      using cases old(2) assms(2) usage_consume_Ok [OF u'] by auto
    show "unat (su_remaining_uses u) + logins d x = unat (su_initial_uses u)"
      using cases old(3) [of x] old(3) [OF assms(2)] usage_consume_Ok [OF u'] by (auto simp: logins)
  next
    show "\<forall>e\<in>set (login_events c @ [\<lparr>ae_request_id = q, ae_operation = OpAppRoleLogin, ae_outcome = AuthSucceeded,
        ae_credential_accessor = Some a, ae_identity_id = Some (ar_identity_id role)\<rparr>]).
        \<exists>a'. ae_credential_accessor e = Some a' \<and> bt_get (bt_insert a u' (ac_usages c)) a' \<noteq> None"
      using ok bt by (fastforce simp: auth_ok_def bt_get_insert)
  qed
qed

lemma auth_login_ok:
  assumes "auth_ok c" and "auth_login k b u rnd role secret q (c, r) = (res, (d, r'))"
  shows "auth_ok d"
proof (cases res)
  case (Ok success)
  from auth_login_Ok [OF assms(2) [unfolded Ok]] obtain role_rec parent usage a
    where "wire_accessor b u secret = Some a" "login_candidate k b u c role secret = Some (role_rec, parent, usage)"
      "login_done role_rec parent usage a q success c d"
    by blast
  then show ?thesis by (auto simp: login_candidate_Some intro: login_done_ok [OF assms(1)])
next
  case (Err e)
  with auth_login_Err [of k b u rnd role secret q c r e d r'] assms show ?thesis
    by (auto intro: auth_quiet_ok [OF auth_quiet_event])
qed

lemma auth_apply_ok: "auth_ok (fst s) \<Longrightarrow> auth_ok (fst (auth_apply k b u rnd call s))"
proof -
  assume ok: "auth_ok (fst s)"
  have quiet: "auth_ok (fst (auth_only f s))" if "keeps auth_quiet f" for f :: "'x auth"
    using that ok by (auto simp: auth_only_def keeps_def intro: auth_quiet_ok)
  show ?thesis
  proof (cases call)
    case (AcLogin role secret q)
    obtain res d r' where "auth_login k b u rnd role secret q (fst s, snd s) = (res, (d, r'))"
      by (metis surj_pair)
    with auth_login_ok [OF ok this] AcLogin show ?thesis by simp
  next
    case (AcInsertSecretId role r uses)
    then show ?thesis using insert_secret_id_ok [OF ok] by (simp add: auth_only_def)
  next
    case (AcRenew q)
    then show ?thesis using ok by (auto simp: renew_unsupported_def intro: auth_quiet_ok [OF auth_quiet_event])
  qed (simp_all add: quiet quiet_calls quiet_replace)
qed

lemma auth_run_ok: "auth_ok (fst s) \<Longrightarrow> auth_ok (fst (auth_run k b u rnd calls s))"
  unfolding auth_run_def by (induction calls arbitrary: s) (simp_all add: auth_apply_ok)

lemma auth_new_ok: "auth_new store_id key epoch t = Ok c \<Longrightarrow> auth_ok c"
  by (auto simp: auth_new_def auth_ok_def login_events_def split: if_splits)

section \<open>A login is one step\<close>

lemma find_inserted:
  "find P (map snd m) = None \<Longrightarrow> P v \<Longrightarrow> find P (map snd (bt_insert k v m)) = Some v"
  by (induction m) (auto split: if_splits)

lemma login_done_request:
  assumes "login_done role parent usage a q success c d" and "credential_by_request c q = None"
  shows "credential_by_request d q = Some (is_record (ls_credential success))"
  using assms by (auto simp: login_done_def Let_def credential_by_request_def auth_event_def intro: find_inserted)


text \<open>
  C38: A secret id logs in at most as often as it was issued for. From a new catalogue, whatever logins,
  look-ups, authentications, revocations, role and identity changes and clock changes
  follow, every secret id on record was issued for at most 1,000 uses, and the uses it has left and the successful logins in the
  audit trail that name it always add up to what it was issued for; so once it has been used up, no role, random source or
  request id makes it log in again.
\<close>

theorem secret_id_uses:
  assumes "auth_new store_id key epoch t = Ok c"
    and "fst (auth_run keyed b64 unb64 random calls (c, r)) = d"
    and "bt_get (ac_usages d) a = Some usage"
  shows "su_initial_uses usage \<le> 1000 \<and> unat (su_remaining_uses usage) + logins d a = unat (su_initial_uses usage)
    \<and> (logins d a = unat (su_initial_uses usage) \<longrightarrow>
        (\<forall>(random' :: 's random_source) role_id secret q s. wire_accessor b64 unb64 secret = Some a \<longrightarrow>
           \<not> is_ok (fst (auth_login keyed b64 unb64 random' role_id secret q (d, s)))))"
proof -
  have "auth_ok d" using assms auth_run_ok [of "(c, r)"] auth_new_ok by force
  then have uses: "su_initial_uses usage \<le> 1000"
    "unat (su_remaining_uses usage) + logins d a = unat (su_initial_uses usage)"
    using assms(3) by (auto simp: auth_ok_def)
  have "\<not> is_ok (fst (auth_login keyed b64 unb64 random' role_id secret q (d, s)))"
    if none: "su_remaining_uses usage = 0" and "wire_accessor b64 unb64 secret = Some a" for random' :: "'s random_source" and role_id secret q s
  proof
    assume "is_ok (fst (auth_login keyed b64 unb64 random' role_id secret q (d, s)))"
    then obtain success d' s' where "auth_login keyed b64 unb64 random' role_id secret q (d, s) = (Ok success, (d', s'))"
      by (metis is_ok.simps(2) prod.collapse result.exhaust)
    from auth_login_Ok [OF this] that assms(3) show False by (auto simp: login_candidate_Some)
  qed
  moreover have "su_remaining_uses usage = 0" if "logins d a = unat (su_initial_uses usage)"
    using that uses(2) by (simp add: unat_eq_zero)
  ultimately show ?thesis using uses by blast
qed

definition sample_role :: approle_record where
  "sample_role = \<lparr>ar_id = 1, ar_role_id = ''ci'', ar_name = ''ci'', ar_identity_id = 2, ar_token_ttl_seconds = 3600,
     ar_status = RoleActive, ar_generation = 1\<rparr>"

definition sample_secret_id :: credential_record where
  "sample_secret_id = \<lparr>cd_id = 5, cd_accessor = 4, cd_verifier = 9, cd_kind = KindSecretId, cd_audience = AudienceData,
     cd_identity_id = 2, cd_issue_epoch = 3, cd_expires_at_effective_seconds = 90, cd_status = TokenActive, cd_generation = 1,
     cd_label = ''ci'', cd_created_at_effective_seconds = 4, cd_issuer_identity_id = 1, cd_issuance_request_id = 6,
     cd_parent_accessor = None, cd_consumer_instance_id = None\<rparr>"

definition sample_calls :: "auth_call list" where
  "sample_calls = [AcInsertIdentity sample_identity, AcInsertRole sample_role, AcInsertSecretId 1 sample_secret_id 3,
     AcLogin ''ci'' ''forged'' 8]"

definition sample_auth :: auth_catalog where
  "sample_auth = \<lparr>ac_store_id = 1, ac_verifier_key = 2, ac_current_epoch = 3, ac_effective_seconds = 4, ac_roles = [],
     ac_identities = [], ac_credentials = [], ac_usages = [], ac_audit = []\<rparr>"

lemma sample_identity_encodes: "\<exists>bs. identity_encode sample_identity = Ok bs"
  by (simp add: identity_encode_def enc_string_def enc_bytes_def identity_validate_def sample_identity_def valid_label_def str_bytes_def byte_of_char_def
      is_ascii_alphanumeric_def)
lemma sample_role_valid: "approle_validate sample_role = Ok ()"
proof -
  have "\<not> has_control ''ci''" by code_simp
  then show ?thesis by (simp add: approle_validate_def sample_role_def valid_public_label_def validate_ttl_def)
qed

theorem secret_id_uses_witness:
  "\<exists>d usage. auth_new 1 2 3 4 = Ok sample_auth
     \<and> fst (auth_run sample_keyed base64url base64url_decode sample_random sample_calls (sample_auth, ())) = d
     \<and> bt_get (ac_usages d) 4 = Some usage \<and> su_initial_uses usage = 3
     \<and> unat (su_remaining_uses usage) + logins d 4 = 3 \<and> length (ac_audit d) = 1"
proof -
  define d where "d = fst (auth_run sample_keyed base64url base64url_decode sample_random sample_calls (sample_auth, ()))"
  let ?usage = "\<lparr>su_accessor = 4, su_role_id = 1, su_initial_uses = 3, su_remaining_uses = 3, su_generation = 1\<rparr>"
  have c: "auth_new 1 2 3 4 = Ok sample_auth" by (simp add: auth_new_def sample_auth_def)
  obtain bs where "identity_encode sample_identity = Ok bs" using sample_identity_encodes by blast
  then have "insert_identity sample_identity sample_auth = (Ok (), sample_auth\<lparr>ac_identities := [(2, sample_identity)]\<rparr>)"
    by (simp add: insert_identity_def sbind_def slift_def bt_contains_def sample_auth_def sample_identity_def)
  moreover have "insert_role sample_role (sample_auth\<lparr>ac_identities := [(2, sample_identity)]\<rparr>)
      = (Ok (), sample_auth\<lparr>ac_identities := [(2, sample_identity)], ac_roles := [(''ci'', sample_role)]\<rparr>)"
    using sample_role_valid
    by (simp add: insert_role_def sbind_def slift_def bt_contains_def active_identity_def sample_auth_def
        sample_identity_def bt_get_def) (simp add: sample_role_def)
  moreover have "insert_secret_id 1 sample_secret_id 3
        (sample_auth\<lparr>ac_identities := [(2, sample_identity)], ac_roles := [(''ci'', sample_role)]\<rparr>)
      = (Ok (), sample_auth\<lparr>ac_identities := [(2, sample_identity)], ac_roles := [(''ci'', sample_role)],
           ac_usages := [(4, ?usage)], ac_credentials := [(4, sample_secret_id)]\<rparr>)"
    by (simp add: insert_secret_id_def bt_contains_def sample_auth_def sample_role_def sample_secret_id_def usage_new_def
        validate_secret_id_uses_def)
  moreover have label: "valid_public_label ''ci'' 255" by code_simp
  moreover have "cd_issuance_request_id sample_secret_id \<noteq> 8" "ac_audit sample_auth = []"
    by (simp_all add: sample_secret_id_def sample_auth_def)
  moreover have "wire_accessor base64url base64url_decode ''forged'' = None" by code_simp
  ultimately have usage: "bt_get (ac_usages d) 4 = Some ?usage" and "length (ac_audit d) = 1"
    using label by (simp_all add: d_def auth_run_def sample_calls_def auth_only_def auth_login_def login_candidate_def Let_def
        credential_by_request_def auth_event_def bt_get_def)
  then have "bt_get (ac_usages d) 4 = Some ?usage \<and> su_initial_uses ?usage = 3
      \<and> unat (su_remaining_uses ?usage) + logins d 4 = 3 \<and> length (ac_audit d) = 1"
    using secret_id_uses [OF c d_def [symmetric] usage, THEN conjunct2, THEN conjunct1] by simp
  with c d_def show ?thesis by blast
qed
end
