(* ===== verification/Clock.thy ===== *)
theory Clock
  imports Prelude
begin

text \<open>
  The effective clock and its durable high-water mark (\<open>clock.rs\<close>). Time read from the wall is a count of
  seconds at its width; a \<open>Duration\<close> is its number of nanoseconds, at most \<open>DURATION_MAX\<close>. The trait
  objects the code takes (the audit of a boot override, the repair back end, the sink a credential
  is written to) are arguments with a state of their own.
\<close>

section \<open>Durations\<close>

type_synonym duration = nat

abbreviation (input) NANOS :: nat where "NANOS \<equiv> 1000000000"

definition duration_max :: duration where
  "duration_max = 2 ^ 64 * NANOS - 1"

definition from_secs :: "nat \<Rightarrow> duration" where
  "from_secs s = s * NANOS"

definition from_millis :: "nat \<Rightarrow> duration" where
  "from_millis s = s * 1000000"

definition as_secs :: "duration \<Rightarrow> u64" where
  "as_secs d = word_of_nat (d div NANOS)"

definition duration_checked_sub :: "duration \<Rightarrow> duration \<Rightarrow> duration option" where
  "duration_checked_sub a b = (if b \<le> a then Some (a - b) else None)"

definition duration_saturating_add :: "duration \<Rightarrow> duration \<Rightarrow> duration" where
  "duration_saturating_add a b = min duration_max (a + b)"

definition CLOCK_TOLERANCE :: duration where "CLOCK_TOLERANCE = from_secs 2"
definition CLOCK_SETTLE_PERIOD :: duration where "CLOCK_SETTLE_PERIOD = from_secs 10"
definition IDLE_CHECKPOINT_INTERVAL :: duration where "IDLE_CHECKPOINT_INTERVAL = from_secs 30"
definition CHECKPOINT_COMMIT_DEADLINE :: duration where "CHECKPOINT_COMMIT_DEADLINE = from_millis 100"
definition MAX_PLAUSIBLE_FUTURE_MARK :: duration where "MAX_PLAUSIBLE_FUTURE_MARK = from_secs (24 * 60 * 60)"

lemma clock_constants [simp]:
  "as_secs CLOCK_TOLERANCE = 2" "as_secs MAX_PLAUSIBLE_FUTURE_MARK = 86400"
  by (simp_all add: as_secs_def CLOCK_TOLERANCE_def MAX_PLAUSIBLE_FUTURE_MARK_def from_secs_def)

section \<open>The monitor\<close>

record clock_reading =
  cr_wall_unix_seconds :: u64
  cr_monotonic :: duration

datatype clock_safety = ClockReady | ClockRecovering | ClockUnsafe
datatype clock_anomaly = WallBehind | WallAhead | MonotonicRegressed

record clock_observation =
  co_effective_unix_seconds :: u64
  co_safety :: clock_safety
  co_anomaly :: "clock_anomaly option"

record boot_override_event =
  bo_observed_wall_unix_seconds :: u64
  bo_persisted_high_water_unix_seconds :: u64
  bo_effective_unix_seconds :: u64

datatype clock_error =
    BehindPersistedMark | PersistedMarkImplausiblyAhead | OverrideAuditFailed | ClkUnsafe | StaleCommand
  | PersistenceFailed | InvalidRepair | StaleRepair | UnsafeCredentialSink | RepairPreparationFailed
  | DisclosureFailed | RepairCommitFailed

datatype watermark_kind = ApplicationCommit | IdleCheckpoint | CleanShutdown

record watermark_command =
  wc_expected_high_water_unix_seconds :: u64
  wc_replacement_high_water_unix_seconds :: u64
  wc_effective_unix_seconds :: u64
  wc_kind :: watermark_kind
  wc_issued_at :: duration
  wc_deadline :: duration

datatype checkpoint_request = NotDue | Coalesced | Submit watermark_command

record clock_monitor =
  cm_anchor_wall :: u64
  cm_anchor_monotonic :: duration
  cm_effective :: u64
  cm_persisted :: u64
  cm_safety :: clock_safety
  cm_agreement_since :: "duration option"
  cm_last_durable_monotonic :: duration
  cm_pending_checkpoint :: "watermark_command option"

type_synonym 'a boot_override_audit = "boot_override_event \<Rightarrow> 'a \<Rightarrow> bool \<times> 'a"

definition clock_boot ::
  "clock_reading \<Rightarrow> u64 \<Rightarrow> bool \<Rightarrow> 'a boot_override_audit \<Rightarrow> ('a, clock_monitor, clock_error) stateful" where
  "clock_boot reading persisted allow_behind_mark_once commit_boot_override a =
     (let ahead = saturating_sub persisted (cr_wall_unix_seconds reading);
          m = \<lparr>cm_anchor_wall = cr_wall_unix_seconds reading, cm_anchor_monotonic = cr_monotonic reading,
               cm_effective = max (cr_wall_unix_seconds reading) persisted, cm_persisted = persisted,
               cm_safety = ClockReady, cm_agreement_since = None,
               cm_last_durable_monotonic = cr_monotonic reading, cm_pending_checkpoint = None\<rparr>
      in if ahead > as_secs MAX_PLAUSIBLE_FUTURE_MARK then (Err PersistedMarkImplausiblyAhead, a)
         else if ahead > as_secs CLOCK_TOLERANCE
         then if \<not> allow_behind_mark_once then (Err BehindPersistedMark, a)
              else (case commit_boot_override
                           \<lparr>bo_observed_wall_unix_seconds = cr_wall_unix_seconds reading,
                            bo_persisted_high_water_unix_seconds = persisted,
                            bo_effective_unix_seconds = persisted\<rparr> a of
                      (committed, a') \<Rightarrow> if committed then (Ok m, a') else (Err OverrideAuditFailed, a'))
         else (Ok m, a))"

definition observation :: "clock_monitor \<Rightarrow> clock_anomaly option \<Rightarrow> clock_observation" where
  "observation m anomaly =
     \<lparr>co_effective_unix_seconds = cm_effective m, co_safety = cm_safety m, co_anomaly = anomaly\<rparr>"

definition clock_settle :: "duration \<Rightarrow> clock_monitor \<Rightarrow> clock_monitor" where
  "clock_settle now m =
     (if cm_safety m = ClockReady then m
      else let since = (case cm_agreement_since m of Some t \<Rightarrow> t | None \<Rightarrow> now)
           in if CLOCK_SETTLE_PERIOD \<le> now - since
              then m\<lparr>cm_agreement_since := None, cm_safety := ClockReady\<rparr>
              else m\<lparr>cm_agreement_since := Some since, cm_safety := ClockRecovering\<rparr>)"

definition clock_observe :: "clock_reading \<Rightarrow> clock_monitor \<Rightarrow> clock_observation \<times> clock_monitor" where
  "clock_observe reading m =
     (case duration_checked_sub (cr_monotonic reading) (cm_anchor_monotonic m) of
        None \<Rightarrow>
          let m = m\<lparr>cm_safety := ClockUnsafe, cm_agreement_since := None\<rparr>
          in (observation m (Some MonotonicRegressed), m)
      | Some elapsed \<Rightarrow>
          let expected_wall = saturating_add (cm_anchor_wall m) (as_secs elapsed);
              m = m\<lparr>cm_effective := max (cm_effective m) expected_wall\<rparr>;
              difference = abs_diff (cr_wall_unix_seconds reading) expected_wall
          in if difference > as_secs CLOCK_TOLERANCE
             then let m = m\<lparr>cm_safety := ClockUnsafe, cm_agreement_since := None\<rparr>
                  in (observation m (Some (if cr_wall_unix_seconds reading < expected_wall then WallBehind
                                           else WallAhead)), m)
             else let m = clock_settle (cr_monotonic reading)
                            (m\<lparr>cm_effective := max (cm_effective m) (cr_wall_unix_seconds reading)\<rparr>)
                  in (observation m None, m))"

definition clock_command :: "watermark_kind \<Rightarrow> duration \<Rightarrow> clock_monitor \<Rightarrow> (watermark_command, clock_error) result" where
  "clock_command kind now m =
     (if cm_safety m \<noteq> ClockReady then Err ClkUnsafe
      else Ok \<lparr>wc_expected_high_water_unix_seconds = cm_persisted m,
               wc_replacement_high_water_unix_seconds = max (cm_persisted m) (cm_effective m),
               wc_effective_unix_seconds = cm_effective m, wc_kind = kind, wc_issued_at = now,
               wc_deadline = duration_saturating_add now CHECKPOINT_COMMIT_DEADLINE\<rparr>)"

definition application_commit :: "duration \<Rightarrow> clock_monitor \<Rightarrow> (watermark_command, clock_error) result" where
  "application_commit now m = clock_command ApplicationCommit now m"

definition clean_shutdown :: "duration \<Rightarrow> clock_monitor \<Rightarrow> (watermark_command, clock_error) result" where
  "clean_shutdown now m = clock_command CleanShutdown now m"

definition poll_checkpoint_deadline :: "duration \<Rightarrow> (clock_monitor, unit, clock_error) stateful" where
  "poll_checkpoint_deadline now m =
     (case cm_pending_checkpoint m of
        Some command \<Rightarrow>
          if wc_deadline command < now then (Err PersistenceFailed, m\<lparr>cm_safety := ClockUnsafe\<rparr>) else (Ok (), m)
      | None \<Rightarrow> (Ok (), m))"

definition idle_checkpoint :: "duration \<Rightarrow> (clock_monitor, checkpoint_request, clock_error) stateful" where
  "idle_checkpoint now =
     sbind (poll_checkpoint_deadline now) (\<lambda>_ m.
       if cm_pending_checkpoint m \<noteq> None then (Ok Coalesced, m)
       else if now - cm_last_durable_monotonic m < IDLE_CHECKPOINT_INTERVAL then (Ok NotDue, m)
       else case clock_command IdleCheckpoint now m of
              Err e \<Rightarrow> (Err e, m)
            | Ok command \<Rightarrow> (Ok (Submit command), m\<lparr>cm_pending_checkpoint := Some command\<rparr>))"

definition complete_watermark :: "watermark_command \<Rightarrow> bool \<Rightarrow> (clock_monitor, unit, clock_error) stateful" where
  "complete_watermark command committed m =
     (if wc_expected_high_water_unix_seconds command \<noteq> cm_persisted m
         \<or> wc_replacement_high_water_unix_seconds command < cm_persisted m
      then (Err StaleCommand, m\<lparr>cm_safety := ClockUnsafe\<rparr>)
      else if wc_kind command = IdleCheckpoint \<and> cm_pending_checkpoint m \<noteq> Some command
      then (Err StaleCommand, m\<lparr>cm_safety := ClockUnsafe\<rparr>)
      else if \<not> committed then (Err PersistenceFailed, m\<lparr>cm_safety := ClockUnsafe\<rparr>)
      else let m = m\<lparr>cm_persisted := wc_replacement_high_water_unix_seconds command,
                     cm_last_durable_monotonic := wc_issued_at command\<rparr>
           in (Ok (), case cm_pending_checkpoint m of
                        Some pending \<Rightarrow>
                          if wc_replacement_high_water_unix_seconds pending \<le> cm_persisted m
                          then m\<lparr>cm_pending_checkpoint := None\<rparr> else m
                      | None \<Rightarrow> m))"

section \<open>Repair\<close>

record clock_repair_request =
  rr_exact_old_high_water_unix_seconds :: u64
  rr_replacement_unix_seconds :: u64
  rr_reason :: string

record 't prepared_clock_repair =
  pr_replacement_credential :: bytes
  pr_replacement_epoch :: u64
  pr_transaction :: 't

record clock_repair_receipt =
  cp_replacement_high_water_unix_seconds :: u64
  cp_replacement_epoch :: u64

record ('b, 't) clock_repair_backend =
  current_high_water :: "'b \<Rightarrow> u64 option \<times> 'b"
  prepare_clock_repair :: "clock_repair_request \<Rightarrow> 'b \<Rightarrow> 't prepared_clock_repair option \<times> 'b"
  commit_clock_repair :: "'t \<Rightarrow> 'b \<Rightarrow> bool \<times> 'b"

record 'w secret_sink =
  sink_safe :: "'w \<Rightarrow> bool"
  sink_write_all :: "bytes \<Rightarrow> 'w \<Rightarrow> bool \<times> 'w"
  sink_flush :: "'w \<Rightarrow> bool \<times> 'w"

definition validate_repair :: "clock_repair_request \<Rightarrow> u64 \<Rightarrow> (unit, clock_error) result" where
  "validate_repair request observed =
     (if rr_reason request = [] \<or> 512 < length (rr_reason request) \<or> has_control (rr_reason request)
         \<or> saturating_add observed (as_secs CLOCK_TOLERANCE) < rr_replacement_unix_seconds request
      then Err InvalidRepair else Ok ())"

definition on_backend :: "('b \<Rightarrow> 'a option \<times> 'b) \<Rightarrow> 'e \<Rightarrow> ('b \<times> 'w, 'a, 'e) stateful" where
  "on_backend f e s = (case f (fst s) of (a, b) \<Rightarrow> (ok_or e a, (b, snd s)))"

definition on_sink :: "('w \<Rightarrow> bool \<times> 'w) \<Rightarrow> ('b \<times> 'w, unit, clock_error) stateful" where
  "on_sink f s = (case f (snd s) of (done, w) \<Rightarrow> (if done then Ok () else Err DisclosureFailed, (fst s, w)))"

definition repair_clock ::
  "('b, 't) clock_repair_backend \<Rightarrow> 'w secret_sink \<Rightarrow> clock_repair_request \<Rightarrow> u64 \<Rightarrow>
     ('b \<times> 'w, clock_repair_receipt, clock_error) stateful" where
  "repair_clock backend sink request observed =
     sbind (slift (validate_repair request observed)) (\<lambda>_.
     sbind (\<lambda>s. (if sink_safe sink (snd s) then Ok () else Err UnsafeCredentialSink, s)) (\<lambda>_.
     sbind (on_backend (current_high_water backend) RepairPreparationFailed) (\<lambda>current.
     sbind (srequire (current = rr_exact_old_high_water_unix_seconds request) StaleRepair) (\<lambda>_.
     sbind (on_backend (prepare_clock_repair backend request) RepairPreparationFailed) (\<lambda>prepared.
     sbind (on_sink (sink_write_all sink (pr_replacement_credential prepared))) (\<lambda>_.
     sbind (on_sink (sink_write_all sink [10])) (\<lambda>_.
     sbind (on_sink (sink_flush sink)) (\<lambda>_.
     sbind (on_backend (\<lambda>b. case commit_clock_repair backend (pr_transaction prepared) b of
              (committed, b') \<Rightarrow> (if committed then Some () else None, b')) RepairCommitFailed) (\<lambda>_.
       slift (Ok \<lparr>cp_replacement_high_water_unix_seconds = rr_replacement_unix_seconds request,
                  cp_replacement_epoch = pr_replacement_epoch prepared\<rparr>))))))))))"

end
