(* ===== verification/Clock_Safety.thy ===== *)
theory Clock_Safety
  imports Clock
begin

text \<open>
  What the effective clock promises: neither it nor the mark goes back, a wall clock that jumps cannot push it
  forward, and a repair hands out its credential before it commits.
\<close>

section \<open>Runs\<close>

text \<open>
  A run keeps the commands the monitor has given out; only these can be completed, since no other code
  constructs one.
\<close>

datatype clock_call =
    CkObserve clock_reading
  | CkApplicationCommit duration
  | CkCleanShutdown duration
  | CkIdleCheckpoint duration
  | CkPoll duration
  | CkComplete nat bool

definition issued_command :: "(watermark_command, clock_error) result \<Rightarrow> watermark_command list" where
  "issued_command r = (case r of Ok command \<Rightarrow> [command] | Err _ \<Rightarrow> [])"

definition submitted :: "(checkpoint_request, clock_error) result \<Rightarrow> watermark_command list" where
  "submitted r = (case r of Ok (Submit command) \<Rightarrow> [command] | _ \<Rightarrow> [])"

primrec clock_apply :: "clock_call \<Rightarrow> clock_monitor \<times> watermark_command list \<Rightarrow> clock_monitor \<times> watermark_command list" where
  "clock_apply (CkObserve reading) s = (snd (clock_observe reading (fst s)), snd s)"
| "clock_apply (CkApplicationCommit now) s = (fst s, snd s @ issued_command (application_commit now (fst s)))"
| "clock_apply (CkCleanShutdown now) s = (fst s, snd s @ issued_command (clean_shutdown now (fst s)))"
| "clock_apply (CkIdleCheckpoint now) s =
     (case idle_checkpoint now (fst s) of (r, m) \<Rightarrow> (m, snd s @ submitted r))"
| "clock_apply (CkPoll now) s = (snd (poll_checkpoint_deadline now (fst s)), snd s)"
| "clock_apply (CkComplete n committed) s =
     (if n < length (snd s) then snd (complete_watermark (snd s ! n) committed (fst s)) else fst s, snd s)"

definition clock_run :: "clock_call list \<Rightarrow> clock_monitor \<Rightarrow> clock_monitor \<times> watermark_command list" where
  "clock_run calls m = foldl (\<lambda>s call. clock_apply call s) (m, []) calls"

text \<open>
  The effective time a monitor may have reached by the reading \<open>now\<close> of the monotonic clock.
\<close>

definition clock_ceiling :: "u64 \<Rightarrow> clock_monitor \<Rightarrow> duration \<Rightarrow> nat" where
  "clock_ceiling start m now =
     max (unat start) (unat (cm_anchor_wall m) + (now - cm_anchor_monotonic m) div NANOS + 2)"

definition clock_forward :: "clock_monitor \<Rightarrow> clock_monitor \<Rightarrow> bool" where
  "clock_forward m m' \<longleftrightarrow> cm_anchor_wall m' = cm_anchor_wall m \<and> cm_anchor_monotonic m' = cm_anchor_monotonic m
     \<and> cm_effective m \<le> cm_effective m' \<and> cm_persisted m \<le> cm_persisted m'"

definition clock_ok :: "clock_monitor \<times> watermark_command list \<Rightarrow> bool" where
  "clock_ok s \<longleftrightarrow> cm_persisted (fst s) \<le> cm_effective (fst s)
     \<and> (\<forall>command\<in>set (snd s). wc_replacement_high_water_unix_seconds command \<le> cm_effective (fst s)
          \<and> wc_expected_high_water_unix_seconds command \<le> wc_replacement_high_water_unix_seconds command)"

lemma clock_forward_refl: "clock_forward m m" and
  clock_forward_trans: "clock_forward m m' \<Longrightarrow> clock_forward m' m'' \<Longrightarrow> clock_forward m m''"
  by (auto simp: clock_forward_def)

section \<open>One observation\<close>

lemma clock_settle_fields [simp]:
  "cm_effective (clock_settle now m) = cm_effective m" "cm_persisted (clock_settle now m) = cm_persisted m"
  "cm_anchor_wall (clock_settle now m) = cm_anchor_wall m" "cm_anchor_monotonic (clock_settle now m) = cm_anchor_monotonic m"
  "cm_pending_checkpoint (clock_settle now m) = cm_pending_checkpoint m"
  by (simp_all add: clock_settle_def Let_def)

lemma clock_observe_fields:
  "cm_persisted (snd (clock_observe reading m)) = cm_persisted m"
  "clock_forward m (snd (clock_observe reading m))"
  by (auto simp: clock_observe_def clock_forward_def Let_def max_def split: option.split)

lemma unat_max: "unat (max a b) = max (unat a) (unat b)"
  by (simp add: max_def word_le_nat_alt)

lemma unat_as_secs: "unat (as_secs d) \<le> d div NANOS"
  by (simp add: as_secs_def unat_of_nat)

lemma abs_diff_le: "abs_diff a b \<le> c \<Longrightarrow> unat a \<le> unat b + unat c"
  by (auto simp: abs_diff_def word_le_nat_alt unat_sub word_less_nat_alt split: if_splits)

lemma clock_observe_ceiling:
  assumes "unat (cm_effective m) \<le> clock_ceiling start m now" and "cr_monotonic reading \<le> now"
  shows "unat (cm_effective (snd (clock_observe reading m))) \<le> clock_ceiling start m now"
proof (cases "cm_anchor_monotonic m \<le> cr_monotonic reading")
  case True
  define elapsed where "elapsed = cr_monotonic reading - cm_anchor_monotonic m"
  define expected where "expected = saturating_add (cm_anchor_wall m) (as_secs elapsed)"
  have "elapsed div NANOS \<le> (now - cm_anchor_monotonic m) div NANOS"
    using assms(2) by (simp add: elapsed_def div_le_mono diff_le_mono)
  then have expected: "unat expected \<le> unat (cm_anchor_wall m) + (now - cm_anchor_monotonic m) div NANOS"
    using unat_as_secs [of elapsed] by (simp add: expected_def saturating_add_unat min_def)
  have wall: "unat (cr_wall_unix_seconds reading) \<le> unat expected + 2"
    if "\<not> 2 < abs_diff (cr_wall_unix_seconds reading) expected"
    using that abs_diff_le [of _ expected 2] by simp
  show ?thesis
    using True assms(1) expected wall
    by (auto simp: clock_observe_def Let_def duration_checked_sub_def clock_ceiling_def unat_max
        simp flip: elapsed_def expected_def)
qed (use assms in \<open>simp add: clock_observe_def Let_def duration_checked_sub_def\<close>)

section \<open>One call\<close>

lemma complete_watermark_forward:
  assumes "cm_persisted m \<le> cm_effective m" and "wc_replacement_high_water_unix_seconds command \<le> cm_effective m"
  shows "clock_forward m (snd (complete_watermark command committed m))
    \<and> cm_effective (snd (complete_watermark command committed m)) = cm_effective m
    \<and> cm_persisted (snd (complete_watermark command committed m)) \<le> cm_effective m"
  using assms by (auto simp: complete_watermark_def clock_forward_def Let_def split: option.split)

lemma clock_command_Ok:
  "clock_command kind now m = Ok command \<Longrightarrow> cm_persisted m \<le> cm_effective m \<Longrightarrow>
     wc_replacement_high_water_unix_seconds command = cm_effective m \<and> wc_expected_high_water_unix_seconds command = cm_persisted m"
  by (auto simp: clock_command_def max_def split: if_splits)

lemma idle_checkpoint_cases:
  "idle_checkpoint now m = (r, m') \<Longrightarrow>
     submitted r = [] \<and> cm_effective m' = cm_effective m \<and> clock_forward m m' \<and> cm_persisted m' = cm_persisted m
     \<or> (\<exists>command. submitted r = [command] \<and> clock_command IdleCheckpoint now m = Ok command
          \<and> cm_effective m' = cm_effective m \<and> clock_forward m m' \<and> cm_persisted m' = cm_persisted m)"
  by (auto simp: idle_checkpoint_def poll_checkpoint_deadline_def sbind_def submitted_def clock_forward_def
      split: option.splits if_splits result.splits)

lemma clock_apply_ok:
  assumes "clock_ok s"
  shows "clock_ok (clock_apply call s) \<and> clock_forward (fst s) (fst (clock_apply call s))"
proof (cases call)
  case (CkObserve reading)
  then show ?thesis using assms clock_observe_fields(1) [of reading "fst s"] clock_observe_fields(2) [of "fst s" reading]
    by (fastforce simp: clock_ok_def clock_forward_def)
next
  case (CkIdleCheckpoint now)
  obtain r m' where "idle_checkpoint now (fst s) = (r, m')" by fastforce
  with idle_checkpoint_cases [OF this] CkIdleCheckpoint assms clock_command_Ok show ?thesis
    by (fastforce simp: clock_ok_def)
next
  case (CkComplete n committed)
  then show ?thesis
    using assms complete_watermark_forward [of "fst s" "snd s ! n" committed] nth_mem [of n "snd s"]
    by (auto simp: clock_ok_def clock_forward_refl)
next
  case (CkPoll now)
  then show ?thesis using assms
    by (auto simp: clock_ok_def clock_forward_def poll_checkpoint_deadline_def split: option.split)
qed (use assms clock_command_Ok in
    \<open>fastforce simp: clock_ok_def clock_forward_refl issued_command_def application_commit_def clean_shutdown_def
       split: result.splits\<close>)+

definition observed :: "clock_call list \<Rightarrow> clock_reading list" where
  "observed calls = concat (map (\<lambda>call. case call of CkObserve reading \<Rightarrow> [reading] | _ \<Rightarrow> []) calls)"

lemma clock_run_ok:
  assumes "clock_ok s"
  shows "clock_ok (foldl (\<lambda>s call. clock_apply call s) s calls)
    \<and> clock_forward (fst s) (fst (foldl (\<lambda>s call. clock_apply call s) s calls))"
  using assms
proof (induction calls arbitrary: s)
  case (Cons call calls)
  then show ?case using clock_apply_ok [OF Cons.prems, of call] Cons.IH [of "clock_apply call s"]
    by (simp add: clock_forward_trans [of "fst s" "fst (clock_apply call s)"])
qed (simp add: clock_forward_refl)

lemma clock_apply_ceiling:
  assumes "clock_ok s" and "unat (cm_effective (fst s)) \<le> clock_ceiling start (fst s) now"
    and "\<And>reading. call = CkObserve reading \<Longrightarrow> cr_monotonic reading \<le> now"
  shows "unat (cm_effective (fst (clock_apply call s))) \<le> clock_ceiling start (fst (clock_apply call s)) now"
proof -
  have anchors: "clock_ceiling start (fst (clock_apply call s)) now = clock_ceiling start (fst s) now"
    using clock_apply_ok [OF assms(1), of call] by (simp add: clock_forward_def clock_ceiling_def)
  moreover have "cm_effective (fst (clock_apply call s)) = cm_effective (fst s)" if "\<nexists>reading. call = CkObserve reading"
    using that assms(1) complete_watermark_forward [of "fst s"] idle_checkpoint_cases [of _ "fst s"]
    by (cases call) (auto simp: poll_checkpoint_deadline_def clock_ok_def split: option.split prod.split, fastforce+)
  moreover have ?thesis if "call = CkObserve reading" for reading
    using anchors clock_observe_ceiling [OF assms(2)] assms(3) that by auto
  ultimately show ?thesis using assms(2) by metis
qed

lemma clock_run_ceiling:
  assumes "clock_ok s" and "unat (cm_effective (fst s)) \<le> clock_ceiling start (fst s) now"
    and "\<forall>reading\<in>set (observed calls). cr_monotonic reading \<le> now"
  shows "unat (cm_effective (fst (foldl (\<lambda>s call. clock_apply call s) s calls))) \<le> clock_ceiling start (fst s) now"
  using assms
proof (induction calls arbitrary: s)
  case (Cons call calls)
  have "\<forall>reading\<in>set (observed calls). cr_monotonic reading \<le> now"
    and "cr_monotonic reading \<le> now" if "call = CkObserve reading" for reading
    using Cons.prems(3) that by (auto simp: observed_def)
  moreover have "clock_ok (clock_apply call s)"
    and "clock_ceiling start (fst (clock_apply call s)) now = clock_ceiling start (fst s) now"
    using clock_apply_ok [OF Cons.prems(1), of call] by (simp_all add: clock_forward_def clock_ceiling_def)
  ultimately show ?case
    using Cons.IH [of "clock_apply call s"] clock_apply_ceiling [OF Cons.prems(1,2), of call] Cons.prems(3)
    by (auto simp: observed_def)
qed simp

lemma clock_boot_Ok:
  "clock_boot reading mark allow audit a = (Ok m, a') \<Longrightarrow>
     cm_persisted m = mark \<and> cm_effective m = max (cr_wall_unix_seconds reading) mark
     \<and> cm_anchor_wall m = cr_wall_unix_seconds reading \<and> cm_anchor_monotonic m = cr_monotonic reading
     \<and> unat mark \<le> unat (cr_wall_unix_seconds reading) + (if allow then 86400 else 2)"
  by (auto simp: clock_boot_def Let_def word_less_nat_alt saturating_sub_unat not_less split: if_splits prod.splits)

text \<open>
  C39: Effective time never runs back and cannot be pushed. From a boot that accepted the persisted mark, whatever
  clock readings, commit commands, checkpoints, deadlines and completions follow: the
  mark and the effective time only grow, the mark starts at the persisted one and never passes the effective
  time, no command ever given out would move the mark past the effective time, and however the wall clock
  jumps, the effective time stays within the start time and the wall clock at boot plus the
  monotonic time elapsed plus two seconds. A boot never accepts a mark more than a day ahead of the wall clock, nor without
  the override one more than two seconds ahead.
\<close>

theorem clock_runs:
  assumes "clock_boot reading mark allow audit a = (Ok start, a')"
    and "clock_run calls start = (m, issued)" and "clock_run (calls @ later) start = (m', issued')"
    and "\<forall>r\<in>set (observed calls). cr_monotonic r \<le> now"
  shows "mark \<le> cm_persisted m \<and> cm_persisted m \<le> cm_effective m
    \<and> cm_persisted m \<le> cm_persisted m' \<and> cm_effective m \<le> cm_effective m'
    \<and> (\<forall>command\<in>set issued. wc_replacement_high_water_unix_seconds command \<le> cm_effective m)
    \<and> unat (cm_effective m) \<le> max (unat (max (cr_wall_unix_seconds reading) mark))
        (unat (cr_wall_unix_seconds reading) + (now - cr_monotonic reading) div 1000000000 + 2)
    \<and> unat mark \<le> unat (cr_wall_unix_seconds reading) + (if allow then 86400 else 2)"
proof -
  note boot = clock_boot_Ok [OF assms(1)]
  have ok: "clock_ok (start, [])" using boot by (simp add: clock_ok_def)
  have m: "clock_ok (m, issued)" "clock_forward start m"
    using clock_run_ok [OF ok, of calls] assms(2) by (simp_all add: clock_run_def)
  have "clock_forward m m'"
    using clock_run_ok [OF m(1), of later] assms(2,3) by (simp add: clock_run_def)
  moreover have "unat (cm_effective m) \<le> clock_ceiling (cm_effective start) start now"
    using clock_run_ceiling [OF ok, of "cm_effective start" now calls] assms(2,4)
    by (simp add: clock_run_def clock_ceiling_def)
  ultimately show ?thesis using m boot by (auto simp: clock_ok_def clock_forward_def clock_ceiling_def)
qed

definition sample_reading :: "u64 \<Rightarrow> duration \<Rightarrow> clock_reading" where
  "sample_reading wall seconds = \<lparr>cr_wall_unix_seconds = wall, cr_monotonic = from_secs seconds\<rparr>"

definition sample_clock_calls :: "clock_call list" where
  "sample_clock_calls = [CkObserve (sample_reading 1012 10), CkApplicationCommit (from_secs 11), CkComplete 0 True,
     CkObserve (sample_reading 9000 20)]"

theorem clock_runs_witness:
  "\<exists>start m issued. clock_boot (sample_reading 1000 0) 1002 False (\<lambda>_ u. (True, u)) () = (Ok start, ())
     \<and> clock_run sample_clock_calls start = (m, issued) \<and> cm_persisted m = 1012 \<and> cm_effective m = 1020
     \<and> cm_safety m = ClockUnsafe \<and> unat (cm_effective m) \<le> 1022"
proof -
  define start where "start = \<lparr>cm_anchor_wall = 1000, cm_anchor_monotonic = 0, cm_effective = 1002, cm_persisted = 1002,
    cm_safety = ClockReady, cm_agreement_since = None, cm_last_durable_monotonic = 0, cm_pending_checkpoint = None\<rparr>"
  define command where "command = \<lparr>wc_expected_high_water_unix_seconds = 1002, wc_replacement_high_water_unix_seconds = 1012,
    wc_effective_unix_seconds = 1012, wc_kind = ApplicationCommit, wc_issued_at = from_secs 11,
    wc_deadline = duration_saturating_add (from_secs 11) CHECKPOINT_COMMIT_DEADLINE\<rparr>"
  define m where "m = start\<lparr>cm_effective := 1020, cm_persisted := 1012, cm_last_durable_monotonic := from_secs 11,
    cm_safety := ClockUnsafe\<rparr>"
  have boot: "clock_boot (sample_reading 1000 0) 1002 False (\<lambda>_ u. (True, u)) () = (Ok start, ())"
    by (simp add: clock_boot_def sample_reading_def start_def saturating_sub_def from_secs_def)
  have "snd (clock_observe (sample_reading 1012 10) start) = start\<lparr>cm_effective := 1012\<rparr>"
    by (simp add: clock_observe_def start_def duration_checked_sub_def sample_reading_def from_secs_def as_secs_def
        saturating_add_def abs_diff_def clock_settle_def CLOCK_TOLERANCE_def Let_def max_def)
  moreover have "application_commit (from_secs 11) (start\<lparr>cm_effective := 1012\<rparr>) = Ok command"
    by (simp add: application_commit_def clock_command_def start_def command_def max_def)
  moreover have "snd (complete_watermark command True (start\<lparr>cm_effective := 1012\<rparr>))
      = start\<lparr>cm_effective := 1012, cm_persisted := 1012, cm_last_durable_monotonic := from_secs 11\<rparr>"
    by (simp add: complete_watermark_def command_def start_def)
  moreover have "snd (clock_observe (sample_reading 9000 20)
      (start\<lparr>cm_effective := 1012, cm_persisted := 1012, cm_last_durable_monotonic := from_secs 11\<rparr>)) = m"
    by (simp add: clock_observe_def start_def m_def duration_checked_sub_def sample_reading_def from_secs_def as_secs_def
        saturating_add_def abs_diff_def CLOCK_TOLERANCE_def Let_def max_def)
  ultimately have run: "clock_run sample_clock_calls start = (m, [command])"
    by (simp add: clock_run_def sample_clock_calls_def issued_command_def)
  have "\<forall>r\<in>set (observed sample_clock_calls). cr_monotonic r \<le> from_secs 20"
    by (simp add: observed_def sample_clock_calls_def sample_reading_def from_secs_def)
  with clock_runs [OF boot run, of "[]" m "[command]" "from_secs 20"] run have "unat (cm_effective m) \<le> 1022"
    by (simp add: sample_reading_def from_secs_def)
  moreover have "cm_persisted m = 1012 \<and> cm_effective m = 1020 \<and> cm_safety m = ClockUnsafe"
    by (simp add: m_def)
  ultimately show ?thesis using boot run by blast
qed

section \<open>Settling and repair\<close>

lemma ready_after_settle:
  assumes "cm_safety m \<noteq> ClockReady" and "cm_safety (snd (clock_observe reading m)) = ClockReady"
  shows "\<exists>t. cm_agreement_since m = Some t \<and> CLOCK_SETTLE_PERIOD \<le> cr_monotonic reading - t"
  using assms
  by (auto simp: clock_observe_def clock_settle_def Let_def CLOCK_SETTLE_PERIOD_def from_secs_def
      split: option.splits if_splits)

lemma on_backend_Ok: "on_backend f e s = (Ok a, s') \<longleftrightarrow> f (fst s) = (Some a, fst s') \<and> snd s' = snd s"
  by (cases "f (fst s)"; cases "fst (f (fst s))"; cases s') (auto simp: on_backend_def ok_or_def)

lemma on_sink_Ok: "on_sink f s = (Ok u, s') \<longleftrightarrow> f (snd s) = (True, snd s') \<and> fst s' = fst s"
  by (cases "f (snd s)"; cases s') (auto simp: on_sink_def)

lemma committed_Some:
  "(case p of (committed, b) \<Rightarrow> (if committed then Some () else None, b)) = (Some u, b') \<longleftrightarrow> p = (True, b')"
  by (cases p) auto

lemma repair_clock_Ok:
  assumes "repair_clock backend sink request wall (b, w) = (Ok receipt, (b', w'))"
  shows "\<exists>b1 prepared b2 w1 w2. current_high_water backend b = (Some (rr_exact_old_high_water_unix_seconds request), b1)
    \<and> prepare_clock_repair backend request b1 = (Some prepared, b2)
    \<and> sink_write_all sink (pr_replacement_credential prepared) w = (True, w1) \<and> sink_write_all sink [10] w1 = (True, w2)
    \<and> sink_flush sink w2 = (True, w') \<and> commit_clock_repair backend (pr_transaction prepared) b2 = (True, b')
    \<and> cp_replacement_epoch receipt = pr_replacement_epoch prepared"
  using assms unfolding repair_clock_def
  by (simp add: on_backend_Ok on_sink_Ok committed_Some split: if_splits) (elim exE conjE, fastforce)

end
