(* ===== verification/Proxy.thy ===== *)
theory Proxy
  imports Json_Values
begin

text \<open>
  Listener policy and client attribution (\<open>proxy.rs\<close>). IP addresses are the words of \<open>std::net\<close>; the text forms
  the code relies on, \<open>Display\<close> and \<open>FromStr\<close> of \<open>IpAddr\<close>, are written out.
\<close>

section \<open>Addresses\<close>

datatype ip_addr = V4 u32 | V6 id16

record socket_addr =
  sa_ip :: ip_addr
  sa_port :: u16

definition v4_octets :: "u32 \<Rightarrow> bytes" where
  "v4_octets a = be_bytes 4 a"

definition v6_octets :: "id16 \<Rightarrow> bytes" where
  "v6_octets a = be_bytes 16 a"

fun pairs_be :: "bytes \<Rightarrow> u16 list" where
  "pairs_be (a # b # bs) = of_be_bytes [a, b] # pairs_be bs"
| "pairs_be _ = []"

definition v6_segments :: "id16 \<Rightarrow> u16 list" where
  "v6_segments a = pairs_be (v6_octets a)"

definition v6_of_segments :: "u16 list \<Rightarrow> id16" where
  "v6_of_segments segments = of_be_bytes (concat (map (be_bytes 2) segments))"

definition to_ipv4_mapped :: "id16 \<Rightarrow> u32 option" where
  "to_ipv4_mapped a =
     (if take 12 (v6_octets a) = replicate 10 0 @ [0xFF, 0xFF] then Some (of_be_bytes (drop 12 (v6_octets a))) else None)"

definition v4_is_loopback :: "u32 \<Rightarrow> bool" where
  "v4_is_loopback a \<longleftrightarrow> hd (v4_octets a) = 127"

definition is_loopback :: "ip_addr \<Rightarrow> bool" where
  "is_loopback address =
     (case address of
        V4 a \<Rightarrow> v4_is_loopback a
      | V6 a \<Rightarrow> (case to_ipv4_mapped a of Some mapped \<Rightarrow> v4_is_loopback mapped | None \<Rightarrow> False) \<or> a = 1)"

section \<open>Text forms\<close>

fun join_with :: "string \<Rightarrow> string list \<Rightarrow> string" where
  "join_with sep [] = []"
| "join_with sep [s] = s"
| "join_with sep (s # t # ss) = s @ sep @ join_with sep (t # ss)"

definition v4_to_string :: "u32 \<Rightarrow> string" where
  "v4_to_string a = join_with ''.'' (map (\<lambda>b. nat_to_string (unat b)) (v4_octets a))"

definition hex_digit :: "nat \<Rightarrow> char" where
  "hex_digit d = char_of (if d < 10 then d + 48 else d + 87)"

fun nat_to_hex :: "nat \<Rightarrow> string" where
  "nat_to_hex n = (if n < 16 then [hex_digit n] else nat_to_hex (n div 16) @ [hex_digit (n mod 16)])"

declare nat_to_hex.simps [simp del]

text \<open>The first longest run of zero segments, as start and length.\<close>

definition zero_span_step :: "(nat \<times> nat) \<times> (nat \<times> nat) \<Rightarrow> nat \<times> u16 \<Rightarrow> (nat \<times> nat) \<times> (nat \<times> nat)" where
  "zero_span_step s e =
     (let ((longest_start, longest_len), (start, len)) = s; (i, segment) = e
      in if segment = 0
         then let start = (if len = 0 then i else start); len = Suc len
              in (if len > longest_len then (start, len) else (longest_start, longest_len), (start, len))
         else ((longest_start, longest_len), (0, 0)))"

definition zero_span :: "u16 list \<Rightarrow> nat \<times> nat" where
  "zero_span segments = fst (foldl zero_span_step ((0, 0), (0, 0)) (enumerate 0 segments))"

definition fmt_subslice :: "u16 list \<Rightarrow> string" where
  "fmt_subslice chunk = join_with '':'' (map (\<lambda>s. nat_to_hex (unat s)) chunk)"

definition v6_to_string :: "id16 \<Rightarrow> string" where
  "v6_to_string a =
     (case to_ipv4_mapped a of
        Some mapped \<Rightarrow> ''::ffff:'' @ v4_to_string mapped
      | None \<Rightarrow>
          let segments = v6_segments a; (start, len) = zero_span segments
          in if len > 1 then fmt_subslice (take start segments) @ ''::'' @ fmt_subslice (drop (start + len) segments)
             else fmt_subslice segments)"

definition ip_to_string :: "ip_addr \<Rightarrow> string" where
  "ip_to_string address = (case address of V4 a \<Rightarrow> v4_to_string a | V6 a \<Rightarrow> v6_to_string a)"

definition to_digit :: "nat \<Rightarrow> char \<Rightarrow> nat option" where
  "to_digit radix c =
     (let n = of_char c :: nat;
          d = (if 48 \<le> n \<and> n \<le> 57 then n - 48
               else if 97 \<le> n \<and> n \<le> 122 then n - 87
               else if 65 \<le> n \<and> n \<le> 90 then n - 55 else radix)
      in if d < radix then Some d else None)"

type_synonym 'a parser = "string \<Rightarrow> ('a \<times> string) option"

definition read_number :: "nat \<Rightarrow> nat \<Rightarrow> bool \<Rightarrow> nat \<Rightarrow> nat parser" where
  "read_number radix max_digits allow_zero_prefix bound s =
     (let digits = takeWhile (\<lambda>c. to_digit radix c \<noteq> None) s;
          value = foldl (\<lambda>v c. v * radix + the (to_digit radix c)) 0 digits
      in if max_digits < length digits \<or> digits = [] \<or> bound \<le> value
            \<or> \<not> allow_zero_prefix \<and> hd s = CHR ''0'' \<and> 1 < length digits
         then None else Some (value, drop (length digits) s))"

definition read_given_char :: "char \<Rightarrow> unit parser" where
  "read_given_char c s = (case s of x # xs \<Rightarrow> if x = c then Some ((), xs) else None | [] \<Rightarrow> None)"

definition read_separator :: "char \<Rightarrow> nat \<Rightarrow> 'a parser \<Rightarrow> 'a parser" where
  "read_separator sep index inner s =
     (if index = 0 then inner s
      else case read_given_char sep s of None \<Rightarrow> None | Some (_, s') \<Rightarrow> inner s')"

primrec read_octets :: "nat \<Rightarrow> nat \<Rightarrow> bytes parser" where
  "read_octets 0 i s = Some ([], s)"
| "read_octets (Suc n) i s =
     (case read_separator CHR ''.'' i (read_number 10 3 False 256) s of
        None \<Rightarrow> None
      | Some (g, s') \<Rightarrow> (case read_octets n (Suc i) s' of None \<Rightarrow> None | Some (gs, s'') \<Rightarrow> Some (word_of_nat g # gs, s'')))"

definition read_ipv4_addr :: "bytes parser" where
  "read_ipv4_addr s = read_octets 4 0 s"

text \<open>
  \<open>read_groups\<close> reads up to \<open>n\<close> further groups, the next being number \<open>i\<close>; the flag tells that the last two
  came from an embedded IPv4 address.
\<close>

primrec read_groups :: "nat \<Rightarrow> nat \<Rightarrow> string \<Rightarrow> (u16 list \<times> bool) \<times> string" where
  "read_groups 0 i s = (([], False), s)"
| "read_groups (Suc n) i s =
     (case (if 0 < n then read_separator CHR '':'' i read_ipv4_addr s else None) of
        Some (octets, s') \<Rightarrow> ((pairs_be octets, True), s')
      | None \<Rightarrow>
          (case read_separator CHR '':'' i (read_number 16 4 True 65536) s of
             None \<Rightarrow> (([], False), s)
           | Some (g, s') \<Rightarrow>
               (case read_groups n (Suc i) s' of ((gs, embedded), s'') \<Rightarrow> ((word_of_nat g # gs, embedded), s''))))"

definition read_ipv6_addr :: "id16 parser" where
  "read_ipv6_addr s =
     (case read_groups 8 0 s of
        ((head, embedded), s1) \<Rightarrow>
          if length head = 8 then Some (v6_of_segments head, s1)
          else if embedded then None
          else case read_given_char CHR '':'' s1 of None \<Rightarrow> None | Some (_, s2) \<Rightarrow>
               (case read_given_char CHR '':'' s2 of None \<Rightarrow> None | Some (_, s3) \<Rightarrow>
               (case read_groups (8 - (length head + 1)) 0 s3 of
                  ((tail, _), s4) \<Rightarrow>
                    Some (v6_of_segments (head @ replicate (8 - length head - length tail) 0 @ tail), s4))))"

definition ip_parse :: "string \<Rightarrow> ip_addr option" where
  "ip_parse s =
     (case (case read_ipv4_addr s of
              Some (octets, s') \<Rightarrow> Some (V4 (of_be_bytes octets), s')
            | None \<Rightarrow> map_option (\<lambda>(a, s'). (V6 a, s')) (read_ipv6_addr s)) of
        Some (address, []) \<Rightarrow> Some address
      | _ \<Rightarrow> None)"

section \<open>Listener policy\<close>

datatype listener_type = Direct | ReverseProxyTcp ip_addr | ReverseProxyUnix u32
datatype transport_security = Plaintext | Tls
datatype bind_policy_error =
    NoResolvedAddress | RemotePlaintext | ProxyBackendNotLoopback | ProxyPeerNotLoopback | UnixListenerHasTcpAddress

definition validate_resolved_tcp_addresses ::
  "socket_addr list \<Rightarrow> transport_security \<Rightarrow> listener_type \<Rightarrow> (unit, bind_policy_error) result" where
  "validate_resolved_tcp_addresses addresses security listener =
     (let remote = list_ex (\<lambda>address. \<not> is_loopback (sa_ip address)) addresses
      in case listener of
           ReverseProxyUnix _ \<Rightarrow> if addresses = [] then Ok () else Err UnixListenerHasTcpAddress
         | Direct \<Rightarrow>
             if addresses = [] then Err NoResolvedAddress
             else if security = Plaintext \<and> remote then Err RemotePlaintext
             else Ok ()
         | ReverseProxyTcp trusted_peer \<Rightarrow>
             if addresses = [] then Err NoResolvedAddress
             else if \<not> is_loopback trusted_peer then Err ProxyPeerNotLoopback
             else if remote then Err ProxyBackendNotLoopback
             else Ok ())"

section \<open>Client attribution\<close>

datatype peer_identity = PeerTcp socket_addr | PeerUnix u32
datatype forwarded_source_error =
    PeerKindMismatch | UntrustedUnixPeer | ForwardedMissing | ForwardedDuplicate | ForwardedInvalidEncoding
  | ForwardedNonCanonical

text \<open>Headers are name and value in order of arrival, names in lower case as \<open>HeaderMap\<close> keeps them.\<close>

type_synonym headers = "(string \<times> string) list"

definition header_values :: "string \<Rightarrow> headers \<Rightarrow> string list" where
  "header_values name headers = map snd (filter (\<lambda>h. fst h = name) headers)"

definition header_to_str :: "string \<Rightarrow> string option" where
  "header_to_str value =
     (if list_all (\<lambda>c. let n = of_char c :: nat in 32 \<le> n \<and> n < 127 \<or> n = 9) value then Some value else None)"

definition parse_forwarded_source :: "headers \<Rightarrow> (ip_addr, forwarded_source_error) result" where
  "parse_forwarded_source headers =
     (case header_values ''x-forwarded-for'' headers of
        [] \<Rightarrow> Err ForwardedMissing
      | [raw] \<Rightarrow>
          (case header_to_str raw of
             None \<Rightarrow> Err ForwardedInvalidEncoding
           | Some value \<Rightarrow>
               if CHR '','' \<in> set value then Err ForwardedNonCanonical
               else (case ip_parse value of
                       None \<Rightarrow> Err ForwardedNonCanonical
                     | Some address \<Rightarrow>
                         if ip_to_string address \<noteq> value then Err ForwardedNonCanonical else Ok address))
      | _ \<Rightarrow> Err ForwardedDuplicate)"

definition resolve_client_source ::
  "listener_type \<Rightarrow> peer_identity \<Rightarrow> headers \<Rightarrow> (ip_addr, forwarded_source_error) result" where
  "resolve_client_source listener peer headers =
     (case (listener, peer) of
        (Direct, PeerTcp p) \<Rightarrow> Ok (sa_ip p)
      | (ReverseProxyTcp trusted_peer, PeerTcp observed_peer) \<Rightarrow>
          if sa_ip observed_peer \<noteq> trusted_peer then Ok (sa_ip observed_peer) else parse_forwarded_source headers
      | (ReverseProxyUnix trusted_uid, PeerUnix uid) \<Rightarrow>
          if uid = trusted_uid then parse_forwarded_source headers else Err UntrustedUnixPeer
      | _ \<Rightarrow> Err PeerKindMismatch)"

section \<open>What the policy gives\<close>

lemma plaintext_stays_local:
  "validate_resolved_tcp_addresses addresses Plaintext listener = Ok () \<Longrightarrow>
     list_all (\<lambda>address. is_loopback (sa_ip address)) addresses"
  by (auto simp: validate_resolved_tcp_addresses_def Let_def list_all_iff list_ex_iff split: listener_type.splits if_splits)

lemma proxy_backend_local:
  "validate_resolved_tcp_addresses addresses security (ReverseProxyTcp peer) = Ok () \<Longrightarrow>
     addresses \<noteq> [] \<and> is_loopback peer \<and> list_all (\<lambda>address. is_loopback (sa_ip address)) addresses"
  by (auto simp: validate_resolved_tcp_addresses_def Let_def list_all_iff list_ex_iff split: if_splits)

lemma forwarded_source_canonical:
  "parse_forwarded_source headers = Ok address \<Longrightarrow>
     header_values ''x-forwarded-for'' headers = [ip_to_string address]"
  by (auto simp: parse_forwarded_source_def header_to_str_def split: list.splits option.splits if_splits)

text \<open>A client can pick its own source only through the one peer the listener trusts.\<close>

lemma client_source_attributed:
  assumes "resolve_client_source listener peer headers = Ok address"
  shows "peer = PeerTcp p \<Longrightarrow> address = sa_ip p \<or>
      listener = ReverseProxyTcp (sa_ip p) \<and> header_values ''x-forwarded-for'' headers = [ip_to_string address]"
    and "peer = PeerUnix uid \<Longrightarrow>
      listener = ReverseProxyUnix uid \<and> header_values ''x-forwarded-for'' headers = [ip_to_string address]"
  using assms forwarded_source_canonical
  by (auto simp: resolve_client_source_def split: listener_type.splits if_splits)

end
