(* ===== verification/Rate_Limit.thy ===== *)
theory Rate_Limit
  imports Proxy Kv_Http
begin

text \<open>
  Request limiting with fixed memory (\<open>rate_limit.rs\<close>): windows of attempts per shard, bounded accounting of
  dropped requests, and the two guards in front of the handlers. The state behind the lock, the
  semaphore and the state of the guarded handler are threaded explicitly; the reading of the monotonic
  clock is an argument, and the keyed hash that assigns the shards is a parameter.
\<close>

section \<open>Configuration\<close>

datatype unauthenticated_class = UcLogin | UcProbe
datatype drop_reason = DropRate | DropOversize | DropMalformed | DropConcurrency
datatype aggregate_class = AgLogin | AgProbe | AgAuthenticated | AgOverflow

primrec drop_reason_rank :: "drop_reason \<Rightarrow> nat" where
  "drop_reason_rank DropRate = 0"
| "drop_reason_rank DropOversize = 1"
| "drop_reason_rank DropMalformed = 2"
| "drop_reason_rank DropConcurrency = 3"

primrec aggregate_class_rank :: "aggregate_class \<Rightarrow> nat" where
  "aggregate_class_rank AgLogin = 0"
| "aggregate_class_rank AgProbe = 1"
| "aggregate_class_rank AgAuthenticated = 2"
| "aggregate_class_rank AgOverflow = 3"

text \<open>The derived orders are the orders of the constructors.\<close>

lemma rank_inject:
  "drop_reason_rank a = drop_reason_rank b \<longleftrightarrow> a = b" "aggregate_class_rank c = aggregate_class_rank d \<longleftrightarrow> c = d"
  by (cases a; cases b; simp) (cases c; cases d; simp)

instantiation drop_reason :: linorder
begin

definition less_eq_drop_reason :: "drop_reason \<Rightarrow> drop_reason \<Rightarrow> bool" where
  "less_eq_drop_reason a b \<longleftrightarrow> drop_reason_rank a \<le> drop_reason_rank b"

definition less_drop_reason :: "drop_reason \<Rightarrow> drop_reason \<Rightarrow> bool" where
  "less_drop_reason a b \<longleftrightarrow> drop_reason_rank a < drop_reason_rank b"

instance
  by intro_classes (auto simp: less_eq_drop_reason_def less_drop_reason_def simp flip: rank_inject)

end

instantiation aggregate_class :: linorder
begin

definition less_eq_aggregate_class :: "aggregate_class \<Rightarrow> aggregate_class \<Rightarrow> bool" where
  "less_eq_aggregate_class a b \<longleftrightarrow> aggregate_class_rank a \<le> aggregate_class_rank b"

definition less_aggregate_class :: "aggregate_class \<Rightarrow> aggregate_class \<Rightarrow> bool" where
  "less_aggregate_class a b \<longleftrightarrow> aggregate_class_rank a < aggregate_class_rank b"

instance
  by intro_classes (auto simp: less_eq_aggregate_class_def less_aggregate_class_def simp flip: rank_inject)

end

record drop_aggregate =
  da_class :: aggregate_class
  da_reason :: drop_reason
  da_bucket_id :: u16
  da_count :: u64
  da_window_start_milliseconds :: u64
  da_window_end_milliseconds :: u64

record rate_limit_config =
  rl_window_milliseconds :: u64
  rl_global_attempts :: u32
  rl_login_attempts :: u32
  rl_probe_attempts :: u32
  rl_identity_attempts :: u32
  rl_source_shards :: nat
  rl_identity_shards :: nat
  rl_max_aggregates :: nat
  rl_unauthenticated_body_bytes :: u64
  rl_authenticated_body_bytes :: u64
  rl_authenticated_concurrency :: nat

definition rate_limit_default :: rate_limit_config where
  "rate_limit_default = \<lparr>rl_window_milliseconds = 60000, rl_global_attempts = 10000, rl_login_attempts = 20,
     rl_probe_attempts = 120, rl_identity_attempts = 600, rl_source_shards = 256, rl_identity_shards = 256,
     rl_max_aggregates = 1024, rl_unauthenticated_body_bytes = 64 * 1024, rl_authenticated_body_bytes = 1024 * 1024,
     rl_authenticated_concurrency = 128\<rparr>"

datatype rate_limit_error = RlInvalidConfig | RlRateLimited | RlOversize | RlConcurrency | RlInternal

definition rate_limit_validate :: "rate_limit_config \<Rightarrow> (rate_limit_config, rate_limit_error) result" where
  "rate_limit_validate c =
     (if rl_window_milliseconds c = 0 \<or> rl_global_attempts c = 0 \<or> rl_login_attempts c = 0
         \<or> rl_probe_attempts c = 0 \<or> rl_identity_attempts c = 0 \<or> rl_source_shards c = 0
         \<or> rl_source_shards c > 65535 \<or> rl_identity_shards c = 0 \<or> rl_identity_shards c > 65535
         \<or> rl_max_aggregates c = 0 \<or> rl_unauthenticated_body_bytes c = 0 \<or> rl_authenticated_body_bytes c = 0
         \<or> rl_authenticated_concurrency c = 0
      then Err RlInvalidConfig else Ok c)"

section \<open>The service\<close>

record bucket =
  bk_window :: u64
  bk_used :: u32

definition bucket_default :: bucket where
  "bucket_default = \<lparr>bk_window = 0, bk_used = 0\<rparr>"

text \<open>The fields of \<open>AggregateKey\<close> in the order of the derived comparison.\<close>

type_synonym aggregate_key = "aggregate_class \<times> drop_reason \<times> u16 \<times> u64"

record limiter =
  lm_config :: rate_limit_config
  lm_hash_key :: arr32
  lm_global :: bucket
  lm_login :: "bucket list"
  lm_probe :: "bucket list"
  lm_identity :: "bucket list"
  lm_aggregates :: "(aggregate_key \<times> u64) list"
  lm_permits :: nat

definition limiter_new :: "rate_limit_config \<Rightarrow> arr32 \<Rightarrow> (limiter, rate_limit_error) result" where
  "limiter_new config hash_key =
     rbind (rate_limit_validate config) (\<lambda>config.
       Ok \<lparr>lm_config = config, lm_hash_key = hash_key, lm_global = bucket_default,
           lm_login = replicate (rl_source_shards config) bucket_default,
           lm_probe = replicate (rl_source_shards config) bucket_default,
           lm_identity = replicate (rl_identity_shards config) bucket_default,
           lm_aggregates = [], lm_permits = rl_authenticated_concurrency config\<rparr>)"

definition fixed_bucket_count :: "limiter \<Rightarrow> nat" where
  "fixed_bucket_count l = 1 + rl_source_shards (lm_config l) * 2 + rl_identity_shards (lm_config l)"

definition consume :: "bucket \<Rightarrow> u64 \<Rightarrow> u32 \<Rightarrow> bool \<times> bucket" where
  "consume b window allowance =
     (let b = (if bk_window b \<noteq> window then \<lparr>bk_window = window, bk_used = 0\<rparr> else b)
      in if bk_used b \<ge> allowance then (False, b) else (True, b\<lparr>bk_used := bk_used b + 1\<rparr>))"

definition hash_bucket :: "keyed_hash \<Rightarrow> arr32 \<Rightarrow> string \<Rightarrow> bytes \<Rightarrow> nat \<Rightarrow> u16" where
  "hash_bucket keyed key domain value shards =
     word_of_nat (be_nat (rev (take 8 (be_bytes 32 (keyed key (str_bytes domain @ [0] @ value))))) mod shards)"

definition source_bucket :: "keyed_hash \<Rightarrow> limiter \<Rightarrow> ip_addr option \<Rightarrow> u16" where
  "source_bucket keyed l source =
     (case source of
        None \<Rightarrow> 0
      | Some address \<Rightarrow>
          hash_bucket keyed (lm_hash_key l) ''source'' (str_bytes (ip_to_string address)) (rl_source_shards (lm_config l)))"

definition identity_bucket :: "keyed_hash \<Rightarrow> limiter \<Rightarrow> id16 \<Rightarrow> u16" where
  "identity_bucket keyed l identity_id =
     hash_bucket keyed (lm_hash_key l) ''identity'' (be_bytes 16 identity_id) (rl_identity_shards (lm_config l))"

text \<open>\<open>*entry(key).or_insert(0) += n\<close>.\<close>

definition bt_add :: "aggregate_key \<Rightarrow> u64 \<Rightarrow> (aggregate_key \<times> u64) list \<Rightarrow> (aggregate_key \<times> u64) list" where
  "bt_add key n m = bt_insert key ((case bt_get m key of Some old \<Rightarrow> old | None \<Rightarrow> 0) + n) m"

definition record_locked :: "aggregate_class \<Rightarrow> drop_reason \<Rightarrow> u16 \<Rightarrow> u64 \<Rightarrow> limiter \<Rightarrow> limiter" where
  "record_locked c reason bucket_id window l =
     (let key = (c, reason, bucket_id, window);
          overflow = (AgOverflow, reason, - 1, window);
          rows = lm_aggregates l;
          full = (\<lambda>key. \<not> bt_contains rows key \<and> rl_max_aggregates (lm_config l) \<le> length rows);
          rows' = (if full key
                   then bt_add overflow 1
                          (if full overflow
                           then (case rows of
                                   (oldest, n) # _ \<Rightarrow> bt_add overflow n (bt_remove oldest rows)
                                 | [] \<Rightarrow> rows)
                           else rows)
                   else bt_add key 1 rows)
      in l\<lparr>lm_aggregates := rows'\<rparr>)"

definition class_of :: "unauthenticated_class \<Rightarrow> aggregate_class" where
  "class_of c = (case c of UcLogin \<Rightarrow> AgLogin | UcProbe \<Rightarrow> AgProbe)"

definition window_of :: "limiter \<Rightarrow> u64 \<Rightarrow> u64" where
  "window_of l now = now div rl_window_milliseconds (lm_config l)"

definition class_buckets :: "unauthenticated_class \<Rightarrow> limiter \<Rightarrow> bucket list" where
  "class_buckets c l = (case c of UcLogin \<Rightarrow> lm_login l | UcProbe \<Rightarrow> lm_probe l)"

definition class_allowance :: "unauthenticated_class \<Rightarrow> limiter \<Rightarrow> u32" where
  "class_allowance c l =
     (case c of UcLogin \<Rightarrow> rl_login_attempts (lm_config l) | UcProbe \<Rightarrow> rl_probe_attempts (lm_config l))"

definition set_class_buckets :: "unauthenticated_class \<Rightarrow> bucket list \<Rightarrow> limiter \<Rightarrow> limiter" where
  "set_class_buckets c bs l = (case c of UcLogin \<Rightarrow> l\<lparr>lm_login := bs\<rparr> | UcProbe \<Rightarrow> l\<lparr>lm_probe := bs\<rparr>)"

definition check_unauthenticated ::
  "keyed_hash \<Rightarrow> unauthenticated_class \<Rightarrow> ip_addr option \<Rightarrow> u64 \<Rightarrow> (limiter, u16, rate_limit_error) stateful" where
  "check_unauthenticated keyed c source now l =
     (let window = window_of l now; bucket_id = source_bucket keyed l source;
          (admitted, global) = consume (lm_global l) window (rl_global_attempts (lm_config l));
          l = l\<lparr>lm_global := global\<rparr>
      in if \<not> admitted then (Err RlRateLimited, record_locked (class_of c) DropRate bucket_id window l)
         else let i = unat bucket_id;
                  (admitted, b) = consume (class_buckets c l ! i) window (class_allowance c l);
                  l = set_class_buckets c ((class_buckets c l)[i := b]) l
              in if \<not> admitted then (Err RlRateLimited, record_locked (class_of c) DropRate bucket_id window l)
                 else (Ok bucket_id, l))"

definition check_authenticated ::
  "keyed_hash \<Rightarrow> id16 \<Rightarrow> u64 \<Rightarrow> (limiter, u16, rate_limit_error) stateful" where
  "check_authenticated keyed identity_id now l =
     (let window = window_of l now; bucket_id = identity_bucket keyed l identity_id; i = unat bucket_id;
          (admitted, b) = consume (lm_identity l ! i) window (rl_identity_attempts (lm_config l));
          l = l\<lparr>lm_identity := (lm_identity l)[i := b]\<rparr>
      in if \<not> admitted then (Err RlRateLimited, record_locked AgAuthenticated DropRate bucket_id window l)
         else (Ok bucket_id, l))"

definition record_drop :: "aggregate_class \<Rightarrow> drop_reason \<Rightarrow> u16 \<Rightarrow> u64 \<Rightarrow> limiter \<Rightarrow> limiter" where
  "record_drop c reason bucket_id now l = record_locked c reason bucket_id (window_of l now) l"

definition aggregate_of :: "limiter \<Rightarrow> aggregate_key \<times> u64 \<Rightarrow> drop_aggregate" where
  "aggregate_of l row =
     (case row of ((c, reason, bucket_id, window), n) \<Rightarrow>
        let start = saturating_mul window (rl_window_milliseconds (lm_config l))
        in \<lparr>da_class = c, da_reason = reason, da_bucket_id = bucket_id, da_count = n,
            da_window_start_milliseconds = start,
            da_window_end_milliseconds =
              saturating_add start (saturating_sub (rl_window_milliseconds (lm_config l)) 1)\<rparr>)"

definition take_aggregates :: "limiter \<Rightarrow> drop_aggregate list \<times> limiter" where
  "take_aggregates l = (map (aggregate_of l) (lm_aggregates l), l\<lparr>lm_aggregates := []\<rparr>)"

definition aggregate_slots :: "limiter \<Rightarrow> nat" where
  "aggregate_slots l = length (lm_aggregates l)"

definition try_concurrency :: "(limiter, unit, rate_limit_error) stateful" where
  "try_concurrency l =
     (if lm_permits l = 0 then (Err RlConcurrency, l) else (Ok (), l\<lparr>lm_permits := lm_permits l - 1\<rparr>))"

definition release_permit :: "limiter \<Rightarrow> limiter" where
  "release_permit l = l\<lparr>lm_permits := lm_permits l + 1\<rparr>"

section \<open>Guards\<close>

record limited_request =
  rq_path :: string
  rq_source :: "ip_addr option"
  rq_identity :: "id16 option"
  rq_headers :: headers
  rq_body :: bytes

type_synonym 'a next_handler = "limited_request \<Rightarrow> 'a \<Rightarrow> http_response \<times> 'a"

definition parse_length :: "string \<Rightarrow> u64 option" where
  "parse_length s = (case s of CHR ''+'' # digits \<Rightarrow> parse_u64 digits | _ \<Rightarrow> parse_u64 s)"

definition content_length :: "limited_request \<Rightarrow> u64 option" where
  "content_length r =
     (case header_values ''content-length'' (rq_headers r) of
        [] \<Rightarrow> None
      | value # _ \<Rightarrow> (case header_to_str value of None \<Rightarrow> None | Some s \<Rightarrow> parse_length s))"

definition announces_more :: "limited_request \<Rightarrow> u64 \<Rightarrow> bool" where
  "announces_more r limit = (case content_length r of None \<Rightarrow> False | Some n \<Rightarrow> limit < n)"

definition bounded_request :: "limited_request \<Rightarrow> u64 \<Rightarrow> limited_request option" where
  "bounded_request r limit = (if length (rq_body r) \<le> unat limit then Some r else None)"

definition limited_response :: http_response where
  "limited_response = vault_error 429 ''rate limit exceeded''"

definition payload_response :: http_response where
  "payload_response = vault_error 413 ''request body too large''"

definition forbidden_response :: http_response where
  "forbidden_response = vault_error 403 ''permission denied''"

definition guarded_class :: "string \<Rightarrow> unauthenticated_class option" where
  "guarded_class path =
     (if path = ''/v1/auth/approle/login'' then Some UcLogin
      else if path \<in> {''/v1/sys/health'', ''/v1/sys/seal-status'', ''/v1/sys/leader''} then Some UcProbe
      else None)"

definition plain_text_response :: "http_response \<Rightarrow> bool" where
  "plain_text_response r =
     (case header_values ''content-type'' (hr_headers r) of
        [] \<Rightarrow> False
      | value # _ \<Rightarrow> (case header_to_str value of None \<Rightarrow> False | Some s \<Rightarrow> take 10 s = ''text/plain''))"

definition pre_verifier_guard ::
  "keyed_hash \<Rightarrow> 'a next_handler \<Rightarrow> u64 \<Rightarrow> limited_request \<Rightarrow> limiter \<times> 'a \<Rightarrow> http_response \<times> limiter \<times> 'a" where
  "pre_verifier_guard keyed run_next now request s =
     (case guarded_class (rq_path request) of
        None \<Rightarrow> (case run_next request (snd s) of (response, a) \<Rightarrow> (response, fst s, a))
      | Some c \<Rightarrow>
          (case check_unauthenticated keyed c (rq_source request) now (fst s) of
             (Err _, l) \<Rightarrow> (limited_response, l, snd s)
           | (Ok b, l) \<Rightarrow>
               let body_limit = rl_unauthenticated_body_bytes (lm_config l);
                   oversize = (payload_response, record_drop (class_of c) DropOversize b now l, snd s)
               in if announces_more request body_limit then oversize
                  else (case bounded_request request body_limit of
                          None \<Rightarrow> oversize
                        | Some request \<Rightarrow>
                            (case run_next request (snd s) of
                               (response, a) \<Rightarrow>
                                 (response,
                                  if hr_status response = 413 then record_drop (class_of c) DropOversize b now l
                                  else if hr_status response = 400 \<and> plain_text_response response
                                  then record_drop (class_of c) DropMalformed b now l
                                  else l, a)))))"

definition authenticated_guard ::
  "keyed_hash \<Rightarrow> 'a next_handler \<Rightarrow> u64 \<Rightarrow> limited_request \<Rightarrow> limiter \<times> 'a \<Rightarrow> http_response \<times> limiter \<times> 'a" where
  "authenticated_guard keyed run_next now request s =
     (case rq_identity request of
        None \<Rightarrow> (forbidden_response, s)
      | Some identity_id \<Rightarrow>
          (case check_authenticated keyed identity_id now (fst s) of
             (Err _, l) \<Rightarrow> (limited_response, l, snd s)
           | (Ok b, l) \<Rightarrow>
               let body_limit = rl_authenticated_body_bytes (lm_config l);
                   oversize = (payload_response, record_drop AgAuthenticated DropOversize b now l, snd s)
               in if announces_more request body_limit then oversize
                  else (case bounded_request request body_limit of
                          None \<Rightarrow> oversize
                        | Some request \<Rightarrow>
                            (case try_concurrency l of
                               (Err _, l) \<Rightarrow>
                                 (limited_response, record_drop AgAuthenticated DropConcurrency b now l, snd s)
                             | (Ok _, l) \<Rightarrow>
                                 (case run_next request (snd s) of
                                    (response, a) \<Rightarrow> (response, release_permit l, a))))))"

end
