(* ===== verification/Rate_Limit_Safety.thy ===== *)
theory Rate_Limit_Safety
  imports Rate_Limit
begin

text \<open>
  The limits hold and nothing dropped goes uncounted: bounds on what is admitted in a window, on the
  memory used, and the balance of the drop accounting.
\<close>

section \<open>One bucket\<close>

definition bucket_ok :: "u32 \<Rightarrow> u64 list \<Rightarrow> bucket \<Rightarrow> bool" where
  "bucket_ok allowance windows b \<longleftrightarrow> bk_used b \<le> allowance
     \<and> (\<forall>w. length (filter ((=) w) windows) \<le> unat allowance)
     \<and> length (filter ((=) (bk_window b)) windows) \<le> unat (bk_used b)
     \<and> (\<forall>w\<in>set windows. w \<le> bk_window b)"

lemma bucket_ok_default: "bucket_ok allowance [] bucket_default"
  by (simp add: bucket_ok_def bucket_default_def)

lemma bucket_ok_fewer: "bucket_ok allowance (windows @ [w]) b \<Longrightarrow> bucket_ok allowance windows b"
  by (auto simp: bucket_ok_def split: if_splits dest: Suc_leD)

lemma consume_ok:
  assumes ok: "bucket_ok allowance windows b" and later: "bk_window b \<le> window"
    and run: "consume b window allowance = (admitted, b')"
  shows "bk_window b' = window \<and> bucket_ok allowance (if admitted then windows @ [window] else windows) b'"
proof -
  define c where "c = (if bk_window b \<noteq> window then \<lparr>bk_window = window, bk_used = 0\<rparr> else b)"
  have none: "filter ((=) window) windows = []" if "bk_window b \<noteq> window"
    using ok later that by (fastforce simp: bucket_ok_def filter_empty_conv)
  have c: "bk_window c = window" "bucket_ok allowance windows c"
    using ok later none by (auto simp: c_def bucket_ok_def)
  have b': "admitted \<longleftrightarrow> bk_used c < allowance" "b' = (if admitted then c\<lparr>bk_used := bk_used c + 1\<rparr> else c)"
    using run by (auto simp: consume_def Let_def c_def [symmetric] split: if_splits)
  have used: "unat (bk_used c + 1) = Suc (unat (bk_used c))" "bk_used c + 1 \<le> allowance" if "bk_used c < allowance"
  proof -
    have "unat (bk_used c) < unat allowance" using that by (simp add: word_less_nat_alt)
    then have "Suc (unat (bk_used c)) < 2 ^ 32"
      using unsigned_less [of allowance, where 'a = nat] by simp
    then show "unat (bk_used c + 1) = Suc (unat (bk_used c))" by (simp add: unat_word_ariths)
    then show "bk_used c + 1 \<le> allowance" using \<open>unat (bk_used c) < unat allowance\<close> by (simp add: word_le_nat_alt)
  qed
  show ?thesis
  proof (cases admitted)
    case True
    have "length (filter ((=) w) (windows @ [window])) \<le> unat allowance" for w
      using c True b'(1) by (cases "w = window") (auto simp: bucket_ok_def word_less_nat_alt)
    then show ?thesis using c b' used True by (auto simp: bucket_ok_def)
  qed (use c b' in simp)
qed

section \<open>The drop accounting\<close>

abbreviation (input) total :: "('k \<times> u64) list \<Rightarrow> u64" where
  "total m \<equiv> sum_list (map snd m)"

lemma bt_add_total: "btree m \<Longrightarrow> total (bt_add k n m) = total m + n"
proof (induction m)
  case (Cons p ps)
  obtain k' v where p: "p = (k', v)" by (cases p)
  have "bt_get ((k', v) # ps) k = (if k = k' then Some v else bt_get ps k)" by (simp add: bt_get_def)
  moreover have "bt_get ps k = None" if "k < k'"
    using Cons.prems that by (force simp: btree_Cons p bt_get_None)
  ultimately show ?case
    using Cons by (auto simp: bt_add_def p btree_Cons split: option.split)
qed (simp add: bt_add_def)

lemma bt_add_btree: "btree m \<Longrightarrow> btree (bt_add k n m)"
  by (simp add: bt_add_def)

lemma length_bt_insert: "btree m \<Longrightarrow> length (bt_insert k v m) = length m + (if bt_contains m k then 0 else 1)"
proof (induction m)
  case (Cons p ps)
  have "k \<notin> fst ` set ps" if "k < fst p" using Cons.prems that by (auto simp: btree_Cons)
  then show ?case using Cons by (cases p) (auto simp: btree_Cons bt_contains_iff)
qed (simp add: bt_contains_def)

lemma bt_add_length: "btree m \<Longrightarrow> length (bt_add k n m) = length m + (if bt_contains m k then 0 else 1)"
  by (simp add: bt_add_def length_bt_insert)

definition rows_ok :: "nat \<Rightarrow> (aggregate_key \<times> u64) list \<Rightarrow> u64 \<Rightarrow> bool" where
  "rows_ok limit m n \<longleftrightarrow> btree m \<and> length m \<le> limit \<and> total m = n"

lemma rows_ok_add:
  "rows_ok limit m n \<Longrightarrow> bt_contains m k \<or> length m < limit \<Longrightarrow> rows_ok limit (bt_add k v m) (n + v)"
  by (auto simp: rows_ok_def bt_add_total bt_add_btree bt_add_length)

lemma rows_ok_evict:
  assumes "rows_ok limit m n" and "m = (k, v) # ps"
  shows "rows_ok limit (bt_add k' v (bt_remove k m)) n \<and> bt_contains (bt_add k' v (bt_remove k m)) k'"
proof -
  have "btree ps" "bt_remove k m = ps"
    using assms by (auto simp: rows_ok_def btree_Cons bt_remove_def filter_id_conv)
  moreover from this have "rows_ok limit ps (n - v)" "length ps < limit"
    using assms by (auto simp: rows_ok_def)
  ultimately show ?thesis
    using rows_ok_add [of limit ps "n - v" k' v] by (simp add: bt_contains_def bt_add_def)
qed

definition drops_ok :: "limiter \<Rightarrow> nat \<Rightarrow> bool" where
  "drops_ok l n \<longleftrightarrow> rows_ok (rl_max_aggregates (lm_config l)) (lm_aggregates l) (word_of_nat n)
     \<and> 0 < rl_max_aggregates (lm_config l)"

lemma record_locked_fields [simp]:
  "lm_config (record_locked c reason b w l) = lm_config l" "lm_hash_key (record_locked c reason b w l) = lm_hash_key l"
  "lm_global (record_locked c reason b w l) = lm_global l" "lm_login (record_locked c reason b w l) = lm_login l"
  "lm_probe (record_locked c reason b w l) = lm_probe l" "lm_identity (record_locked c reason b w l) = lm_identity l"
  "lm_permits (record_locked c reason b w l) = lm_permits l"
  by (simp_all add: record_locked_def Let_def)

lemma record_locked_drops:
  assumes "drops_ok l n"
  shows "drops_ok (record_locked c reason b w l) (Suc n)"
proof -
  define limit rows where "limit = rl_max_aggregates (lm_config l)" and "rows = lm_aggregates l"
  define key overflow :: aggregate_key where "key = (c, reason, b, w)" and "overflow = (AgOverflow, reason, - 1, w)"
  have ok: "rows_ok limit rows (word_of_nat n)" "0 < limit"
    using assms by (simp_all add: drops_ok_def limit_def rows_def)
  define full where "full k \<longleftrightarrow> \<not> bt_contains rows k \<and> limit \<le> length rows" for k
  define rows1 where "rows1 = (if full overflow
      then (case rows of (oldest, v) # _ \<Rightarrow> bt_add overflow v (bt_remove oldest rows) | [] \<Rightarrow> rows) else rows)"
  have aggregates: "lm_aggregates (record_locked c reason b w l) = (if full key then bt_add overflow 1 rows1 else bt_add key 1 rows)"
    by (simp add: record_locked_def Let_def full_def rows1_def rows_def limit_def key_def overflow_def
        split: list.split)
  have "rows_ok limit rows1 (word_of_nat n) \<and> (bt_contains rows1 overflow \<or> length rows1 < limit)"
  proof (cases "full overflow")
    case True
    then obtain k v ps where "rows = (k, v) # ps" using ok(2) by (cases rows) (auto simp: full_def)
    with True rows_ok_evict [OF ok(1) this] show ?thesis by (simp add: rows1_def)
  qed (use ok in \<open>auto simp: rows1_def full_def\<close>)
  then have "rows_ok limit (lm_aggregates (record_locked c reason b w l)) (word_of_nat n + 1)"
    using ok(1) by (auto simp: aggregates full_def intro!: rows_ok_add)
  then show ?thesis using ok(2) by (simp add: drops_ok_def limit_def add.commute)
qed

section \<open>Runs\<close>

datatype limiter_call =
    LcUnauthenticated unauthenticated_class "ip_addr option" u64
  | LcAuthenticated id16 u64
  | LcDrop aggregate_class drop_reason u16 u64
  | LcTake

text \<open>
  A run collects what was admitted, as class, shard and window, and counts what was dropped since the
  aggregates were last taken.
\<close>

type_synonym admission = "aggregate_class \<times> u16 \<times> u64"

definition note_check ::
  "aggregate_class \<Rightarrow> u64 \<Rightarrow> (u16, rate_limit_error) result \<times> limiter \<Rightarrow> admission list \<Rightarrow> nat \<Rightarrow>
     limiter \<times> admission list \<times> nat" where
  "note_check c window r log drops =
     (case r of (Ok b, l) \<Rightarrow> (l, log @ [(c, b, window)], drops) | (Err _, l) \<Rightarrow> (l, log, Suc drops))"

fun limiter_apply ::
  "keyed_hash \<Rightarrow> limiter_call \<Rightarrow> limiter \<times> admission list \<times> nat \<Rightarrow> limiter \<times> admission list \<times> nat" where
  "limiter_apply keyed (LcUnauthenticated c source now) (l, log, drops) =
     note_check (class_of c) (window_of l now) (check_unauthenticated keyed c source now l) log drops"
| "limiter_apply keyed (LcAuthenticated i now) (l, log, drops) =
     note_check AgAuthenticated (window_of l now) (check_authenticated keyed i now l) log drops"
| "limiter_apply keyed (LcDrop c reason b now) (l, log, drops) = (record_drop c reason b now l, log, Suc drops)"
| "limiter_apply keyed LcTake (l, log, drops) = (snd (take_aggregates l), log, 0)"

definition limiter_run ::
  "keyed_hash \<Rightarrow> limiter_call list \<Rightarrow> limiter \<Rightarrow> limiter \<times> admission list \<times> nat" where
  "limiter_run keyed calls l = foldl (\<lambda>s call. limiter_apply keyed call s) (l, [], 0) calls"

definition call_times :: "limiter_call list \<Rightarrow> u64 list" where
  "call_times calls = concat (map (\<lambda>call. case call of
     LcUnauthenticated _ _ now \<Rightarrow> [now] | LcAuthenticated _ now \<Rightarrow> [now] | _ \<Rightarrow> []) calls)"

definition windows :: "(aggregate_class \<Rightarrow> u16 \<Rightarrow> bool) \<Rightarrow> admission list \<Rightarrow> u64 list" where
  "windows P log = map (\<lambda>(c, b, w). w) (filter (\<lambda>(c, b, w). P c b) log)"

lemma windows_simps [simp]:
  "windows P [] = []" "windows P (log @ [(c, b, w)]) = windows P log @ (if P c b then [w] else [])"
  by (simp_all add: windows_def)

definition shard_ok :: "u64 \<Rightarrow> u32 \<Rightarrow> admission list \<Rightarrow> aggregate_class \<Rightarrow> bucket list \<Rightarrow> bool" where
  "shard_ok latest allowance log c bs \<longleftrightarrow> (\<forall>i<length bs. bk_window (bs ! i) \<le> latest
     \<and> bucket_ok allowance (windows (\<lambda>c' b. c' = c \<and> unat b = i) log) (bs ! i))"

definition limiter_ok :: "u64 \<Rightarrow> limiter \<times> admission list \<times> nat \<Rightarrow> bool" where
  "limiter_ok latest s \<longleftrightarrow> (case s of (l, log, drops) \<Rightarrow>
     drops_ok l drops \<and> is_ok (rate_limit_validate (lm_config l))
     \<and> length (lm_login l) = rl_source_shards (lm_config l) \<and> length (lm_probe l) = rl_source_shards (lm_config l)
     \<and> length (lm_identity l) = rl_identity_shards (lm_config l)
     \<and> bk_window (lm_global l) \<le> latest
     \<and> bucket_ok (rl_global_attempts (lm_config l)) (windows (\<lambda>c _. c \<noteq> AgAuthenticated) log) (lm_global l)
     \<and> shard_ok latest (rl_login_attempts (lm_config l)) log AgLogin (lm_login l)
     \<and> shard_ok latest (rl_probe_attempts (lm_config l)) log AgProbe (lm_probe l)
     \<and> shard_ok latest (rl_identity_attempts (lm_config l)) log AgAuthenticated (lm_identity l))"

lemma hash_bucket_less:
  assumes "0 < n" and "n \<le> 65535"
  shows "unat (hash_bucket keyed key domain value n) < n"
proof -
  have "x mod n < 65536" for x using assms mod_less_divisor [of n x] by linarith
  then show ?thesis using assms by (simp add: hash_bucket_def unat_of_nat take_bit_nat_eq_self)
qed

lemma shard_ok_step:
  assumes ok: "shard_ok latest allowance log c bs" and "i < length bs" "unat b = i" and "latest \<le> window"
    and run: "consume (bs ! i) window allowance = (admitted, bk)"
  shows "shard_ok window allowance (if admitted then log @ [(c, b, window)] else log) c (bs[i := bk])"
proof -
  have i: "bk_window (bs ! i) \<le> window" "bucket_ok allowance (windows (\<lambda>c' b. c' = c \<and> unat b = i) log) (bs ! i)"
    using assms by (auto simp: shard_ok_def)
  note bk = consume_ok [OF i(2,1) run]
  show ?thesis
    using ok bk assms(2-4) by (auto simp: shard_ok_def nth_list_update)
qed

lemma shard_ok_later: "shard_ok latest allowance log c bs \<Longrightarrow> latest \<le> latest' \<Longrightarrow> shard_ok latest' allowance log c bs"
  by (fastforce simp: shard_ok_def)

lemma shard_ok_other: "c' \<noteq> c \<Longrightarrow> shard_ok latest allowance (log @ [(c', b, w)]) c bs \<longleftrightarrow> shard_ok latest allowance log c bs"
  by (simp add: shard_ok_def)

lemma limiter_drop: "limiter_ok w (l, log, drops) \<Longrightarrow> limiter_ok w (record_locked c reason b w' l, log, Suc drops)"
  using record_locked_drops by (auto simp: limiter_ok_def)

lemma check_unauthenticated_ok:
  assumes ok: "limiter_ok latest (l, log, drops)" and "latest \<le> window_of l now"
  shows "limiter_ok (window_of l now) (note_check (class_of c) (window_of l now) (check_unauthenticated keyed c source now l) log drops)"
proof -
  let ?w = "window_of l now" and ?b = "source_bucket keyed l source"
  obtain g global where g: "consume (lm_global l) ?w (rl_global_attempts (lm_config l)) = (g, global)" by fastforce
  obtain a bk where a: "consume (class_buckets c l ! unat ?b) ?w (class_allowance c l) = (a, bk)" by fastforce
  have shards: "0 < rl_source_shards (lm_config l)" "rl_source_shards (lm_config l) \<le> 65535"
    using ok by (auto simp: limiter_ok_def rate_limit_validate_def split: if_splits)
  have b: "unat ?b < rl_source_shards (lm_config l)"
    using shards hash_bucket_less by (simp add: source_bucket_def split: option.split)
  have len: "length (class_buckets c l) = rl_source_shards (lm_config l)"
    and shard: "shard_ok latest (class_allowance c l) log (class_of c) (class_buckets c l)"
    using ok by (auto simp: limiter_ok_def class_buckets_def class_allowance_def class_of_def split: unauthenticated_class.split)
  note global_ok = consume_ok [OF _ _ g, of "windows (\<lambda>c _. c \<noteq> AgAuthenticated) log"]
  note shard_step = shard_ok_step [OF shard _ refl assms(2) a]
  have data: "class_of c \<noteq> AgAuthenticated" by (simp add: class_of_def split: unauthenticated_class.split)
  have g_ok: "bk_window global = ?w"
    "bucket_ok (rl_global_attempts (lm_config l)) (windows (\<lambda>c _. c \<noteq> AgAuthenticated) (if g then log @ [(class_of c, ?b, ?w)] else log)) global"
    using ok global_ok assms(2) data by (auto simp: limiter_ok_def)
  then have g_drop: "bucket_ok (rl_global_attempts (lm_config l)) (windows (\<lambda>c _. c \<noteq> AgAuthenticated) log) global"
    using data by (auto dest: bucket_ok_fewer split: if_splits)
  have others: "shard_ok ?w (rl_login_attempts (lm_config l)) log AgLogin (lm_login l)"
    "shard_ok ?w (rl_probe_attempts (lm_config l)) log AgProbe (lm_probe l)"
    "shard_ok ?w (rl_identity_attempts (lm_config l)) log AgAuthenticated (lm_identity l)"
    using ok assms(2) by (auto simp: limiter_ok_def intro: shard_ok_later)
  have l1: "limiter_ok ?w (l\<lparr>lm_global := global\<rparr>, log, drops)"
    using ok others g_ok g_drop by (simp add: limiter_ok_def drops_ok_def)
  have l2: "limiter_ok ?w (set_class_buckets c ((class_buckets c l)[unat ?b := bk]) (l\<lparr>lm_global := global\<rparr>),
      if a then log @ [(class_of c, ?b, ?w)] else log, drops)" if g
    using ok others g_ok g_drop that shard_step b len data
    by (cases c) (auto simp: limiter_ok_def drops_ok_def set_class_buckets_def class_buckets_def class_of_def
        class_allowance_def shard_ok_other split: if_splits)
  have fields: "class_buckets c (l\<lparr>lm_global := global\<rparr>) = class_buckets c l"
    "class_allowance c (l\<lparr>lm_global := global\<rparr>) = class_allowance c l"
    by (simp_all add: class_buckets_def class_allowance_def split: unauthenticated_class.split)
  show ?thesis
    using g a l1 l2 limiter_drop by (cases g; cases a) (simp_all add: check_unauthenticated_def Let_def fields note_check_def)
qed

lemma check_authenticated_ok:
  assumes ok: "limiter_ok latest (l, log, drops)" and "latest \<le> window_of l now"
  shows "limiter_ok (window_of l now) (note_check AgAuthenticated (window_of l now) (check_authenticated keyed i now l) log drops)"
proof -
  let ?w = "window_of l now" and ?b = "identity_bucket keyed l i"
  obtain a bk where a: "consume (lm_identity l ! unat ?b) ?w (rl_identity_attempts (lm_config l)) = (a, bk)" by fastforce
  have "unat ?b < length (lm_identity l)"
    using ok hash_bucket_less by (auto simp: identity_bucket_def limiter_ok_def rate_limit_validate_def split: if_splits)
  then have "shard_ok ?w (rl_identity_attempts (lm_config l)) (if a then log @ [(AgAuthenticated, ?b, ?w)] else log)
      AgAuthenticated ((lm_identity l)[unat ?b := bk])"
    using ok by (intro shard_ok_step [OF _ _ refl assms(2) a]) (auto simp: limiter_ok_def)
  then have "limiter_ok ?w (l\<lparr>lm_identity := (lm_identity l)[unat ?b := bk]\<rparr>,
      if a then log @ [(AgAuthenticated, ?b, ?w)] else log, drops)"
    using ok assms(2) by (auto simp: limiter_ok_def drops_ok_def shard_ok_other intro: shard_ok_later)
  then show ?thesis
    using a limiter_drop by (cases a) (simp_all add: check_authenticated_def Let_def note_check_def)
qed

lemma checks_config:
  "lm_config (snd (check_unauthenticated keyed c source now l)) = lm_config l"
  "lm_config (snd (check_authenticated keyed i now l)) = lm_config l"
  "lm_hash_key (snd (check_unauthenticated keyed c source now l)) = lm_hash_key l"
  "lm_hash_key (snd (check_authenticated keyed i now l)) = lm_hash_key l"
  by (auto simp: check_unauthenticated_def check_authenticated_def set_class_buckets_def Let_def
      split: prod.split unauthenticated_class.split)

lemma note_check_fst: "fst (note_check c w r log drops) = snd r"
  by (auto simp: note_check_def split: prod.split result.split)

lemma limiter_apply_config:
  "lm_config (fst (limiter_apply keyed call s)) = lm_config (fst s)
   \<and> lm_hash_key (fst (limiter_apply keyed call s)) = lm_hash_key (fst s)"
  by (cases "(keyed, call, s)" rule: limiter_apply.cases)
    (simp_all add: note_check_fst checks_config record_drop_def take_aggregates_def)

lemma limiter_run_ok:
  assumes "limiter_ok latest s" and "sorted (now # call_times calls)" and "latest \<le> window_of (fst s) now"
  shows "\<exists>latest'. limiter_ok latest' (foldl (\<lambda>s call. limiter_apply keyed call s) s calls)"
  using assms
proof (induction calls arbitrary: s latest now)
  case (Cons call calls)
  obtain l log drops where s: "s = (l, log, drops)" by (cases s)
  have mono: "window_of l t \<le> window_of l t'" if "t \<le> t'" for t t'
    using that by (simp add: window_of_def word_le_nat_alt unat_div div_le_mono)
  have config: "window_of (fst (limiter_apply keyed call s)) t = window_of l t" for t
    using limiter_apply_config [of keyed call s] by (simp add: window_of_def s)
  obtain latest' now' where "limiter_ok latest' (limiter_apply keyed call s)" "sorted (now' # call_times calls)"
    "latest' \<le> window_of l now'"
  proof (cases call)
    case (LcUnauthenticated c source t)
    then have "now \<le> t" "sorted (t # call_times calls)" using Cons.prems(2) by (auto simp: call_times_def)
    moreover from this have "limiter_ok (window_of l t) (limiter_apply keyed call s)"
      using check_unauthenticated_ok [OF Cons.prems(1) [unfolded s]] Cons.prems(3) mono LcUnauthenticated s
      by (metis fst_conv limiter_apply.simps(1) order_trans)
    ultimately show ?thesis using that by blast
  next
    case (LcAuthenticated i t)
    then have "now \<le> t" "sorted (t # call_times calls)" using Cons.prems(2) by (auto simp: call_times_def)
    moreover from this have "limiter_ok (window_of l t) (limiter_apply keyed call s)"
      using check_authenticated_ok [OF Cons.prems(1) [unfolded s]] Cons.prems(3) mono LcAuthenticated s
      by (metis fst_conv limiter_apply.simps(2) order_trans)
    ultimately show ?thesis using that by blast
  next
    case (LcDrop c reason b t)
    then have "limiter_ok latest (limiter_apply keyed call s)" "sorted (now # call_times calls)"
      using Cons.prems(1,2) limiter_drop s by (auto simp: call_times_def record_drop_def)
    then show ?thesis using Cons.prems(3) s by (intro that [of latest now]) simp_all
  next
    case LcTake
    then have "limiter_ok latest (limiter_apply keyed call s)" "sorted (now # call_times calls)"
      using Cons.prems(1,2) s
      by (auto simp: call_times_def take_aggregates_def limiter_ok_def drops_ok_def rows_ok_def)
    then show ?thesis using Cons.prems(3) s by (intro that [of latest now]) simp_all
  qed
  then show ?case using Cons.IH [of latest' "limiter_apply keyed call s" now'] config by simp
qed auto

lemma limiter_new_ok: "limiter_new config key = Ok l \<Longrightarrow> limiter_ok 0 (l, [], 0) \<and> lm_config l = config \<and> lm_hash_key l = key"
  by (auto simp: limiter_new_def rate_limit_validate_def limiter_ok_def drops_ok_def rows_ok_def shard_ok_def
      bucket_ok_default split: if_splits) (simp_all add: bucket_default_def)

lemma admitted_windows:
  "length (filter (\<lambda>(c, b, w'). P c b \<and> w' = w) log) = length (filter ((=) w) (windows P log))"
  by (induction log) (auto simp: windows_def)


definition sample_limits :: rate_limit_config where
  "sample_limits = rate_limit_default\<lparr>rl_global_attempts := 3, rl_login_attempts := 1, rl_source_shards := 2,
     rl_identity_shards := 1, rl_max_aggregates := 1\<rparr>"

definition sample_attempts :: "limiter_call list" where
  "sample_attempts = [LcUnauthenticated UcLogin None 5, LcUnauthenticated UcLogin None 6, LcUnauthenticated UcProbe None 7,
     LcUnauthenticated UcProbe None 8, LcUnauthenticated UcLogin None 60000]"

definition sample_limiter :: limiter where
  "sample_limiter = \<lparr>lm_config = sample_limits, lm_hash_key = 0, lm_global = bucket_default,
     lm_login = [bucket_default, bucket_default], lm_probe = [bucket_default, bucket_default],
     lm_identity = [bucket_default], lm_aggregates = [], lm_permits = 128\<rparr>"


section \<open>The guards\<close>

text \<open>
  A guard runs the handler only for a request it admitted, with a body within the limit, and gives back the permit it
  took; a refused request reaches the handler in no form.
\<close>

lemma check_permits:
  "lm_permits (snd (check_unauthenticated keyed c source now l)) = lm_permits l"
  "lm_permits (snd (check_authenticated keyed i now l)) = lm_permits l"
  by (auto simp: check_unauthenticated_def check_authenticated_def set_class_buckets_def Let_def
      split: prod.split unauthenticated_class.split)

lemma authenticated_guard_cases:
  assumes "authenticated_guard keyed run_next now request (l, a) = (response, l', a')"
  shows "(a' = a \<and> response \<in> {forbidden_response, limited_response, payload_response}
      \<or> (\<exists>i b. rq_identity request = Some i \<and> fst (check_authenticated keyed i now l) = Ok b \<and> 0 < lm_permits l
           \<and> length (rq_body request) \<le> unat (rl_authenticated_body_bytes (lm_config l))
           \<and> (response, a') = run_next request a))
    \<and> lm_permits l' = lm_permits l"
proof (cases "rq_identity request")
  case (Some i)
  obtain r m where m: "check_authenticated keyed i now l = (r, m)" by fastforce
  have same: "lm_permits m = lm_permits l" "lm_config m = lm_config l"
    using check_permits(2) [of keyed i now l] checks_config(2) [of keyed i now l] by (simp_all add: m)
  show ?thesis
    using assms Some m same
    by (cases r) (auto simp: authenticated_guard_def Let_def bounded_request_def try_concurrency_def release_permit_def
        record_drop_def split: if_splits prod.splits)
qed (use assms in \<open>simp add: authenticated_guard_def\<close>)

lemma pre_verifier_guard_cases:
  assumes "pre_verifier_guard keyed run_next now request (l, a) = (response, l', a')"
  shows "a' = a \<and> response \<in> {limited_response, payload_response}
    \<or> (response, a') = run_next request a \<and> (guarded_class (rq_path request) = None \<and> l' = l
       \<or> (\<exists>c b. guarded_class (rq_path request) = Some c \<and> fst (check_unauthenticated keyed c (rq_source request) now l) = Ok b
            \<and> length (rq_body request) \<le> unat (rl_unauthenticated_body_bytes (lm_config l))))"
proof (cases "guarded_class (rq_path request)")
  case (Some c)
  obtain r m where m: "check_unauthenticated keyed c (rq_source request) now l = (r, m)" by fastforce
  have same: "lm_config m = lm_config l"
    using checks_config(1) [of keyed c "rq_source request" now l] by (simp add: m)
  show ?thesis
    using assms Some m same
    by (cases r) (auto simp: pre_verifier_guard_def Let_def bounded_request_def split: if_splits prod.splits)
qed (use assms in \<open>simp add: pre_verifier_guard_def split: prod.splits\<close>)

end
