(* ===== verification/Record_Aead.thy ===== *)
theory Record_Aead
  imports Credential Secret_Records
begin

text \<open>
  Encrypted records (\<open>store/aead.rs\<close>): the binding of a record to its place, the authenticated header with
  its byte format, and encryption and decryption. The cipher is a parameter: sealing and opening under a
  key, a nonce and associated data. The methods of \<open>HeaderDecoder\<close> are those of the decoder of the
  canonical codec, and every error they raise is turned into a codec error by \<open>RecordCryptoError::codec\<close>
  before \<open>decode\<close> returns, so the header is decoded here with codec errors throughout.
\<close>

section \<open>Bindings and headers\<close>

abbreviation (input) RECORD_FORMAT_VERSION :: u16 where "RECORD_FORMAT_VERSION \<equiv> 1"
abbreviation (input) CIPHER_SUITE_XCHACHA20_POLY1305 :: u16 where "CIPHER_SUITE_XCHACHA20_POLY1305 \<equiv> 1"
abbreviation (input) MAX_PATH_SEGMENTS :: nat where "MAX_PATH_SEGMENTS \<equiv> 256"
abbreviation (input) MAX_LOGICAL_ID :: nat where "MAX_LOGICAL_ID \<equiv> 256"
abbreviation (input) MAX_HEADER :: nat where "MAX_HEADER \<equiv> 4096"
abbreviation (input) MAX_RECORD_CIPHERTEXT :: nat where "MAX_RECORD_CIPHERTEXT \<equiv> 8388608"

definition RECORD_MAGIC :: bytes where
  "RECORD_MAGIC = str_bytes ''OLSSREC'' @ [0]"

datatype record_domain = SecretValue | AuditPayload | CredentialMaterial

primrec record_domain_code :: "record_domain \<Rightarrow> u16" where
  "record_domain_code SecretValue = 1"
| "record_domain_code AuditPayload = 2"
| "record_domain_code CredentialMaterial = 3"

datatype record_crypto_error =
    RcRandom | RcBinding | RcAuthentication | RcKeyUnavailable | RcMagic | RcUnknownFormat | RcUnknownSuite
  | RcUnknownDomain | RcLimit | RcTruncated | RcTrailing

definition record_crypto_codec :: "record_crypto_error \<Rightarrow> codec_error" where
  "record_crypto_codec e =
     (case e of
        RcUnknownFormat \<Rightarrow> UnknownVersion | RcUnknownSuite \<Rightarrow> UnknownVersion | RcUnknownDomain \<Rightarrow> UnknownVersion
      | RcLimit \<Rightarrow> Limit | RcTruncated \<Rightarrow> Truncated | RcTrailing \<Rightarrow> Trailing
      | _ \<Rightarrow> Invalid)"

definition record_domain_decode :: "u16 \<Rightarrow> (record_domain, codec_error) result" where
  "record_domain_decode code =
     (if code = 1 then Ok SecretValue else if code = 2 then Ok AuditPayload
      else if code = 3 then Ok CredentialMaterial else Err (record_crypto_codec RcUnknownDomain))"

record record_binding =
  rb_domain :: record_domain
  rb_mount :: string
  rb_path :: string
  rb_logical_record_id :: bytes
  rb_version :: "u64 option"
  rb_created_unix_milliseconds :: u64

definition binding_validate :: "record_binding \<Rightarrow> (unit, record_crypto_error) result" where
  "binding_validate b =
     (if rb_mount b = [] \<or> length (rb_mount b) > 128
         \<or> list_ex (\<lambda>byte. byte = 47 \<or> byte = 0 \<or> byte_is_ascii_control byte \<or> \<not> byte < 128) (str_bytes (rb_mount b))
         \<or> rb_logical_record_id b = [] \<or> length (rb_logical_record_id b) > MAX_LOGICAL_ID
         \<or> length (rb_path b) > MAX_PATH \<or> length (split_on CHR ''/'' (rb_path b)) > MAX_PATH_SEGMENTS
         \<or> rb_version b = Some 0 \<or> (rb_domain b = SecretValue) \<noteq> (rb_version b \<noteq> None)
      then Err RcBinding else Ok ())"

definition binding_new ::
  "record_domain \<Rightarrow> string \<Rightarrow> string \<Rightarrow> bytes \<Rightarrow> u64 option \<Rightarrow> u64 \<Rightarrow> (record_binding, record_crypto_error) result" where
  "binding_new domain mount path logical_record_id version created =
     (let value = \<lparr>rb_domain = domain, rb_mount = mount, rb_path = path, rb_logical_record_id = logical_record_id,
                   rb_version = version, rb_created_unix_milliseconds = created\<rparr>
      in rbind (binding_validate value) (\<lambda>_. Ok value))"

record record_header =
  rh_store_id :: id16
  rh_binding :: record_binding
  rh_key_id :: id16
  rh_nonce :: arr24

definition header_new :: "id16 \<Rightarrow> record_binding \<Rightarrow> id16 \<Rightarrow> arr24 \<Rightarrow> (record_header, record_crypto_error) result" where
  "header_new store_id binding key_id nonce =
     rbind (binding_validate binding) (\<lambda>_.
       Ok \<lparr>rh_store_id = store_id, rh_binding = binding, rh_key_id = key_id, rh_nonce = nonce\<rparr>)"

definition put_bytes :: "bytes \<Rightarrow> nat \<Rightarrow> bytes \<Rightarrow> (bytes, record_crypto_error) result" where
  "put_bytes value maximum out =
     (if length value > maximum \<or> length value > u32_max then Err RcLimit
      else Ok (out @ be_bytes 4 (word_of_nat (length value) :: u32) @ value))"

primrec put_segments :: "string list \<Rightarrow> bytes \<Rightarrow> (bytes, record_crypto_error) result" where
  "put_segments [] out = Ok out"
| "put_segments (segment # segments) out =
     rbind (put_bytes (str_bytes segment) MAX_PATH out) (\<lambda>out. put_segments segments out)"

definition header_encode_strict :: "record_header \<Rightarrow> (bytes, record_crypto_error) result" where
  "header_encode_strict h =
     (let b = rh_binding h in
      rbind (binding_validate b) (\<lambda>_.
      let out = RECORD_MAGIC @ be_bytes 2 RECORD_FORMAT_VERSION @ be_bytes 2 CIPHER_SUITE_XCHACHA20_POLY1305
                @ be_bytes 16 (rh_store_id h) @ be_bytes 2 (record_domain_code (rb_domain b))
                @ be_bytes 16 (rh_key_id h) @ be_bytes 24 (rh_nonce h)
      in rbind (put_bytes (str_bytes (rb_mount b)) 128 out) (\<lambda>out.
         let segments = split_on CHR ''/'' (rb_path b)
         in rbind (put_segments segments (out @ be_bytes 2 (word_of_nat (length segments) :: u16))) (\<lambda>out.
            rbind (put_bytes (rb_logical_record_id b) MAX_LOGICAL_ID out) (\<lambda>out.
            let out = (case rb_version b of None \<Rightarrow> out @ [0] | Some version \<Rightarrow> out @ 1 # be_bytes 8 version);
                out = out @ be_bytes 8 (rb_created_unix_milliseconds b)
            in if length out > MAX_HEADER then Err RcLimit else Ok out)))))"

definition header_encode :: "record_header \<Rightarrow> (bytes, codec_error) result" where
  "header_encode h = map_err record_crypto_codec (header_encode_strict h)"

definition run_plain :: "bytes \<Rightarrow> 'a dec \<Rightarrow> ('a, codec_error) result" where
  "run_plain bs g = rbind (g \<lparr>d_bytes = bs, d_cursor = 0\<rparr>) (\<lambda>(x, _). Ok x)"

definition header_decode :: "bytes \<Rightarrow> (record_header, codec_error) result" where
  "header_decode bs = run_plain bs (
     dbind (dec_take 8) (\<lambda>magic.
     dbind (dcheck (magic = RECORD_MAGIC) (record_crypto_codec RcMagic)) (\<lambda>_.
     dbind dec_u16 (\<lambda>format.
     dbind (dcheck (format = RECORD_FORMAT_VERSION) (record_crypto_codec RcUnknownFormat)) (\<lambda>_.
     dbind dec_u16 (\<lambda>suite.
     dbind (dcheck (suite = CIPHER_SUITE_XCHACHA20_POLY1305) (record_crypto_codec RcUnknownSuite)) (\<lambda>_.
     dbind (dec_fixed 16) (\<lambda>store_id.
     dbind dec_u16 (\<lambda>code.
     dbind (dlift (record_domain_decode code)) (\<lambda>domain.
     dbind (dec_fixed 16) (\<lambda>key_id.
     dbind (dec_fixed 24) (\<lambda>nonce.
     dbind (dec_string 128) (\<lambda>mount.
     dbind dec_u16 (\<lambda>segment_count.
     dbind (dcheck (segment_count \<noteq> 0 \<and> unat segment_count \<le> MAX_PATH_SEGMENTS) (record_crypto_codec RcBinding)) (\<lambda>_.
     dbind (dec_repeat (unat segment_count) (dec_string MAX_PATH)) (\<lambda>segments.
     dbind (dlift (logical_path_new (join CHR ''/'' segments))) (\<lambda>path.
     dbind (dec_bytes MAX_LOGICAL_ID) (\<lambda>logical_record_id.
     dbind (dec_option dec_u64) (\<lambda>version.
     dbind dec_u64 (\<lambda>created.
     dbind dec_finish (\<lambda>_.
     dlift (map_err record_crypto_codec
       (rbind (binding_new domain mount path logical_record_id version created) (\<lambda>binding.
          header_new store_id binding key_id nonce))))))))))))))))))))))))"

section \<open>Records\<close>

record encrypted_record =
  er_header :: record_header
  er_ciphertext :: bytes

definition encrypted_new :: "record_header \<Rightarrow> bytes \<Rightarrow> (encrypted_record, record_crypto_error) result" where
  "encrypted_new h ciphertext =
     (if length ciphertext < 16 \<or> length ciphertext > MAX_RECORD_CIPHERTEXT then Err RcLimit
      else Ok \<lparr>er_header = h, er_ciphertext = ciphertext\<rparr>)"

definition authenticated_bytes_for_state_digest :: "encrypted_record \<Rightarrow> (bytes, codec_error) result" where
  "authenticated_bytes_for_state_digest r =
     rbind (header_encode (er_header r)) (\<lambda>header. Ok (header @ er_ciphertext r))"

definition encrypted_encode :: "encrypted_record \<Rightarrow> (bytes, codec_error) result" where
  "encrypted_encode r =
     rbind (header_encode (er_header r)) (\<lambda>header.
       if length header > MAX_HEADER \<or> length (er_ciphertext r) < 16
          \<or> length (er_ciphertext r) > MAX_RECORD_CIPHERTEXT
       then Err Limit
       else map_err record_crypto_codec
              (rbind (put_bytes header MAX_HEADER []) (\<lambda>out. put_bytes (er_ciphertext r) MAX_RECORD_CIPHERTEXT out)))"

definition encrypted_decode :: "bytes \<Rightarrow> (encrypted_record, codec_error) result" where
  "encrypted_decode bs = run_plain bs (
     dbind (dec_bytes MAX_HEADER) (\<lambda>header_bytes.
     dbind (dlift (header_decode header_bytes)) (\<lambda>header.
     dbind (dec_bytes MAX_RECORD_CIPHERTEXT) (\<lambda>ciphertext.
     dbind dec_finish (\<lambda>_.
     dbind (dcheck (\<not> length ciphertext < 16) Invalid) (\<lambda>_.
       dret \<lparr>er_header = header, er_ciphertext = ciphertext\<rparr>))))))"

section \<open>Encryption\<close>

record aead =
  aead_seal :: "arr32 \<Rightarrow> arr24 \<Rightarrow> bytes \<Rightarrow> bytes \<Rightarrow> bytes option"
  aead_open :: "arr32 \<Rightarrow> arr24 \<Rightarrow> bytes \<Rightarrow> bytes \<Rightarrow> bytes option"

definition aead_encrypt ::
  "aead \<Rightarrow> id16 \<Rightarrow> record_binding \<Rightarrow> id16 \<Rightarrow> arr32 \<Rightarrow> bytes \<Rightarrow> 'r random_source \<Rightarrow>
     ('r, encrypted_record, record_crypto_error) stateful" where
  "aead_encrypt cipher store_id binding key_id key plaintext random =
     sbind (srequire (length plaintext \<le> MAX_RECORD_CIPHERTEXT - 16) RcLimit) (\<lambda>_.
     sbind (random_fill random 24 RcRandom) (\<lambda>bs.
     let nonce = of_be_bytes bs
     in sbind (slift (header_new store_id binding key_id nonce)) (\<lambda>header.
        sbind (slift (header_encode_strict header)) (\<lambda>aad.
        sbind (slift (ok_or RcLimit (aead_seal cipher key nonce aad plaintext))) (\<lambda>ciphertext.
          slift (encrypted_new header ciphertext))))))"

definition aead_decrypt ::
  "aead \<Rightarrow> id16 \<Rightarrow> record_binding \<Rightarrow> encrypted_record \<Rightarrow> arr32 \<Rightarrow> (bytes, record_crypto_error) result" where
  "aead_decrypt cipher store_id expected r key =
     rbind (binding_validate expected) (\<lambda>_.
     if rh_store_id (er_header r) \<noteq> store_id \<or> rh_binding (er_header r) \<noteq> expected then Err RcBinding
     else rbind (header_encode_strict (er_header r)) (\<lambda>aad.
            ok_or RcAuthentication (aead_open cipher key (rh_nonce (er_header r)) aad (er_ciphertext r))))"

section \<open>Strings cut at a slash\<close>

text \<open>An ASCII byte is never inside a longer UTF-8 sequence, so a string may be cut there.\<close>

lemma utf8_tail_not_ascii:
  assumes "unat b < 128"
  shows "\<not> utf8_pair x b" "\<not> utf8_triple x b y" "\<not> utf8_triple x y b"
    "\<not> utf8_quad x b y z" "\<not> utf8_quad x y b z" "\<not> utf8_quad x y z b"
  using assms by (auto simp: utf8_pair_def utf8_triple_def utf8_quad_def in_range_def)

lemma utf8_cut:
  assumes "utf8_valid (xs @ b # ys)" and "unat b < 128"
  shows "utf8_valid xs \<and> utf8_valid ys"
  using assms
proof (induction xs rule: utf8_chars.induct)
  case 1
  then show ?case by (simp add: utf8_valid_def)
next
  case (2 a rest)
  note [simp] = utf8_valid_def utf8_tail_not_ascii [OF "2.prems"(2)]
  show ?case
  proof (cases "unat a < 128")
    case True
    then show ?thesis using "2.IH"(1) "2.prems" by simp
  next
    case False
    then obtain b1 rest2 where r: "rest = b1 # rest2"
      using "2.prems"(1) by (cases rest) (auto split: list.splits if_splits)
    show ?thesis
    proof (cases "utf8_pair a b1")
      case True
      then show ?thesis using False "2.IH"(2) [OF False r] "2.prems" r by simp
    next
      case npair: False
      then obtain c rest3 where r2: "rest2 = c # rest3"
        using False r "2.prems"(1) by (cases rest2) (auto split: list.splits if_splits)
      show ?thesis
      proof (cases "utf8_triple a b1 c")
        case True
        then show ?thesis using False npair "2.IH"(3) [OF False r npair r2] "2.prems" r r2 by simp
      next
        case ntriple: False
        then obtain d rest4 where r3: "rest3 = d # rest4"
          using False npair r r2 "2.prems"(1) by (cases rest3) (auto split: list.splits if_splits)
        have "utf8_quad a b1 c d"
          using False npair ntriple r r2 r3 "2.prems"(1) by (auto split: if_splits)
        then show ?thesis
          using False npair ntriple "2.IH"(4) [OF False r npair r2 ntriple r3] "2.prems" r r2 r3 by simp
      qed
    qed
  qed
qed

lemma str_ok_cut:
  assumes "str_ok (s @ CHR ''/'' # t)"
  shows "str_ok s \<and> str_ok t"
proof -
  have slash: "byte_of_char CHR ''/'' = 47" by (simp add: byte_of_char_def)
  have "utf8_valid (str_bytes s @ 47 # str_bytes t)"
    using assms by (simp add: str_ok_def str_bytes_def slash)
  from utf8_cut [OF this] show ?thesis by (simp add: str_ok_def)
qed

lemma split_on_str_ok:
  assumes "str_ok s" and "w \<in> set (split_on CHR ''/'' s)"
  shows "str_ok w"
proof -
  have "str_ok (join CHR ''/'' ws) \<Longrightarrow> w \<in> set ws \<Longrightarrow> str_ok w" for ws
    by (induction "CHR ''/''" ws rule: join.induct) (auto dest: str_ok_cut)
  from this [of "split_on CHR ''/'' s"] assms show ?thesis by (simp add: join_split_on)
qed

lemma split_on_length_le: "w \<in> set (split_on sep s) \<Longrightarrow> length w \<le> length s"
  by (induction s arbitrary: w) (auto split: list.splits if_splits intro: le_SucI)

lemma ascii_utf8_valid: "list_all (\<lambda>b. b < 128) bs \<Longrightarrow> utf8_valid bs"
  by (induction bs) (auto simp: utf8_valid_def word_less_nat_alt)

section \<open>The header as bytes\<close>

lemma put_bytes_Ok:
  "put_bytes v maximum out = Ok out' \<longleftrightarrow> length v \<le> maximum \<and> length v \<le> u32_max
     \<and> out' = out @ be_bytes 4 (word_of_nat (length v) :: u32) @ v"
  by (auto simp: put_bytes_def)

lemma put_segments_Ok:
  "put_segments ws out = Ok out' \<longleftrightarrow> (\<forall>w\<in>set ws. length w \<le> MAX_PATH) \<and> out' = out @ concat (map string_wire ws)"
  by (induction ws arbitrary: out) (auto simp: put_bytes_Ok string_wire_def)

definition header_wire :: "record_header \<Rightarrow> string list \<Rightarrow> bytes" where
  "header_wire h segments =
     (let b = rh_binding h in
      RECORD_MAGIC @ be_bytes 2 RECORD_FORMAT_VERSION @ be_bytes 2 CIPHER_SUITE_XCHACHA20_POLY1305
      @ be_bytes 16 (rh_store_id h) @ be_bytes 2 (record_domain_code (rb_domain b))
      @ be_bytes 16 (rh_key_id h) @ be_bytes 24 (rh_nonce h) @ string_wire (rb_mount b)
      @ be_bytes 2 (word_of_nat (length segments) :: u16) @ concat (map string_wire segments)
      @ be_bytes 4 (word_of_nat (length (rb_logical_record_id b)) :: u32) @ rb_logical_record_id b
      @ option_wire (be_bytes 8) (rb_version b) @ be_bytes 8 (rb_created_unix_milliseconds b))"

definition header_ok :: "record_header \<Rightarrow> bool" where
  "header_ok h \<longleftrightarrow> binding_validate (rh_binding h) = Ok () \<and> logical_path_ok (rb_path (rh_binding h))"

lemma binding_validate_Ok:
  "binding_validate b = Ok () \<longleftrightarrow>
     rb_mount b \<noteq> [] \<and> length (rb_mount b) \<le> 128
     \<and> list_all (\<lambda>byte. byte \<noteq> 47 \<and> byte \<noteq> 0 \<and> \<not> byte_is_ascii_control byte \<and> byte < 128) (str_bytes (rb_mount b))
     \<and> rb_logical_record_id b \<noteq> [] \<and> length (rb_logical_record_id b) \<le> MAX_LOGICAL_ID
     \<and> length (rb_path b) \<le> MAX_PATH \<and> length (split_on CHR ''/'' (rb_path b)) \<le> MAX_PATH_SEGMENTS
     \<and> rb_version b \<noteq> Some 0 \<and> (rb_domain b = SecretValue) = (rb_version b \<noteq> None)"
  by (auto simp: binding_validate_def list_ex_iff list_all_iff not_less)

lemma header_encode_strict_Ok:
  assumes "header_encode_strict h = Ok bs"
  shows "bs = header_wire h (split_on CHR ''/'' (rb_path (rh_binding h))) \<and> length bs \<le> MAX_HEADER
    \<and> binding_validate (rh_binding h) = Ok ()"
  using assms
  by (auto simp: header_encode_strict_def header_wire_def string_wire_def Let_def put_bytes_Ok put_segments_Ok
      split: if_splits option.splits)

lemma run_plain_accepts: "accepts g bs v \<Longrightarrow> vec_ok bs \<Longrightarrow> run_plain bs g = Ok v"
  unfolding accepts_def run_plain_def by (drule spec [of _ "[]"]) auto

lemma accepts_lift_end: "r = Ok v \<Longrightarrow> accepts (dlift r) [] v"
  by (simp add: accepts_def dlift_def)

lemma record_domain_decode_code [simp]: "record_domain_decode (record_domain_code domain) = Ok domain"
  by (cases domain) (simp_all add: record_domain_decode_def)

lemma record_domain_decode_Ok: "record_domain_decode code = Ok domain \<longleftrightarrow> code = record_domain_code domain"
  by (cases domain) (auto simp: record_domain_decode_def)

lemma reads_path_segments:
  assumes "\<forall>w\<in>set ws. str_ok w \<and> length w \<le> MAX_PATH" and "length ws \<le> MAX_PATH_SEGMENTS"
  shows "reads (dec_repeat (unat (word_of_nat (length ws) :: u16)) (dec_string MAX_PATH))
    (concat (map string_wire ws)) ws"
proof -
  have "unat (word_of_nat (length ws) :: u16) = length ws"
    using assms(2) by (simp add: unat_of_nat take_bit_nat_eq_self)
  moreover have "reads (dec_string MAX_PATH) (string_wire w) w" if "w \<in> set ws" for w
    using assms(1) that unfolding string_wire_def by (intro reads_dec_string) auto
  ultimately show ?thesis
    by (simp add: reads_dec_repeat)
qed

text \<open>
  The segments are joined again before the path is checked, so every way to cut the path at some of its
  slashes is accepted, not only the cut at all of them.
\<close>

lemma header_wire_decodes:
  assumes ok: "header_ok h" and path: "rb_path (rh_binding h) = join CHR ''/'' ws"
    and ws: "ws \<noteq> []" "\<forall>w\<in>set ws. str_ok w \<and> length w \<le> MAX_PATH" "length ws \<le> MAX_PATH_SEGMENTS"
    and vec: "vec_ok (header_wire h ws)"
  shows "header_decode (header_wire h ws) = Ok h"
proof -
  obtain b where b: "rh_binding h = b" by simp
  note v = ok [unfolded header_ok_def b, THEN conjunct1]
  note fields = v [unfolded binding_validate_Ok]
  have mount: "str_ok (rb_mount b)"
    using fields ascii_utf8_valid by (auto simp: str_ok_def list_all_iff)
  have p: "logical_path_new (join CHR ''/'' ws) = Ok (rb_path b)"
    using ok path b by (simp add: header_ok_def logical_path_ok_def)
  have n: "(word_of_nat (length ws) :: u16) \<noteq> 0 \<and> unat (word_of_nat (length ws) :: u16) \<le> MAX_PATH_SEGMENTS"
  proof -
    have "unat (word_of_nat (length ws) :: u16) = length ws"
      using ws(3) by (simp add: unat_of_nat take_bit_nat_eq_self)
    then show ?thesis using ws(1,3) by (auto simp: unat_eq_zero [symmetric])
  qed
  have new: "binding_new (rb_domain b) (rb_mount b) (rb_path b) (rb_logical_record_id b) (rb_version b)
      (rb_created_unix_milliseconds b) = Ok b"
    using v by (cases b) (simp add: binding_new_def Let_def)
  have hdr: "header_new (rh_store_id h) b (rh_key_id h) (rh_nonce h) = Ok h"
    using v b by (simp add: header_new_def)
  have magic: "reads (dec_take 8) RECORD_MAGIC RECORD_MAGIC"
    by (rule reads_dec_take_n) (simp add: RECORD_MAGIC_def str_bytes_def)
  have version: "reads (dec_option dec_u64) (option_wire (be_bytes 8) (rb_version b)) (rb_version b)"
    by (rule reads_option) (rule reads_dec_u64)
  have last: "map_err record_crypto_codec (rbind (binding_new (rb_domain b) (rb_mount b) (rb_path b)
      (rb_logical_record_id b) (rb_version b) (rb_created_unix_milliseconds b)) (\<lambda>binding.
        header_new (rh_store_id h) binding (rh_key_id h) (rh_nonce h))) = Ok h"
    by (simp add: new hdr)
  have lens: "LENGTH(128) = 8 * 16" "LENGTH(192) = 8 * 24" "length (rb_mount b) \<le> 128"
    "length (rb_mount b) \<le> u32_max" "length (rb_logical_record_id b) \<le> MAX_LOGICAL_ID"
    "length (rb_logical_record_id b) \<le> u32_max"
    using fields by simp_all
  show ?thesis
    unfolding header_decode_def
    apply (rule run_plain_accepts [OF _ vec])
    unfolding header_wire_def Let_def b string_wire_def [of "rb_mount b"] append_assoc
    apply (rule accepts_bind [OF magic])
    by (rule accepts_bind [OF reads_path_segments [OF ws(2,3)]] accepts_bind [OF version] accepts_intros
        accepts_lift_end refl record_domain_decode_code lens mount n p last)+
qed

lemma length_join: "ws \<noteq> [] \<Longrightarrow> length (join sep ws) + 1 = sum_list (map length ws) + length ws"
  by (induction sep ws rule: join.induct) auto

lemma length_string_wires: "length (concat (map string_wire ws)) = 4 * length ws + sum_list (map length ws)"
  by (induction ws) (auto simp: string_wire_def)

lemma header_ok_segments:
  assumes "header_ok h" and "w \<in> set (split_on CHR ''/'' (rb_path (rh_binding h)))"
  shows "str_ok w \<and> length w \<le> MAX_PATH"
proof -
  have "str_ok (rb_path (rh_binding h))" "length (rb_path (rh_binding h)) \<le> MAX_PATH"
    using assms(1) by (auto simp: header_ok_def logical_path_ok_def binding_validate_Ok)
  then show ?thesis
    using split_on_str_ok [OF _ assms(2)] split_on_length_le [OF assms(2)] by simp
qed

text \<open>The bound on the header is never met: a valid binding always fits.\<close>

lemma header_encode_total:
  assumes "header_ok h"
  shows "header_encode_strict h = Ok (header_wire h (split_on CHR ''/'' (rb_path (rh_binding h))))"
    and "length (header_wire h (split_on CHR ''/'' (rb_path (rh_binding h)))) \<le> 2531"
proof -
  obtain b where b: "rh_binding h = b" by simp
  let ?ws = "split_on CHR ''/'' (rb_path b)"
  have v: "binding_validate b = Ok ()" and p: "logical_path_ok (rb_path b)"
    using assms b by (auto simp: header_ok_def)
  note fields = v [unfolded binding_validate_Ok]
  have "sum_list (map length ?ws) + length ?ws = length (rb_path b) + 1"
    using length_join [of ?ws "CHR ''/''"] by (simp add: join_split_on)
  then have segs: "length (concat (map string_wire ?ws)) \<le> 3 * MAX_PATH_SEGMENTS + MAX_PATH + 1"
    using fields by (simp add: length_string_wires)
  have version: "length (option_wire (be_bytes 8) (rb_version b)) \<le> 9"
    by (cases "rb_version b") auto
  show len: "length (header_wire h (split_on CHR ''/'' (rb_path (rh_binding h)))) \<le> 2531"
    using segs version fields b
    by (simp add: header_wire_def Let_def RECORD_MAGIC_def string_wire_def [of "rb_mount b"])
  have "\<forall>w\<in>set ?ws. length w \<le> MAX_PATH"
    using header_ok_segments [OF assms] b by simp
  then show "header_encode_strict h = Ok (header_wire h (split_on CHR ''/'' (rb_path (rh_binding h))))"
    using len v fields b
    by (auto simp: header_encode_strict_def header_wire_def string_wire_def [of "rb_mount b"] Let_def put_bytes_def
        put_segments_Ok split: option.split)
qed

lemma header_round_trip:
  assumes "header_ok h"
  shows "\<exists>bs. header_encode h = Ok bs \<and> length bs \<le> MAX_HEADER \<and> header_decode bs = Ok h"
proof -
  let ?ws = "split_on CHR ''/'' (rb_path (rh_binding h))"
  note total = header_encode_total [OF assms]
  have "\<forall>w\<in>set ?ws. str_ok w \<and> length w \<le> MAX_PATH" "length ?ws \<le> MAX_PATH_SEGMENTS"
    using assms header_ok_segments [OF assms] by (auto simp: header_ok_def binding_validate_Ok)
  then have "header_decode (header_wire h ?ws) = Ok h"
    using total(2) assms by (intro header_wire_decodes) (simp_all add: join_split_on vec_ok_def)
  with total show ?thesis by (simp add: header_encode_def)
qed

lemma header_encode_inject:
  assumes "header_ok h" and "header_ok h'" and "header_encode_strict h = header_encode_strict h'"
  shows "h = h'"
  using header_round_trip [OF assms(1)] header_round_trip [OF assms(2)] assms(3) by (auto simp: header_encode_def)

text \<open>
  A path of two segments has two headers on the wire: the segments apart, as they are written, and in one piece.
\<close>

lemma header_not_canonical:
  assumes "header_ok h" and "CHR ''/'' \<in> set (rb_path (rh_binding h))"
  shows "\<exists>bs. header_decode bs = Ok h \<and> header_encode h \<noteq> Ok bs"
proof -
  let ?p = "rb_path (rh_binding h)" and ?ws = "split_on CHR ''/'' (rb_path (rh_binding h))"
  have p: "str_ok ?p" "length ?p \<le> MAX_PATH" and ws: "length ?ws \<le> MAX_PATH_SEGMENTS"
    using assms(1) by (auto simp: header_ok_def logical_path_ok_def binding_validate_Ok)
  have "length ?ws \<noteq> 1"
  proof
    assume "length ?ws = 1"
    then obtain w where "?ws = [w]" by (auto simp: length_Suc_conv)
    with join_split_on [of "CHR ''/''" ?p] have "?ws = [?p]" by simp
    then have "CHR ''/'' \<notin> set ?p" using split_on_no_sep [of ?p "CHR ''/''" ?p] by simp
    with assms(2) show False by simp
  qed
  moreover have "length (header_wire h ?ws) + 3 = length (header_wire h [?p]) + 3 * length ?ws"
    using length_join [of ?ws "CHR ''/''"]
    by (simp add: header_wire_def Let_def length_string_wires join_split_on string_wire_def)
  moreover have "1 \<le> length ?ws" by (simp add: Suc_le_eq)
  ultimately have le: "length (header_wire h [?p]) \<noteq> length (header_wire h ?ws)"
    "length (header_wire h [?p]) \<le> length (header_wire h ?ws)"
    by linarith+
  then have ne: "header_wire h [?p] \<noteq> header_wire h ?ws" by auto
  have "header_decode (header_wire h [?p]) = Ok h"
    using assms(1) p le header_encode_total(2) [OF assms(1)]
    by (intro header_wire_decodes) (simp_all add: vec_ok_def)
  with ne header_encode_total(1) [OF assms(1)] show ?thesis by (auto simp: header_encode_def)
qed

lemma encrypted_round_trip:
  assumes "header_ok (er_header r)" and "16 \<le> length (er_ciphertext r)"
    and "length (er_ciphertext r) \<le> MAX_RECORD_CIPHERTEXT"
  shows "\<exists>bs. encrypted_encode r = Ok bs \<and> encrypted_decode bs = Ok r"
proof -
  obtain h where h: "header_encode (er_header r) = Ok h" "length h \<le> MAX_HEADER" "header_decode h = Ok (er_header r)"
    using header_round_trip [OF assms(1)] by blast
  let ?bs = "be_bytes 4 (word_of_nat (length h) :: u32) @ h
    @ be_bytes 4 (word_of_nat (length (er_ciphertext r)) :: u32) @ er_ciphertext r"
  have "encrypted_encode r = Ok ?bs"
    using h assms by (simp add: encrypted_encode_def put_bytes_def)
  moreover have "encrypted_decode ?bs = Ok r"
    unfolding encrypted_decode_def
  proof (rule run_plain_accepts)
    show "vec_ok ?bs" using h(2) assms(3) by (simp add: vec_ok_def)
  qed (use h assms in \<open>intro accepts_lift [OF h(3)] accepts_intros; simp\<close>)
  ultimately show ?thesis by blast
qed

section \<open>Sealing and opening\<close>

definition aead_correct :: "aead \<Rightarrow> bool" where
  "aead_correct cipher \<longleftrightarrow> (\<forall>key nonce aad plaintext ciphertext.
     aead_seal cipher key nonce aad plaintext = Some ciphertext \<longrightarrow>
     aead_open cipher key nonce aad ciphertext = Some plaintext)"

lemma aead_encrypt_Ok:
  assumes "aead_encrypt cipher store_id binding key_id key plaintext random s = (Ok r, s')"
  shows "rh_store_id (er_header r) = store_id \<and> rh_binding (er_header r) = binding \<and> rh_key_id (er_header r) = key_id
    \<and> binding_validate binding = Ok () \<and> 16 \<le> length (er_ciphertext r)
    \<and> length (er_ciphertext r) \<le> MAX_RECORD_CIPHERTEXT
    \<and> (\<exists>aad. header_encode_strict (er_header r) = Ok aad
        \<and> aead_seal cipher key (rh_nonce (er_header r)) aad plaintext = Some (er_ciphertext r))"
  using assms
  by (auto simp: aead_encrypt_def encrypted_new_def header_new_def Let_def split: if_splits option.splits)

lemma aead_decrypt_encrypted:
  assumes "aead_correct cipher"
    and "aead_encrypt cipher store_id binding key_id key plaintext random s = (Ok r, s')"
  shows "aead_decrypt cipher store_id binding r key = Ok plaintext"
  using aead_encrypt_Ok [OF assms(2)] assms(1)
  by (auto simp: aead_decrypt_def aead_correct_def)

text \<open>A record opens only at the place in its header.\<close>

lemma aead_decrypt_Ok:
  assumes "aead_decrypt cipher store_id binding r key = Ok plaintext"
  shows "rh_store_id (er_header r) = store_id \<and> rh_binding (er_header r) = binding
    \<and> binding_validate binding = Ok ()
    \<and> (\<exists>aad. header_encode_strict (er_header r) = Ok aad
        \<and> aead_open cipher key (rh_nonce (er_header r)) aad (er_ciphertext r) = Some plaintext)"
  using assms by (auto simp: aead_decrypt_def split: if_splits option.splits)

end
