(* ===== verification/Keyring.thy ===== *)
theory Keyring
  imports Record_Aead
begin

text \<open>
  The keyring (\<open>store/keyring.rs\<close>): one key per purpose with its predecessors, its canonical plaintext, the
  envelope that wraps it for the recipients, and the rotations. The age crate and BLAKE3 are parameters. The
  methods that only forward to a store transaction are left out.
\<close>

section \<open>Keys and recipients\<close>

abbreviation (input) KEYRING_FORMAT_VERSION :: u16 where "KEYRING_FORMAT_VERSION \<equiv> 1"
abbreviation (input) MAX_AUDIT_PAYLOAD_GENERATIONS :: nat where "MAX_AUDIT_PAYLOAD_GENERATIONS \<equiv> 32"
abbreviation (input) AUDIT_PAYLOAD_WARNING_THRESHOLD :: nat where "AUDIT_PAYLOAD_WARNING_THRESHOLD \<equiv> 24"
abbreviation (input) MAX_RECORD_GENERATIONS :: nat where "MAX_RECORD_GENERATIONS \<equiv> 8"
abbreviation (input) MAX_KEYRING_PLAINTEXT :: nat where "MAX_KEYRING_PLAINTEXT \<equiv> 65536"
abbreviation (input) MAX_AGE_ENVELOPE :: nat where "MAX_AGE_ENVELOPE \<equiv> 1048576"

definition KEYRING_METADATA_KEY :: bytes where
  "KEYRING_METADATA_KEY = 1 # str_bytes ''keyring_metadata''"

datatype keyring_error =
    KrRandom | KrInvalid | KrLimit | KrVersion | KrDuplicateKeyId | KrRecipientSet | KrEncrypt | KrDecrypt
  | KrIdentity | KrAlreadyOpened | KrAlreadyInstalled | KrStoreMismatch | KrMetadataIntegrity
  | KrMetadataMismatch | KrGenerationMismatch | KrCodec

record purpose_key =
  pk_id :: id16
  pk_material :: arr32

record recipient_set =
  rs_active :: arr32
  rs_recovery :: "arr32 option"

type_synonym hash = "bytes \<Rightarrow> arr32"

text \<open>What the code uses of age: identities, their recipients, and encryption to a list of recipients.\<close>

record ('i, 'p) age =
  age_to_public :: "'i \<Rightarrow> 'p"
  age_recipient_text :: "'p \<Rightarrow> string"
  age_encrypt :: "'p list \<Rightarrow> bytes \<Rightarrow> bytes option"
  age_decrypt :: "'i \<Rightarrow> bytes \<Rightarrow> bytes option"

definition recipient_domain :: bytes where
  "recipient_domain = str_bytes ''ops-light-secrets-server.age-recipient.v1'' @ [0]"

definition fingerprint_of :: "hash \<Rightarrow> ('i, 'p) age \<Rightarrow> 'p \<Rightarrow> arr32" where
  "fingerprint_of hash age recipient = hash (recipient_domain @ str_bytes (age_recipient_text age recipient))"

definition recipient_set_new ::
  "hash \<Rightarrow> ('i, 'p) age \<Rightarrow> 'p \<Rightarrow> 'p option \<Rightarrow> (recipient_set, keyring_error) result" where
  "recipient_set_new hash age active recovery =
     (let active = fingerprint_of hash age active;
          recovery = map_option (fingerprint_of hash age) recovery
      in if recovery = Some active then Err KrRecipientSet
         else Ok \<lparr>rs_active = active, rs_recovery = recovery\<rparr>)"

definition recipients_ordered :: "recipient_set \<Rightarrow> 'p \<Rightarrow> 'p option \<Rightarrow> (arr32 \<times> 'p) list" where
  "recipients_ordered rs active recovery =
     (let recipients = [(rs_active rs, active)];
          recipients = (case (rs_recovery rs, recovery) of
             (Some fingerprint, Some recipient) \<Rightarrow> recipients @ [(fingerprint, recipient)]
           | _ \<Rightarrow> recipients)
      in sort_key fst recipients)"

section \<open>The keyring\<close>

record keyring =
  kr_store_id :: id16
  kr_generation :: u64
  kr_recipients :: recipient_set
  kr_record_current :: purpose_key
  kr_record_predecessors :: "purpose_key list"
  kr_credential_verifier :: purpose_key
  kr_metadata_integrity :: purpose_key
  kr_audit_payload :: "purpose_key list"
  kr_audit_index :: purpose_key
  kr_record_decrypt_attempts :: u64

definition all_keys :: "keyring \<Rightarrow> purpose_key list" where
  "all_keys k = kr_record_current k # kr_record_predecessors k
     @ kr_credential_verifier k # kr_metadata_integrity k # kr_audit_payload k @ [kr_audit_index k]"

definition keyring_validate :: "keyring \<Rightarrow> (unit, keyring_error) result" where
  "keyring_validate k =
     (if kr_generation k = 0 \<or> length (kr_record_predecessors k) > MAX_RECORD_GENERATIONS
         \<or> \<not> (1 \<le> length (kr_audit_payload k) \<and> length (kr_audit_payload k) \<le> MAX_AUDIT_PAYLOAD_GENERATIONS)
      then Err KrLimit
      else if card (set (map pk_id (all_keys k)))
                \<noteq> 4 + length (kr_record_predecessors k) + length (kr_audit_payload k)
      then Err KrDuplicateKeyId else Ok ())"

primrec generate_key_rounds ::
  "nat \<Rightarrow> 'r random_source \<Rightarrow> id16 set \<Rightarrow> ('r, purpose_key \<times> id16 set, keyring_error) stateful" where
  "generate_key_rounds 0 random ids = slift (Err KrDuplicateKeyId)"
| "generate_key_rounds (Suc n) random ids =
     sbind (random_fill random 16 KrRandom) (\<lambda>id_bytes.
     sbind (random_fill random 32 KrRandom) (\<lambda>material.
       let id = of_be_bytes id_bytes
       in if id \<notin> ids then slift (Ok (\<lparr>pk_id = id, pk_material = of_be_bytes material\<rparr>, insert id ids))
          else generate_key_rounds n random ids))"

definition generate_key ::
  "'r random_source \<Rightarrow> id16 set \<Rightarrow> ('r, purpose_key \<times> id16 set, keyring_error) stateful" where
  "generate_key random ids = generate_key_rounds 16 random ids"

definition keyring_generate ::
  "id16 \<Rightarrow> u64 \<Rightarrow> recipient_set \<Rightarrow> 'r random_source \<Rightarrow> ('r, keyring, keyring_error) stateful" where
  "keyring_generate store_id generation recipients random =
     sbind (srequire (generation \<noteq> 0) KrInvalid) (\<lambda>_.
     sbind (generate_key random {}) (\<lambda>(record_current, ids).
     sbind (generate_key random ids) (\<lambda>(credential_verifier, ids).
     sbind (generate_key random ids) (\<lambda>(metadata_integrity, ids).
     sbind (generate_key random ids) (\<lambda>(audit_payload, ids).
     sbind (generate_key random ids) (\<lambda>(audit_index, ids).
       slift (Ok \<lparr>kr_store_id = store_id, kr_generation = generation, kr_recipients = recipients,
                 kr_record_current = record_current, kr_record_predecessors = [],
                 kr_credential_verifier = credential_verifier, kr_metadata_integrity = metadata_integrity,
                 kr_audit_payload = [audit_payload], kr_audit_index = audit_index,
                 kr_record_decrypt_attempts = 0\<rparr>)))))))"

definition audit_capacity_warning :: "keyring \<Rightarrow> bool" where
  "audit_capacity_warning k \<longleftrightarrow> length (kr_audit_payload k) \<ge> AUDIT_PAYLOAD_WARNING_THRESHOLD"

definition metadata_integrity_key :: "keyring \<Rightarrow> arr32" where
  "metadata_integrity_key k = pk_material (kr_metadata_integrity k)"

definition credential_verifier_key :: "keyring \<Rightarrow> arr32" where
  "credential_verifier_key k = pk_material (kr_credential_verifier k)"

section \<open>Records under the keyring\<close>

definition encryption_key :: "keyring \<Rightarrow> record_domain \<Rightarrow> purpose_key" where
  "encryption_key k domain =
     (case domain of
        AuditPayload \<Rightarrow> last (kr_audit_payload k)
      | SecretValue \<Rightarrow> kr_record_current k | CredentialMaterial \<Rightarrow> kr_record_current k)"

definition encrypt_record ::
  "aead \<Rightarrow> keyring \<Rightarrow> record_binding \<Rightarrow> bytes \<Rightarrow> 'r random_source \<Rightarrow>
     ('r, encrypted_record, record_crypto_error) stateful" where
  "encrypt_record cipher k binding plaintext random =
     (let key = encryption_key k (rb_domain binding)
      in aead_encrypt cipher (kr_store_id k) binding (pk_id key) (pk_material key) plaintext random)"

definition decrypt_record ::
  "aead \<Rightarrow> record_binding \<Rightarrow> encrypted_record \<Rightarrow> (keyring, bytes, record_crypto_error) stateful" where
  "decrypt_record cipher binding r k =
     (let h = er_header r in
      (if rh_store_id h \<noteq> kr_store_id k \<or> rh_binding h \<noteq> binding then Err RcBinding
       else rbind (ok_or RcKeyUnavailable
              (find (\<lambda>key. pk_id key = rh_key_id h)
                 (case rb_domain binding of
                    AuditPayload \<Rightarrow> kr_audit_payload k
                  | SecretValue \<Rightarrow> kr_record_current k # kr_record_predecessors k
                  | CredentialMaterial \<Rightarrow> kr_record_current k # kr_record_predecessors k))) (\<lambda>key.
            aead_decrypt cipher (kr_store_id k) binding r (pk_material key)),
       k\<lparr>kr_record_decrypt_attempts := kr_record_decrypt_attempts k + 1\<rparr>))"

section \<open>The plaintext of the keyring\<close>

definition encode_key :: "purpose_key \<Rightarrow> bytes \<Rightarrow> bytes" where
  "encode_key key out = enc_fixed (be_bytes 32 (pk_material key)) (enc_fixed (be_bytes 16 (pk_id key)) out)"

primrec encode_keys :: "purpose_key list \<Rightarrow> bytes \<Rightarrow> bytes" where
  "encode_keys [] out = out"
| "encode_keys (key # keys) out = encode_keys keys (encode_key key out)"

definition encode_recipients :: "recipient_set \<Rightarrow> bytes \<Rightarrow> bytes" where
  "encode_recipients rs out =
     (let out = enc_fixed (be_bytes 32 (rs_active rs)) out
      in case rs_recovery rs of None \<Rightarrow> enc_u8 0 out
         | Some value \<Rightarrow> enc_fixed (be_bytes 32 value) (enc_u8 1 out))"

definition encode_plaintext :: "keyring \<Rightarrow> (bytes, keyring_error) result" where
  "encode_plaintext k =
     rbind (keyring_validate k) (\<lambda>_.
       let out = enc_version 1;
           out = enc_fixed (be_bytes 16 (kr_store_id k)) out;
           out = enc_u16 KEYRING_FORMAT_VERSION out;
           out = enc_u64 (kr_generation k) out;
           out = encode_recipients (kr_recipients k) out;
           out = encode_key (kr_record_current k) out;
           out = enc_u8 (word_of_nat (length (kr_record_predecessors k))) out;
           out = encode_keys (kr_record_predecessors k) out;
           out = encode_key (kr_credential_verifier k) out;
           out = encode_key (kr_metadata_integrity k) out;
           out = enc_u8 (word_of_nat (length (kr_audit_payload k))) out;
           out = encode_keys (kr_audit_payload k) out;
           out = encode_key (kr_audit_index k) out;
           encoded = enc_finish out
       in if length encoded > MAX_KEYRING_PLAINTEXT then Err KrLimit else Ok encoded)"

text \<open>
  The decoder of the plaintext has keyring errors of its own; \<open>kread\<close> is a call of a decoder method followed by
  \<open>?\<close>, which turns every codec error into \<open>KeyringError::Codec\<close>.
\<close>

type_synonym 'a kdec = "decoder \<Rightarrow> ('a \<times> decoder, keyring_error) result"

definition kread :: "'a dec \<Rightarrow> 'a kdec" where
  "kread g d = map_err (\<lambda>_. KrCodec) (g d)"

definition kbind :: "'a kdec \<Rightarrow> ('a \<Rightarrow> 'b kdec) \<Rightarrow> 'b kdec" where
  "kbind g f d = rbind (g d) (\<lambda>(x, d'). f x d')"

definition kcheck :: "bool \<Rightarrow> keyring_error \<Rightarrow> unit kdec" where
  "kcheck c e d = (if c then Ok ((), d) else Err e)"

definition klift :: "('a, keyring_error) result \<Rightarrow> 'a kdec" where
  "klift r d = rbind r (\<lambda>x. Ok (x, d))"

definition decode_key :: "purpose_key dec" where
  "decode_key = dbind (dec_fixed 16) (\<lambda>id. dbind (dec_fixed 32) (\<lambda>material.
     dret \<lparr>pk_id = id, pk_material = material\<rparr>))"

definition decode_recipients :: "recipient_set kdec" where
  "decode_recipients =
     kbind (kread (dec_fixed 32)) (\<lambda>active.
     kbind (kread dec_u8) (\<lambda>tag.
     kbind (if tag = 0 then klift (Ok None)
            else if tag = 1 then kbind (kread (dec_fixed 32)) (\<lambda>value. klift (Ok (Some value)))
            else klift (Err KrInvalid)) (\<lambda>recovery.
     kbind (kcheck (recovery \<noteq> Some active) KrRecipientSet) (\<lambda>_.
       klift (Ok \<lparr>rs_active = active, rs_recovery = recovery\<rparr>)))))"

definition decode_plaintext :: "bytes \<Rightarrow> (keyring, keyring_error) result" where
  "decode_plaintext bs =
     (if length bs > MAX_KEYRING_PLAINTEXT then Err KrLimit
      else rbind (map_err (\<lambda>_. KrCodec) (dec_version bs 1)) (\<lambda>d. rbind (
        kbind (kread (dec_fixed 16)) (\<lambda>store_id.
        kbind (kread dec_u16) (\<lambda>format.
        kbind (kcheck (format = KEYRING_FORMAT_VERSION) KrVersion) (\<lambda>_.
        kbind (kread dec_u64) (\<lambda>generation.
        kbind decode_recipients (\<lambda>recipients.
        kbind (kread decode_key) (\<lambda>record_current.
        kbind (kread dec_u8) (\<lambda>predecessor_count.
        kbind (kcheck (unat predecessor_count \<le> MAX_RECORD_GENERATIONS) KrLimit) (\<lambda>_.
        kbind (kread (dec_repeat (unat predecessor_count) decode_key)) (\<lambda>record_predecessors.
        kbind (kread decode_key) (\<lambda>credential_verifier.
        kbind (kread decode_key) (\<lambda>metadata_integrity.
        kbind (kread dec_u8) (\<lambda>audit_count.
        kbind (kcheck (1 \<le> unat audit_count \<and> unat audit_count \<le> MAX_AUDIT_PAYLOAD_GENERATIONS) KrLimit) (\<lambda>_.
        kbind (kread (dec_repeat (unat audit_count) decode_key)) (\<lambda>audit_payload.
        kbind (kread decode_key) (\<lambda>audit_index.
        kbind (kread dec_finish) (\<lambda>_.
        let k = \<lparr>kr_store_id = store_id, kr_generation = generation, kr_recipients = recipients,
                 kr_record_current = record_current, kr_record_predecessors = record_predecessors,
                 kr_credential_verifier = credential_verifier, kr_metadata_integrity = metadata_integrity,
                 kr_audit_payload = audit_payload, kr_audit_index = audit_index,
                 kr_record_decrypt_attempts = 0\<rparr>
        in kbind (klift (keyring_validate k)) (\<lambda>_. klift (Ok k)))))))))))))))))) d) (\<lambda>(k, _). Ok k)))"

section \<open>Metadata and the envelope\<close>

record keyring_metadata =
  km_generation :: u64
  km_format_version :: u16
  km_recipients :: recipient_set
  km_last_rewrap_audit_sequence :: u64

definition keyring_metadata_encode :: "keyring_metadata \<Rightarrow> (bytes, codec_error) result" where
  "keyring_metadata_encode m =
     (let out = enc_version 1;
          out = enc_u64 (km_generation m) out;
          out = enc_u16 (km_format_version m) out;
          out = encode_recipients (km_recipients m) out;
          out = enc_u64 (km_last_rewrap_audit_sequence m) out
      in Ok (enc_finish out))"

definition keyring_metadata_decode :: "bytes \<Rightarrow> (keyring_metadata, codec_error) result" where
  "keyring_metadata_decode bs = run_dec 1 bs (
     dbind dec_u64 (\<lambda>generation.
     dbind dec_u16 (\<lambda>format_version.
     dbind (\<lambda>d. map_err (\<lambda>_. Invalid) (decode_recipients d)) (\<lambda>recipients.
     dbind dec_u64 (\<lambda>last_rewrap_audit_sequence.
     dbind dec_finish (\<lambda>_.
       dret \<lparr>km_generation = generation, km_format_version = format_version, km_recipients = recipients,
             km_last_rewrap_audit_sequence = last_rewrap_audit_sequence\<rparr>))))))"

abbreviation seal_metadata where
  "seal_metadata keyed \<equiv> seal keyed keyring_metadata_encode KeyringMetadata 1"

abbreviation verify_metadata where
  "verify_metadata keyed \<equiv> verify keyed keyring_metadata_encode KeyringMetadata 1"

definition seal_keyring_metadata ::
  "keyed_hash \<Rightarrow> keyring \<Rightarrow> u64 \<Rightarrow> (keyring_metadata sealed, keyring_error) result" where
  "seal_keyring_metadata keyed k last_rewrap_audit_sequence =
     map_err (\<lambda>_. KrInvalid)
       (seal_metadata keyed \<lparr>km_generation = kr_generation k, km_format_version = KEYRING_FORMAT_VERSION,
            km_recipients = kr_recipients k, km_last_rewrap_audit_sequence = max last_rewrap_audit_sequence 1\<rparr>
          (kr_generation k) (metadata_integrity_key k) (kr_store_id k) KEYRING_METADATA_KEY)"

definition envelope_of :: "('i, 'p) age \<Rightarrow> 'p list \<Rightarrow> bytes \<Rightarrow> (keyring_envelope, keyring_error) result" where
  "envelope_of age recipients plaintext =
     rbind (ok_or KrEncrypt (age_encrypt age recipients plaintext)) (\<lambda>ciphertext.
       if length ciphertext > MAX_AGE_ENVELOPE then Err KrLimit else Ok ciphertext)"

definition wrap ::
  "hash \<Rightarrow> ('i, 'p) age \<Rightarrow> keyring \<Rightarrow> 'p \<Rightarrow> 'p option \<Rightarrow> (keyring_envelope, keyring_error) result" where
  "wrap hash age k active recovery =
     rbind (recipient_set_new hash age active recovery) (\<lambda>recipients.
     if recipients \<noteq> kr_recipients k then Err KrRecipientSet
     else rbind (encode_plaintext k) (\<lambda>plaintext.
       envelope_of age (map snd (recipients_ordered (kr_recipients k) active recovery)) plaintext))"

definition wrap_for_backup ::
  "hash \<Rightarrow> ('i, 'p) age \<Rightarrow> keyring \<Rightarrow> 'p \<Rightarrow> 'p list \<Rightarrow> (keyring_envelope, keyring_error) result" where
  "wrap_for_backup hash age k active recovery =
     (if fingerprint_of hash age active \<noteq> rs_active (kr_recipients k) \<or> recovery = [] \<or> length recovery > 7
      then Err KrRecipientSet
      else let recipients = sort_key fst (map (\<lambda>recipient. (fingerprint_of hash age recipient, recipient))
                 (active # recovery))
           in if adjacent_equal (map fst recipients) then Err KrRecipientSet
              else rbind (encode_plaintext k) (\<lambda>plaintext. envelope_of age (map snd recipients) plaintext))"

definition open_backup_envelope ::
  "('i, 'p) age \<Rightarrow> id16 \<Rightarrow> keyring_envelope \<Rightarrow> 'i \<Rightarrow> (keyring, keyring_error) result" where
  "open_backup_envelope age clear_store_id envelope identity =
     (if length envelope > MAX_AGE_ENVELOPE then Err KrLimit
      else rbind (ok_or KrDecrypt (age_decrypt age identity envelope)) (\<lambda>plaintext.
           rbind (decode_plaintext plaintext) (\<lambda>k.
             if kr_store_id k \<noteq> clear_store_id then Err KrStoreMismatch else Ok k)))"

text \<open>
  The opener counts its attempts and allows one. The handler it calls when the metadata does not verify is
  not part of the result; \<open>open\<close> passes one that does nothing.
\<close>

definition open_keyring ::
  "keyed_hash \<Rightarrow> ('i, 'p) age \<Rightarrow> id16 \<Rightarrow> keyring_envelope \<Rightarrow> keyring_metadata sealed \<Rightarrow> 'i \<Rightarrow>
     (u64, keyring, keyring_error) stateful" where
  "open_keyring keyed age clear_store_id envelope metadata identity attempts =
     (if attempts \<noteq> 0 then (Err KrAlreadyOpened, attempts)
      else (if length envelope > MAX_AGE_ENVELOPE then Err KrLimit
            else rbind (ok_or KrDecrypt (age_decrypt age identity envelope)) (\<lambda>plaintext.
                 rbind (decode_plaintext plaintext) (\<lambda>k.
                 if kr_store_id k \<noteq> clear_store_id then Err KrStoreMismatch
                 else if \<not> is_ok (verify_metadata keyed metadata (metadata_integrity_key k) clear_store_id
                                    KEYRING_METADATA_KEY)
                 then Err KrMetadataIntegrity
                 else if s_generation metadata \<noteq> kr_generation k
                         \<or> km_generation (s_value metadata) \<noteq> kr_generation k
                         \<or> km_format_version (s_value metadata) \<noteq> KEYRING_FORMAT_VERSION
                         \<or> km_recipients (s_value metadata) \<noteq> kr_recipients k
                 then Err KrMetadataMismatch else Ok k)), 1))"

section \<open>Rotations\<close>

abbreviation key_ids :: "keyring \<Rightarrow> id16 set" where
  "key_ids k \<equiv> set (map pk_id (all_keys k))"

definition bump_generation :: "'a \<Rightarrow> keyring \<Rightarrow> ('a, keyring_error) result \<times> keyring" where
  "bump_generation x k =
     (case checked_add (kr_generation k) 1 of
        None \<Rightarrow> (Err KrLimit, k)
      | Some generation \<Rightarrow> (Ok x, k\<lparr>kr_generation := generation\<rparr>))"

definition append_audit_payload_key ::
  "u64 \<Rightarrow> 'r random_source \<Rightarrow> keyring \<Rightarrow> 'r \<Rightarrow> (id16, keyring_error) result \<times> keyring \<times> 'r" where
  "append_audit_payload_key expected_generation random k r =
     (if kr_generation k \<noteq> expected_generation then (Err KrGenerationMismatch, k, r)
      else if length (kr_audit_payload k) \<ge> MAX_AUDIT_PAYLOAD_GENERATIONS then (Err KrLimit, k, r)
      else case generate_key random (key_ids k) r of
             (Err e, r) \<Rightarrow> (Err e, k, r)
           | (Ok (key, _), r) \<Rightarrow>
               (case bump_generation (pk_id key) (k\<lparr>kr_audit_payload := kr_audit_payload k @ [key]\<rparr>) of
                  (res, k) \<Rightarrow> (res, k, r)))"

definition rotate_audit_payload_key ::
  "u64 \<Rightarrow> 'r random_source \<Rightarrow> keyring \<Rightarrow> 'r \<Rightarrow> (id16, keyring_error) result \<times> keyring \<times> 'r" where
  "rotate_audit_payload_key expected_generation random k r =
     append_audit_payload_key expected_generation random k r"

definition rotate_metadata_integrity_key ::
  "u64 \<Rightarrow> 'r random_source \<Rightarrow> keyring \<Rightarrow> 'r \<Rightarrow> (id16 \<times> id16, keyring_error) result \<times> keyring \<times> 'r" where
  "rotate_metadata_integrity_key expected_generation random k r =
     (if kr_generation k \<noteq> expected_generation then (Err KrGenerationMismatch, k, r)
      else let old = pk_id (kr_metadata_integrity k)
           in case generate_key random (key_ids k) r of
                (Err e, r) \<Rightarrow> (Err e, k, r)
              | (Ok (key, _), r) \<Rightarrow>
                  (case bump_generation (old, pk_id key) (k\<lparr>kr_metadata_integrity := key\<rparr>) of
                     (res, k) \<Rightarrow> (res, k, r)))"

record prepared_record_key_rotation =
  pr_keyring :: keyring
  pr_old_key_id :: id16
  pr_new_key_id :: id16

definition prepare_record_key_rotation ::
  "keyring \<Rightarrow> u64 \<Rightarrow> 'r random_source \<Rightarrow> ('r, prepared_record_key_rotation, keyring_error) stateful" where
  "prepare_record_key_rotation k expected_generation random =
     sbind (srequire (kr_generation k = expected_generation) KrGenerationMismatch) (\<lambda>_.
     let old_key_id = pk_id (kr_record_current k)
     in sbind (generate_key random (key_ids k)) (\<lambda>(replacement, _).
        let k = k\<lparr>kr_record_current := replacement,
                  kr_record_predecessors := kr_record_predecessors k @ [kr_record_current k]\<rparr>
        in sbind (slift (ok_or KrLimit (checked_add (kr_generation k) 1))) (\<lambda>generation.
           let k = k\<lparr>kr_generation := generation\<rparr>
           in sbind (slift (keyring_validate k)) (\<lambda>_.
              slift (Ok \<lparr>pr_keyring = k, pr_old_key_id = old_key_id, pr_new_key_id = pk_id replacement\<rparr>)))))"

definition finish_record_key_rotation ::
  "keyed_hash \<Rightarrow> hash \<Rightarrow> ('i, 'p) age \<Rightarrow> 'p \<Rightarrow> 'p option \<Rightarrow> u64 \<Rightarrow>
     (keyring, keyring_envelope \<times> keyring_metadata sealed, keyring_error) stateful" where
  "finish_record_key_rotation keyed hash age active recovery last_audit_sequence k =
     (if last_audit_sequence = 0 then (Err KrInvalid, k)
      else let k = k\<lparr>kr_record_predecessors := []\<rparr>
           in (rbind (keyring_validate k) (\<lambda>_.
               rbind (wrap hash age k active recovery) (\<lambda>envelope.
               rbind (map_err (\<lambda>_. KrCodec)
                 (seal_metadata keyed \<lparr>km_generation = kr_generation k,
                      km_format_version = KEYRING_FORMAT_VERSION, km_recipients = kr_recipients k,
                      km_last_rewrap_audit_sequence = last_audit_sequence\<rparr>
                    (kr_generation k) (metadata_integrity_key k) (kr_store_id k) KEYRING_METADATA_KEY)) (\<lambda>metadata.
                 Ok (envelope, metadata)))), k))"

definition rewrap_domain :: bytes where
  "rewrap_domain = str_bytes ''ops-light-secrets-server.recipient-rewrap-confirmation.v1'' @ [0]"

definition recovery_field :: "recipient_set \<Rightarrow> bytes" where
  "recovery_field rs = (case rs_recovery rs of None \<Rightarrow> [] | Some value \<Rightarrow> be_bytes 32 value)"

definition recipient_rewrap_confirmation ::
  "hash \<Rightarrow> id16 \<Rightarrow> u64 \<Rightarrow> recipient_set \<Rightarrow> recipient_set \<Rightarrow> string \<Rightarrow> (string, keyring_error) result" where
  "recipient_rewrap_confirmation hash store_id expected_generation old_recipients new_recipients reason =
     (if reason = [] \<or> length reason > 1024 \<or> has_control reason then Err KrInvalid
      else Ok (lower_hex (be_bytes 32 (hash (rewrap_domain @ concat (map frame
             [be_bytes 16 store_id, be_bytes 8 expected_generation, be_bytes 32 (rs_active old_recipients),
              recovery_field old_recipients, be_bytes 32 (rs_active new_recipients),
              recovery_field new_recipients, str_bytes reason]))))))"

record 'p rewrap_request =
  rr_expected_generation :: u64
  rr_new_recovery :: "'p option"
  rr_audit_sequence :: u64
  rr_reason :: string
  rr_confirmation :: string
  rr_authorized :: bool

record prepared_recipient_rewrap =
  pw_keyring :: keyring
  pw_envelope :: keyring_envelope
  pw_metadata :: "keyring_metadata sealed"
  pw_old_recipients :: recipient_set
  pw_new_recipients :: recipient_set

definition prepare_recipient_rewrap ::
  "keyed_hash \<Rightarrow> hash \<Rightarrow> ('i, 'p) age \<Rightarrow> keyring \<Rightarrow> 'i \<Rightarrow> 'p rewrap_request \<Rightarrow>
     (prepared_recipient_rewrap, keyring_error) result" where
  "prepare_recipient_rewrap keyed hash age k new_active_identity request =
     (let new_active = age_to_public age new_active_identity in
      rbind (recipient_set_new hash age new_active (rr_new_recovery request)) (\<lambda>new_recipients.
      let old_recipients = kr_recipients k in
      if new_recipients = old_recipients then Err KrAlreadyInstalled
      else if \<not> rr_authorized request \<or> kr_generation k \<noteq> rr_expected_generation request
              \<or> rr_audit_sequence request = 0
      then Err (if kr_generation k \<noteq> rr_expected_generation request then KrGenerationMismatch else KrInvalid)
      else rbind (recipient_rewrap_confirmation hash (kr_store_id k) (rr_expected_generation request)
                    old_recipients new_recipients (rr_reason request)) (\<lambda>expected_confirmation.
        if rr_confirmation request \<noteq> expected_confirmation then Err KrInvalid
        else rbind (ok_or KrLimit (checked_add (kr_generation k) 1)) (\<lambda>generation.
          let k = k\<lparr>kr_generation := generation, kr_recipients := new_recipients\<rparr> in
          rbind (wrap hash age k new_active (rr_new_recovery request)) (\<lambda>envelope.
          rbind (map_err (\<lambda>_. KrCodec)
            (seal_metadata keyed \<lparr>km_generation = kr_generation k,
                 km_format_version = KEYRING_FORMAT_VERSION, km_recipients = new_recipients,
                 km_last_rewrap_audit_sequence = rr_audit_sequence request\<rparr>
               (kr_generation k) (metadata_integrity_key k) (kr_store_id k) KEYRING_METADATA_KEY)) (\<lambda>metadata.
          rbind (fst (open_keyring keyed age (kr_store_id k) envelope metadata new_active_identity 0)) (\<lambda>_.
            Ok \<lparr>pw_keyring = k, pw_envelope = envelope, pw_metadata = metadata,
                pw_old_recipients = old_recipients, pw_new_recipients = new_recipients\<rparr>)))))))"

definition rewrap_state_delta ::
  "prepared_recipient_rewrap \<Rightarrow> keyring_metadata sealed \<Rightarrow> (state_delta list, codec_error) result" where
  "rewrap_state_delta prepared current =
     rbind (sealed_state_tuple current KEYRING_METADATA_KEY) (\<lambda>old.
     rbind (sealed_state_tuple (pw_metadata prepared) KEYRING_METADATA_KEY) (\<lambda>new.
     rbind (delta_replace old new) (\<lambda>delta. delta_set_new [delta])))"

end
