(* ===== verification/Keyring_Safety.thy ===== *)
theory Keyring_Safety
  imports Keyring "HOL-Library.Sublist"
begin

text \<open>
  The keyring survives the trip through its envelope, its invariant holds along every run of its operations,
  and the records sealed under it stay readable for as long as their key is kept.
\<close>

section \<open>The plaintext codec\<close>

lemma kread_eq_Ok [simp]: "kread g d = Ok (x, d') \<longleftrightarrow> g d = Ok (x, d')"
  by (simp add: kread_def)

lemma kbind_eq_Ok [simp]:
  "kbind g f d = Ok (y, d'') \<longleftrightarrow> (\<exists>x d'. g d = Ok (x, d') \<and> f x d' = Ok (y, d''))"
  by (force simp: kbind_def)

lemma kcheck_eq_Ok [simp]: "kcheck c e d = Ok (u, d') \<longleftrightarrow> c \<and> d' = d"
  by (auto simp: kcheck_def)

lemma klift_eq_Ok [simp]: "klift r d = Ok (x, d') \<longleftrightarrow> r = Ok x \<and> d' = d"
  by (auto simp: klift_def)

text \<open>The same bodies with codec errors only: what they accept is what the keyring's own decoders accept.\<close>

definition recipients_get :: "recipient_set dec" where
  "recipients_get =
     dbind (dec_fixed 32) (\<lambda>active.
     dbind (dec_option (dec_fixed 32)) (\<lambda>recovery.
     dbind (dcheck (recovery \<noteq> Some active) Invalid) (\<lambda>_.
       dret \<lparr>rs_active = active, rs_recovery = recovery\<rparr>)))"

lemma decode_recipients_Ok: "decode_recipients d = Ok (rs, d') \<longleftrightarrow> recipients_get d = Ok (rs, d')"
proof -
  have "(if tag = 0 then klift (Ok None)
      else if tag = 1 then kbind (kread (dec_fixed 32)) (\<lambda>value. klift (Ok (Some value)))
      else klift (Err KrInvalid)) d = Ok (v, d')
    \<longleftrightarrow> (if tag = 0 then dret None else if tag = 1 then dbind (dec_fixed 32) (\<lambda>x. dret (Some x)) else dfail Invalid) d
      = Ok (v :: arr32 option, d')" for tag :: u8 and d v d'
    by auto
  then show ?thesis
    by (auto simp: decode_recipients_def recipients_get_def dec_option_def)
qed

definition keyring_get :: "keyring dec" where
  "keyring_get =
     dbind (dec_fixed 16) (\<lambda>store_id.
     dbind dec_u16 (\<lambda>format.
     dbind (dcheck (format = KEYRING_FORMAT_VERSION) Invalid) (\<lambda>_.
     dbind dec_u64 (\<lambda>generation.
     dbind recipients_get (\<lambda>recipients.
     dbind decode_key (\<lambda>record_current.
     dbind dec_u8 (\<lambda>predecessor_count.
     dbind (dcheck (unat predecessor_count \<le> MAX_RECORD_GENERATIONS) Limit) (\<lambda>_.
     dbind (dec_repeat (unat predecessor_count) decode_key) (\<lambda>record_predecessors.
     dbind decode_key (\<lambda>credential_verifier.
     dbind decode_key (\<lambda>metadata_integrity.
     dbind dec_u8 (\<lambda>audit_count.
     dbind (dcheck (1 \<le> unat audit_count \<and> unat audit_count \<le> MAX_AUDIT_PAYLOAD_GENERATIONS) Limit) (\<lambda>_.
     dbind (dec_repeat (unat audit_count) decode_key) (\<lambda>audit_payload.
     dbind decode_key (\<lambda>audit_index.
     dbind dec_finish (\<lambda>_.
     let k = \<lparr>kr_store_id = store_id, kr_generation = generation, kr_recipients = recipients,
              kr_record_current = record_current, kr_record_predecessors = record_predecessors,
              kr_credential_verifier = credential_verifier, kr_metadata_integrity = metadata_integrity,
              kr_audit_payload = audit_payload, kr_audit_index = audit_index,
              kr_record_decrypt_attempts = 0\<rparr>
     in dbind (dcheck (keyring_validate k = Ok ()) Invalid) (\<lambda>_. dret k)))))))))))))))))"

lemma decode_plaintext_Ok:
  "decode_plaintext bs = Ok k \<longleftrightarrow> length bs \<le> MAX_KEYRING_PLAINTEXT \<and> run_dec 1 bs keyring_get = Ok k"
  unfolding decode_plaintext_def run_dec_def keyring_get_def Let_def
  by (auto simp: decode_recipients_Ok)

definition key_wire :: "purpose_key \<Rightarrow> bytes" where
  "key_wire key = be_bytes 16 (pk_id key) @ be_bytes 32 (pk_material key)"

definition recipients_wire :: "recipient_set \<Rightarrow> bytes" where
  "recipients_wire rs = be_bytes 32 (rs_active rs) @ option_wire (be_bytes 32) (rs_recovery rs)"

definition rs_ok :: "recipient_set \<Rightarrow> bool" where
  "rs_ok rs \<longleftrightarrow> rs_recovery rs \<noteq> Some (rs_active rs)"

lemma encode_keys_wire: "encode_keys keys out = out @ concat (map key_wire keys)"
  by (induction keys arbitrary: out) (auto simp: encode_key_def key_wire_def codec_simps)

lemma encode_key_wire: "encode_key key out = out @ key_wire key"
  by (simp add: encode_key_def key_wire_def codec_simps)

lemma encode_recipients_wire: "encode_recipients rs out = out @ recipients_wire rs"
  by (auto simp: encode_recipients_def recipients_wire_def codec_simps Let_def split: option.split)

lemma reads_decode_key: "reads decode_key (key_wire key) key"
proof -
  have "reads (dbind (dec_fixed 32) (\<lambda>material. dret \<lparr>pk_id = pk_id key, pk_material = material\<rparr>))
      (be_bytes 32 (pk_material key)) key"
    by (rule reads_bind_ret [OF reads_dec_fixed]) (simp, cases key, simp)
  then show ?thesis
    unfolding decode_key_def key_wire_def by (rule reads_bind [OF reads_dec_fixed, rotated]) simp
qed

lemma reads_recipients: "rs_ok rs \<Longrightarrow> reads recipients_get (recipients_wire rs) rs"
  unfolding recipients_get_def recipients_wire_def
  by (rule reads_bind [OF reads_dec_fixed], simp, rule reads_bind_ret [OF reads_option [OF reads_dec_fixed]])
    (cases rs, simp_all add: rs_ok_def dbind_def dcheck_def dret_def fun_eq_iff)

lemma trace_decode_key:
  "decode_key d = Ok (key, d') \<Longrightarrow> consumed d0 ws d \<Longrightarrow> consumed d0 (ws @ key_wire key) d'"
  by (auto simp: decode_key_def key_wire_def dest!: trace_fixed16 trace_fixed32)

lemma trace_recipients:
  assumes "recipients_get d = Ok (rs, d')" and "consumed d0 ws d"
  shows "consumed d0 (ws @ recipients_wire rs) d' \<and> rs_ok rs"
proof -
  obtain active d1 recovery where a: "dec_fixed 32 d = Ok (active, d1)"
    and r: "dec_option (dec_fixed 32) d1 = Ok (recovery, d')" "recovery \<noteq> Some active"
    and rs: "rs = \<lparr>rs_active = active, rs_recovery = recovery\<rparr>"
    using assms(1) by (auto simp: recipients_get_def)
  have "consumed d0 ((ws @ be_bytes 32 active) @ option_wire (be_bytes 32) recovery) d' \<and> pred_option (\<lambda>_. True) recovery"
    by (rule trace_option [OF r(1) trace_fixed32 [OF a assms(2)]]) (auto dest: trace_fixed32)
  then show ?thesis using r(2) rs by (simp add: recipients_wire_def rs_ok_def)
qed

lemma trace_keys:
  assumes "dec_repeat n decode_key d = Ok (keys, d')" and "consumed d0 ws d"
  shows "consumed d0 (ws @ concat (map key_wire keys)) d' \<and> length keys = n"
proof -
  have "d_cursor d \<le> length (d_bytes d)"
    using assms(2) by (auto simp: consumed_def)
  moreover have "consumed d (key_wire key) d' \<and> True" if "decode_key d = Ok (key, d')" for d key d'
    using that by (auto simp: decode_key_def key_wire_def intro: consumed_trans
        dest!: consumed_dec_fixed16 consumed_dec_fixed32)
  ultimately have "consumed d (concat (map key_wire keys)) d' \<and> length keys = n \<and> (\<forall>x\<in>set keys. True)"
    using assms(1) by (intro consumed_dec_repeat)
  then show ?thesis using consumed_trans [OF assms(2)] by blast
qed

lemma keyring_validate_Ok:
  "keyring_validate k = Ok () \<longleftrightarrow> kr_generation k \<noteq> 0 \<and> length (kr_record_predecessors k) \<le> MAX_RECORD_GENERATIONS
     \<and> kr_audit_payload k \<noteq> [] \<and> length (kr_audit_payload k) \<le> MAX_AUDIT_PAYLOAD_GENERATIONS
     \<and> distinct (map pk_id (all_keys k))"
proof -
  have len: "length (all_keys k) = 4 + length (kr_record_predecessors k) + length (kr_audit_payload k)"
    by (simp add: all_keys_def)
  have "card (key_ids k) = length (all_keys k) \<longleftrightarrow> distinct (map pk_id (all_keys k))"
    using distinct_card [of "map pk_id (all_keys k)"] card_distinct [of "map pk_id (all_keys k)"] by auto
  then show ?thesis
    unfolding keyring_validate_def len [symmetric] by (auto simp: Suc_le_eq)
qed

definition keyring_wire :: "keyring \<Rightarrow> bytes" where
  "keyring_wire k =
     be_bytes 16 (kr_store_id k) @ be_bytes 2 KEYRING_FORMAT_VERSION @ be_bytes 8 (kr_generation k)
     @ recipients_wire (kr_recipients k) @ key_wire (kr_record_current k)
     @ word_of_nat (length (kr_record_predecessors k)) # concat (map key_wire (kr_record_predecessors k))
     @ key_wire (kr_credential_verifier k) @ key_wire (kr_metadata_integrity k)
     @ word_of_nat (length (kr_audit_payload k)) # concat (map key_wire (kr_audit_payload k))
     @ key_wire (kr_audit_index k)"

lemma encode_plaintext_Ok:
  "encode_plaintext k = Ok bs \<longleftrightarrow>
     keyring_validate k = Ok () \<and> bs = 1 # keyring_wire k \<and> length bs \<le> MAX_KEYRING_PLAINTEXT"
  by (auto simp: encode_plaintext_def keyring_wire_def encode_keys_wire encode_key_wire encode_recipients_wire
      codec_simps Let_def)

lemma decode_encoded_plaintext:
  assumes "encode_plaintext k = Ok bs" and "rs_ok (kr_recipients k)"
  shows "decode_plaintext bs = Ok (k\<lparr>kr_record_decrypt_attempts := 0\<rparr>)"
proof -
  have v: "keyring_validate k = Ok ()" and bs: "bs = 1 # keyring_wire k" and len: "length bs \<le> MAX_KEYRING_PLAINTEXT"
    using assms(1) by (auto simp: encode_plaintext_Ok)
  have counts: "unat (word_of_nat (length (kr_record_predecessors k)) :: u8) = length (kr_record_predecessors k)"
    "unat (word_of_nat (length (kr_audit_payload k)) :: u8) = length (kr_audit_payload k)"
    using v by (auto simp: keyring_validate_Ok unat_of_nat take_bit_nat_eq_self)
  have keys: "reads (dec_repeat (length keys) decode_key) (concat (map key_wire keys)) keys" for keys
    by (rule reads_dec_repeat [OF reads_decode_key])
  let ?k = "\<lparr>kr_store_id = kr_store_id k, kr_generation = kr_generation k, kr_recipients = kr_recipients k,
    kr_record_current = kr_record_current k, kr_record_predecessors = kr_record_predecessors k,
    kr_credential_verifier = kr_credential_verifier k, kr_metadata_integrity = kr_metadata_integrity k,
    kr_audit_payload = kr_audit_payload k, kr_audit_index = kr_audit_index k, kr_record_decrypt_attempts = 0\<rparr>"
  have eta: "?k = k\<lparr>kr_record_decrypt_attempts := 0\<rparr>" by (cases k) simp
  have valid: "keyring_validate ?k = Ok ()"
    using v by (simp add: keyring_validate_Ok all_keys_def)
  have bounds: "length (kr_record_predecessors k) \<le> MAX_RECORD_GENERATIONS"
    "1 \<le> length (kr_audit_payload k) \<and> length (kr_audit_payload k) \<le> MAX_AUDIT_PAYLOAD_GENERATIONS"
    using v by (auto simp: keyring_validate_Ok Suc_le_eq)
  note steps = accepts_bind [OF reads_decode_key] accepts_bind [OF reads_recipients [OF assms(2)]]
    accepts_bind [OF keys] accepts_bind_end [OF reads_decode_key] accepts_intros
  have "accepts keyring_get (keyring_wire k) (k\<lparr>kr_record_decrypt_attempts := 0\<rparr>)"
    unfolding keyring_get_def keyring_wire_def Let_def
    by (rule steps refl eta valid | simp only: counts bounds | simp)+
  then have "run_dec 1 bs keyring_get = Ok (k\<lparr>kr_record_decrypt_attempts := 0\<rparr>)"
    using len by (simp add: bs run_dec_accepts vec_ok_def)
  then show ?thesis using len by (simp add: decode_plaintext_Ok)
qed

lemma encode_decoded_plaintext:
  assumes "decode_plaintext bs = Ok k"
  shows "encode_plaintext k = Ok bs \<and> rs_ok (kr_recipients k) \<and> kr_record_decrypt_attempts k = 0"
proof -
  have len: "length bs \<le> MAX_KEYRING_PLAINTEXT" and run: "run_dec 1 bs keyring_get = Ok k"
    using assms by (auto simp: decode_plaintext_Ok)
  have "keyring_validate k = Ok () \<and> bs = 1 # keyring_wire k \<and> rs_ok (kr_recipients k)
      \<and> kr_record_decrypt_attempts k = 0"
    using run unfolding keyring_get_def Let_def keyring_wire_def
    apply (elim trace_start)
    apply clarsimp
    apply (drule (1) trace_dests trace_decode_key trace_recipients trace_keys | drule (2) trace_finish | erule conjE)+
    apply clarsimp
    done
  then show ?thesis using len by (simp add: encode_plaintext_Ok)
qed

section \<open>Metadata\<close>

lemma keyring_metadata_encode_Ok:
  "keyring_metadata_encode m = Ok bs \<longleftrightarrow> bs = 1 # be_bytes 8 (km_generation m) @ be_bytes 2 (km_format_version m)
     @ recipients_wire (km_recipients m) @ be_bytes 8 (km_last_rewrap_audit_sequence m)"
  by (auto simp: keyring_metadata_encode_def encode_recipients_wire codec_simps Let_def)

lemma reads_recipients_codec:
  "rs_ok rs \<Longrightarrow> reads (\<lambda>d. map_err (\<lambda>_. Invalid) (decode_recipients d)) (recipients_wire rs) rs"
  using reads_recipients [of rs] by (simp add: reads_def decode_recipients_Ok)

interpretation keyring_metadata_codec: strict_canonical keyring_metadata_encode keyring_metadata_decode
  "\<lambda>m. rs_ok (km_recipients m)"
proof
  fix m bs
  assume ok: "rs_ok (km_recipients m)" and "keyring_metadata_encode m = Ok bs" and "vec_ok bs"
  note step = accepts_bind [OF reads_recipients_codec [OF ok]]
  from \<open>keyring_metadata_encode m = Ok bs\<close> \<open>vec_ok bs\<close> show "keyring_metadata_decode bs = Ok m"
    unfolding keyring_metadata_encode_Ok keyring_metadata_decode_def
    by (auto intro!: run_dec_accepts step accepts_intros)
next
  fix bs m
  assume "keyring_metadata_decode bs = Ok m"
  then show "rs_ok (km_recipients m) \<and> keyring_metadata_encode m = Ok bs"
    unfolding keyring_metadata_decode_def keyring_metadata_encode_Ok
    by (elim trace_start, clarsimp simp: decode_recipients_Ok)
      ((drule (1) trace_dests trace_recipients | drule (2) trace_finish | erule conjE)+, simp)
qed

interpretation keyring_metadata_row: strict_clear_record keyring_metadata_encode keyring_metadata_decode
  "\<lambda>m. rs_ok (km_recipients m)" KeyringMetadata 1
  by unfold_locales

section \<open>Opening the envelope\<close>

text \<open>What the envelope relies on of age: whoever holds one of the identities reads back what was encrypted.\<close>

definition age_opens :: "('i, 'p) age \<Rightarrow> bool" where
  "age_opens age \<longleftrightarrow> (\<forall>rs plaintext ciphertext i.
     age_encrypt age rs plaintext = Some ciphertext \<and> age_to_public age i \<in> set rs \<longrightarrow>
     age_decrypt age i ciphertext = Some plaintext)"

text \<open>And that no identity reads anything else.\<close>

definition age_faithful :: "('i, 'p) age \<Rightarrow> bool" where
  "age_faithful age \<longleftrightarrow> (\<forall>rs plaintext ciphertext i plaintext'.
     age_encrypt age rs plaintext = Some ciphertext \<and> age_decrypt age i ciphertext = Some plaintext' \<longrightarrow>
     plaintext' = plaintext)"

lemma recipient_set_new_Ok:
  "recipient_set_new hash age active recovery = Ok rs \<longleftrightarrow>
     rs = \<lparr>rs_active = fingerprint_of hash age active, rs_recovery = map_option (fingerprint_of hash age) recovery\<rparr>
     \<and> rs_ok rs"
  by (auto simp: recipient_set_new_def rs_ok_def Let_def)

lemma wrap_Ok:
  assumes "wrap hash age k active recovery = Ok envelope"
  shows "recipient_set_new hash age active recovery = Ok (kr_recipients k) \<and> rs_ok (kr_recipients k)
    \<and> length envelope \<le> MAX_AGE_ENVELOPE
    \<and> (\<exists>plaintext rs. encode_plaintext k = Ok plaintext \<and> age_encrypt age rs plaintext = Some envelope
        \<and> set rs = insert active (set_option recovery))"
proof -
  obtain plaintext where new: "recipient_set_new hash age active recovery = Ok (kr_recipients k)"
    and pt: "encode_plaintext k = Ok plaintext"
    and env: "envelope_of age (map snd (recipients_ordered (kr_recipients k) active recovery)) plaintext = Ok envelope"
    using assms by (auto simp: wrap_def split: if_splits)
  have "rs_recovery (kr_recipients k) = map_option (fingerprint_of hash age) recovery"
    using new by (auto simp: recipient_set_new_Ok)
  then have "set (map snd (recipients_ordered (kr_recipients k) active recovery)) = insert active (set_option recovery)"
    by (cases recovery) (auto simp: recipients_ordered_def)
  with new pt env show ?thesis
    by (auto simp: envelope_of_def recipient_set_new_Ok split: if_splits)
qed

lemma open_wrapped:
  assumes "age_opens age" and "wrap hash age k active recovery = Ok envelope"
    and "age_to_public age identity \<in> insert active (set_option recovery)"
    and "seal_keyring_metadata keyed k n = Ok metadata"
  shows "open_keyring keyed age store_id envelope metadata identity 0 =
    ((if store_id = kr_store_id k then Ok (k\<lparr>kr_record_decrypt_attempts := 0\<rparr>) else Err KrStoreMismatch), 1)"
proof -
  obtain plaintext rs where w: "rs_ok (kr_recipients k)" "length envelope \<le> MAX_AGE_ENVELOPE"
    "encode_plaintext k = Ok plaintext" "age_encrypt age rs plaintext = Some envelope"
    "set rs = insert active (set_option recovery)"
    using wrap_Ok [OF assms(2)] by blast
  have d: "age_decrypt age identity envelope = Some plaintext"
    using assms(1,3) w(4,5) unfolding age_opens_def by metis
  have m: "seal_metadata keyed \<lparr>km_generation = kr_generation k, km_format_version = KEYRING_FORMAT_VERSION,
      km_recipients = kr_recipients k, km_last_rewrap_audit_sequence = max n 1\<rparr> (kr_generation k)
      (metadata_integrity_key k) (kr_store_id k) KEYRING_METADATA_KEY = Ok metadata"
    using assms(4) by (simp add: seal_keyring_metadata_def)
  show ?thesis
    using w(2) d decode_encoded_plaintext [OF w(3,1)] keyring_metadata_row.seal_verify [OF m]
      keyring_metadata_row.seal_fields [OF m]
    by (auto simp: open_keyring_def metadata_integrity_key_def)
qed

section \<open>Runs of a keyring\<close>

lemma generate_key_rounds_Ok:
  "generate_key_rounds n random ids r = (Ok (key, ids'), r') \<Longrightarrow> pk_id key \<notin> ids \<and> ids' = insert (pk_id key) ids"
  by (induction n arbitrary: r) (auto simp: Let_def split: if_splits)

lemma generate_key_Ok:
  "generate_key random ids r = (Ok (key, ids'), r') \<Longrightarrow> pk_id key \<notin> ids \<and> ids' = insert (pk_id key) ids"
  unfolding generate_key_def by (rule generate_key_rounds_Ok)

lemma keyring_generate_Ok:
  assumes "keyring_generate store_id generation recipients random r = (Ok k, r')"
  shows "keyring_validate k = Ok () \<and> kr_store_id k = store_id \<and> kr_generation k = generation
    \<and> kr_recipients k = recipients"
  using assms
  by (auto simp: keyring_generate_def keyring_validate_Ok all_keys_def split: prod.splits if_splits
      dest!: generate_key_Ok)

text \<open>
  A finishing step drops the predecessors of the record key; every other operation keeps all keys but the one of
  metadata integrity. Operations that work in place are steps whether they succeed or not; those that consume the
  keyring are steps when they return one.
\<close>

datatype ring_event = Kept | Finished

inductive ring_step ::
  "keyed_hash \<Rightarrow> hash \<Rightarrow> ('i, 'p) age \<Rightarrow> aead \<Rightarrow> 'r random_source \<Rightarrow> keyring \<Rightarrow> ring_event \<Rightarrow> keyring \<Rightarrow> bool"
  for keyed hash age cipher random where
  append_audit: "append_audit_payload_key g random k r = (res, k', r') \<Longrightarrow>
     ring_step keyed hash age cipher random k Kept k'"
| rotate_metadata: "rotate_metadata_integrity_key g random k r = (res, k', r') \<Longrightarrow>
     ring_step keyed hash age cipher random k Kept k'"
| prepare_rotation: "prepare_record_key_rotation k g random r = (Ok p, r') \<Longrightarrow>
     ring_step keyed hash age cipher random k Kept (pr_keyring p)"
| finish_rotation: "finish_record_key_rotation keyed hash age active recovery n k = (res, k') \<Longrightarrow>
     ring_step keyed hash age cipher random k Finished k'"
| rewrap: "prepare_recipient_rewrap keyed hash age k identity request = Ok w \<Longrightarrow>
     ring_step keyed hash age cipher random k Kept (pw_keyring w)"
| decrypt: "decrypt_record cipher binding record k = (out, k') \<Longrightarrow>
     ring_step keyed hash age cipher random k Kept k'"
| reopen: "wrap hash age k active recovery = Ok envelope \<Longrightarrow>
     open_keyring keyed age store_id envelope metadata identity n = (Ok k', n') \<Longrightarrow>
     ring_step keyed hash age cipher random k Kept k'"

inductive ring_run ::
  "keyed_hash \<Rightarrow> hash \<Rightarrow> ('i, 'p) age \<Rightarrow> aead \<Rightarrow> 'r random_source \<Rightarrow> keyring \<Rightarrow> ring_event list \<Rightarrow> keyring \<Rightarrow> bool"
  for keyed hash age cipher random k0 where
  ring_start: "ring_run keyed hash age cipher random k0 [] k0"
| ring_more: "ring_run keyed hash age cipher random k0 evs k \<Longrightarrow> ring_step keyed hash age cipher random k ev k' \<Longrightarrow>
     ring_run keyed hash age cipher random k0 (evs @ [ev]) k'"

text \<open>What no operation loses.\<close>

definition ring_le :: "ring_event list \<Rightarrow> keyring \<Rightarrow> keyring \<Rightarrow> bool" where
  "ring_le evs k k' \<longleftrightarrow> kr_store_id k' = kr_store_id k \<and> kr_generation k \<le> kr_generation k'
     \<and> prefix (kr_audit_payload k) (kr_audit_payload k')
     \<and> kr_credential_verifier k' = kr_credential_verifier k \<and> kr_audit_index k' = kr_audit_index k
     \<and> (Finished \<notin> set evs \<longrightarrow> set (kr_record_current k # kr_record_predecessors k)
          \<subseteq> set (kr_record_current k' # kr_record_predecessors k'))"

lemma ring_le_refl: "ring_le evs k k"
  by (simp add: ring_le_def)

lemma ring_le_trans: "ring_le evs k k' \<Longrightarrow> ring_le evs' k' k'' \<Longrightarrow> ring_le (evs @ evs') k k''"
  by (fastforce simp: ring_le_def intro: prefix_order.trans)

lemma bump_generation_le:
  assumes "bump_generation x k = (res, k')" and "kr_generation k \<noteq> 0"
  shows "\<exists>g. k' = k\<lparr>kr_generation := g\<rparr> \<and> kr_generation k \<le> g \<and> g \<noteq> 0"
proof (cases "checked_add (kr_generation k) 1")
  case None
  then show ?thesis using assms by (auto simp: bump_generation_def intro!: exI [of _ "kr_generation k"])
next
  case (Some g)
  from checked_add_Some [OF this] have "kr_generation k \<le> g" "g \<noteq> 0"
    by (auto simp: word_le_nat_alt)
  then show ?thesis using assms Some by (auto simp: bump_generation_def)
qed

abbreviation ring_moves :: "ring_event \<Rightarrow> keyring \<Rightarrow> keyring \<Rightarrow> bool" where
  "ring_moves ev k k' \<equiv> keyring_validate k' = Ok () \<and> ring_le [ev] k k'"

lemma append_audit_moves:
  assumes v: "keyring_validate k = Ok ()" and "append_audit_payload_key g random k r = (res, k', r')"
  shows "ring_moves Kept k k'"
proof (cases "k' = k")
  case False
  then obtain key ids r1 where full: "length (kr_audit_payload k) < MAX_AUDIT_PAYLOAD_GENERATIONS"
    and key: "generate_key random (key_ids k) r = (Ok (key, ids), r1)"
    and b: "bump_generation (pk_id key) (k\<lparr>kr_audit_payload := kr_audit_payload k @ [key]\<rparr>) = (res, k')"
    using assms(2) by (auto simp: append_audit_payload_key_def split: if_splits prod.splits result.splits)
  have fresh: "pk_id key \<notin> key_ids k" using generate_key_Ok [OF key] by simp
  obtain gen where k': "k' = k\<lparr>kr_audit_payload := kr_audit_payload k @ [key], kr_generation := gen\<rparr>"
      "kr_generation k \<le> gen" "gen \<noteq> 0"
    using bump_generation_le [OF b] v by (auto simp: keyring_validate_Ok)
  with v full fresh show ?thesis
    by (auto simp: keyring_validate_Ok all_keys_def ring_le_def)
qed (use v in \<open>simp add: ring_le_refl\<close>)

lemma rotate_metadata_moves:
  assumes v: "keyring_validate k = Ok ()" and "rotate_metadata_integrity_key g random k r = (res, k', r')"
  shows "ring_moves Kept k k'"
proof (cases "k' = k")
  case False
  then obtain key ids r1 old where key: "generate_key random (key_ids k) r = (Ok (key, ids), r1)"
    and b: "bump_generation (old, pk_id key) (k\<lparr>kr_metadata_integrity := key\<rparr>) = (res, k')"
    using assms(2) by (auto simp: rotate_metadata_integrity_key_def Let_def split: if_splits prod.splits result.splits)
  have fresh: "pk_id key \<notin> key_ids k" using generate_key_Ok [OF key] by simp
  obtain gen where k': "k' = k\<lparr>kr_metadata_integrity := key, kr_generation := gen\<rparr>"
      "kr_generation k \<le> gen" "gen \<noteq> 0"
    using bump_generation_le [OF b] v by (auto simp: keyring_validate_Ok)
  with v fresh show ?thesis
    by (auto simp: keyring_validate_Ok all_keys_def ring_le_def)
qed (use v in \<open>simp add: ring_le_refl\<close>)

lemma prepare_record_key_rotation_Ok:
  assumes "prepare_record_key_rotation k g random r = (Ok p, r')"
  shows "\<exists>key gen. pr_keyring p = k\<lparr>kr_record_current := key,
      kr_record_predecessors := kr_record_predecessors k @ [kr_record_current k], kr_generation := gen\<rparr>
    \<and> unat gen = unat (kr_generation k) + 1 \<and> pk_id key \<notin> key_ids k \<and> pr_old_key_id p = pk_id (kr_record_current k)
    \<and> pr_new_key_id p = pk_id key \<and> keyring_validate (pr_keyring p) = Ok ()"
  using assms
  by (auto simp: prepare_record_key_rotation_def Let_def split: prod.splits if_splits
      dest!: generate_key_Ok checked_add_Some) blast

lemma prepare_rotation_moves:
  assumes "prepare_record_key_rotation k g random r = (Ok p, r')"
  shows "ring_moves Kept k (pr_keyring p)"
  using prepare_record_key_rotation_Ok [OF assms] by (auto simp: ring_le_def word_le_nat_alt)

lemma finish_record_key_rotation_state:
  "finish_record_key_rotation keyed hash age active recovery n k = (res, k') \<Longrightarrow>
     k' = (if n = 0 then k else k\<lparr>kr_record_predecessors := []\<rparr>)"
  by (auto simp: finish_record_key_rotation_def Let_def split: if_splits)

lemma finish_rotation_moves:
  assumes "keyring_validate k = Ok ()" and "finish_record_key_rotation keyed hash age active recovery n k = (res, k')"
  shows "ring_moves Finished k k'"
  using assms(1) finish_record_key_rotation_state [OF assms(2)]
  by (auto simp: keyring_validate_Ok all_keys_def ring_le_def)

lemma prepare_recipient_rewrap_Ok:
  assumes "prepare_recipient_rewrap keyed hash age k identity request = Ok w"
  shows "\<exists>gen. pw_keyring w = k\<lparr>kr_generation := gen, kr_recipients := pw_new_recipients w\<rparr>
    \<and> unat gen = unat (kr_generation k) + 1 \<and> rr_authorized request \<and> kr_generation k = rr_expected_generation request
    \<and> wrap hash age (pw_keyring w) (age_to_public age identity) (rr_new_recovery request) = Ok (pw_envelope w)
    \<and> recipient_rewrap_confirmation hash (kr_store_id k) (kr_generation k) (kr_recipients k) (pw_new_recipients w)
        (rr_reason request) = Ok (rr_confirmation request)"
  using assms
  by (auto simp: prepare_recipient_rewrap_def Let_def split: if_splits dest!: checked_add_Some)

lemma rewrap_moves:
  assumes v: "keyring_validate k = Ok ()" and "prepare_recipient_rewrap keyed hash age k identity request = Ok w"
  shows "ring_moves Kept k (pw_keyring w)"
proof -
  obtain gen where w: "pw_keyring w = k\<lparr>kr_generation := gen, kr_recipients := pw_new_recipients w\<rparr>"
    and gen: "unat gen = unat (kr_generation k) + 1"
    using prepare_recipient_rewrap_Ok [OF assms(2)] by blast
  have "gen \<noteq> 0" "kr_generation k \<le> gen"
    using gen by (auto simp: word_le_nat_alt)
  with v show ?thesis
    unfolding w by (simp add: keyring_validate_Ok all_keys_def ring_le_def)
qed

lemma decrypt_record_state:
  "snd (decrypt_record cipher binding r k) = k\<lparr>kr_record_decrypt_attempts := kr_record_decrypt_attempts k + 1\<rparr>"
  by (simp add: decrypt_record_def Let_def)

lemma decrypt_moves:
  assumes v: "keyring_validate k = Ok ()" and "decrypt_record cipher binding r k = (out, k')"
  shows "ring_moves Kept k k'"
proof -
  have "k' = k\<lparr>kr_record_decrypt_attempts := kr_record_decrypt_attempts k + 1\<rparr>"
    using decrypt_record_state [of cipher binding r k] assms(2) by simp
  with v show ?thesis by (simp add: keyring_validate_Ok all_keys_def ring_le_def)
qed

lemma reopen_same:
  assumes "age_faithful age" and "wrap hash age k active recovery = Ok envelope"
    and "open_keyring keyed age store_id envelope metadata identity n = (Ok k', n')"
  shows "k' = k\<lparr>kr_record_decrypt_attempts := 0\<rparr>"
proof -
  obtain plaintext rs where w: "rs_ok (kr_recipients k)" "encode_plaintext k = Ok plaintext"
      "age_encrypt age rs plaintext = Some envelope"
    using wrap_Ok [OF assms(2)] by blast
  obtain plaintext' where d: "age_decrypt age identity envelope = Some plaintext'" "decode_plaintext plaintext' = Ok k'"
    using assms(3) by (auto simp: open_keyring_def split: if_splits)
  have "plaintext' = plaintext" using assms(1) w(3) d(1) unfolding age_faithful_def by blast
  with d(2) decode_encoded_plaintext [OF w(2,1)] show ?thesis by simp
qed

lemma reopen_moves:
  assumes "keyring_validate k = Ok ()" and "age_faithful age" and "wrap hash age k active recovery = Ok envelope"
    and "open_keyring keyed age store_id envelope metadata identity n = (Ok k', n')"
  shows "ring_moves Kept k k'"
  using assms(1) reopen_same [OF assms(2-)] by (auto simp: keyring_validate_Ok all_keys_def ring_le_def)

lemma ring_step_moves:
  assumes "ring_step keyed hash age cipher random k ev k'" and "age_faithful age" and "keyring_validate k = Ok ()"
  shows "ring_moves ev k k'"
  using assms
proof (cases rule: ring_step.cases)
  case (append_audit g r res r')
  then show ?thesis using append_audit_moves [OF assms(3)] by simp
next
  case (rotate_metadata g r res r')
  then show ?thesis using rotate_metadata_moves [OF assms(3)] by simp
next
  case (prepare_rotation g r p r')
  then show ?thesis using prepare_rotation_moves by simp
next
  case (finish_rotation active recovery n res)
  then show ?thesis using finish_rotation_moves [OF assms(3)] by simp
next
  case (rewrap identity request w)
  then show ?thesis using rewrap_moves [OF assms(3)] by simp
next
  case (decrypt binding er out)
  then show ?thesis using decrypt_moves [OF assms(3)] by simp
next
  case (reopen active recovery envelope store_id metadata identity n n')
  then show ?thesis using reopen_moves [OF assms(3,2)] by simp
qed

lemma ring_run_moves:
  assumes "ring_run keyed hash age cipher random k evs k'" and "age_faithful age" and "keyring_validate k = Ok ()"
  shows "keyring_validate k' = Ok () \<and> ring_le evs k k'"
  using assms(1)
proof induction
  case ring_start
  then show ?case using assms(3) by (simp add: ring_le_refl)
next
  case (ring_more evs k1 ev k2)
  then show ?case using ring_step_moves [OF ring_more.hyps(2) assms(2)] ring_le_trans by blast
qed

section \<open>Properties\<close>

text \<open>
  C7: Whatever is done to a generated keyring (audit keys appended, the metadata key rotated, record keys rotated
  and the rotation finished, recipients replaced, records decrypted, the envelope written and opened again, calls
  that fail included), it stays a valid keyring of its store: all key ids are distinct and the counts within their
  limits. Its generation never falls, and neither an audit key nor the keys of credentials and of the audit index
  are ever lost, so every audit entry ever written can be read.
\<close>

theorem keyring_runs:
  assumes "age_faithful age" and "keyring_generate store_id generation recipients random r = (Ok k, r')"
    and "ring_run keyed hash age cipher random k evs k'"
  shows "keyring_validate k' = Ok () \<and> kr_store_id k' = store_id \<and> distinct (map pk_id (all_keys k'))
    \<and> length (kr_audit_payload k') \<le> MAX_AUDIT_PAYLOAD_GENERATIONS
    \<and> length (kr_record_predecessors k') \<le> MAX_RECORD_GENERATIONS
    \<and> generation \<le> kr_generation k' \<and> prefix (kr_audit_payload k) (kr_audit_payload k')
    \<and> kr_credential_verifier k' = kr_credential_verifier k \<and> kr_audit_index k' = kr_audit_index k"
  using keyring_generate_Ok [OF assms(2)] ring_run_moves [OF assms(3,1)]
  by (auto simp: ring_le_def keyring_validate_Ok)

definition sample_rng :: "nat random_source" where
  "sample_rng n r = (Some (nat_be n r), Suc r)"

definition sample_age :: "(u8, u8) age" where
  "sample_age = \<lparr>age_to_public = \<lambda>i. i, age_recipient_text = \<lambda>p. [char_of_byte p],
     age_encrypt = \<lambda>rs plaintext. Some plaintext, age_decrypt = \<lambda>i ciphertext. Some ciphertext\<rparr>"

definition sample_cipher :: aead where
  "sample_cipher = \<lparr>aead_seal = \<lambda>key nonce aad plaintext. Some (plaintext @ replicate 16 0),
     aead_open = \<lambda>key nonce aad ciphertext. Some (take (length ciphertext - 16) ciphertext)\<rparr>"

definition sample_recipients :: recipient_set where
  "sample_recipients = \<lparr>rs_active = 5, rs_recovery = None\<rparr>"

definition sample_key :: "nat \<Rightarrow> purpose_key" where
  "sample_key n = \<lparr>pk_id = word_of_nat n, pk_material = word_of_nat (Suc n)\<rparr>"

definition sample_ring :: keyring where
  "sample_ring = \<lparr>kr_store_id = 7, kr_generation = 1, kr_recipients = sample_recipients,
     kr_record_current = sample_key 1, kr_record_predecessors = [], kr_credential_verifier = sample_key 3,
     kr_metadata_integrity = sample_key 5, kr_audit_payload = [sample_key 7], kr_audit_index = sample_key 9,
     kr_record_decrypt_attempts = 0\<rparr>"

lemma generate_key_first:
  assumes "random 16 r = (Some a, r1)" and "random 32 r1 = (Some b, r2)" and "of_be_bytes a \<notin> ids"
  shows "generate_key random ids r =
    (Ok (\<lparr>pk_id = of_be_bytes a, pk_material = of_be_bytes b\<rparr>, insert (of_be_bytes a) ids), r2)"
proof -
  have "generate_key random ids = generate_key_rounds (Suc 15) random ids"
    by (simp add: generate_key_def del: generate_key_rounds.simps)
  then show ?thesis using assms by (simp add: sbind_def random_fill_def slift_def Let_def del: Suc_numeral)
qed

lemma sample_generate_key:
  assumes "Suc n < 65536" and "word_of_nat n \<notin> ids"
  shows "generate_key sample_rng ids n = (Ok (sample_key n, insert (word_of_nat n) ids), Suc (Suc n))"
proof -
  have small: "m < 65536 \<Longrightarrow> of_be_bytes (nat_be 16 m) = (word_of_nat m :: id16)"
      "m < 65536 \<Longrightarrow> of_be_bytes (nat_be 32 m) = (word_of_nat m :: arr32)" for m
    by (simp_all add: of_be_bytes_def be_nat_nat_be)
  show ?thesis
    using generate_key_first [of sample_rng n "nat_be 16 n" "Suc n" "nat_be 32 (Suc n)" "Suc (Suc n)" ids] assms
    by (simp add: sample_rng_def sample_key_def small)
qed

lemma sample_generate: "keyring_generate 7 1 sample_recipients sample_rng 1 = (Ok sample_ring, 11)"
  by (simp add: keyring_generate_def sbind_def srequire_def slift_def sample_generate_key sample_ring_def
      sample_key_def)

lemma sample_age_ok: "age_faithful sample_age" "age_opens sample_age"
  by (simp_all add: age_faithful_def age_opens_def sample_age_def)

lemma sample_cipher_ok: "aead_correct sample_cipher"
  by (simp add: aead_correct_def sample_cipher_def)

definition sample_ring2 :: keyring where
  "sample_ring2 = sample_ring\<lparr>kr_audit_payload := [sample_key 7, sample_key 11], kr_generation := 2\<rparr>"

lemma sample_append: "append_audit_payload_key 1 sample_rng sample_ring 11 = (Ok 11, sample_ring2, 13)"
  by (simp add: append_audit_payload_key_def sample_ring_def sample_ring2_def all_keys_def sample_key_def
      bump_generation_def checked_add_def sample_generate_key)

lemma sample_run: "ring_run keyed hash age cipher sample_rng sample_ring [Kept] sample_ring2"
  using ring_more [OF ring_start append_audit [OF sample_append]] by fastforce

theorem keyring_runs_witness:
  "keyring_validate sample_ring2 = Ok () \<and> prefix [sample_key 7] (kr_audit_payload sample_ring2)"
  using keyring_runs [OF sample_age_ok(1) sample_generate sample_run] by (simp add: sample_ring_def)

text \<open>
  C8: A keyring wrapped for its recipients opens again, with the same keys, for the identity of the active and of
  the recovery recipient alike, under the metadata sealed for it. It opens in its own store only, and one opener
  makes a single attempt. The plaintext inside is canonical: what decodes is exactly what the decoded keyring
  encodes to.
\<close>

theorem keyring_envelope_opens:
  assumes "age_opens age" and "wrap hash age k active recovery = Ok envelope"
    and "age_to_public age identity = active \<or> Some (age_to_public age identity) = recovery"
    and "seal_keyring_metadata keyed k n = Ok metadata"
  shows "open_keyring keyed age (kr_store_id k) envelope metadata identity 0 = (Ok (k\<lparr>kr_record_decrypt_attempts := 0\<rparr>), 1)
    \<and> (store_id \<noteq> kr_store_id k \<longrightarrow> open_keyring keyed age store_id envelope metadata identity 0 = (Err KrStoreMismatch, 1))
    \<and> (attempts \<noteq> 0 \<longrightarrow> open_keyring keyed age store_id envelope metadata identity attempts = (Err KrAlreadyOpened, attempts))
    \<and> (decode_plaintext bs = Ok k' \<longrightarrow> encode_plaintext k' = Ok bs)"
proof -
  have "age_to_public age identity \<in> insert active (set_option recovery)"
    using assms(3) by auto
  note opened = open_wrapped [OF assms(1,2) this assms(4)]
  show ?thesis
    using opened [of "kr_store_id k"] opened [of store_id] encode_decoded_plaintext [of bs k']
    by (auto simp: open_keyring_def)
qed

definition sample_digest :: hash where
  "sample_digest bs = 5"

definition sample_keyed_hash :: keyed_hash where
  "sample_keyed_hash key bs = 0"

lemma sample_wrap: "\<exists>envelope. wrap sample_digest sample_age sample_ring 3 None = Ok envelope"
  by (simp add: wrap_def recipient_set_new_def fingerprint_of_def sample_digest_def sample_ring_def sample_recipients_def
      encode_plaintext_def keyring_validate_Ok all_keys_def sample_key_def encode_keys_wire encode_key_wire
      encode_recipients_wire key_wire_def recipients_wire_def codec_simps envelope_of_def sample_age_def)

lemma sample_ring_seal: "\<exists>metadata. seal_keyring_metadata sample_keyed_hash sample_ring 0 = Ok metadata"
  by (simp add: seal_keyring_metadata_def seal_def keyring_metadata_encode_def record_mac_def KEYRING_METADATA_KEY_def
      Let_def)

theorem keyring_envelope_opens_witness:
  "\<exists>envelope metadata. wrap sample_digest sample_age sample_ring 3 None = Ok envelope
     \<and> open_keyring sample_keyed_hash sample_age 7 envelope metadata 3 0 = (Ok sample_ring, 1)
     \<and> open_keyring sample_keyed_hash sample_age 8 envelope metadata 3 0 = (Err KrStoreMismatch, 1)"
proof -
  obtain envelope where w: "wrap sample_digest sample_age sample_ring 3 None = Ok envelope"
    using sample_wrap by blast
  obtain metadata where m: "seal_keyring_metadata sample_keyed_hash sample_ring 0 = Ok metadata"
    using sample_ring_seal by blast
  have "age_to_public sample_age 3 = 3 \<or> Some (age_to_public sample_age 3) = None"
    by (simp add: sample_age_def)
  from keyring_envelope_opens [OF sample_age_ok(2) w this m, of 8 0] show ?thesis
    using w by (auto simp: sample_ring_def)
qed

section \<open>Records stay readable\<close>

lemma find_key:
  "distinct (map pk_id keys) \<Longrightarrow> key \<in> set keys \<Longrightarrow> find (\<lambda>x. pk_id x = pk_id key) keys = Some key"
  by (induction keys) (auto simp: image_iff)

definition opening_keys :: "keyring \<Rightarrow> record_domain \<Rightarrow> purpose_key list" where
  "opening_keys k domain =
     (if domain = AuditPayload then kr_audit_payload k else kr_record_current k # kr_record_predecessors k)"

lemma decrypt_record_result:
  "fst (decrypt_record cipher binding r k) =
     (if rh_store_id (er_header r) \<noteq> kr_store_id k \<or> rh_binding (er_header r) \<noteq> binding then Err RcBinding
      else rbind (ok_or RcKeyUnavailable (find (\<lambda>key. pk_id key = rh_key_id (er_header r))
             (opening_keys k (rb_domain binding)))) (\<lambda>key.
        aead_decrypt cipher (kr_store_id k) binding r (pk_material key)))"
  by (cases "rb_domain binding") (simp_all add: decrypt_record_def opening_keys_def Let_def)

lemma encryption_key_opens:
  "keyring_validate k = Ok () \<Longrightarrow> encryption_key k domain \<in> set (opening_keys k domain)"
  by (cases domain) (auto simp: encryption_key_def opening_keys_def keyring_validate_Ok)

lemma opening_keys_kept:
  assumes "ring_le evs k k'" and "domain = AuditPayload \<or> Finished \<notin> set evs"
  shows "set (opening_keys k domain) \<subseteq> set (opening_keys k' domain)"
  using assms by (auto simp: ring_le_def opening_keys_def dest: set_mono_prefix)

lemma opening_keys_distinct:
  "keyring_validate k = Ok () \<Longrightarrow> distinct (map pk_id (opening_keys k domain))"
  by (auto simp: keyring_validate_Ok opening_keys_def all_keys_def)

lemma decrypt_record_kept:
  assumes "aead_correct cipher" and "encrypt_record cipher k binding plaintext random s = (Ok r, s')"
    and "keyring_validate k' = Ok ()" and "kr_store_id k' = kr_store_id k"
    and "encryption_key k (rb_domain binding) \<in> set (opening_keys k' (rb_domain binding))"
  shows "fst (decrypt_record cipher binding r k') = Ok plaintext"
proof -
  let ?key = "encryption_key k (rb_domain binding)"
  have enc: "aead_encrypt cipher (kr_store_id k) binding (pk_id ?key) (pk_material ?key) plaintext random s = (Ok r, s')"
    using assms(2) by (simp add: encrypt_record_def Let_def)
  show ?thesis
    using aead_encrypt_Ok [OF enc] aead_decrypt_encrypted [OF assms(1) enc] assms(4)
      find_key [OF opening_keys_distinct [OF assms(3)] assms(5)]
    by (simp add: decrypt_record_result)
qed

text \<open>
  C9: A record sealed under a keyring goes through its bytes and back unchanged, and opens, at its place, under every
  keyring reached from it, whatever rotations of record, audit and metadata keys, changes of recipients and restarts
  lie between, as long as no record key rotation was finished; the payload of an audit entry opens even then. At any
  other place, that is for any other mount, path, logical id, version, time or domain, and in any other store, it is
  refused.
\<close>

theorem records_readable:
  assumes "aead_correct cipher" and "age_faithful age" and "keyring_validate k = Ok ()"
    and "encrypt_record cipher k binding plaintext random s = (Ok r, s')" and "logical_path_ok (rb_path binding)"
    and "ring_run keyed hash age cipher random k evs k'"
    and "rb_domain binding = AuditPayload \<or> Finished \<notin> set evs"
  shows "(\<exists>bs. encrypted_encode r = Ok bs \<and> encrypted_decode bs = Ok r)
    \<and> fst (decrypt_record cipher binding r k') = Ok plaintext
    \<and> (other \<noteq> binding \<longrightarrow> fst (decrypt_record cipher other r k') = Err RcBinding)
    \<and> (kr_store_id foreign \<noteq> kr_store_id k \<longrightarrow> fst (decrypt_record cipher binding r foreign) = Err RcBinding)"
proof -
  have run: "keyring_validate k' = Ok ()" "ring_le evs k k'"
    using ring_run_moves [OF assms(6,2,3)] by auto
  have "fst (decrypt_record cipher binding r k') = Ok plaintext"
    using decrypt_record_kept [OF assms(1,4) run(1)] run(2) opening_keys_kept [OF run(2) assms(7)]
      encryption_key_opens [OF assms(3)] by (auto simp: ring_le_def)
  moreover note enc = aead_encrypt_Ok [OF assms(4) [unfolded encrypt_record_def Let_def]]
  moreover have "header_ok (er_header r)"
    using enc assms(5) by (simp add: header_ok_def)
  ultimately show ?thesis using encrypted_round_trip by (auto simp: decrypt_record_result)
qed

definition sample_binding :: record_binding where
  "sample_binding = \<lparr>rb_domain = SecretValue, rb_mount = ''kv'', rb_path = ''a/b'', rb_logical_record_id = [1],
     rb_version = Some 1, rb_created_unix_milliseconds = 0\<rparr>"

lemma sample_binding_ok: "binding_validate sample_binding = Ok ()" "logical_path_ok (rb_path sample_binding)"
  by (simp_all add: sample_binding_def binding_validate_def logical_path_ok_def logical_path_new_def str_ok_def
      str_bytes_def byte_of_char_def byte_is_ascii_control_def utf8_valid_def)

lemma sample_encrypt: "\<exists>r s'. encrypt_record sample_cipher sample_ring sample_binding [4, 2] sample_rng 0 = (Ok r, s')"
proof -
  have ok: "header_ok \<lparr>rh_store_id = st, rh_binding = sample_binding, rh_key_id = id, rh_nonce = nonce\<rparr>" for st id nonce
    using sample_binding_ok by (simp add: header_ok_def)
  show ?thesis
    by (simp add: encrypt_record_def aead_encrypt_def sbind_def srequire_def slift_def random_fill_def sample_rng_def
        header_new_def sample_binding_ok header_encode_total(1) [OF ok] sample_cipher_def encrypted_new_def Let_def)
qed

lemma sample_ring_valid: "keyring_validate sample_ring = Ok ()"
  using keyring_generate_Ok [OF sample_generate] by simp

theorem records_readable_witness:
  "\<exists>r s'. encrypt_record sample_cipher sample_ring sample_binding [4, 2] sample_rng 0 = (Ok r, s')
     \<and> fst (decrypt_record sample_cipher sample_binding r sample_ring2) = Ok [4, 2]
     \<and> fst (decrypt_record sample_cipher (sample_binding\<lparr>rb_mount := ''other''\<rparr>) r sample_ring2) = Err RcBinding"
proof -
  obtain r s' where r: "encrypt_record sample_cipher sample_ring sample_binding [4, 2] sample_rng 0 = (Ok r, s')"
    using sample_encrypt by blast
  have kept: "rb_domain sample_binding = AuditPayload \<or> Finished \<notin> set [Kept]" by simp
  from records_readable [OF sample_cipher_ok sample_age_ok(1) sample_ring_valid r sample_binding_ok(2)
      sample_run [of sample_keyed_hash sample_digest] kept, of "sample_binding\<lparr>rb_mount := ''other''\<rparr>"] r
  show ?thesis by (auto simp: sample_binding_def)
qed

text \<open>
  When the rotation of the record key is finished the replaced key is gone: a record sealed before the rotation
  and not rewritten since is refused as having no key. The finishing call drops the replaced keys from the keyring
  before it writes the envelope, so this holds even when the call itself returns an error.
\<close>

theorem rotated_key_dropped:
  assumes "keyring_validate k = Ok ()" and "encrypt_record cipher k binding plaintext random s = (Ok r, s')"
    and "rb_domain binding \<noteq> AuditPayload" and "prepare_record_key_rotation k g random r1 = (Ok p, r2)"
    and "finish_record_key_rotation keyed hash age active recovery n (pr_keyring p) = (res, k')" and "n \<noteq> 0"
  shows "fst (decrypt_record cipher binding r k') = Err RcKeyUnavailable"
proof -
  obtain key gen where p: "pr_keyring p = k\<lparr>kr_record_current := key,
      kr_record_predecessors := kr_record_predecessors k @ [kr_record_current k], kr_generation := gen\<rparr>"
    and fresh: "pk_id key \<notin> key_ids k"
    using prepare_record_key_rotation_Ok [OF assms(4)] by blast
  have k': "opening_keys k' (rb_domain binding) = [key]" "kr_store_id k' = kr_store_id k"
    using finish_record_key_rotation_state [OF assms(5)] assms(3,6) p by (auto simp: opening_keys_def)
  have key: "encryption_key k (rb_domain binding) = kr_record_current k"
    using assms(3) by (cases "rb_domain binding") (auto simp: encryption_key_def)
  have "pk_id key \<noteq> pk_id (kr_record_current k)"
    using fresh by (auto simp: all_keys_def)
  moreover have "rh_binding (er_header r) = binding \<and> rh_store_id (er_header r) = kr_store_id k
      \<and> rh_key_id (er_header r) = pk_id (kr_record_current k)"
    using aead_encrypt_Ok [OF assms(2) [unfolded encrypt_record_def Let_def key]] by blast
  ultimately show ?thesis by (simp add: decrypt_record_result k')
qed

end
