(* ===== verification/Audit_Log.thy ===== *)
theory Audit_Log
  imports Keyring
begin

text \<open>
  The audit log (\<open>store/audit.rs\<close>): events and their canonical bytes, the envelope that chains them, entries with an
  encrypted payload, verification of a chain, and the overload counts of the storage executor
  (\<open>OverloadAccumulator\<close> in \<open>storage_executor.rs\<close>) that events carry. BLAKE3 is a parameter.
\<close>

section \<open>Vocabulary\<close>

abbreviation (input) AUDIT_SCHEMA_VERSION :: u16 where "AUDIT_SCHEMA_VERSION \<equiv> 1"
abbreviation (input) AUDIT_ENVELOPE_VERSION :: u16 where "AUDIT_ENVELOPE_VERSION \<equiv> 1"
abbreviation (input) MAX_AUDIT_EVENT_BYTES :: nat where "MAX_AUDIT_EVENT_BYTES \<equiv> 262144"
abbreviation (input) MAX_AUDIT_FRAME_BYTES :: nat where "MAX_AUDIT_FRAME_BYTES \<equiv> 524288"
abbreviation (input) MAX_RESOURCE :: nat where "MAX_RESOURCE \<equiv> 4096"
abbreviation (input) MAX_OVERLOAD_COUNTS :: nat where "MAX_OVERLOAD_COUNTS \<equiv> 128"

datatype audit_auth_method =
    AmNone | AmToken | AmAppRole | AmLocalPeer | AmRecovery

primrec auth_method_code :: "audit_auth_method \<Rightarrow> u16" where
  "auth_method_code AmNone = 0"
| "auth_method_code AmToken = 1"
| "auth_method_code AmAppRole = 2"
| "auth_method_code AmLocalPeer = 3"
| "auth_method_code AmRecovery = 4"

definition audit_auth_method_all :: "audit_auth_method list" where
  "audit_auth_method_all = [AmNone, AmToken, AmAppRole, AmLocalPeer, AmRecovery]"

datatype audit_capability =
    AcSecretRead | AcSecretWrite | AcSecretDelete | AcSecretDestroy | AcIdentityManage | AcGrantManage
  | AcCredentialManage | AcAuditRead | AcAuditExport | AcAuditCheckpointManage | AcDiagnosticsRead
  | AcBackupManage | AcStoreKeyRotate | AcTransportManage | AcConsumerManage | AcRotationManage
  | AcRecoveryManage

primrec audit_capability_code :: "audit_capability \<Rightarrow> u16" where
  "audit_capability_code AcSecretRead = 1"
| "audit_capability_code AcSecretWrite = 2"
| "audit_capability_code AcSecretDelete = 3"
| "audit_capability_code AcSecretDestroy = 4"
| "audit_capability_code AcIdentityManage = 5"
| "audit_capability_code AcGrantManage = 6"
| "audit_capability_code AcCredentialManage = 7"
| "audit_capability_code AcAuditRead = 8"
| "audit_capability_code AcAuditExport = 9"
| "audit_capability_code AcAuditCheckpointManage = 10"
| "audit_capability_code AcDiagnosticsRead = 11"
| "audit_capability_code AcBackupManage = 12"
| "audit_capability_code AcStoreKeyRotate = 13"
| "audit_capability_code AcTransportManage = 14"
| "audit_capability_code AcConsumerManage = 15"
| "audit_capability_code AcRotationManage = 16"
| "audit_capability_code AcRecoveryManage = 17"

definition audit_capability_all :: "audit_capability list" where
  "audit_capability_all = [AcSecretRead, AcSecretWrite, AcSecretDelete, AcSecretDestroy, AcIdentityManage, AcGrantManage, 
     AcCredentialManage, AcAuditRead, AcAuditExport, AcAuditCheckpointManage, AcDiagnosticsRead, 
     AcBackupManage, AcStoreKeyRotate, AcTransportManage, AcConsumerManage, AcRotationManage, 
     AcRecoveryManage]"

datatype audit_operation =
    AoGenesis | AoInitializedStoreRefused | AoSecretRead | AoSecretWrite | AoSecretDelete
  | AoSecretDestroy | AoClockHighWaterCheckpoint | AoRateLimitAggregate | AoIdentityChange
  | AoGrantChange | AoCredentialChange | AoKeyringChange | AoCheckpoint | AoRecoveryFork | AoRestore
  | AoMigration | AoCompaction | AoBackup | AoAuditExport | AoTransportReload | AoShutdown
  | AoRecordKeyRotation

primrec audit_operation_code :: "audit_operation \<Rightarrow> u16" where
  "audit_operation_code AoGenesis = 1"
| "audit_operation_code AoInitializedStoreRefused = 2"
| "audit_operation_code AoSecretRead = 3"
| "audit_operation_code AoSecretWrite = 4"
| "audit_operation_code AoSecretDelete = 5"
| "audit_operation_code AoSecretDestroy = 6"
| "audit_operation_code AoClockHighWaterCheckpoint = 7"
| "audit_operation_code AoRateLimitAggregate = 8"
| "audit_operation_code AoIdentityChange = 9"
| "audit_operation_code AoGrantChange = 10"
| "audit_operation_code AoCredentialChange = 11"
| "audit_operation_code AoKeyringChange = 12"
| "audit_operation_code AoCheckpoint = 13"
| "audit_operation_code AoRecoveryFork = 14"
| "audit_operation_code AoRestore = 15"
| "audit_operation_code AoMigration = 16"
| "audit_operation_code AoCompaction = 17"
| "audit_operation_code AoBackup = 18"
| "audit_operation_code AoAuditExport = 19"
| "audit_operation_code AoTransportReload = 20"
| "audit_operation_code AoShutdown = 21"
| "audit_operation_code AoRecordKeyRotation = 22"

definition audit_operation_all :: "audit_operation list" where
  "audit_operation_all = [AoGenesis, AoInitializedStoreRefused, AoSecretRead, AoSecretWrite, AoSecretDelete, AoSecretDestroy, 
     AoClockHighWaterCheckpoint, AoRateLimitAggregate, AoIdentityChange, AoGrantChange, 
     AoCredentialChange, AoKeyringChange, AoCheckpoint, AoRecoveryFork, AoRestore, AoMigration, 
     AoCompaction, AoBackup, AoAuditExport, AoTransportReload, AoShutdown, AoRecordKeyRotation]"

datatype audit_outcome =
    AuSucceeded | AuDenied | AuFailed | AuAggregated

primrec audit_outcome_code :: "audit_outcome \<Rightarrow> u16" where
  "audit_outcome_code AuSucceeded = 1"
| "audit_outcome_code AuDenied = 2"
| "audit_outcome_code AuFailed = 3"
| "audit_outcome_code AuAggregated = 4"

definition audit_outcome_all :: "audit_outcome list" where
  "audit_outcome_all = [AuSucceeded, AuDenied, AuFailed, AuAggregated]"

datatype audit_reason =
    ArNone | ArAuthenticationFailed | ArAuthorizationDenied | ArInvalidTarget | ArConflict | ArNotFound
  | ArRateLimited | ArIntegrityFailure | ArInternalFailure | ArOperatorRequested

primrec audit_reason_code :: "audit_reason \<Rightarrow> u16" where
  "audit_reason_code ArNone = 0"
| "audit_reason_code ArAuthenticationFailed = 1"
| "audit_reason_code ArAuthorizationDenied = 2"
| "audit_reason_code ArInvalidTarget = 3"
| "audit_reason_code ArConflict = 4"
| "audit_reason_code ArNotFound = 5"
| "audit_reason_code ArRateLimited = 6"
| "audit_reason_code ArIntegrityFailure = 7"
| "audit_reason_code ArInternalFailure = 8"
| "audit_reason_code ArOperatorRequested = 9"

definition audit_reason_all :: "audit_reason list" where
  "audit_reason_all = [ArNone, ArAuthenticationFailed, ArAuthorizationDenied, ArInvalidTarget, ArConflict, ArNotFound, 
     ArRateLimited, ArIntegrityFailure, ArInternalFailure, ArOperatorRequested]"

datatype target_reason =
    TrInvalidEncoding | TrInvalidSeparator | TrInvalidSegment | TrTooLong

primrec target_reason_code :: "target_reason \<Rightarrow> u16" where
  "target_reason_code TrInvalidEncoding = 1"
| "target_reason_code TrInvalidSeparator = 2"
| "target_reason_code TrInvalidSegment = 3"
| "target_reason_code TrTooLong = 4"

definition target_reason_all :: "target_reason list" where
  "target_reason_all = [TrInvalidEncoding, TrInvalidSeparator, TrInvalidSegment, TrTooLong]"

text \<open>The macro \<open>decode_enum\<close>.\<close>

definition decode_enum :: "('a \<Rightarrow> u16) \<Rightarrow> 'a list \<Rightarrow> u16 \<Rightarrow> ('a, codec_error) result" where
  "decode_enum code variants v = ok_or Invalid (find (\<lambda>x. v = code x) variants)"

definition decode_reason :: "u16 \<Rightarrow> (audit_reason, codec_error) result" where
  "decode_reason = decode_enum audit_reason_code audit_reason_all"

definition decode_outcome :: "u16 \<Rightarrow> (audit_outcome, codec_error) result" where
  "decode_outcome = decode_enum audit_outcome_code audit_outcome_all"

definition decode_operation :: "u16 \<Rightarrow> (audit_operation, codec_error) result" where
  "decode_operation = decode_enum audit_operation_code audit_operation_all"

definition decode_capability :: "u16 \<Rightarrow> (audit_capability, codec_error) result" where
  "decode_capability = decode_enum audit_capability_code audit_capability_all"

definition is_state_mutation :: "audit_operation \<Rightarrow> bool" where
  "is_state_mutation operation \<longleftrightarrow> operation \<in> {AoSecretWrite, AoSecretDelete, AoSecretDestroy,
     AoClockHighWaterCheckpoint, AoIdentityChange, AoGrantChange, AoCredentialChange, AoKeyringChange, AoRecoveryFork,
     AoRestore, AoMigration, AoCompaction, AoRecordKeyRotation, AoTransportReload}"

definition is_bulk :: "audit_operation \<Rightarrow> bool" where
  "is_bulk operation \<longleftrightarrow> operation \<in> {AoRestore, AoMigration, AoCompaction, AoRecordKeyRotation}"

section \<open>Overload counts\<close>

datatype operation_class =
    OcDataPlane | OcClockWatermark | OcCheckpoint | OcBackup | OcDiagnostics | OcAuditQuery | OcAuditExport
  | OcReserveStatus | OcReserveRelease | OcReserveRecreate | OcShutdown | OcIdentityDisable | OcGrantReduction
  | OcCredentialRevocation

primrec operation_class_index :: "operation_class \<Rightarrow> u16" where
  "operation_class_index OcDataPlane = 0"
| "operation_class_index OcClockWatermark = 1"
| "operation_class_index OcCheckpoint = 2"
| "operation_class_index OcBackup = 3"
| "operation_class_index OcDiagnostics = 4"
| "operation_class_index OcAuditQuery = 5"
| "operation_class_index OcAuditExport = 6"
| "operation_class_index OcReserveStatus = 7"
| "operation_class_index OcReserveRelease = 8"
| "operation_class_index OcReserveRecreate = 9"
| "operation_class_index OcShutdown = 10"
| "operation_class_index OcIdentityDisable = 11"
| "operation_class_index OcGrantReduction = 12"
| "operation_class_index OcCredentialRevocation = 13"

datatype admission_lane = LaneData | LaneRecovery

primrec admission_lane_index :: "admission_lane \<Rightarrow> u8" where
  "admission_lane_index LaneData = 0"
| "admission_lane_index LaneRecovery = 1"

text \<open>A bucket is ordered by its lane, its operation and its class, in the order of declaration.\<close>

record overload_bucket =
  ob_lane :: admission_lane
  ob_operation :: operation_class
  ob_class :: u16

definition bucket_rank :: "overload_bucket \<Rightarrow> u8 \<times> u16 \<times> u16" where
  "bucket_rank b = (admission_lane_index (ob_lane b), operation_class_index (ob_operation b), ob_class b)"

record overload_count =
  oc_bucket :: "overload_bucket option"
  oc_count :: u64

record overload_accumulator =
  oa_buckets :: "(overload_bucket \<times> u64) list"
  oa_overflow :: u64
  oa_max_buckets :: nat

definition accumulator_new :: "nat \<Rightarrow> overload_accumulator" where
  "accumulator_new max_buckets = \<lparr>oa_buckets = [], oa_overflow = 0, oa_max_buckets = max_buckets\<rparr>"

text \<open>The buckets are a \<open>BTreeMap\<close>: a list sorted by the rank of the keys.\<close>

fun bucket_insert :: "overload_bucket \<Rightarrow> u64 \<Rightarrow> (overload_bucket \<times> u64) list \<Rightarrow> (overload_bucket \<times> u64) list" where
  "bucket_insert b n [] = [(b, n)]"
| "bucket_insert b n ((b', n') # rest) =
     (if bucket_rank b < bucket_rank b' then (b, n) # (b', n') # rest
      else if b = b' then (b, n) # rest else (b', n') # bucket_insert b n rest)"

definition accumulator_add :: "overload_bucket \<Rightarrow> u64 \<Rightarrow> overload_accumulator \<Rightarrow> overload_accumulator" where
  "accumulator_add b n a =
     (case map_of (oa_buckets a) b of
        Some current \<Rightarrow> a\<lparr>oa_buckets := bucket_insert b (saturating_add current n) (oa_buckets a)\<rparr>
      | None \<Rightarrow>
          if length (oa_buckets a) < oa_max_buckets a then a\<lparr>oa_buckets := bucket_insert b n (oa_buckets a)\<rparr>
          else a\<lparr>oa_overflow := saturating_add (oa_overflow a) n\<rparr>)"

definition accumulator_record :: "overload_bucket \<Rightarrow> overload_accumulator \<Rightarrow> overload_accumulator" where
  "accumulator_record b a = accumulator_add b 1 a"

definition accumulator_take :: "overload_accumulator \<Rightarrow> overload_count list \<times> overload_accumulator" where
  "accumulator_take a =
     (map (\<lambda>(b, n). \<lparr>oc_bucket = Some b, oc_count = n\<rparr>) (oa_buckets a)
        @ (if oa_overflow a \<noteq> 0 then [\<lparr>oc_bucket = None, oc_count = oa_overflow a\<rparr>] else []),
      a\<lparr>oa_buckets := [], oa_overflow := 0\<rparr>)"

primrec accumulator_merge :: "overload_count list \<Rightarrow> overload_accumulator \<Rightarrow> overload_accumulator" where
  "accumulator_merge [] a = a"
| "accumulator_merge (c # cs) a =
     accumulator_merge cs
       (case oc_bucket c of
          Some b \<Rightarrow> accumulator_add b (oc_count c) a
        | None \<Rightarrow> a\<lparr>oa_overflow := saturating_add (oa_overflow a) (oc_count c)\<rparr>)"

record audit_overload_count =
  ao_lane :: u8
  ao_operation :: u16
  ao_class :: u16
  ao_count :: u64

definition overload_rank :: "audit_overload_count \<Rightarrow> u8 \<times> u16 \<times> u16 \<times> u64" where
  "overload_rank c = (ao_lane c, ao_operation c, ao_class c, ao_count c)"

section \<open>Events\<close>

record audit_authentication =
  an_method :: audit_auth_method
  an_identity_id :: "id16 option"
  an_credential_accessor :: "id16 option"
  an_succeeded :: bool
  an_failure_reason :: "audit_reason option"

record audit_authorization =
  az_capability :: "audit_capability option"
  az_allowed :: bool
  az_reason :: audit_reason

datatype audit_resource =
    ResourceCanonical string
  | ResourceRejected target_reason arr32 u16

record flood_aggregate =
  fl_source_bucket :: id16
  fl_count :: u64
  fl_window_start_milliseconds :: u64
  fl_window_end_milliseconds :: u64

datatype audit_state_commitment =
    ScNone | ScDelta "state_delta list" | ScWholeState whole_state_transition

record audit_log_event =
  ev_event_id :: id16
  ev_request_id :: id16
  ev_authentication :: audit_authentication
  ev_authorization :: audit_authorization
  ev_consumer_instance_id :: "id16 option"
  ev_resource :: "audit_resource option"
  ev_operation :: audit_operation
  ev_outcome :: audit_outcome
  ev_reason :: audit_reason
  ev_effective_timestamp_milliseconds :: u64
  ev_wall_clock_observation_milliseconds :: u64
  ev_secret_version :: "u64 option"
  ev_state :: audit_state_commitment
  ev_previous_epoch_terminal :: "arr32 option"
  ev_flood :: "flood_aggregate option"
  ev_overload_counts :: "audit_overload_count list"

primrec attach_rows ::
  "overload_count list \<Rightarrow> audit_overload_count list \<Rightarrow> (audit_overload_count list, codec_error) result" where
  "attach_rows [] counts = Ok counts"
| "attach_rows (v # vs) counts =
     (if length counts \<ge> MAX_OVERLOAD_COUNTS \<or> oc_count v = 0 then Err Limit
      else attach_rows vs (counts @ [
        (case oc_bucket v of
           None \<Rightarrow> \<lparr>ao_lane = 0, ao_operation = 0, ao_class = 0, ao_count = oc_count v\<rparr>
         | Some b \<Rightarrow> \<lparr>ao_lane = admission_lane_index (ob_lane b) + 1,
                     ao_operation = operation_class_index (ob_operation b) + 1,
                     ao_class = ob_class b, ao_count = oc_count v\<rparr>)]))"

definition attach_overloads :: "overload_count list \<Rightarrow> (audit_log_event, unit, codec_error) stateful" where
  "attach_overloads snapshot ev =
     (case attach_rows snapshot [] of
        Err e \<Rightarrow> (Err e, ev)
      | Ok counts \<Rightarrow>
          let counts = sort_key overload_rank counts
          in if adjacent_equal counts then (Err Invalid, ev)
             else (Ok (), ev\<lparr>ev_overload_counts := counts\<rparr>))"

fun windows_all :: "('a \<Rightarrow> 'a \<Rightarrow> bool) \<Rightarrow> 'a list \<Rightarrow> bool" where
  "windows_all p (a # b # rest) \<longleftrightarrow> p a b \<and> windows_all p (b # rest)"
| "windows_all p _ \<longleftrightarrow> True"

definition event_shape_ok :: "audit_log_event \<Rightarrow> bool" where
  "event_shape_ok ev \<longleftrightarrow>
     (let authn = ev_authentication ev; authz = ev_authorization ev in
      \<not> (ev_event_id ev = 0 \<or> ev_request_id ev = 0 \<or> ev_secret_version ev = Some 0
         \<or> (an_succeeded authn \<and> an_failure_reason authn \<noteq> None)
         \<or> (\<not> an_succeeded authn \<and> (an_identity_id authn \<noteq> None \<or> an_failure_reason authn = None))
         \<or> (az_allowed authz \<and> az_reason authz \<noteq> ArNone)
         \<or> (\<not> az_allowed authz \<and> az_reason authz = ArNone)
         \<or> (ev_operation ev = AoGenesis) \<noteq> (ev_previous_epoch_terminal ev \<noteq> None)
         \<or> (ev_operation ev = AoRateLimitAggregate) \<noteq> (ev_flood ev \<noteq> None)))"

definition event_validate :: "audit_log_event \<Rightarrow> (unit, codec_error) result" where
  "event_validate ev =
     (if \<not> event_shape_ok ev then Err Invalid
      else if (case ev_resource ev of Some (ResourceCanonical resource) \<Rightarrow>
                 resource = [] \<or> length resource > MAX_RESOURCE \<or> CHR 0x00 \<in> set resource
               | _ \<Rightarrow> False)
      then Err Invalid
      else if (case ev_flood ev of Some flood \<Rightarrow>
                 fl_count flood = 0 \<or> fl_window_start_milliseconds flood > fl_window_end_milliseconds flood
               | None \<Rightarrow> False)
      then Err Invalid
      else if length (ev_overload_counts ev) > MAX_OVERLOAD_COUNTS
              \<or> list_ex (\<lambda>c. ao_count c = 0) (ev_overload_counts ev)
              \<or> \<not> windows_all (\<lambda>a b. overload_rank a < overload_rank b) (ev_overload_counts ev)
      then Err Invalid
      else let successful = (ev_outcome ev = AuSucceeded);
               version_required = (successful \<and> ev_operation ev \<in> {AoSecretRead, AoSecretWrite})
           in if version_required \<noteq> (ev_secret_version ev \<noteq> None) then Err Invalid
              else (case (ev_state ev, successful \<and> is_state_mutation (ev_operation ev)) of
                      (ScWholeState _, True) \<Rightarrow> if is_bulk (ev_operation ev) then Ok () else Err Invalid
                    | (ScDelta _, True) \<Rightarrow> if \<not> is_bulk (ev_operation ev) then Ok () else Err Invalid
                    | (ScNone, False) \<Rightarrow> Ok ()
                    | _ \<Rightarrow> Err Invalid))"

definition event_state_delta :: "audit_log_event \<Rightarrow> state_delta list option" where
  "event_state_delta ev = (case ev_state ev of ScDelta delta \<Rightarrow> Some delta | _ \<Rightarrow> None)"

definition event_whole_state_transition :: "audit_log_event \<Rightarrow> whole_state_transition option" where
  "event_whole_state_transition ev = (case ev_state ev of ScWholeState transition \<Rightarrow> Some transition | _ \<Rightarrow> None)"

section \<open>Events as bytes\<close>

definition encode_optional :: "('a \<Rightarrow> bytes \<Rightarrow> bytes) \<Rightarrow> 'a option \<Rightarrow> bytes \<Rightarrow> bytes" where
  "encode_optional put v out = (case v of None \<Rightarrow> enc_u8 0 out | Some x \<Rightarrow> put x (enc_u8 1 out))"

definition encode_optional_id :: "id16 option \<Rightarrow> bytes \<Rightarrow> bytes" where
  "encode_optional_id = encode_optional (\<lambda>v. enc_fixed (be_bytes 16 v))"

definition encode_optional_hash :: "arr32 option \<Rightarrow> bytes \<Rightarrow> bytes" where
  "encode_optional_hash = encode_optional (\<lambda>v. enc_fixed (be_bytes 32 v))"

definition encode_audit_u64 :: "u64 option \<Rightarrow> bytes \<Rightarrow> bytes" where
  "encode_audit_u64 = encode_optional enc_u64"

definition encode_optional_reason :: "audit_reason option \<Rightarrow> bytes \<Rightarrow> bytes" where
  "encode_optional_reason = encode_optional (\<lambda>v. enc_u16 (audit_reason_code v))"

definition encode_optional_capability :: "audit_capability option \<Rightarrow> bytes \<Rightarrow> bytes" where
  "encode_optional_capability = encode_optional (\<lambda>v. enc_u16 (audit_capability_code v))"

definition encode_resource :: "audit_resource option \<Rightarrow> bytes \<Rightarrow> (bytes, codec_error) result" where
  "encode_resource v out =
     (case v of
        None \<Rightarrow> Ok (enc_u8 0 out)
      | Some (ResourceCanonical value) \<Rightarrow> enc_string value MAX_RESOURCE (enc_u8 1 out)
      | Some (ResourceRejected reason digest offset) \<Rightarrow>
          Ok (enc_u16 offset (enc_fixed (be_bytes 32 digest) (enc_u16 (target_reason_code reason) (enc_u8 2 out)))))"

definition encode_state :: "audit_state_commitment \<Rightarrow> bytes \<Rightarrow> (bytes, codec_error) result" where
  "encode_state v out =
     (case v of
        ScNone \<Rightarrow> Ok (enc_u8 0 out)
      | ScDelta delta \<Rightarrow>
          rbind (delta_set_encode delta) (\<lambda>encoded. enc_bytes encoded MAX_AUDIT_EVENT_BYTES (enc_u8 1 out))
      | ScWholeState transition \<Rightarrow>
          rbind (whole_state_transition_encode transition) (\<lambda>encoded.
            enc_bytes encoded MAX_AUDIT_EVENT_BYTES (enc_u8 2 out)))"

definition encode_flood :: "flood_aggregate option \<Rightarrow> bytes \<Rightarrow> bytes" where
  "encode_flood = encode_optional (\<lambda>flood out.
     let out = enc_fixed (be_bytes 16 (fl_source_bucket flood)) out;
         out = enc_u64 (fl_count flood) out;
         out = enc_u64 (fl_window_start_milliseconds flood) out
     in enc_u64 (fl_window_end_milliseconds flood) out)"

primrec encode_overload_counts :: "audit_overload_count list \<Rightarrow> bytes \<Rightarrow> bytes" where
  "encode_overload_counts [] out = out"
| "encode_overload_counts (c # cs) out =
     encode_overload_counts cs
       (enc_u64 (ao_count c) (enc_u16 (ao_class c) (enc_u16 (ao_operation c) (enc_u8 (ao_lane c) out))))"

definition event_encode :: "audit_log_event \<Rightarrow> (bytes, codec_error) result" where
  "event_encode ev =
     rbind (event_validate ev) (\<lambda>_.
     let authn = ev_authentication ev; authz = ev_authorization ev;
         out = enc_version 1;
         out = enc_u16 AUDIT_SCHEMA_VERSION out;
         out = enc_fixed (be_bytes 16 (ev_event_id ev)) out;
         out = enc_fixed (be_bytes 16 (ev_request_id ev)) out;
         out = enc_u16 (auth_method_code (an_method authn)) out;
         out = encode_optional_id (an_identity_id authn) out;
         out = encode_optional_id (an_credential_accessor authn) out;
         out = enc_bool (an_succeeded authn) out;
         out = encode_optional_reason (an_failure_reason authn) out;
         out = encode_optional_capability (az_capability authz) out;
         out = enc_bool (az_allowed authz) out;
         out = enc_u16 (audit_reason_code (az_reason authz)) out;
         out = encode_optional_id (ev_consumer_instance_id ev) out
     in rbind (encode_resource (ev_resource ev) out) (\<lambda>out.
        let out = enc_u16 (audit_operation_code (ev_operation ev)) out;
            out = enc_u16 (audit_outcome_code (ev_outcome ev)) out;
            out = enc_u16 (audit_reason_code (ev_reason ev)) out;
            out = enc_u64 (ev_effective_timestamp_milliseconds ev) out;
            out = enc_u64 (ev_wall_clock_observation_milliseconds ev) out;
            out = encode_audit_u64 (ev_secret_version ev) out
        in rbind (encode_state (ev_state ev) out) (\<lambda>out.
           let out = encode_optional_hash (ev_previous_epoch_terminal ev) out;
               out = encode_flood (ev_flood ev) out;
               out = enc_u16 (word_of_nat (length (ev_overload_counts ev))) out;
               out = encode_overload_counts (ev_overload_counts ev) out;
               encoded = enc_finish out
           in if length encoded > MAX_AUDIT_EVENT_BYTES then Err Limit else Ok encoded)))"

definition decode_resource :: "audit_resource option dec" where
  "decode_resource = dbind dec_u8 (\<lambda>tag.
     if tag = 0 then dret None
     else if tag = 1 then dbind (dec_string MAX_RESOURCE) (\<lambda>value. dret (Some (ResourceCanonical value)))
     else if tag = 2 then
       dbind dec_u16 (\<lambda>code.
       dbind (dlift (decode_enum target_reason_code target_reason_all code)) (\<lambda>reason.
       dbind (dec_fixed 32) (\<lambda>digest.
       dbind dec_u16 (\<lambda>offset. dret (Some (ResourceRejected reason digest offset))))))
     else dfail Invalid)"

definition decode_state :: "audit_state_commitment dec" where
  "decode_state = dbind dec_u8 (\<lambda>tag.
     if tag = 0 then dret ScNone
     else if tag = 1 then
       dbind (dec_bytes MAX_AUDIT_EVENT_BYTES) (\<lambda>encoded.
       dbind (dlift (delta_set_decode encoded)) (\<lambda>delta. dret (ScDelta delta)))
     else if tag = 2 then
       dbind (dec_bytes MAX_AUDIT_EVENT_BYTES) (\<lambda>encoded.
       dbind (dlift (whole_state_transition_decode encoded)) (\<lambda>transition. dret (ScWholeState transition)))
     else dfail Invalid)"

definition decode_flood :: "flood_aggregate dec" where
  "decode_flood =
     dbind (dec_fixed 16) (\<lambda>source_bucket.
     dbind dec_u64 (\<lambda>n.
     dbind dec_u64 (\<lambda>window_start.
     dbind dec_u64 (\<lambda>window_end.
       dret \<lparr>fl_source_bucket = source_bucket, fl_count = n, fl_window_start_milliseconds = window_start,
             fl_window_end_milliseconds = window_end\<rparr>))))"

definition decode_overload_count :: "audit_overload_count dec" where
  "decode_overload_count =
     dbind dec_u8 (\<lambda>lane.
     dbind dec_u16 (\<lambda>operation.
     dbind dec_u16 (\<lambda>cls.
     dbind dec_u64 (\<lambda>n.
       dret \<lparr>ao_lane = lane, ao_operation = operation, ao_class = cls, ao_count = n\<rparr>))))"

definition event_decode :: "bytes \<Rightarrow> (audit_log_event, codec_error) result" where
  "event_decode bs =
     (if length bs > MAX_AUDIT_EVENT_BYTES then Err Limit
      else run_dec 1 bs (
        dbind dec_u16 (\<lambda>schema.
        dbind (dcheck (schema = AUDIT_SCHEMA_VERSION) UnknownVersion) (\<lambda>_.
        dbind (dec_fixed 16) (\<lambda>event_id.
        dbind (dec_fixed 16) (\<lambda>request_id.
        dbind dec_u16 (\<lambda>method_code.
        dbind (dlift (decode_enum auth_method_code audit_auth_method_all method_code)) (\<lambda>method.
        dbind (dec_option (dec_fixed 16)) (\<lambda>identity_id.
        dbind (dec_option (dec_fixed 16)) (\<lambda>credential_accessor.
        dbind dec_bool (\<lambda>auth_succeeded.
        dbind (dec_option (dbind dec_u16 (\<lambda>code. dlift (decode_reason code)))) (\<lambda>failure_reason.
        dbind (dec_option (dbind dec_u16 (\<lambda>code. dlift (decode_capability code)))) (\<lambda>capability.
        dbind dec_bool (\<lambda>allowed.
        dbind (dbind dec_u16 (\<lambda>code. dlift (decode_reason code))) (\<lambda>authorization_reason.
        dbind (dec_option (dec_fixed 16)) (\<lambda>consumer_instance_id.
        dbind decode_resource (\<lambda>resource.
        dbind (dbind dec_u16 (\<lambda>code. dlift (decode_operation code))) (\<lambda>operation.
        dbind (dbind dec_u16 (\<lambda>code. dlift (decode_outcome code))) (\<lambda>outcome.
        dbind (dbind dec_u16 (\<lambda>code. dlift (decode_reason code))) (\<lambda>reason.
        dbind dec_u64 (\<lambda>effective_timestamp_milliseconds.
        dbind dec_u64 (\<lambda>wall_clock_observation_milliseconds.
        dbind (dec_option dec_u64) (\<lambda>secret_version.
        dbind decode_state (\<lambda>state.
        dbind (dec_option (dec_fixed 32)) (\<lambda>previous_epoch_terminal.
        dbind (dec_option decode_flood) (\<lambda>flood.
        dbind dec_u16 (\<lambda>overload_count.
        dbind (dcheck (unat overload_count \<le> MAX_OVERLOAD_COUNTS) Limit) (\<lambda>_.
        dbind (dec_repeat (unat overload_count) decode_overload_count) (\<lambda>overload_counts.
        dbind dec_finish (\<lambda>_.
        let ev = \<lparr>ev_event_id = event_id, ev_request_id = request_id,
                  ev_authentication = \<lparr>an_method = method, an_identity_id = identity_id,
                    an_credential_accessor = credential_accessor, an_succeeded = auth_succeeded,
                    an_failure_reason = failure_reason\<rparr>,
                  ev_authorization = \<lparr>az_capability = capability, az_allowed = allowed,
                    az_reason = authorization_reason\<rparr>,
                  ev_consumer_instance_id = consumer_instance_id, ev_resource = resource, ev_operation = operation,
                  ev_outcome = outcome, ev_reason = reason,
                  ev_effective_timestamp_milliseconds = effective_timestamp_milliseconds,
                  ev_wall_clock_observation_milliseconds = wall_clock_observation_milliseconds,
                  ev_secret_version = secret_version, ev_state = state,
                  ev_previous_epoch_terminal = previous_epoch_terminal, ev_flood = flood,
                  ev_overload_counts = overload_counts\<rparr>
        in dbind (dlift (event_validate ev)) (\<lambda>_. dret ev)))))))))))))))))))))))))))))))"

section \<open>Envelopes and entries\<close>

record audit_envelope =
  ae_audit_epoch :: id16
  ae_epoch_sequence :: u64
  ae_effective_timestamp_milliseconds :: u64
  ae_previous_hash :: arr32
  ae_ciphertext_digest :: arr32

definition envelope_encode :: "audit_envelope \<Rightarrow> (bytes, codec_error) result" where
  "envelope_encode e =
     (if ae_audit_epoch e = 0 \<or> ae_epoch_sequence e = 0 then Err Invalid
      else let out = enc_version 1;
               out = enc_u16 AUDIT_ENVELOPE_VERSION out;
               out = enc_fixed (be_bytes 16 (ae_audit_epoch e)) out;
               out = enc_u64 (ae_epoch_sequence e) out;
               out = enc_u64 (ae_effective_timestamp_milliseconds e) out;
               out = enc_fixed (be_bytes 32 (ae_previous_hash e)) out;
               out = enc_fixed (be_bytes 32 (ae_ciphertext_digest e)) out
           in Ok (enc_finish out))"

definition envelope_decode :: "bytes \<Rightarrow> (audit_envelope, codec_error) result" where
  "envelope_decode bs = run_dec 1 bs (
     dbind dec_u16 (\<lambda>version.
     dbind (dcheck (version = AUDIT_ENVELOPE_VERSION) UnknownVersion) (\<lambda>_.
     dbind (dec_fixed 16) (\<lambda>audit_epoch.
     dbind dec_u64 (\<lambda>epoch_sequence.
     dbind dec_u64 (\<lambda>effective_timestamp_milliseconds.
     dbind (dec_fixed 32) (\<lambda>previous_hash.
     dbind (dec_fixed 32) (\<lambda>ciphertext_digest.
     dbind dec_finish (\<lambda>_.
     dbind (dcheck (\<not> (audit_epoch = 0 \<or> epoch_sequence = 0)) Invalid) (\<lambda>_.
       dret \<lparr>ae_audit_epoch = audit_epoch, ae_epoch_sequence = epoch_sequence,
             ae_effective_timestamp_milliseconds = effective_timestamp_milliseconds,
             ae_previous_hash = previous_hash, ae_ciphertext_digest = ciphertext_digest\<rparr>))))))))))"

definition chain_domain :: bytes where
  "chain_domain = str_bytes ''ops-light-secrets-server.audit-chain.v1'' @ [0]"

definition chain_hash :: "hash \<Rightarrow> audit_envelope \<Rightarrow> (arr32, codec_error) result" where
  "chain_hash hash e = rbind (envelope_encode e) (\<lambda>encoded. Ok (hash (chain_domain @ frame encoded)))"

datatype audit_error = AeCodec codec_error | AeCrypto record_crypto_error | AeKeyring keyring_error | AeIntegrity | AeSequence

record stored_audit_entry =
  sa_envelope :: audit_envelope
  sa_encrypted_payload :: encrypted_record

definition audit_binding :: "id16 \<Rightarrow> u64 \<Rightarrow> id16 \<Rightarrow> u64 \<Rightarrow> arr32 \<Rightarrow> (record_binding, audit_error) result" where
  "audit_binding epoch sequence event_id effective previous_hash =
     (let logical_id = be_bytes 16 event_id @ be_bytes 16 epoch @ be_bytes 8 sequence @ be_bytes 8 effective
                       @ be_bytes 32 previous_hash
      in rbind (map_err AeCodec (logical_path_new ''events/payload'')) (\<lambda>path.
           map_err AeCrypto (binding_new AuditPayload ''audit'' path logical_id None effective)))"

definition audit_binding_from_entry :: "stored_audit_entry \<Rightarrow> (record_binding, audit_error) result" where
  "audit_binding_from_entry entry =
     (let logical_id = rb_logical_record_id (rh_binding (er_header (sa_encrypted_payload entry)));
          e = sa_envelope entry
      in if length logical_id \<noteq> 80
            \<or> take 16 (drop 16 logical_id) \<noteq> be_bytes 16 (ae_audit_epoch e)
            \<or> take 8 (drop 32 logical_id) \<noteq> be_bytes 8 (ae_epoch_sequence e)
            \<or> take 8 (drop 40 logical_id) \<noteq> be_bytes 8 (ae_effective_timestamp_milliseconds e)
            \<or> take 32 (drop 48 logical_id) \<noteq> be_bytes 32 (ae_previous_hash e)
         then Err AeIntegrity
         else audit_binding (ae_audit_epoch e) (ae_epoch_sequence e) (of_be_bytes (take 16 logical_id))
                (ae_effective_timestamp_milliseconds e) (ae_previous_hash e))"

definition entry_prepare ::
  "aead \<Rightarrow> hash \<Rightarrow> keyring \<Rightarrow> audit_log_event \<Rightarrow> id16 \<Rightarrow> u64 \<Rightarrow> arr32 \<Rightarrow> 'r random_source \<Rightarrow>
     ('r, stored_audit_entry, audit_error) stateful" where
  "entry_prepare cipher hash k ev audit_epoch epoch_sequence previous_hash random =
     sbind (slift (map_err AeCodec (event_validate ev))) (\<lambda>_.
     sbind (slift (audit_binding audit_epoch epoch_sequence (ev_event_id ev)
              (ev_effective_timestamp_milliseconds ev) previous_hash)) (\<lambda>binding.
     sbind (slift (map_err AeCodec (event_encode ev))) (\<lambda>plaintext.
     sbind (\<lambda>r. case encrypt_record cipher k binding plaintext random r of (res, r) \<Rightarrow> (map_err AeCrypto res, r)) (\<lambda>encrypted_payload.
     sbind (slift (map_err AeCodec (encrypted_encode encrypted_payload))) (\<lambda>frame.
       slift (Ok \<lparr>sa_envelope = \<lparr>ae_audit_epoch = audit_epoch, ae_epoch_sequence = epoch_sequence,
                    ae_effective_timestamp_milliseconds = ev_effective_timestamp_milliseconds ev,
                    ae_previous_hash = previous_hash, ae_ciphertext_digest = hash frame\<rparr>,
                 sa_encrypted_payload = encrypted_payload\<rparr>))))))"

definition verify_frame :: "hash \<Rightarrow> stored_audit_entry \<Rightarrow> (unit, audit_error) result" where
  "verify_frame hash entry =
     rbind (map_err AeCodec (encrypted_encode (sa_encrypted_payload entry))) (\<lambda>frame.
     if hash frame \<noteq> ae_ciphertext_digest (sa_envelope entry) then Err AeIntegrity
     else rbind (audit_binding_from_entry entry) (\<lambda>binding.
       if rh_binding (er_header (sa_encrypted_payload entry)) \<noteq> binding then Err AeIntegrity else Ok ()))"

definition entry_decrypt ::
  "aead \<Rightarrow> hash \<Rightarrow> stored_audit_entry \<Rightarrow> (keyring, audit_log_event, audit_error) stateful" where
  "entry_decrypt cipher hash entry =
     sbind (slift (verify_frame hash entry)) (\<lambda>_.
     sbind (slift (audit_binding_from_entry entry)) (\<lambda>expected.
     sbind (\<lambda>k. case decrypt_record cipher expected (sa_encrypted_payload entry) k of (res, k) \<Rightarrow> (map_err AeCrypto res, k)) (\<lambda>plaintext.
     sbind (slift (map_err AeCodec (event_decode plaintext))) (\<lambda>ev.
       if be_bytes 16 (ev_event_id ev)
            \<noteq> take 16 (rb_logical_record_id (rh_binding (er_header (sa_encrypted_payload entry))))
          \<or> ev_effective_timestamp_milliseconds ev \<noteq> ae_effective_timestamp_milliseconds (sa_envelope entry)
       then slift (Err AeIntegrity) else slift (Ok ev)))))"

definition entry_encode :: "stored_audit_entry \<Rightarrow> (bytes, codec_error) result" where
  "entry_encode entry =
     rbind (envelope_encode (sa_envelope entry)) (\<lambda>envelope.
     rbind (enc_bytes envelope 256 (enc_version 1)) (\<lambda>out.
     rbind (map_err (\<lambda>_. Invalid) (encrypted_encode (sa_encrypted_payload entry))) (\<lambda>payload.
     rbind (enc_bytes payload MAX_AUDIT_FRAME_BYTES out) (\<lambda>out. Ok (enc_finish out)))))"

definition entry_decode :: "hash \<Rightarrow> bytes \<Rightarrow> (stored_audit_entry, codec_error) result" where
  "entry_decode hash bs = run_dec 1 bs (
     dbind (dec_bytes 256) (\<lambda>envelope_bytes.
     dbind (dlift (envelope_decode envelope_bytes)) (\<lambda>envelope.
     dbind (dec_bytes MAX_AUDIT_FRAME_BYTES) (\<lambda>payload_bytes.
     dbind (dlift (map_err (\<lambda>_. Invalid) (encrypted_decode payload_bytes))) (\<lambda>encrypted_payload.
     dbind dec_finish (\<lambda>_.
     let entry = \<lparr>sa_envelope = envelope, sa_encrypted_payload = encrypted_payload\<rparr>
     in dbind (dlift (map_err (\<lambda>_. Invalid) (verify_frame hash entry))) (\<lambda>_. dret entry)))))))"

section \<open>The chain\<close>

primrec verify_frames :: "hash \<Rightarrow> stored_audit_entry list \<Rightarrow> (unit, audit_error) result" where
  "verify_frames hash [] = Ok ()"
| "verify_frames hash (entry # entries) = rbind (verify_frame hash entry) (\<lambda>_. verify_frames hash entries)"

text \<open>
  The loop over the sorted entries: the index, the chain hash so far and, from the second entry on, the time of
  the entry before.
\<close>

primrec chain_loop ::
  "hash \<Rightarrow> stored_audit_entry list \<Rightarrow> nat \<Rightarrow> arr32 \<Rightarrow> u64 option \<Rightarrow> (arr32, audit_error) result" where
  "chain_loop hash [] index previous time = Ok previous"
| "chain_loop hash (entry # entries) index previous time =
     (let e = sa_envelope entry in
      if ae_epoch_sequence e \<noteq> word_of_nat index + 1 \<or> ae_previous_hash e \<noteq> previous
         \<or> (case time of None \<Rightarrow> False | Some t \<Rightarrow> ae_effective_timestamp_milliseconds e < t)
      then Err AeSequence
      else rbind (map_err AeCodec (chain_hash hash e)) (\<lambda>previous.
        chain_loop hash entries (Suc index) previous (Some (ae_effective_timestamp_milliseconds e))))"

definition verify_chain :: "hash \<Rightarrow> stored_audit_entry list \<Rightarrow> (arr32, audit_error) result" where
  "verify_chain hash entries =
     rbind (verify_frames hash entries) (\<lambda>_.
     if length (remdups (map (\<lambda>entry. ae_audit_epoch (sa_envelope entry)) entries)) \<noteq> 1 then Err AeSequence
     else chain_loop hash (sort_key (\<lambda>entry. ae_epoch_sequence (sa_envelope entry)) entries) 0 0 None)"

definition genesis_event :: "id16 \<Rightarrow> id16 \<Rightarrow> u64 \<Rightarrow> arr32 \<Rightarrow> audit_log_event" where
  "genesis_event event_id request_id effective previous_epoch_terminal =
     \<lparr>ev_event_id = event_id, ev_request_id = request_id,
      ev_authentication = \<lparr>an_method = AmNone, an_identity_id = None, an_credential_accessor = None,
        an_succeeded = True, an_failure_reason = None\<rparr>,
      ev_authorization = \<lparr>az_capability = None, az_allowed = True, az_reason = ArNone\<rparr>,
      ev_consumer_instance_id = None, ev_resource = None, ev_operation = AoGenesis, ev_outcome = AuSucceeded,
      ev_reason = ArNone, ev_effective_timestamp_milliseconds = effective,
      ev_wall_clock_observation_milliseconds = effective, ev_secret_version = None, ev_state = ScNone,
      ev_previous_epoch_terminal = Some previous_epoch_terminal, ev_flood = None, ev_overload_counts = []\<rparr>"

end
