(* ===== verification/Audit_Log_Safety.thy ===== *)
theory Audit_Log_Safety
  imports Audit_Log Keyring_Safety
begin

text \<open>
  The codecs of the audit log are canonical, an entry reads back what was recorded, and the terminal hash of a
  verified chain determines every entry in it.
\<close>

section \<open>Codecs of events\<close>

lemma decode_enum_Ok:
  assumes "inj code" and "set variants = UNIV"
  shows "decode_enum code variants v = Ok x \<longleftrightarrow> v = code x"
proof
  assume "decode_enum code variants v = Ok x"
  then show "v = code x" by (auto simp: decode_enum_def find_Some_iff)
next
  assume v: "v = code x"
  have "find (\<lambda>y. v = code y) variants \<noteq> None"
    using assms(2) v by (auto simp: find_None_iff)
  then obtain y where y: "find (\<lambda>y. v = code y) variants = Some y" by blast
  then have "v = code y" by (auto simp: find_Some_iff)
  with v assms(1) have "y = x" by (auto dest: injD)
  with y show "decode_enum code variants v = Ok x" by (simp add: decode_enum_def)
qed

lemma enum_tables:
  "inj auth_method_code" "set audit_auth_method_all = UNIV"
  "inj audit_capability_code" "set audit_capability_all = UNIV"
  "inj audit_operation_code" "set audit_operation_all = UNIV"
  "inj audit_outcome_code" "set audit_outcome_all = UNIV"
  "inj audit_reason_code" "set audit_reason_all = UNIV"
  "inj target_reason_code" "set target_reason_all = UNIV"
proof -
  show "set audit_auth_method_all = UNIV" "set audit_capability_all = UNIV" "set audit_operation_all = UNIV"
    "set audit_outcome_all = UNIV" "set audit_reason_all = UNIV" "set target_reason_all = UNIV"
    by (auto simp: audit_auth_method_all_def audit_capability_all_def audit_operation_all_def audit_outcome_all_def
        audit_reason_all_def target_reason_all_def intro: audit_auth_method.exhaust audit_capability.exhaust
        audit_operation.exhaust audit_outcome.exhaust audit_reason.exhaust target_reason.exhaust)
qed ((rule injI, rename_tac x y, case_tac x; case_tac y; simp)+)

lemma decode_codes_Ok:
  "decode_enum auth_method_code audit_auth_method_all v = Ok m \<longleftrightarrow> v = auth_method_code m"
  "decode_enum target_reason_code target_reason_all v = Ok t \<longleftrightarrow> v = target_reason_code t"
  "decode_reason v = Ok r \<longleftrightarrow> v = audit_reason_code r"
  "decode_outcome v = Ok u \<longleftrightarrow> v = audit_outcome_code u"
  "decode_operation v = Ok p \<longleftrightarrow> v = audit_operation_code p"
  "decode_capability v = Ok c \<longleftrightarrow> v = audit_capability_code c"
  unfolding decode_reason_def decode_outcome_def decode_operation_def decode_capability_def
  by (simp_all add: decode_enum_Ok enum_tables)

lemma dbind_dlift_Ok: "dbind (dlift (Ok x)) f = f x"
  by (simp add: dbind_def dlift_def fun_eq_iff)

lemma encode_optional_wire:
  assumes "\<And>x out. put x out = out @ w x"
  shows "encode_optional put v out = out @ option_wire w v"
  using assms by (cases v) (simp_all add: encode_optional_def codec_simps)

definition resource_wire :: "audit_resource option \<Rightarrow> bytes" where
  "resource_wire v =
     (case v of None \<Rightarrow> [0]
      | Some (ResourceCanonical s) \<Rightarrow> 1 # string_wire s
      | Some (ResourceRejected reason digest offset) \<Rightarrow>
          2 # be_bytes 2 (target_reason_code reason) @ be_bytes 32 digest @ be_bytes 2 offset)"

definition resource_ok :: "audit_resource option \<Rightarrow> bool" where
  "resource_ok v \<longleftrightarrow> (case v of Some (ResourceCanonical s) \<Rightarrow> str_ok s \<and> length s \<le> MAX_RESOURCE | _ \<Rightarrow> True)"

lemma encode_resource_wire:
  "case v of Some (ResourceCanonical s) \<Rightarrow> length s \<le> MAX_RESOURCE | _ \<Rightarrow> True \<Longrightarrow>
     encode_resource v out = Ok (out @ resource_wire v)"
  by (auto simp: encode_resource_def resource_wire_def string_wire_def codec_simps
      split: option.splits audit_resource.splits)

lemma reads_resource: "resource_ok v \<Longrightarrow> reads decode_resource (resource_wire v) v"
  unfolding decode_resource_def resource_wire_def resource_ok_def string_wire_def
  by (auto simp: decode_codes_Ok split: option.split audit_resource.split
      intro!: reads_bind_byte [OF reads_dec_u8] reads_bind_ret [OF reads_dec_u8] reads_rules)

lemma trace_resource:
  assumes "decode_resource d = Ok (v, d')" and "consumed d0 ws d"
  shows "consumed d0 (ws @ resource_wire v) d' \<and> resource_ok v"
  using assms unfolding decode_resource_def
  by (auto simp: decode_codes_Ok resource_wire_def resource_ok_def string_wire_def split: if_splits
      dest!: trace_u8 trace_u16 trace_fixed32 trace_string)

definition state_bytes :: "audit_state_commitment \<Rightarrow> (bytes, codec_error) result" where
  "state_bytes v = (case v of ScNone \<Rightarrow> Ok [] | ScDelta ds \<Rightarrow> delta_set_encode ds
     | ScWholeState w \<Rightarrow> whole_state_transition_encode w)"

definition state_wire :: "audit_state_commitment \<Rightarrow> bytes \<Rightarrow> bytes" where
  "state_wire v encoded =
     (case v of ScNone \<Rightarrow> [0]
      | ScDelta _ \<Rightarrow> 1 # be_bytes 4 (word_of_nat (length encoded) :: u32) @ encoded
      | ScWholeState _ \<Rightarrow> 2 # be_bytes 4 (word_of_nat (length encoded) :: u32) @ encoded)"

definition state_ok :: "audit_state_commitment \<Rightarrow> bool" where
  "state_ok v \<longleftrightarrow> (case v of ScDelta ds \<Rightarrow> delta_set_ok ds | _ \<Rightarrow> True)"

lemma encode_state_wire:
  "encode_state v out = rbind (state_bytes v) (\<lambda>encoded.
     if length encoded > MAX_AUDIT_EVENT_BYTES then Err Limit else Ok (out @ state_wire v encoded))"
  by (auto simp: encode_state_def state_bytes_def state_wire_def codec_simps enc_bytes_def
      split: audit_state_commitment.split intro!: arg_cong2 [of _ _ _ _ rbind])

lemma reads_state:
  assumes "state_ok v" and "state_bytes v = Ok encoded" and "length encoded \<le> MAX_AUDIT_EVENT_BYTES"
  shows "reads decode_state (state_wire v encoded) v"
proof -
  have vec: "vec_ok encoded" using assms(3) by (simp add: vec_ok_def)
  show ?thesis
  proof (cases v)
    case ScNone
    then show ?thesis
      unfolding decode_state_def state_wire_def by (auto intro!: reads_bind_ret [OF reads_dec_u8])
  next
    case (ScDelta ds)
    have "delta_set_decode encoded = Ok ds"
      using delta_set_codec.enc_dec [OF _ _ vec, of ds] assms ScDelta by (simp add: state_ok_def state_bytes_def)
    with ScDelta assms(3) show ?thesis
      unfolding decode_state_def state_wire_def
      by (auto simp: dbind_dlift_Ok intro!: reads_bind_byte [OF reads_dec_u8] reads_rules)
  next
    case (ScWholeState w)
    have "whole_state_transition_decode encoded = Ok w"
      using whole_state_transition_codec.enc_dec [OF _ _ vec, of w] assms ScWholeState
      by (simp add: state_ok_def state_bytes_def)
    with ScWholeState assms(3) show ?thesis
      unfolding decode_state_def state_wire_def
      by (auto simp: dbind_dlift_Ok intro!: reads_bind_byte [OF reads_dec_u8] reads_rules)
  qed
qed

lemma trace_state:
  assumes "decode_state d = Ok (v, d')" and "consumed d0 ws d"
  shows "\<exists>encoded. consumed d0 (ws @ state_wire v encoded) d' \<and> state_ok v \<and> state_bytes v = Ok encoded
    \<and> length encoded \<le> MAX_AUDIT_EVENT_BYTES"
  using assms unfolding decode_state_def
  by (auto simp: state_wire_def state_ok_def state_bytes_def split: if_splits
      dest!: trace_u8 trace_bytes delta_set_codec.dec_enc whole_state_transition_codec.dec_enc)

definition flood_wire :: "flood_aggregate \<Rightarrow> bytes" where
  "flood_wire f = be_bytes 16 (fl_source_bucket f) @ be_bytes 8 (fl_count f)
     @ be_bytes 8 (fl_window_start_milliseconds f) @ be_bytes 8 (fl_window_end_milliseconds f)"

definition overload_wire :: "audit_overload_count \<Rightarrow> bytes" where
  "overload_wire c = ao_lane c # be_bytes 2 (ao_operation c) @ be_bytes 2 (ao_class c) @ be_bytes 8 (ao_count c)"

lemma encode_optional_wires:
  "encode_optional_id i out = out @ option_wire (be_bytes 16) i"
  "encode_optional_hash h out = out @ option_wire (be_bytes 32) h"
  "encode_audit_u64 n out = out @ option_wire (be_bytes 8) n"
  "encode_optional_reason r out = out @ option_wire (\<lambda>r. be_bytes 2 (audit_reason_code r)) r"
  "encode_optional_capability c out = out @ option_wire (\<lambda>c. be_bytes 2 (audit_capability_code c)) c"
  "encode_flood f out = out @ option_wire flood_wire f"
  "encode_overload_counts cs out = out @ concat (map overload_wire cs)"
  unfolding encode_optional_id_def encode_optional_hash_def encode_audit_u64_def encode_optional_reason_def
    encode_optional_capability_def encode_flood_def
  by (rule encode_optional_wire, simp add: codec_simps flood_wire_def Let_def)+
    (induction cs arbitrary: out, simp_all add: codec_simps overload_wire_def)

lemma reads_flood: "reads decode_flood (flood_wire f) f"
  unfolding decode_flood_def flood_wire_def
  by (cases f) (auto intro!: reads_rules)

lemma reads_overload: "reads decode_overload_count (overload_wire c) c"
  unfolding decode_overload_count_def overload_wire_def
  by (cases c) (auto intro!: reads_bind_byte [OF reads_dec_u8] reads_rules)

lemma reads_enum:
  "reads (dbind dec_u16 (\<lambda>code. dlift (decode_reason code))) (be_bytes 2 (audit_reason_code r)) r"
  "reads (dbind dec_u16 (\<lambda>code. dlift (decode_capability code))) (be_bytes 2 (audit_capability_code c)) c"
  "reads (dbind dec_u16 (\<lambda>code. dlift (decode_operation code))) (be_bytes 2 (audit_operation_code p)) p"
  "reads (dbind dec_u16 (\<lambda>code. dlift (decode_outcome code))) (be_bytes 2 (audit_outcome_code u)) u"
proof -
  have lift: "dlift r = dret x" if "r = Ok x" for r and x :: 'x
    using that by (simp add: dlift_def dret_def fun_eq_iff)
  show "reads (dbind dec_u16 (\<lambda>code. dlift (decode_reason code))) (be_bytes 2 (audit_reason_code r)) r"
    "reads (dbind dec_u16 (\<lambda>code. dlift (decode_capability code))) (be_bytes 2 (audit_capability_code c)) c"
    "reads (dbind dec_u16 (\<lambda>code. dlift (decode_operation code))) (be_bytes 2 (audit_operation_code p)) p"
    "reads (dbind dec_u16 (\<lambda>code. dlift (decode_outcome code))) (be_bytes 2 (audit_outcome_code u)) u"
    by (rule reads_bind_ret [OF reads_dec_u16], rule lift, simp add: decode_codes_Ok)+
qed

lemma trace_flood: "decode_flood d = Ok (f, d') \<Longrightarrow> consumed d0 ws d \<Longrightarrow> consumed d0 (ws @ flood_wire f) d'"
  by (auto simp: decode_flood_def flood_wire_def dest!: trace_fixed16 trace_u64)

lemma trace_overloads:
  assumes "dec_repeat n decode_overload_count d = Ok (cs, d')" and "consumed d0 ws d"
  shows "consumed d0 (ws @ concat (map overload_wire cs)) d' \<and> length cs = n"
proof -
  have "d_cursor d \<le> length (d_bytes d)"
    using assms(2) by (auto simp: consumed_def)
  moreover have "consumed d (overload_wire c) d' \<and> True" if "decode_overload_count d = Ok (c, d')" for d c d'
  proof -
    note read = that
    obtain l o' k n d1 d2 d3 where steps: "dec_u8 d = Ok (l, d1)" "dec_u16 d1 = Ok (o', d2)"
        "dec_u16 d2 = Ok (k, d3)" "dec_u64 d3 = Ok (n, d')"
      and c: "c = \<lparr>ao_lane = l, ao_operation = o', ao_class = k, ao_count = n\<rparr>"
      using read by (auto simp: decode_overload_count_def)
    show ?thesis
      using consumed_trans [OF consumed_trans [OF consumed_trans [OF consumed_dec_u8 [OF steps(1)]
            consumed_dec_u16 [OF steps(2)]] consumed_dec_u16 [OF steps(3)]] consumed_dec_u64 [OF steps(4)]]
      by (simp add: c overload_wire_def)
  qed
  ultimately have "consumed d (concat (map overload_wire cs)) d' \<and> length cs = n \<and> (\<forall>x\<in>set cs. True)"
    using assms(1) by (intro consumed_dec_repeat)
  then show ?thesis using consumed_trans [OF assms(2)] by blast
qed

lemma trace_enum:
  "dbind dec_u16 (\<lambda>code. dlift (decode_reason code)) d = Ok (r, d') \<Longrightarrow> consumed d0 ws d \<Longrightarrow>
     consumed d0 (ws @ be_bytes 2 (audit_reason_code r)) d'"
  "dbind dec_u16 (\<lambda>code. dlift (decode_capability code)) d = Ok (c, d') \<Longrightarrow> consumed d0 ws d \<Longrightarrow>
     consumed d0 (ws @ be_bytes 2 (audit_capability_code c)) d'"
  "dbind dec_u16 (\<lambda>code. dlift (decode_operation code)) d = Ok (p, d') \<Longrightarrow> consumed d0 ws d \<Longrightarrow>
     consumed d0 (ws @ be_bytes 2 (audit_operation_code p)) d'"
  "dbind dec_u16 (\<lambda>code. dlift (decode_outcome code)) d = Ok (u, d') \<Longrightarrow> consumed d0 ws d \<Longrightarrow>
     consumed d0 (ws @ be_bytes 2 (audit_outcome_code u)) d'"
  by (auto simp: decode_codes_Ok dest!: trace_u16)

lemma trace_option_plain:
  assumes "dec_option g d = Ok (v, d')" and "consumed d0 ws d"
    and "\<And>d x d' ws. g d = Ok (x, d') \<Longrightarrow> consumed d0 ws d \<Longrightarrow> consumed d0 (ws @ w x) d'"
  shows "consumed d0 (ws @ option_wire w v) d'"
  using trace_option [OF assms(1,2), of w "\<lambda>_. True"] assms(3) by blast

lemma trace_options:
  "dec_option (dec_fixed 16) d = Ok (i :: id16 option, d') \<Longrightarrow> consumed d0 ws d \<Longrightarrow>
     consumed d0 (ws @ option_wire (be_bytes 16) i) d'"
  "dec_option (dec_fixed 32) d = Ok (h :: arr32 option, d') \<Longrightarrow> consumed d0 ws d \<Longrightarrow>
     consumed d0 (ws @ option_wire (be_bytes 32) h) d'"
  "dec_option dec_u64 d = Ok (n, d') \<Longrightarrow> consumed d0 ws d \<Longrightarrow> consumed d0 (ws @ option_wire (be_bytes 8) n) d'"
  "dec_option (dbind dec_u16 (\<lambda>code. dlift (decode_reason code))) d = Ok (r, d') \<Longrightarrow> consumed d0 ws d \<Longrightarrow>
     consumed d0 (ws @ option_wire (\<lambda>r. be_bytes 2 (audit_reason_code r)) r) d'"
  "dec_option (dbind dec_u16 (\<lambda>code. dlift (decode_capability code))) d = Ok (c, d') \<Longrightarrow> consumed d0 ws d \<Longrightarrow>
     consumed d0 (ws @ option_wire (\<lambda>c. be_bytes 2 (audit_capability_code c)) c) d'"
  "dec_option decode_flood d = Ok (f, d') \<Longrightarrow> consumed d0 ws d \<Longrightarrow> consumed d0 (ws @ option_wire flood_wire f) d'"
  by (erule (1) trace_option_plain, erule (1) trace_fixed16 trace_fixed32 trace_u64 trace_enum trace_flood)+

definition event_wire :: "audit_log_event \<Rightarrow> bytes \<Rightarrow> bytes" where
  "event_wire ev encoded =
     (let authn = ev_authentication ev; authz = ev_authorization ev in
      be_bytes 2 AUDIT_SCHEMA_VERSION @ be_bytes 16 (ev_event_id ev) @ be_bytes 16 (ev_request_id ev)
      @ be_bytes 2 (auth_method_code (an_method authn)) @ option_wire (be_bytes 16) (an_identity_id authn)
      @ option_wire (be_bytes 16) (an_credential_accessor authn) @ (if an_succeeded authn then 1 else 0)
      # option_wire (\<lambda>r. be_bytes 2 (audit_reason_code r)) (an_failure_reason authn)
      @ option_wire (\<lambda>c. be_bytes 2 (audit_capability_code c)) (az_capability authz)
      @ (if az_allowed authz then 1 else 0) # be_bytes 2 (audit_reason_code (az_reason authz))
      @ option_wire (be_bytes 16) (ev_consumer_instance_id ev) @ resource_wire (ev_resource ev)
      @ be_bytes 2 (audit_operation_code (ev_operation ev)) @ be_bytes 2 (audit_outcome_code (ev_outcome ev))
      @ be_bytes 2 (audit_reason_code (ev_reason ev)) @ be_bytes 8 (ev_effective_timestamp_milliseconds ev)
      @ be_bytes 8 (ev_wall_clock_observation_milliseconds ev) @ option_wire (be_bytes 8) (ev_secret_version ev)
      @ state_wire (ev_state ev) encoded @ option_wire (be_bytes 32) (ev_previous_epoch_terminal ev)
      @ option_wire flood_wire (ev_flood ev) @ be_bytes 2 (word_of_nat (length (ev_overload_counts ev)) :: u16)
      @ concat (map overload_wire (ev_overload_counts ev)))"

text \<open>The Rust types of an event: strings are UTF-8 and the rows of a delta set are sorted.\<close>

definition event_ok :: "audit_log_event \<Rightarrow> bool" where
  "event_ok ev \<longleftrightarrow> (case ev_resource ev of Some (ResourceCanonical s) \<Rightarrow> str_ok s | _ \<Rightarrow> True) \<and> state_ok (ev_state ev)"

lemma event_validate_bounds:
  "event_validate ev = Ok () \<Longrightarrow> length (ev_overload_counts ev) \<le> MAX_OVERLOAD_COUNTS
     \<and> (case ev_resource ev of Some (ResourceCanonical s) \<Rightarrow> length s \<le> MAX_RESOURCE | _ \<Rightarrow> True)"
  by (auto simp: event_validate_def split: if_splits option.split audit_resource.split)

lemma event_encode_wire:
  assumes "event_validate ev = Ok ()"
  shows "event_encode ev = rbind (state_bytes (ev_state ev)) (\<lambda>encoded.
    if length encoded > MAX_AUDIT_EVENT_BYTES \<or> length (1 # event_wire ev encoded) > MAX_AUDIT_EVENT_BYTES
    then Err Limit else Ok (1 # event_wire ev encoded))"
  using assms event_validate_bounds [OF assms]
  by (cases "state_bytes (ev_state ev)")
    (simp_all add: event_encode_def event_wire_def encode_optional_wires encode_resource_wire encode_state_wire
      codec_simps Let_def)

lemma event_encode_Ok:
  "event_encode ev = Ok bs \<longleftrightarrow> event_validate ev = Ok () \<and> length bs \<le> MAX_AUDIT_EVENT_BYTES
     \<and> (\<exists>encoded. state_bytes (ev_state ev) = Ok encoded \<and> length encoded \<le> MAX_AUDIT_EVENT_BYTES
          \<and> bs = 1 # event_wire ev encoded)"
proof (cases "event_validate ev = Ok ()")
  case True
  then show ?thesis by (auto simp: event_encode_wire not_less split: if_splits)
qed (auto simp: event_encode_def)

lemma event_eta:
  "\<lparr>ev_event_id = ev_event_id ev, ev_request_id = ev_request_id ev,
    ev_authentication = \<lparr>an_method = an_method (ev_authentication ev),
      an_identity_id = an_identity_id (ev_authentication ev),
      an_credential_accessor = an_credential_accessor (ev_authentication ev),
      an_succeeded = an_succeeded (ev_authentication ev), an_failure_reason = an_failure_reason (ev_authentication ev)\<rparr>,
    ev_authorization = \<lparr>az_capability = az_capability (ev_authorization ev),
      az_allowed = az_allowed (ev_authorization ev), az_reason = az_reason (ev_authorization ev)\<rparr>,
    ev_consumer_instance_id = ev_consumer_instance_id ev, ev_resource = ev_resource ev, ev_operation = ev_operation ev,
    ev_outcome = ev_outcome ev, ev_reason = ev_reason ev,
    ev_effective_timestamp_milliseconds = ev_effective_timestamp_milliseconds ev,
    ev_wall_clock_observation_milliseconds = ev_wall_clock_observation_milliseconds ev,
    ev_secret_version = ev_secret_version ev, ev_state = ev_state ev,
    ev_previous_epoch_terminal = ev_previous_epoch_terminal ev, ev_flood = ev_flood ev,
    ev_overload_counts = ev_overload_counts ev\<rparr> = ev"
  by (cases ev, cases "ev_authentication ev", cases "ev_authorization ev") simp

lemma event_decode_encoded:
  assumes "event_ok ev" and "event_encode ev = Ok bs"
  shows "event_decode bs = Ok ev"
proof -
  obtain encoded where v: "event_validate ev = Ok ()" and len: "length bs \<le> MAX_AUDIT_EVENT_BYTES"
    and st: "state_bytes (ev_state ev) = Ok encoded" "length encoded \<le> MAX_AUDIT_EVENT_BYTES"
    and bs: "bs = 1 # event_wire ev encoded"
    using assms(2) by (auto simp: event_encode_Ok)
  note bounds = event_validate_bounds [OF v]
  have res: "resource_ok (ev_resource ev)" and sok: "state_ok (ev_state ev)"
    using assms(1) bounds by (auto simp: event_ok_def resource_ok_def split: option.splits audit_resource.splits)
  have n: "unat (word_of_nat (length (ev_overload_counts ev)) :: u16) = length (ev_overload_counts ev)"
    using bounds by (simp add: unat_of_nat take_bit_nat_eq_self)
  have counts: "reads (dec_repeat (length (ev_overload_counts ev)) decode_overload_count)
      (concat (map overload_wire (ev_overload_counts ev))) (ev_overload_counts ev)"
    by (rule reads_dec_repeat [OF reads_overload])
  have size: "LENGTH(128) = 8 * 16" "LENGTH(256) = 8 * 32" by simp_all
  note opts = accepts_bind [OF reads_option [OF reads_dec_fixed [OF size(1)]]]
    accepts_bind [OF reads_option [OF reads_dec_fixed [OF size(2)]]] accepts_bind [OF reads_option [OF reads_dec_u64]]
    accepts_bind [OF reads_option [OF reads_enum(1)]] accepts_bind [OF reads_option [OF reads_enum(2)]]
    accepts_bind [OF reads_option [OF reads_flood]] accepts_bind [OF reads_enum(1)] accepts_bind [OF reads_enum(3)]
    accepts_bind [OF reads_enum(4)] accepts_bind [OF reads_resource [OF res]]
    accepts_bind [OF reads_state [OF sok st]] accepts_bind_end [OF counts]
  have mth: "decode_enum auth_method_code audit_auth_method_all (auth_method_code m) = Ok m" for m
    by (simp add: decode_codes_Ok)
  have vec: "vec_ok (1 # event_wire ev encoded)" and fits: "\<not> length bs > MAX_AUDIT_EVENT_BYTES"
    using len by (simp_all add: bs vec_ok_def)
  show ?thesis
    unfolding event_decode_def if_not_P [OF fits] unfolding bs
    apply (rule run_dec_accepts [OF _ vec])
    apply (unfold event_wire_def Let_def)
    apply (rule opts accepts_intros refl size mth | simp only: n bounds event_eta v)+
    done
qed

lemma event_encode_decoded:
  assumes "event_decode bs = Ok ev"
  shows "event_ok ev \<and> event_encode ev = Ok bs"
proof -
  have fits: "length bs \<le> MAX_AUDIT_EVENT_BYTES"
    using assms by (auto simp: event_decode_def split: if_splits)
  have "event_ok ev \<and> event_validate ev = Ok () \<and> (\<exists>encoded. state_bytes (ev_state ev) = Ok encoded
      \<and> length encoded \<le> MAX_AUDIT_EVENT_BYTES \<and> bs = 1 # event_wire ev encoded)"
    using assms unfolding event_decode_def if_not_P [OF fits [folded not_less]] Let_def
    apply (elim trace_start)
    apply (clarsimp simp: decode_codes_Ok)
    apply (drule (1) trace_dests trace_options trace_resource trace_state trace_overloads
        | drule (2) trace_finish | erule conjE exE)+
    apply (clarsimp simp: event_ok_def event_wire_def resource_ok_def Let_def split: option.splits audit_resource.splits)
    done
  then show ?thesis using fits by (simp add: event_encode_Ok)
qed

interpretation audit_event_codec: strict_canonical event_encode event_decode event_ok
  by unfold_locales (rule event_decode_encoded, assumption, assumption, rule event_encode_decoded)

lemma envelope_encode_Ok:
  "envelope_encode e = Ok bs \<longleftrightarrow> ae_audit_epoch e \<noteq> 0 \<and> ae_epoch_sequence e \<noteq> 0
     \<and> bs = 1 # be_bytes 2 AUDIT_ENVELOPE_VERSION @ be_bytes 16 (ae_audit_epoch e) @ be_bytes 8 (ae_epoch_sequence e)
       @ be_bytes 8 (ae_effective_timestamp_milliseconds e) @ be_bytes 32 (ae_previous_hash e)
       @ be_bytes 32 (ae_ciphertext_digest e)"
  by (auto simp: envelope_encode_def codec_simps Let_def)

interpretation audit_envelope_codec: strict_canonical envelope_encode envelope_decode "\<lambda>_. True"
proof
  fix e bs
  assume "envelope_encode e = Ok bs" and "vec_ok bs"
  then show "envelope_decode bs = Ok e"
    unfolding envelope_encode_Ok envelope_decode_def
    by (cases e) (auto intro!: run_dec_accepts accepts_intros)
next
  fix bs e
  assume "envelope_decode bs = Ok e"
  then show "True \<and> envelope_encode e = Ok bs"
    unfolding envelope_decode_def envelope_encode_Ok
    by (elim trace_start, clarsimp) ((drule (1) trace_dests | drule (2) trace_finish | erule conjE)+, simp)
qed

section \<open>Entries\<close>

definition audit_place :: "id16 \<Rightarrow> u64 \<Rightarrow> id16 \<Rightarrow> u64 \<Rightarrow> arr32 \<Rightarrow> record_binding" where
  "audit_place epoch sequence event_id effective previous_hash =
     \<lparr>rb_domain = AuditPayload, rb_mount = ''audit'', rb_path = ''events/payload'',
      rb_logical_record_id = be_bytes 16 event_id @ be_bytes 16 epoch @ be_bytes 8 sequence @ be_bytes 8 effective
        @ be_bytes 32 previous_hash,
      rb_version = None, rb_created_unix_milliseconds = effective\<rparr>"

lemma audit_place_ok:
  "binding_validate (audit_place epoch sequence event_id effective previous_hash) = Ok ()"
  "logical_path_ok (rb_path (audit_place epoch sequence event_id effective previous_hash))"
  by (simp_all add: audit_place_def binding_validate_def logical_path_ok_def logical_path_new_def str_ok_def
      str_bytes_def byte_of_char_def byte_is_ascii_control_def utf8_valid_def)
    (metis length_be_bytes length_0_conv zero_neq_numeral)

lemma audit_binding_total:
  "audit_binding epoch sequence event_id effective previous_hash
     = Ok (audit_place epoch sequence event_id effective previous_hash)"
proof -
  have "logical_path_new ''events/payload'' = Ok ''events/payload''"
    using audit_place_ok(2) by (simp add: audit_place_def logical_path_ok_def)
  then show ?thesis
    using audit_place_ok(1) [of epoch sequence event_id effective previous_hash]
    by (simp add: audit_binding_def binding_new_def audit_place_def Let_def)
qed

text \<open>The envelope repeats what the binding of the payload says.\<close>

lemma audit_binding_from_entry_Ok:
  assumes "audit_binding_from_entry entry = Ok b"
  shows "\<exists>event_id. b = audit_place (ae_audit_epoch (sa_envelope entry)) (ae_epoch_sequence (sa_envelope entry)) event_id
    (ae_effective_timestamp_milliseconds (sa_envelope entry)) (ae_previous_hash (sa_envelope entry))"
  using assms by (auto simp: audit_binding_from_entry_def audit_binding_total Let_def split: if_splits)

lemma audit_binding_from_place:
  assumes "rh_binding (er_header (sa_encrypted_payload entry)) = audit_place (ae_audit_epoch (sa_envelope entry))
    (ae_epoch_sequence (sa_envelope entry)) event_id (ae_effective_timestamp_milliseconds (sa_envelope entry))
    (ae_previous_hash (sa_envelope entry))"
  shows "audit_binding_from_entry entry = Ok (rh_binding (er_header (sa_encrypted_payload entry)))"
proof -
  have "of_be_bytes (be_bytes 16 event_id) = event_id"
    by (simp add: of_be_be_bytes)
  then show ?thesis
    unfolding audit_binding_from_entry_def Let_def audit_binding_total assms
    by (simp add: audit_place_def)
qed

lemma verify_frame_Ok:
  "verify_frame hash entry = Ok () \<longleftrightarrow> (\<exists>frame event_id. encrypted_encode (sa_encrypted_payload entry) = Ok frame
     \<and> hash frame = ae_ciphertext_digest (sa_envelope entry)
     \<and> rh_binding (er_header (sa_encrypted_payload entry)) = audit_place (ae_audit_epoch (sa_envelope entry))
         (ae_epoch_sequence (sa_envelope entry)) event_id (ae_effective_timestamp_milliseconds (sa_envelope entry))
         (ae_previous_hash (sa_envelope entry)))"
  (is "_ \<longleftrightarrow> ?r")
proof
  assume "verify_frame hash entry = Ok ()"
  then show ?r
    by (auto simp: verify_frame_def split: if_splits dest: audit_binding_from_entry_Ok)
next
  assume ?r
  then show "verify_frame hash entry = Ok ()"
    by (auto simp: verify_frame_def audit_binding_from_place)
qed

lemma verify_frame_header:
  assumes "verify_frame hash entry = Ok ()"
  shows "header_ok (er_header (sa_encrypted_payload entry))"
  using assms by (auto simp: verify_frame_Ok header_ok_def audit_place_ok)

lemma case_map_err_Ok: "(case p of (res, r) \<Rightarrow> (map_err f res, r)) = (Ok a, r') \<longleftrightarrow> p = (Ok a, r')"
  by (auto split: prod.split)

lemma entry_prepare_Ok:
  assumes "entry_prepare cipher hash k ev epoch sequence previous random r = (Ok entry, r')"
  shows "\<exists>plaintext frame. event_encode ev = Ok plaintext
    \<and> encrypt_record cipher k (audit_place epoch sequence (ev_event_id ev) (ev_effective_timestamp_milliseconds ev) previous)
        plaintext random r = (Ok (sa_encrypted_payload entry), r')
    \<and> encrypted_encode (sa_encrypted_payload entry) = Ok frame
    \<and> sa_envelope entry = \<lparr>ae_audit_epoch = epoch, ae_epoch_sequence = sequence,
        ae_effective_timestamp_milliseconds = ev_effective_timestamp_milliseconds ev, ae_previous_hash = previous,
        ae_ciphertext_digest = hash frame\<rparr>"
  using assms
  by (auto simp: entry_prepare_def audit_binding_total case_map_err_Ok)

lemma encrypt_record_Ok:
  assumes "encrypt_record cipher k binding plaintext random r = (Ok er, r')"
  shows "rh_binding (er_header er) = binding \<and> rh_store_id (er_header er) = kr_store_id k
    \<and> 16 \<le> length (er_ciphertext er) \<and> length (er_ciphertext er) \<le> MAX_RECORD_CIPHERTEXT
    \<and> (\<exists>key nonce aad. aead_seal cipher key nonce aad plaintext = Some (er_ciphertext er))"
  using aead_encrypt_Ok [OF assms [unfolded encrypt_record_def Let_def]] by blast

lemma prepared_binding:
  assumes "entry_prepare cipher hash k ev epoch sequence previous random r = (Ok entry, r')"
  shows "rh_binding (er_header (sa_encrypted_payload entry))
    = audit_place (ae_audit_epoch (sa_envelope entry)) (ae_epoch_sequence (sa_envelope entry)) (ev_event_id ev)
        (ae_effective_timestamp_milliseconds (sa_envelope entry)) (ae_previous_hash (sa_envelope entry))"
  using entry_prepare_Ok [OF assms] by (auto dest!: encrypt_record_Ok)

lemma prepared_verifies:
  assumes "entry_prepare cipher hash k ev epoch sequence previous random r = (Ok entry, r')"
  shows "verify_frame hash entry = Ok ()"
  using prepared_binding [OF assms] entry_prepare_Ok [OF assms] by (auto simp: verify_frame_Ok)

lemma prepared_decrypts:
  assumes "aead_correct cipher" and "event_ok ev" and "keyring_validate k = Ok ()" and "keyring_validate k' = Ok ()"
    and "ring_le evs k k'"
    and prep: "entry_prepare cipher hash k ev epoch sequence previous random r = (Ok entry, r')"
  shows "fst (entry_decrypt cipher hash entry k') = Ok ev"
proof -
  let ?b = "audit_place epoch sequence (ev_event_id ev) (ev_effective_timestamp_milliseconds ev) previous"
  obtain plaintext frame where pt: "event_encode ev = Ok plaintext"
    and enc: "encrypt_record cipher k ?b plaintext random r = (Ok (sa_encrypted_payload entry), r')"
    and env: "sa_envelope entry = \<lparr>ae_audit_epoch = epoch, ae_epoch_sequence = sequence,
        ae_effective_timestamp_milliseconds = ev_effective_timestamp_milliseconds ev, ae_previous_hash = previous,
        ae_ciphertext_digest = hash frame\<rparr>"
    using entry_prepare_Ok [OF prep] by blast
  have audit: "rb_domain ?b = AuditPayload" by (simp add: audit_place_def)
  have b: "rh_binding (er_header (sa_encrypted_payload entry)) = ?b"
    using encrypt_record_Ok [OF enc] by blast
  have from_entry: "audit_binding_from_entry entry = Ok ?b"
    using audit_binding_from_place [OF prepared_binding [OF prep]] b by simp
  have dec: "fst (decrypt_record cipher ?b (sa_encrypted_payload entry) k') = Ok plaintext"
    using decrypt_record_kept [OF assms(1) enc assms(4)] assms(5) opening_keys_kept [OF assms(5)]
      encryption_key_opens [OF assms(3)] audit by (auto simp: ring_le_def)
  have id: "take 16 (rb_logical_record_id ?b) = be_bytes 16 (ev_event_id ev)"
    by (simp add: audit_place_def)
  show ?thesis
    using prepared_verifies [OF prep] from_entry dec event_decode_encoded [OF assms(2) pt] b id env
    by (cases "decrypt_record cipher ?b (sa_encrypted_payload entry) k'")
      (auto simp: entry_decrypt_def sbind_def slift_def)
qed

text \<open>What the lengths rely on: the cipher adds a tag of sixteen bytes.\<close>

definition aead_tagged :: "aead \<Rightarrow> bool" where
  "aead_tagged cipher \<longleftrightarrow> (\<forall>key nonce aad plaintext ciphertext.
     aead_seal cipher key nonce aad plaintext = Some ciphertext \<longrightarrow> length ciphertext = length plaintext + 16)"

lemma encrypted_encode_length:
  assumes "header_ok (er_header r)" and "encrypted_encode r = Ok bs"
  shows "length bs \<le> 2539 + length (er_ciphertext r)"
  using assms(2) header_encode_total [OF assms(1)]
  by (auto simp: encrypted_encode_def header_encode_def put_bytes_Ok split: if_splits)

lemma entry_codec_round_trip:
  assumes "verify_frame hash entry = Ok ()" and "entry_encode entry = Ok bs"
  shows "entry_decode hash bs = Ok entry"
proof -
  obtain envelope payload where e: "envelope_encode (sa_envelope entry) = Ok envelope" "length envelope \<le> 256"
    and p: "encrypted_encode (sa_encrypted_payload entry) = Ok payload" "length payload \<le> MAX_AUDIT_FRAME_BYTES"
    and bs: "bs = 1 # be_bytes 4 (word_of_nat (length envelope) :: u32) @ envelope
        @ be_bytes 4 (word_of_nat (length payload) :: u32) @ payload"
    using assms(2) by (auto simp: entry_encode_def codec_simps)
  have ed: "envelope_decode envelope = Ok (sa_envelope entry)"
    using audit_envelope_codec.enc_dec [OF _ e(1)] e(2) by (simp add: vec_ok_def)
  have "16 \<le> length (er_ciphertext (sa_encrypted_payload entry))"
      "length (er_ciphertext (sa_encrypted_payload entry)) \<le> MAX_RECORD_CIPHERTEXT"
    using p(1) by (auto simp: encrypted_encode_def split: if_splits)
  from encrypted_round_trip [OF verify_frame_header [OF assms(1)] this]
  have pd: "map_err (\<lambda>_. Invalid) (encrypted_decode payload) = Ok (sa_encrypted_payload entry)"
    using p(1) by auto
  have vf: "map_err (\<lambda>_. Invalid) (verify_frame hash \<lparr>sa_envelope = sa_envelope entry,
      sa_encrypted_payload = sa_encrypted_payload entry\<rparr>) = Ok ()"
    using assms(1) by (cases entry) simp
  have eta: "\<lparr>sa_envelope = sa_envelope entry, sa_encrypted_payload = sa_encrypted_payload entry\<rparr> = entry"
    by (cases entry) simp
  have lens: "length envelope \<le> u32_max" "length payload \<le> u32_max" using e(2) p(2) by simp_all
  show ?thesis
    unfolding entry_decode_def bs Let_def
    by (rule run_dec_accepts,
        (rule accepts_lift [OF ed] accepts_lift [OF pd] accepts_lift [OF vf] accepts_intros e(2) p(2) lens eta)+)
      (use e(2) p(2) in \<open>simp add: vec_ok_def\<close>)
qed

lemma prepared_encodes:
  assumes "aead_tagged cipher" and "epoch \<noteq> 0" and "sequence \<noteq> 0"
    and prep: "entry_prepare cipher hash k ev epoch sequence previous random r = (Ok entry, r')"
  shows "\<exists>bs. entry_encode entry = Ok bs"
proof -
  obtain plaintext frame where pt: "event_encode ev = Ok plaintext"
    and enc: "encrypt_record cipher k (audit_place epoch sequence (ev_event_id ev) (ev_effective_timestamp_milliseconds ev)
        previous) plaintext random r = (Ok (sa_encrypted_payload entry), r')"
    and frame: "encrypted_encode (sa_encrypted_payload entry) = Ok frame"
    and env: "ae_audit_epoch (sa_envelope entry) = epoch" "ae_epoch_sequence (sa_envelope entry) = sequence"
    using entry_prepare_Ok [OF prep] by auto
  have "length (er_ciphertext (sa_encrypted_payload entry)) = length plaintext + 16"
    using encrypt_record_Ok [OF enc] assms(1) unfolding aead_tagged_def by blast
  then have "length frame \<le> MAX_AUDIT_FRAME_BYTES"
    using encrypted_encode_length [OF verify_frame_header [OF prepared_verifies [OF prep]] frame] pt by (auto simp: event_encode_Ok)
  then show ?thesis
    using frame env assms(2,3) by (auto simp: entry_encode_def envelope_encode_def Let_def codec_simps enc_bytes_def)
qed

section \<open>The chain\<close>

lemma chain_loop_snoc:
  "chain_loop hash (es @ [e]) i previous time = Ok h \<longleftrightarrow>
     (\<exists>p. chain_loop hash es i previous time = Ok p
        \<and> ae_epoch_sequence (sa_envelope e) = word_of_nat (i + length es) + 1 \<and> ae_previous_hash (sa_envelope e) = p
        \<and> (\<forall>t. (if es = [] then time else Some (ae_effective_timestamp_milliseconds (sa_envelope (last es)))) = Some t \<longrightarrow>
             t \<le> ae_effective_timestamp_milliseconds (sa_envelope e))
        \<and> chain_hash hash (sa_envelope e) = Ok h)"
proof (induction es arbitrary: i previous time)
  case Nil
  show ?case by (auto simp: Let_def split: option.splits)
next
  case (Cons e' es)
  show ?case
    by (cases "chain_hash hash (sa_envelope e')") (auto simp: Let_def Cons.IH)
qed

definition chain_message :: "stored_audit_entry \<Rightarrow> bytes" where
  "chain_message entry = chain_domain @ frame
     (case envelope_encode (sa_envelope entry) of Ok encoded \<Rightarrow> encoded | Err _ \<Rightarrow> [])"

definition payload_message :: "stored_audit_entry \<Rightarrow> bytes" where
  "payload_message entry = (case encrypted_encode (sa_encrypted_payload entry) of Ok encoded \<Rightarrow> encoded | Err _ \<Rightarrow> [])"

text \<open>Everything that is hashed when a chain is verified.\<close>

definition hashed :: "stored_audit_entry list \<Rightarrow> bytes set" where
  "hashed es = chain_message ` set es \<union> payload_message ` set es"

lemma chain_hash_inject:
  assumes "chain_hash hash (sa_envelope e) = Ok h" and "chain_hash hash (sa_envelope e') = Ok h"
    and "inj_on hash {chain_message e, chain_message e'}"
  shows "sa_envelope e = sa_envelope e'"
proof -
  obtain bs bs' where enc: "envelope_encode (sa_envelope e) = Ok bs" "envelope_encode (sa_envelope e') = Ok bs'"
    using assms(1,2) by (auto simp: chain_hash_def)
  have vec: "vec_ok bs" "vec_ok bs'"
    using enc by (auto simp: envelope_encode_Ok vec_ok_def)
  have "hash (chain_message e) = hash (chain_message e')"
    using assms(1,2) enc by (simp add: chain_hash_def chain_message_def)
  then have "chain_message e = chain_message e'"
    using assms(3) by (auto dest: inj_onD)
  then have "frame bs @ [] = frame bs' @ []"
    using enc by (simp add: chain_message_def)
  then have "bs = bs'"
    using frame_append_inject [of bs bs' "[]" "[]"] vec by (simp add: vec_ok_def)
  with enc vec show ?thesis
    using audit_envelope_codec.enc_inject by blast
qed

lemma chain_loop_inject:
  assumes "length es = length es'" and "chain_loop hash es i p0 t0 = Ok h" and "chain_loop hash es' i p0 t0 = Ok h"
    and "inj_on hash (chain_message ` set es \<union> chain_message ` set es')"
  shows "map sa_envelope es = map sa_envelope es'"
  using assms
proof (induction es arbitrary: es' h rule: rev_induct)
  case Nil
  then show ?case by simp
next
  case (snoc e es)
  obtain fs f where es': "es' = fs @ [f]"
    using snoc.prems(1) by (cases es' rule: rev_cases) auto
  obtain p where p: "chain_loop hash es i p0 t0 = Ok p" "ae_previous_hash (sa_envelope e) = p"
      "chain_hash hash (sa_envelope e) = Ok h"
    using snoc.prems(2) by (auto simp: chain_loop_snoc)
  obtain q where q: "chain_loop hash fs i p0 t0 = Ok q" "ae_previous_hash (sa_envelope f) = q"
      "chain_hash hash (sa_envelope f) = Ok h"
    using snoc.prems(3) unfolding es' by (auto simp: chain_loop_snoc)
  have "inj_on hash {chain_message e, chain_message f}"
    by (rule inj_on_subset [OF snoc.prems(4)]) (simp add: es')
  from chain_hash_inject [OF p(3) q(3) this] have ef: "sa_envelope e = sa_envelope f" .
  moreover have "map sa_envelope es = map sa_envelope fs"
  proof (rule snoc.IH)
    show "length es = length fs" using snoc.prems(1) es' by simp
    show "chain_loop hash es i p0 t0 = Ok p" by (rule p(1))
    show "chain_loop hash fs i p0 t0 = Ok p" using q p(2) ef by simp
    show "inj_on hash (chain_message ` set es \<union> chain_message ` set fs)"
      by (rule inj_on_subset [OF snoc.prems(4)]) (auto simp: es')
  qed
  ultimately show ?case by (simp add: es')
qed

lemma verify_frames_Ok: "verify_frames hash es = Ok () \<longleftrightarrow> (\<forall>e\<in>set es. verify_frame hash e = Ok ())"
  by (induction es) auto

lemma verified_payload_inject:
  assumes "verify_frame hash e = Ok ()" and "verify_frame hash e' = Ok ()" and "sa_envelope e = sa_envelope e'"
    and "inj_on hash {payload_message e, payload_message e'}"
  shows "e = e'"
proof -
  obtain bs bs' where enc: "encrypted_encode (sa_encrypted_payload e) = Ok bs"
      "encrypted_encode (sa_encrypted_payload e') = Ok bs'" and "hash bs = hash bs'"
    using assms(1-3) by (auto simp: verify_frame_Ok)
  then have "bs = bs'"
    using assms(4) by (auto simp: payload_message_def dest: inj_onD)
  moreover have dec: "encrypted_decode b = Ok (sa_encrypted_payload x)"
    if "verify_frame hash x = Ok ()" "encrypted_encode (sa_encrypted_payload x) = Ok b" for x b
  proof -
    have "16 \<le> length (er_ciphertext (sa_encrypted_payload x))"
        "length (er_ciphertext (sa_encrypted_payload x)) \<le> MAX_RECORD_CIPHERTEXT"
      using that(2) by (auto simp: encrypted_encode_def split: if_splits)
    from encrypted_round_trip [OF verify_frame_header [OF that(1)] this] that(2) show ?thesis by auto
  qed
  ultimately have "sa_encrypted_payload e = sa_encrypted_payload e'"
    using dec [OF assms(1) enc(1)] dec [OF assms(2) enc(2)] by simp
  with assms(3) show ?thesis by (cases e; cases e') simp
qed

lemma verify_chain_Ok:
  "verify_chain hash es = Ok h \<longleftrightarrow> (\<forall>e\<in>set es. verify_frame hash e = Ok ())
     \<and> length (remdups (map (\<lambda>e. ae_audit_epoch (sa_envelope e)) es)) = 1
     \<and> chain_loop hash (sort_key (\<lambda>e. ae_epoch_sequence (sa_envelope e)) es) 0 0 None = Ok h"
  by (auto simp: verify_chain_def verify_frames_Ok split: if_splits)

text \<open>The last envelope carries the number of entries.\<close>

lemma chain_loop_length:
  assumes "chain_loop hash (es @ [e]) 0 p0 t0 = Ok h" and "chain_loop hash (es' @ [e']) 0 p0 t0 = Ok h"
    and "inj_on hash {chain_message e, chain_message e'}" and "Suc (length es) \<le> usize_max" and "Suc (length es') \<le> usize_max"
  shows "length es = length es'"
proof -
  have "sa_envelope e = sa_envelope e'"
    using assms(1,2) chain_hash_inject [OF _ _ assms(3)] by (auto simp: chain_loop_snoc)
  then have "(word_of_nat (length es) :: u64) = word_of_nat (length es')"
    using assms(1,2) by (auto simp: chain_loop_snoc)
  then show ?thesis
    using assms(4,5) by (simp add: word_of_nat_eq_iff take_bit_nat_eq_self)
qed

text \<open>
  An event that encodes can always be recorded: with randomness at hand and a cipher that seals, no other check
  of \<open>prepare\<close> fails.
\<close>

lemma entry_prepare_succeeds:
  assumes "event_encode ev = Ok plaintext" and "random 24 r = (Some nonce, r1)"
    and "\<forall>key nonce aad. aead_seal cipher key nonce aad plaintext \<noteq> None" and "aead_tagged cipher"
  shows "\<exists>entry. entry_prepare cipher hash k ev epoch sequence previous random r = (Ok entry, r1)"
proof -
  let ?b = "audit_place epoch sequence (ev_event_id ev) (ev_effective_timestamp_milliseconds ev) previous"
  let ?key = "encryption_key k AuditPayload"
  let ?h = "\<lparr>rh_store_id = kr_store_id k, rh_binding = ?b, rh_key_id = pk_id ?key, rh_nonce = of_be_bytes nonce\<rparr>"
  have ok: "header_ok ?h" by (simp add: header_ok_def audit_place_ok)
  obtain aad where aad: "header_encode_strict ?h = Ok aad"
    using header_encode_total(1) [OF ok] by blast
  obtain c where c: "aead_seal cipher (pk_material ?key) (of_be_bytes nonce) aad plaintext = Some c"
    using assms(3) by blast
  have len: "length plaintext \<le> MAX_AUDIT_EVENT_BYTES" and v: "event_validate ev = Ok ()"
    using assms(1) by (auto simp: event_encode_Ok)
  have clen: "length c = length plaintext + 16"
    using c assms(4) unfolding aead_tagged_def by blast
  have dom: "rb_domain ?b = AuditPayload" by (simp add: audit_place_def)
  have enc: "encrypt_record cipher k ?b plaintext random r = (Ok \<lparr>er_header = ?h, er_ciphertext = c\<rparr>, r1)"
    using len aad c clen dom assms(2) audit_place_ok(1)
    by (simp add: encrypt_record_def aead_encrypt_def sbind_def srequire_def slift_def random_fill_def header_new_def
        encrypted_new_def Let_def)
  obtain frame where frame: "encrypted_encode \<lparr>er_header = ?h, er_ciphertext = c\<rparr> = Ok frame"
    using encrypted_round_trip [of "\<lparr>er_header = ?h, er_ciphertext = c\<rparr>"] ok clen len by auto
  show ?thesis
    using v assms(1) enc frame by (simp add: entry_prepare_def sbind_def slift_def audit_binding_total)
qed

section \<open>Properties\<close>

text \<open>
  C6: The bytes of the audit log are canonical. An event and the envelope of an entry decode from a byte string exactly
  when the string is their encoding, so no two byte strings stand for the same event, and what was written is what is
  read. A stored entry whose frame verifies is read back from its encoding.
\<close>

theorem audit_codecs_canonical:
  assumes "vec_ok bs"
  shows "(event_decode bs = Ok ev \<longleftrightarrow> event_ok ev \<and> event_encode ev = Ok bs)
    \<and> (envelope_decode bs = Ok envelope \<longleftrightarrow> envelope_encode envelope = Ok bs)
    \<and> (verify_frame hash entry = Ok () \<and> entry_encode entry = Ok bs \<longrightarrow> entry_decode hash bs = Ok entry)"
  using audit_event_codec.dec_iff [OF assms] audit_envelope_codec.dec_iff [OF assms] entry_codec_round_trip by blast

definition sample_event :: audit_log_event where
  "sample_event = genesis_event 1 2 3 0"

lemma sample_event_encodes: "event_validate sample_event = Ok ()" "\<exists>bs. event_encode sample_event = Ok bs"
proof -
  show v: "event_validate sample_event = Ok ()"
    by (simp add: sample_event_def genesis_event_def event_validate_def event_shape_ok_def Let_def is_state_mutation_def)
  show "\<exists>bs. event_encode sample_event = Ok bs"
    unfolding event_encode_Ok using v
    by (simp add: sample_event_def genesis_event_def state_bytes_def event_wire_def Let_def resource_wire_def state_wire_def)
qed

lemma sample_event_ok: "event_ok sample_event"
  by (simp add: event_ok_def sample_event_def genesis_event_def state_ok_def)

theorem audit_codecs_canonical_witness:
  "\<exists>bs. event_encode sample_event = Ok bs \<and> event_decode bs = Ok sample_event"
proof -
  obtain bs where bs: "event_encode sample_event = Ok bs" using sample_event_encodes by blast
  then have "vec_ok bs" by (auto simp: event_encode_Ok vec_ok_def)
  from audit_codecs_canonical [OF this, of sample_event] bs sample_event_ok show ?thesis by blast
qed

text \<open>
  C5: What is recorded can be read, unchanged, for as long as the store exists: an entry verifies, and under every
  keyring reached from the one that recorded it, finished rotations included, it decrypts to the event that was
  recorded. It also has a stored form, from which the same entry is read.
\<close>

theorem audit_entry_round_trip:
  assumes "aead_correct cipher" and "aead_tagged cipher" and "age_faithful age" and "keyring_validate k = Ok ()"
    and "event_ok ev" and "epoch \<noteq> 0" and "sequence \<noteq> 0"
    and "entry_prepare cipher hash k ev epoch sequence previous random r = (Ok entry, r')"
    and "ring_run keyed fingerprint age cipher random k evs k'"
  shows "verify_frame hash entry = Ok () \<and> fst (entry_decrypt cipher hash entry k') = Ok ev
    \<and> (\<exists>bs. entry_encode entry = Ok bs \<and> entry_decode hash bs = Ok entry)"
proof -
  note prep = assms(8)
  have v: "verify_frame hash entry = Ok ()" by (rule prepared_verifies [OF prep])
  obtain bs where "entry_encode entry = Ok bs" using prepared_encodes [OF assms(2,6,7) prep] by blast
  moreover have "fst (entry_decrypt cipher hash entry k') = Ok ev"
    using prepared_decrypts [OF assms(1,5,4) _ _ prep] ring_run_moves [OF assms(9,3,4)] by blast
  ultimately show ?thesis using v entry_codec_round_trip [OF v] by blast
qed

lemma sample_cipher_tagged: "aead_tagged sample_cipher"
  by (simp add: aead_tagged_def sample_cipher_def)

lemma sample_prepare:
  "\<exists>entry. entry_prepare sample_cipher hash sample_ring sample_event 1 1 0 sample_rng 0 = (Ok entry, 1)"
proof -
  obtain bs where "event_encode sample_event = Ok bs" using sample_event_encodes by blast
  from entry_prepare_succeeds [OF this, of sample_rng 0 "nat_be 24 0" 1 sample_cipher hash sample_ring 1 1 0] show ?thesis
    by (simp add: sample_rng_def sample_cipher_tagged) (simp add: sample_cipher_def)
qed

theorem audit_entry_round_trip_witness:
  "\<exists>entry. entry_prepare sample_cipher sample_digest sample_ring sample_event 1 1 0 sample_rng 0 = (Ok entry, 1)
     \<and> fst (entry_decrypt sample_cipher sample_digest entry sample_ring2) = Ok sample_event"
proof -
  obtain entry where e: "entry_prepare sample_cipher sample_digest sample_ring sample_event 1 1 0 sample_rng 0 = (Ok entry, 1)"
    using sample_prepare by blast
  from audit_entry_round_trip [OF sample_cipher_ok sample_cipher_tagged sample_age_ok(1) sample_ring_valid sample_event_ok
      _ _ e sample_run [of sample_keyed_hash sample_digest]] e
  show ?thesis by auto
qed

text \<open>
  C2: The hash at the end of a verified chain determines the log: two collections of entries that verify with the same
  terminal hash are the same entries, envelopes and encrypted payloads alike, in whatever order they were given,
  unless two of the messages that were hashed collide. Nothing can be changed, left out, added or reordered.
\<close>

theorem audit_chain_binds:
  assumes "verify_chain hash es = Ok h" and "verify_chain hash es' = Ok h"
    and "length es \<le> usize_max" and "length es' \<le> usize_max" and "inj_on hash (hashed es \<union> hashed es')"
  shows "mset es = mset es'"
proof -
  let ?sort = "sort_key (\<lambda>e. ae_epoch_sequence (sa_envelope e)) :: stored_audit_entry list \<Rightarrow> _"
  have loops: "chain_loop hash (?sort es) 0 0 None = Ok h" "chain_loop hash (?sort es') 0 0 None = Ok h"
    and frames: "\<forall>e\<in>set es. verify_frame hash e = Ok ()" "\<forall>e\<in>set es'. verify_frame hash e = Ok ()"
    and ne: "es \<noteq> []" "es' \<noteq> []"
    using assms(1,2) by (auto simp: verify_chain_Ok)
  have inj: "inj_on hash A" if "A \<subseteq> hashed es \<union> hashed es'" for A
    using assms(5) that by (rule inj_on_subset)
  have last: "\<exists>xs x. ?sort zs = xs @ [x] \<and> x \<in> set zs \<and> length zs = Suc (length xs)" if "zs \<noteq> []" for zs
  proof -
    have "?sort zs \<noteq> []" using that set_sort [of "\<lambda>e. ae_epoch_sequence (sa_envelope e)" zs] by (auto simp del: set_sort)
    then obtain xs x where sx: "?sort zs = xs @ [x]" by (cases "?sort zs" rule: rev_cases) auto
    have "set zs = set (xs @ [x])" "length zs = length (xs @ [x])"
      using arg_cong [OF sx, of set] arg_cong [OF sx, of length] by simp_all
    with sx show ?thesis by auto
  qed
  obtain xs x ys y where s: "?sort es = xs @ [x]" "?sort es' = ys @ [y]" and xy: "x \<in> set es" "y \<in> set es'"
    and n: "length es = Suc (length xs)" "length es' = Suc (length ys)"
    using last [OF ne(1)] last [OF ne(2)] by blast
  have "inj_on hash {chain_message x, chain_message y}"
    by (rule inj) (use xy in \<open>auto simp: hashed_def\<close>)
  from chain_loop_length [OF loops [unfolded s] this] have "length (?sort es) = length (?sort es')"
    using assms(3,4) n by simp
  moreover have "inj_on hash (chain_message ` set (?sort es) \<union> chain_message ` set (?sort es'))"
    by (rule inj) (auto simp: hashed_def)
  ultimately have envs: "map sa_envelope (?sort es) = map sa_envelope (?sort es')"
    using chain_loop_inject [OF _ loops] by blast
  have "?sort es = ?sort es'"
  proof (rule nth_equalityI)
    show len: "length (?sort es) = length (?sort es')" by fact
    fix i assume i: "i < length (?sort es)"
    have mem: "?sort es ! i \<in> set es" "?sort es' ! i \<in> set es'"
      using nth_mem [OF i] nth_mem [of i "?sort es'"] i len by simp_all
    have "sa_envelope (?sort es ! i) = sa_envelope (?sort es' ! i)"
      using arg_cong [OF envs, of "\<lambda>xs. xs ! i"] i len by simp
    moreover have "inj_on hash {payload_message (?sort es ! i), payload_message (?sort es' ! i)}"
      by (rule inj) (use mem in \<open>auto simp: hashed_def\<close>)
    ultimately show "?sort es ! i = ?sort es' ! i"
      using verified_payload_inject frames mem by blast
  qed
  from arg_cong [OF this, of mset] show ?thesis by simp
qed

definition length_hash :: hash where
  "length_hash bs = word_of_nat (length bs)"

lemma sample_chain:
  assumes "entry_prepare sample_cipher length_hash sample_ring sample_event 1 1 0 sample_rng 0 = (Ok entry, 1)"
  shows "\<exists>h. verify_chain length_hash [entry] = Ok h" and "inj_on length_hash (hashed [entry])"
proof -
  obtain plaintext frame where enc: "encrypt_record sample_cipher sample_ring (audit_place 1 1 1 3 0) plaintext sample_rng 0
        = (Ok (sa_encrypted_payload entry), 1)"
    and frame: "encrypted_encode (sa_encrypted_payload entry) = Ok frame"
    and env: "sa_envelope entry = \<lparr>ae_audit_epoch = 1, ae_epoch_sequence = 1, ae_effective_timestamp_milliseconds = 3,
        ae_previous_hash = 0, ae_ciphertext_digest = length_hash frame\<rparr>"
    using entry_prepare_Ok [OF assms] by (auto simp: sample_event_def genesis_event_def)
  show "\<exists>h. verify_chain length_hash [entry] = Ok h"
    using prepared_verifies [OF assms] env
    by (simp add: verify_chain_def Let_def chain_hash_def envelope_encode_def)
  let ?h = "er_header (sa_encrypted_payload entry)"
  have b: "rh_binding ?h = audit_place 1 1 1 3 0" using encrypt_record_Ok [OF enc] by blast
  have ok: "header_ok ?h" using b by (simp add: header_ok_def audit_place_ok)
  have "length frame \<ge> 180"
    using frame header_encode_total(1) [OF ok]
    by (auto simp: encrypted_encode_def header_encode_def put_bytes_Ok header_wire_def b audit_place_def Let_def
        string_wire_def RECORD_MAGIC_def split: if_splits)
  moreover have "length frame \<le> 2539 + MAX_RECORD_CIPHERTEXT"
    using encrypted_encode_length [OF ok frame] encrypt_record_Ok [OF enc] by auto
  moreover have "length (chain_message entry) = 147"
    by (simp add: chain_message_def env envelope_encode_def Let_def codec_simps chain_domain_def frame_def)
  ultimately show "inj_on length_hash (hashed [entry])"
    using frame by (auto simp: hashed_def inj_on_def payload_message_def length_hash_def word_of_nat_eq_iff
        take_bit_nat_eq_self)
qed

theorem audit_chain_binds_witness:
  "\<exists>entry h. verify_chain length_hash [entry] = Ok h \<and> mset [entry] = mset [entry]"
proof -
  obtain entry where e: "entry_prepare sample_cipher length_hash sample_ring sample_event 1 1 0 sample_rng 0 = (Ok entry, 1)"
    using sample_prepare by blast
  obtain h where h: "verify_chain length_hash [entry] = Ok h" using sample_chain(1) [OF e] by blast
  have "inj_on length_hash (hashed [entry] \<union> hashed [entry])" using sample_chain(2) [OF e] by simp
  from audit_chain_binds [OF h h _ _ this] h show ?thesis by auto
qed

end
