(* ===== verification/Coordinator.thy ===== *)
theory Coordinator
  imports Audit_Log Clock
begin

text \<open>
  The commit boundary (\<open>transaction_coordinator.rs\<close>) and its implementation over the database
  (\<open>store/coordinator.rs\<close>). A table of redb is a map from keys to values, a write transaction is a copy of the tables
  that a commit publishes and a drop forgets. Every call of the database may fail: \<open>io n\<close> says whether the
  \<open>n\<close>-th call succeeds.
\<close>

section \<open>The commit boundary\<close>

datatype 'a authorization = TxAllowed | TxDenied 'a

datatype mutation_commitment = CommitDelta | CommitWholeState

datatype ('m, 'q) coordinator_command = CommandMutation 'm mutation_commitment | CommandRead 'q

datatype 'e coordinator_error = CoBackend 'e | CoStateCommitment

datatype ('mr, 'rr) coordinator_response = ResponseMutation 'mr | ResponseRead 'rr | ResponseDenied

text \<open>
  The traits \<open>TransactionFactory\<close> and \<open>AtomicTransaction\<close>; \<open>tf_drop\<close> is what is left of a transaction that goes out of
  scope without a commit.
\<close>

record ('d, 't, 'm, 'q, 'mr, 'rr, 'a, 'e) transaction_factory =
  tf_begin :: "'d \<Rightarrow> ('t, 'e) result \<times> 'd"
  tf_authorize_mutation :: "'m \<Rightarrow> ('t, 'a authorization, 'e) stateful"
  tf_apply_mutation :: "'m \<Rightarrow> ('t, 'mr \<times> 'a, 'e) stateful"
  tf_authorize_read :: "'q \<Rightarrow> ('t, 'a authorization, 'e) stateful"
  tf_prepare_read :: "'q \<Rightarrow> ('t, 'rr \<times> 'a, 'e) stateful"
  tf_append_audit :: "'a \<Rightarrow> overload_count list \<Rightarrow> ('t, unit, 'e) stateful"
  tf_commit :: "'t \<Rightarrow> (unit, 'e) result \<times> 'd"
  tf_drop :: "'t \<Rightarrow> 'd"
  tf_state_delta :: "'a \<Rightarrow> state_delta list option"
  tf_whole_state_transition :: "'a \<Rightarrow> whole_state_transition option"

definition validate_mutation_commitment ::
  "('d, 't, 'm, 'q, 'mr, 'rr, 'a, 'e) transaction_factory \<Rightarrow> 'a \<Rightarrow> mutation_commitment \<Rightarrow> (unit, 'e coordinator_error) result" where
  "validate_mutation_commitment f audit required =
     require (case required of
                CommitDelta \<Rightarrow> tf_state_delta f audit \<noteq> None \<and> tf_whole_state_transition f audit = None
              | CommitWholeState \<Rightarrow> tf_state_delta f audit = None \<and> tf_whole_state_transition f audit \<noteq> None)
       CoStateCommitment"

definition validate_no_state_commitment ::
  "('d, 't, 'm, 'q, 'mr, 'rr, 'a, 'e) transaction_factory \<Rightarrow> 'a \<Rightarrow> (unit, 'e coordinator_error) result" where
  "validate_no_state_commitment f audit =
     require (tf_state_delta f audit = None \<and> tf_whole_state_transition f audit = None) CoStateCommitment"

definition backend :: "('t, 'a, 'e) stateful \<Rightarrow> ('t, 'a, 'e coordinator_error) stateful" where
  "backend m t = (case m t of (r, t) \<Rightarrow> (map_err CoBackend r, t))"

text \<open>The part of \<open>execute\<close> between \<open>begin\<close> and \<open>commit\<close>.\<close>

definition execute_body ::
  "('d, 't, 'm, 'q, 'mr, 'rr, 'a, 'e) transaction_factory \<Rightarrow> ('m, 'q) coordinator_command \<Rightarrow> overload_count list \<Rightarrow>
     ('t, ('mr, 'rr) coordinator_response, 'e coordinator_error) stateful" where
  "execute_body f command overloads =
     (case command of
        CommandMutation v commitment \<Rightarrow>
          sbind (backend (tf_authorize_mutation f v)) (\<lambda>auth. case auth of
            TxDenied audit \<Rightarrow>
              sbind (slift (validate_no_state_commitment f audit)) (\<lambda>_.
              sbind (backend (tf_append_audit f audit overloads)) (\<lambda>_. slift (Ok ResponseDenied)))
          | TxAllowed \<Rightarrow>
              sbind (backend (tf_apply_mutation f v)) (\<lambda>(response, audit).
              sbind (slift (validate_mutation_commitment f audit commitment)) (\<lambda>_.
              sbind (backend (tf_append_audit f audit overloads)) (\<lambda>_. slift (Ok (ResponseMutation response))))))
      | CommandRead v \<Rightarrow>
          sbind (backend (tf_authorize_read f v)) (\<lambda>auth. case auth of
            TxDenied audit \<Rightarrow>
              sbind (slift (validate_no_state_commitment f audit)) (\<lambda>_.
              sbind (backend (tf_append_audit f audit overloads)) (\<lambda>_. slift (Ok ResponseDenied)))
          | TxAllowed \<Rightarrow>
              sbind (backend (tf_prepare_read f v)) (\<lambda>(response, audit).
              sbind (slift (validate_no_state_commitment f audit)) (\<lambda>_.
              sbind (backend (tf_append_audit f audit overloads)) (\<lambda>_. slift (Ok (ResponseRead response)))))))"

definition execute ::
  "('d, 't, 'm, 'q, 'mr, 'rr, 'a, 'e) transaction_factory \<Rightarrow> ('m, 'q) coordinator_command \<Rightarrow> overload_count list \<Rightarrow>
     ('d, ('mr, 'rr) coordinator_response, 'e coordinator_error) stateful" where
  "execute f command overloads d =
     (case tf_begin f d of
        (Err e, d) \<Rightarrow> (Err (CoBackend e), d)
      | (Ok t, d) \<Rightarrow>
          (case execute_body f command overloads t of
             (Err e, t) \<Rightarrow> (Err e, tf_drop f t)
           | (Ok response, t) \<Rightarrow>
               (case tf_commit f t of
                  (Err e, d) \<Rightarrow> (Err (CoBackend e), d)
                | (Ok _, d) \<Rightarrow> (Ok response, d))))"

section \<open>The store\<close>

record tables =
  tb_meta :: "bytes \<rightharpoonup> bytes"
  tb_events :: "bytes \<rightharpoonup> bytes"
  tb_head :: "bytes \<rightharpoonup> bytes"

datatype store_error = SeDatabase | SeUninitialized | SeCodec codec_error

datatype store_coordinator_error = CsStore store_error | CsAudit audit_error | CsInvalid

record 'r coordinator_factory =
  cf_tables :: tables
  cf_keyring :: keyring
  cf_random :: 'r
  cf_calls :: nat

record 'r coordinator_tx =
  tx_base :: tables
  tx_tables :: tables
  tx_keyring :: keyring
  tx_random :: 'r
  tx_calls :: nat

definition PROVISIONAL_META_KEY :: bytes where
  "PROVISIONAL_META_KEY = 1 # str_bytes ''provisional_meta''"

definition AUDIT_HEAD_KEY :: bytes where
  "AUDIT_HEAD_KEY = 1 # str_bytes ''current''"

definition audit_key :: "audit_envelope \<Rightarrow> bytes" where
  "audit_key e = be_bytes 16 (ae_audit_epoch e) @ be_bytes 8 (ae_epoch_sequence e)"

datatype store_mutation = ClockWatermarkMutation watermark_command audit_log_event

datatype store_read = AuditHeadRead audit_log_event | AuditOnlyRead audit_log_event

definition checked_mul :: "u64 \<Rightarrow> u64 \<Rightarrow> u64 option" where
  "checked_mul a b = (if unat a * unat b < 2 ^ 64 then Some (a * b) else None)"

text \<open>One call of the database.\<close>

definition db_call :: "(nat \<Rightarrow> bool) \<Rightarrow> ('r coordinator_tx, unit, store_coordinator_error) stateful" where
  "db_call io t = (if io (tx_calls t) then Ok () else Err (CsStore SeDatabase), t\<lparr>tx_calls := Suc (tx_calls t)\<rparr>)"

definition codec :: "('a, codec_error) result \<Rightarrow> ('r coordinator_tx, 'a, store_coordinator_error) stateful" where
  "codec r = slift (map_err (\<lambda>e. CsStore (SeCodec e)) r)"

text \<open>\<open>get\<close> and \<open>insert\<close> on an open table.\<close>

definition table_get ::
  "(nat \<Rightarrow> bool) \<Rightarrow> (tables \<Rightarrow> bytes \<rightharpoonup> bytes) \<Rightarrow> bytes \<Rightarrow>
     ('r coordinator_tx, bytes option, store_coordinator_error) stateful" where
  "table_get io table key = sbind (db_call io) (\<lambda>_ t. (Ok (table (tx_tables t) key), t))"

definition table_insert ::
  "(nat \<Rightarrow> bool) \<Rightarrow> (((bytes \<rightharpoonup> bytes) \<Rightarrow> bytes \<rightharpoonup> bytes) \<Rightarrow> tables \<Rightarrow> tables) \<Rightarrow> bytes \<Rightarrow> bytes \<Rightarrow>
     ('r coordinator_tx, unit, store_coordinator_error) stateful" where
  "table_insert io update key v =
     sbind (db_call io) (\<lambda>_ t. (Ok (), t\<lparr>tx_tables := update (\<lambda>m. m(key \<mapsto> v)) (tx_tables t)\<rparr>))"

definition tx_ring :: "('r coordinator_tx, keyring, store_coordinator_error) stateful" where
  "tx_ring t = (Ok (tx_keyring t), t)"

definition read_head :: "(nat \<Rightarrow> bool) \<Rightarrow> ('r coordinator_tx, audit_envelope, store_coordinator_error) stateful" where
  "read_head io =
     sbind (db_call io) (\<lambda>_.
     sbind (table_get io tb_head AUDIT_HEAD_KEY) (\<lambda>found.
     sbind (slift (ok_or CsInvalid found)) (\<lambda>bs.
       codec (envelope_decode bs))))"

definition coordinator_begin ::
  "(nat \<Rightarrow> bool) \<Rightarrow> 'r coordinator_factory \<Rightarrow>
     ('r coordinator_tx, store_coordinator_error) result \<times> 'r coordinator_factory" where
  "coordinator_begin io d =
     (if io (cf_calls d) then Ok \<lparr>tx_base = cf_tables d, tx_tables = cf_tables d, tx_keyring = cf_keyring d,
                                 tx_random = cf_random d, tx_calls = Suc (cf_calls d)\<rparr>
      else Err (CsStore SeDatabase), d\<lparr>cf_calls := Suc (cf_calls d)\<rparr>)"

definition coordinator_drop :: "'r coordinator_tx \<Rightarrow> 'r coordinator_factory" where
  "coordinator_drop t = \<lparr>cf_tables = tx_base t, cf_keyring = tx_keyring t, cf_random = tx_random t, cf_calls = tx_calls t\<rparr>"

definition coordinator_commit ::
  "(nat \<Rightarrow> bool) \<Rightarrow> 'r coordinator_tx \<Rightarrow> (unit, store_coordinator_error) result \<times> 'r coordinator_factory" where
  "coordinator_commit io t =
     (if io (tx_calls t)
      then (Ok (), \<lparr>cf_tables = tx_tables t, cf_keyring = tx_keyring t, cf_random = tx_random t,
                   cf_calls = Suc (tx_calls t)\<rparr>)
      else (Err (CsStore SeDatabase), \<lparr>cf_tables = tx_base t, cf_keyring = tx_keyring t, cf_random = tx_random t,
                   cf_calls = Suc (tx_calls t)\<rparr>))"

definition store_authorize_mutation ::
  "store_mutation \<Rightarrow> ('r coordinator_tx, audit_log_event authorization, store_coordinator_error) stateful" where
  "store_authorize_mutation m =
     (case m of ClockWatermarkMutation _ ev \<Rightarrow>
        if ev_operation ev \<noteq> AoClockHighWaterCheckpoint \<or> an_method (ev_authentication ev) \<noteq> AmNone
           \<or> \<not> an_succeeded (ev_authentication ev) \<or> \<not> az_allowed (ev_authorization ev)
        then slift (Err CsInvalid) else slift (Ok TxAllowed))"

definition stage_clock_watermark ::
  "keyed_hash \<Rightarrow> (nat \<Rightarrow> bool) \<Rightarrow> watermark_command \<Rightarrow> audit_log_event \<Rightarrow>
     ('r coordinator_tx, unit, store_coordinator_error) stateful" where
  "stage_clock_watermark keyed io command ev =
     sbind tx_ring (\<lambda>k.
     sbind (db_call io) (\<lambda>_.
     sbind (table_get io tb_meta META_KEY) (\<lambda>found.
     sbind (slift (ok_or (CsStore SeUninitialized) found)) (\<lambda>current_bytes.
     sbind (codec (meta_record_decode current_bytes)) (\<lambda>current.
     sbind (srequire (\<not> (m_high_water_unix_seconds current \<noteq> wc_expected_high_water_unix_seconds command
              \<or> wc_replacement_high_water_unix_seconds command < m_high_water_unix_seconds current
              \<or> wc_effective_unix_seconds command > wc_replacement_high_water_unix_seconds command)) CsInvalid) (\<lambda>_.
     sbind (slift (ok_or CsInvalid (checked_mul (wc_effective_unix_seconds command) 1000))) (\<lambda>effective.
     sbind (srequire (ev_effective_timestamp_milliseconds ev = effective) CsInvalid) (\<lambda>_.
     sbind (table_get io tb_meta PROVISIONAL_META_KEY) (\<lambda>found.
     sbind (slift (ok_or CsInvalid found)) (\<lambda>sealed_bytes.
     sbind (codec (sealed_decode provisional_meta_decode ProvisionalMeta 1 sealed_bytes)) (\<lambda>before.
     sbind (codec (verify keyed provisional_meta_encode ProvisionalMeta 1 before (metadata_integrity_key k)
              (m_store_id current) PROVISIONAL_META_KEY)) (\<lambda>_.
     let replacement = current\<lparr>m_high_water_unix_seconds := wc_replacement_high_water_unix_seconds command\<rparr>
     in sbind (slift (ok_or CsInvalid (checked_add (s_generation before) 1))) (\<lambda>generation.
     sbind (codec (seal keyed provisional_meta_encode ProvisionalMeta 1 (provisional_from_meta replacement) generation
              (metadata_integrity_key k) (kr_store_id k) PROVISIONAL_META_KEY)) (\<lambda>after.
     sbind (codec (sealed_state_tuple before PROVISIONAL_META_KEY)) (\<lambda>old.
     sbind (codec (sealed_state_tuple after PROVISIONAL_META_KEY)) (\<lambda>new.
     sbind (codec (delta_replace old new)) (\<lambda>delta.
     sbind (codec (delta_set_new [delta])) (\<lambda>expected.
     sbind (srequire (ev_state ev = ScDelta expected) CsInvalid) (\<lambda>_.
     sbind (codec (meta_record_encode replacement)) (\<lambda>replacement_bytes.
     sbind (table_insert io tb_meta_update META_KEY replacement_bytes) (\<lambda>_.
     sbind (codec (sealed_encode provisional_meta_encode after)) (\<lambda>after_bytes.
       table_insert io tb_meta_update PROVISIONAL_META_KEY after_bytes))))))))))))))))))))))"

definition store_apply_mutation ::
  "keyed_hash \<Rightarrow> (nat \<Rightarrow> bool) \<Rightarrow> store_mutation \<Rightarrow>
     ('r coordinator_tx, bytes \<times> audit_log_event, store_coordinator_error) stateful" where
  "store_apply_mutation keyed io m =
     (case m of ClockWatermarkMutation command ev \<Rightarrow>
        sbind (stage_clock_watermark keyed io command ev) (\<lambda>_. slift (Ok ([], ev))))"

definition store_authorize_read ::
  "store_read \<Rightarrow> ('r coordinator_tx, audit_log_event authorization, store_coordinator_error) stateful" where
  "store_authorize_read q =
     (let ev = (case q of AuditHeadRead ev \<Rightarrow> ev | AuditOnlyRead ev \<Rightarrow> ev);
          valid_operation = (case q of
             AuditHeadRead _ \<Rightarrow> ev_operation ev = AoAuditExport
           | AuditOnlyRead _ \<Rightarrow> ev_operation ev \<in> {AoInitializedStoreRefused, AoShutdown}
                \<and> an_method (ev_authentication ev) = AmNone)
      in if \<not> valid_operation \<or> \<not> an_succeeded (ev_authentication ev) \<or> \<not> az_allowed (ev_authorization ev)
            \<or> ev_state ev \<noteq> ScNone
         then slift (Err CsInvalid) else slift (Ok TxAllowed))"

definition store_prepare_read ::
  "(nat \<Rightarrow> bool) \<Rightarrow> store_read \<Rightarrow> ('r coordinator_tx, bytes \<times> audit_log_event, store_coordinator_error) stateful" where
  "store_prepare_read io q =
     (case q of
        AuditHeadRead ev \<Rightarrow>
          sbind (read_head io) (\<lambda>head. sbind (codec (envelope_encode head)) (\<lambda>bs. slift (Ok (bs, ev))))
      | AuditOnlyRead ev \<Rightarrow> slift (Ok ([], ev)))"

definition store_append_audit ::
  "aead \<Rightarrow> hash \<Rightarrow> (nat \<Rightarrow> bool) \<Rightarrow> 'r random_source \<Rightarrow> audit_log_event \<Rightarrow> overload_count list \<Rightarrow>
     ('r coordinator_tx, unit, store_coordinator_error) stateful" where
  "store_append_audit cipher hash io random ev overloads =
     (case attach_overloads overloads ev of
        (Err e, _) \<Rightarrow> slift (Err (CsStore (SeCodec e)))
      | (Ok _, ev) \<Rightarrow>
          sbind (read_head io) (\<lambda>head.
          sbind (slift (ok_or CsInvalid (checked_add (ae_epoch_sequence head) 1))) (\<lambda>sequence.
          sbind (codec (chain_hash hash head)) (\<lambda>previous.
          sbind (\<lambda>t. case entry_prepare cipher hash (tx_keyring t) ev (ae_audit_epoch head) sequence previous random
                            (tx_random t) of
                       (res, r) \<Rightarrow> (map_err CsAudit res, t\<lparr>tx_random := r\<rparr>)) (\<lambda>entry.
          sbind (srequire (\<not> ae_effective_timestamp_milliseconds (sa_envelope entry)
                             < ae_effective_timestamp_milliseconds head) CsInvalid) (\<lambda>_.
          sbind (codec (entry_encode entry)) (\<lambda>encoded.
          sbind (codec (envelope_encode (sa_envelope entry))) (\<lambda>encoded_head.
          sbind (db_call io) (\<lambda>_.
          sbind (table_get io tb_events (audit_key (sa_envelope entry))) (\<lambda>found.
          sbind (srequire (found = None) CsInvalid) (\<lambda>_.
          sbind (table_insert io tb_events_update (audit_key (sa_envelope entry)) encoded) (\<lambda>_.
          sbind (db_call io) (\<lambda>_.
            table_insert io tb_head_update AUDIT_HEAD_KEY encoded_head)))))))))))))"

definition store_factory ::
  "keyed_hash \<Rightarrow> aead \<Rightarrow> hash \<Rightarrow> (nat \<Rightarrow> bool) \<Rightarrow> 'r random_source \<Rightarrow>
     ('r coordinator_factory, 'r coordinator_tx, store_mutation, store_read, bytes, bytes, audit_log_event,
      store_coordinator_error) transaction_factory" where
  "store_factory keyed cipher hash io random =
     \<lparr>tf_begin = coordinator_begin io, tf_authorize_mutation = store_authorize_mutation,
      tf_apply_mutation = store_apply_mutation keyed io, tf_authorize_read = store_authorize_read,
      tf_prepare_read = store_prepare_read io, tf_append_audit = store_append_audit cipher hash io random,
      tf_commit = coordinator_commit io, tf_drop = coordinator_drop, tf_state_delta = event_state_delta,
      tf_whole_state_transition = event_whole_state_transition\<rparr>"

end
