(* ===== verification/Coordinator_Safety.thy ===== *)
theory Coordinator_Safety
  imports Coordinator Audit_Log_Safety
begin

text \<open>
  What the commit boundary promises of every backend that keeps the contract of a transaction, and of the store:
  nothing changes without an audit entry, a failed request changes nothing, and the audit log of the store is a
  verified chain with one entry for every request that was answered.
\<close>

section \<open>The contract of a transaction\<close>

locale transaction_contract =
  fixes f :: "('d, 't, 'm, 'q, 'mr, 'rr, 'a, 'e) transaction_factory"
    and durable :: "'d \<Rightarrow> 'v" and base :: "'t \<Rightarrow> 'v" and staged :: "'t \<Rightarrow> 'v"
    and applies :: "'m \<Rightarrow> 'v \<Rightarrow> 'v \<Rightarrow> 'a \<Rightarrow> bool"
    and logs :: "'a \<Rightarrow> overload_count list \<Rightarrow> 'v \<Rightarrow> 'v \<Rightarrow> bool"
    and mutation_audit :: "'m \<Rightarrow> 'a \<Rightarrow> bool" and read_audit :: "'q \<Rightarrow> 'a \<Rightarrow> bool"
  assumes begin_Ok: "tf_begin f d = (Ok t, d') \<Longrightarrow> base t = durable d \<and> staged t = durable d"
    and begin_Err: "tf_begin f d = (Err e, d') \<Longrightarrow> durable d' = durable d"
    and authorize_mutation_keeps: "tf_authorize_mutation f m t = (r, t') \<Longrightarrow> base t' = base t \<and> staged t' = staged t"
    and authorize_read_keeps: "tf_authorize_read f q t = (r, t') \<Longrightarrow> base t' = base t \<and> staged t' = staged t"
    and prepare_read_keeps: "tf_prepare_read f q t = (r', t') \<Longrightarrow> base t' = base t \<and> staged t' = staged t"
    and apply_keeps: "tf_apply_mutation f m t = (r'', t') \<Longrightarrow> base t' = base t"
    and apply_applies: "tf_apply_mutation f m t = (Ok (response, a), t') \<Longrightarrow> applies m (staged t) (staged t') a"
    and apply_audit: "tf_apply_mutation f m t = (Ok (response, a), t') \<Longrightarrow> mutation_audit m a"
    and prepare_audit: "tf_prepare_read f q t = (Ok (response', a), t') \<Longrightarrow> read_audit q a"
    and deny_mutation_audit: "tf_authorize_mutation f m t = (Ok (TxDenied a), t') \<Longrightarrow> mutation_audit m a"
    and deny_read_audit: "tf_authorize_read f q t = (Ok (TxDenied a), t') \<Longrightarrow> read_audit q a"
    and append_keeps: "tf_append_audit f a overloads t = (r''', t') \<Longrightarrow> base t' = base t"
    and append_logs: "tf_append_audit f a overloads t = (Ok (), t') \<Longrightarrow> logs a overloads (staged t) (staged t')"
    and commit_Ok: "tf_commit f t = (Ok (), d) \<Longrightarrow> durable d = staged t"
    and commit_Err: "tf_commit f t = (Err e, d) \<Longrightarrow> durable d = base t"
    and drop_base: "durable (tf_drop f t) = base t"

sublocale transaction_contract \<subseteq> same_base: effect_preorder "\<lambda>t t'. base t' = base t"
  by unfold_locales auto

context transaction_contract
begin

lemma backend_base:
  assumes "\<And>t r t'. m t = (r, t') \<Longrightarrow> base t' = base t"
  shows "keeps (\<lambda>t t'. base t' = base t) (backend m)"
  unfolding keeps_def
proof
  fix t
  show "base (snd (backend m t)) = base t"
    using assms [of t] by (cases "m t") (simp add: backend_def)
qed

lemma body_base: "keeps (\<lambda>t t'. base t' = base t) (execute_body f c overloads)"
proof (cases c)
  case (CommandMutation v commitment)
  show ?thesis
    unfolding CommandMutation execute_body_def coordinator_command.case
    by (auto intro!: same_base.keeps_bind same_base.keeps_slift backend_base split: authorization.split prod.split
        dest: authorize_mutation_keeps apply_keeps append_keeps)
next
  case (CommandRead v)
  show ?thesis
    unfolding CommandRead execute_body_def coordinator_command.case
    by (auto intro!: same_base.keeps_bind same_base.keeps_slift backend_base split: authorization.split prod.split
        dest: authorize_read_keeps prepare_read_keeps append_keeps)
qed

lemma execute_failed: "execute f c overloads d = (Err e, d') \<Longrightarrow> durable d' = durable d"
  using begin_Ok begin_Err commit_Err drop_base same_base.keepsD [OF body_base]
  by (fastforce simp: execute_def split: prod.splits result.splits)

lemma backend_Ok: "backend m t = (Ok x, t') \<longleftrightarrow> m t = (Ok x, t')"
  by (auto simp: backend_def split: prod.splits)

text \<open>A request that is answered has logged its audit, and only an allowed mutation has changed anything else.\<close>

lemma execute_answered:
  assumes "execute f c overloads d = (Ok response, d')"
  shows "\<exists>a v. logs a overloads v (durable d')
    \<and> (case c of CommandMutation m _ \<Rightarrow> mutation_audit m a | CommandRead q \<Rightarrow> read_audit q a)
    \<and> (case response of
         ResponseMutation _ \<Rightarrow> (\<exists>m commitment. c = CommandMutation m commitment \<and> applies m (durable d) v a
           \<and> validate_mutation_commitment f a commitment = Ok ())
       | _ \<Rightarrow> v = durable d \<and> validate_no_state_commitment f a = Ok ())"
proof -
  obtain t d1 t' where t: "tf_begin f d = (Ok t, d1)" and body: "execute_body f c overloads t = (Ok response, t')"
    and com: "tf_commit f t' = (Ok (), d')"
    using assms by (auto simp: execute_def split: prod.splits result.splits)
  have st: "staged t = durable d" using begin_Ok [OF t] by simp
  have fin: "durable d' = staged t'" by (rule commit_Ok [OF com])
  show ?thesis
  proof (cases c)
    case (CommandMutation m commitment)
    then obtain auth t1 where auth: "tf_authorize_mutation f m t = (Ok auth, t1)"
      using body by (auto simp: execute_body_def backend_Ok)
    have t1: "staged t1 = durable d" using authorize_mutation_keeps [OF auth] st by simp
    show ?thesis
      using body auth CommandMutation t1 fin
      by (fastforce simp: execute_body_def backend_Ok split: authorization.splits
          dest: append_logs apply_applies apply_audit deny_mutation_audit)
  next
    case (CommandRead q)
    then obtain auth t1 where auth: "tf_authorize_read f q t = (Ok auth, t1)"
      using body by (auto simp: execute_body_def backend_Ok)
    have t1: "staged t1 = durable d" using authorize_read_keeps [OF auth] st by simp
    show ?thesis
      using body auth CommandRead t1 fin
      by (fastforce simp: execute_body_def backend_Ok split: authorization.splits
          dest: append_logs prepare_read_keeps prepare_audit deny_read_audit)
  qed
qed

end

section \<open>The store keeps the contract\<close>

abbreviation tx_same :: "'r coordinator_tx \<Rightarrow> 'r coordinator_tx \<Rightarrow> bool" where
  "tx_same t t' \<equiv> tx_base t' = tx_base t \<and> tx_keyring t' = tx_keyring t"

abbreviation tx_read :: "'r coordinator_tx \<Rightarrow> 'r coordinator_tx \<Rightarrow> bool" where
  "tx_read t t' \<equiv> tx_base t' = tx_base t \<and> tx_keyring t' = tx_keyring t \<and> tx_tables t' = tx_tables t"

text \<open>A watermark may change the metadata table only.\<close>

abbreviation tx_meta :: "'r coordinator_tx \<Rightarrow> 'r coordinator_tx \<Rightarrow> bool" where
  "tx_meta t t' \<equiv> tx_base t' = tx_base t \<and> tx_keyring t' = tx_keyring t
     \<and> tb_events (tx_tables t') = tb_events (tx_tables t)
     \<and> tb_head (tx_tables t') = tb_head (tx_tables t)"

interpretation tx_same_order: effect_preorder tx_same by unfold_locales auto

interpretation tx_read_order: effect_preorder tx_read by unfold_locales auto

interpretation tx_meta_order: effect_preorder tx_meta by unfold_locales auto

lemma keeps_weaken: "keeps R m \<Longrightarrow> (\<And>s s'. R s s' \<Longrightarrow> S s s') \<Longrightarrow> keeps S m"
  by (simp add: keeps_def)

lemma tx_read_basics:
  "keeps tx_read (db_call io)" "keeps tx_read tx_ring" "keeps tx_read (codec r)"
  by (auto simp: keeps_def db_call_def tx_ring_def codec_def slift_def)

lemma tx_read_get: "keeps tx_read (table_get io table key)"
  unfolding table_get_def
  by (intro tx_read_order.keeps_bind tx_read_basics) (simp add: keeps_def)

lemma tx_read_head: "keeps tx_read (read_head io)"
  unfolding read_head_def
  by (intro tx_read_order.keeps_bind tx_read_basics tx_read_get tx_read_order.keeps_slift)

lemma tx_meta_insert: "keeps tx_meta (table_insert io tb_meta_update key v)"
  unfolding table_insert_def
  by (intro tx_meta_order.keeps_bind keeps_weaken [OF tx_read_basics(1)]) (auto simp: keeps_def)

lemma tx_same_insert:
  "keeps tx_same (table_insert io update key v)"
  unfolding table_insert_def
  by (intro tx_same_order.keeps_bind keeps_weaken [OF tx_read_basics(1)]) (auto simp: keeps_def)

lemma tx_meta_stage: "keeps tx_meta (stage_clock_watermark keyed io command ev)"
  unfolding stage_clock_watermark_def Let_def
  by (intro tx_meta_order.keeps_bind tx_meta_order.keeps_slift tx_meta_order.keeps_srequire tx_meta_insert
      keeps_weaken [OF tx_read_basics(1)] keeps_weaken [OF tx_read_basics(2)] keeps_weaken [OF tx_read_basics(3)]
      keeps_weaken [OF tx_read_get]) auto

lemma tx_same_append: "keeps tx_same (store_append_audit cipher hash io random ev overloads)"
proof -
  have prep: "keeps tx_same (\<lambda>t. case entry_prepare cipher hash (tx_keyring t) ev' epoch n previous random (tx_random t) of
      (res, r) \<Rightarrow> (map_err CsAudit res, t\<lparr>tx_random := r\<rparr>))" for ev' epoch n previous
    by (auto simp: keeps_def split: prod.split)
  show ?thesis
    unfolding store_append_audit_def
    by (auto split: prod.split result.split intro!: tx_same_order.keeps_bind tx_same_order.keeps_slift
        tx_same_order.keeps_srequire tx_same_insert prep keeps_weaken [OF tx_read_basics(1)]
        keeps_weaken [OF tx_read_basics(3)] keeps_weaken [OF tx_read_get] keeps_weaken [OF tx_read_head])
qed

primrec mutation_event :: "store_mutation \<Rightarrow> audit_log_event" where
  "mutation_event (ClockWatermarkMutation _ ev) = ev"

primrec read_event :: "store_read \<Rightarrow> audit_log_event" where
  "read_event (AuditHeadRead ev) = ev"
| "read_event (AuditOnlyRead ev) = ev"

primrec command_event :: "(store_mutation, store_read) coordinator_command \<Rightarrow> audit_log_event" where
  "command_event (CommandMutation m _) = mutation_event m"
| "command_event (CommandRead q) = read_event q"

definition store_durable :: "'r coordinator_factory \<Rightarrow> tables \<times> keyring" where
  "store_durable d = (cf_tables d, cf_keyring d)"

definition store_base :: "'r coordinator_tx \<Rightarrow> tables \<times> keyring" where
  "store_base t = (tx_base t, tx_keyring t)"

definition store_staged :: "'r coordinator_tx \<Rightarrow> tables \<times> keyring" where
  "store_staged t = (tx_tables t, tx_keyring t)"

text \<open>
  The two metadata rows a clock checkpoint replaces: the high-water mark moves forward from the value the command
  expects, the sealed row is resealed under the current key, and the event commits to exactly this replacement.
\<close>

definition watermark_written ::
  "keyed_hash \<Rightarrow> keyring \<Rightarrow> watermark_command \<Rightarrow> audit_log_event \<Rightarrow> (bytes \<rightharpoonup> bytes) \<Rightarrow> (bytes \<rightharpoonup> bytes) \<Rightarrow> bool" where
  "watermark_written keyed k command ev meta meta' \<longleftrightarrow> (\<exists>cb current pb before after old new delta expected rb ab.
     meta META_KEY = Some cb \<and> meta_record_decode cb = Ok current
     \<and> m_high_water_unix_seconds current = wc_expected_high_water_unix_seconds command
     \<and> m_high_water_unix_seconds current \<le> wc_replacement_high_water_unix_seconds command
     \<and> wc_effective_unix_seconds command \<le> wc_replacement_high_water_unix_seconds command
     \<and> checked_mul (wc_effective_unix_seconds command) 1000 = Some (ev_effective_timestamp_milliseconds ev)
     \<and> meta PROVISIONAL_META_KEY = Some pb \<and> sealed_decode provisional_meta_decode ProvisionalMeta 1 pb = Ok before
     \<and> verify keyed provisional_meta_encode ProvisionalMeta 1 before (metadata_integrity_key k) (m_store_id current)
         PROVISIONAL_META_KEY = Ok ()
     \<and> seal keyed provisional_meta_encode ProvisionalMeta 1
         (provisional_from_meta (current\<lparr>m_high_water_unix_seconds := wc_replacement_high_water_unix_seconds command\<rparr>))
         (s_generation before + 1) (metadata_integrity_key k) (kr_store_id k) PROVISIONAL_META_KEY = Ok after
     \<and> sealed_state_tuple before PROVISIONAL_META_KEY = Ok old \<and> sealed_state_tuple after PROVISIONAL_META_KEY = Ok new
     \<and> delta_replace old new = Ok delta \<and> delta_set_new [delta] = Ok expected \<and> ev_state ev = ScDelta expected
     \<and> meta_record_encode (current\<lparr>m_high_water_unix_seconds := wc_replacement_high_water_unix_seconds command\<rparr>) = Ok rb
     \<and> sealed_encode provisional_meta_encode after = Ok ab
     \<and> meta' = meta(META_KEY \<mapsto> rb, PROVISIONAL_META_KEY \<mapsto> ab))"

definition store_applies ::
  "keyed_hash \<Rightarrow> store_mutation \<Rightarrow> tables \<times> keyring \<Rightarrow> tables \<times> keyring \<Rightarrow> audit_log_event \<Rightarrow> bool" where
  "store_applies keyed m v v' ev \<longleftrightarrow> snd v' = snd v \<and> tb_events (fst v') = tb_events (fst v) \<and> tb_head (fst v') = tb_head (fst v)
     \<and> (\<exists>command. m = ClockWatermarkMutation command ev
          \<and> watermark_written keyed (snd v) command ev (tb_meta (fst v)) (tb_meta (fst v')))"

definition store_logs ::
  "aead \<Rightarrow> hash \<Rightarrow> 'r random_source \<Rightarrow> audit_log_event \<Rightarrow> overload_count list \<Rightarrow> tables \<times> keyring \<Rightarrow> tables \<times> keyring \<Rightarrow> bool" where
  "store_logs cipher hash random a overloads v v' \<longleftrightarrow> (\<exists>ev bs head n previous r entry r' encoded encoded_head.
     attach_overloads overloads a = (Ok (), ev) \<and> tb_head (fst v) AUDIT_HEAD_KEY = Some bs \<and> envelope_decode bs = Ok head
     \<and> checked_add (ae_epoch_sequence head) 1 = Some n \<and> chain_hash hash head = Ok previous
     \<and> entry_prepare cipher hash (snd v) ev (ae_audit_epoch head) n previous random r = (Ok entry, r')
     \<and> \<not> ae_effective_timestamp_milliseconds (sa_envelope entry) < ae_effective_timestamp_milliseconds head
     \<and> entry_encode entry = Ok encoded \<and> envelope_encode (sa_envelope entry) = Ok encoded_head
     \<and> tb_events (fst v) (audit_key (sa_envelope entry)) = None
     \<and> v' = (tb_head_update (\<lambda>m. m(AUDIT_HEAD_KEY \<mapsto> encoded_head))
               (tb_events_update (\<lambda>m. m(audit_key (sa_envelope entry) \<mapsto> encoded)) (fst v)), snd v))"

lemma db_call_Ok: "db_call io t = (Ok (), t') \<longleftrightarrow> io (tx_calls t) \<and> t' = t\<lparr>tx_calls := Suc (tx_calls t)\<rparr>"
  by (auto simp: db_call_def)

lemma checked_add_sum: "checked_add a b = Some c \<Longrightarrow> c = a + b"
  by (auto simp: checked_add_def split: if_splits)

lemma stage_writes:
  assumes "stage_clock_watermark keyed io command ev t = (Ok (), t')"
  shows "watermark_written keyed (tx_keyring t) command ev (tb_meta (tx_tables t)) (tb_meta (tx_tables t'))"
  using assms unfolding watermark_written_def
  by (clarsimp simp: stage_clock_watermark_def table_get_def table_insert_def codec_def db_call_Ok tx_ring_def Let_def
      not_less split: if_splits dest!: checked_add_sum)

lemma tx_prepare_Ok:
  "(case e of (res, r) \<Rightarrow> (map_err g res, t\<lparr>tx_random := r\<rparr>)) = (Ok x, t')
     \<longleftrightarrow> (\<exists>r. e = (Ok x, r) \<and> t' = t\<lparr>tx_random := r\<rparr>)"
  by (cases e; cases "fst e") auto

lemma store_append_logs:
  assumes "store_append_audit cipher hash io random a overloads t = (Ok (), t')"
  shows "store_logs cipher hash random a overloads (store_staged t) (store_staged t')"
proof -
  obtain ev where ev: "attach_overloads overloads a = (Ok (), ev)"
    using assms by (cases "attach_overloads overloads a") (auto simp: store_append_audit_def split: result.splits)
  show ?thesis
    using assms
    unfolding store_logs_def store_staged_def
    by (clarsimp simp: store_append_audit_def ev read_head_def table_get_def table_insert_def codec_def db_call_Ok
        tx_prepare_Ok split: if_splits) blast
qed

lemma store_prepare_keeps: "keeps tx_read (store_prepare_read io q)"
  by (cases q) (auto simp: store_prepare_read_def intro!: tx_read_order.keeps_bind tx_read_order.keeps_slift
      tx_read_head tx_read_basics)

lemma store_apply_keeps: "keeps tx_meta (store_apply_mutation keyed io m)"
  by (cases m) (auto simp: store_apply_mutation_def intro!: tx_meta_order.keeps_bind tx_meta_order.keeps_slift tx_meta_stage)

lemma store_authorize_keeps:
  "store_authorize_mutation m t = (r, t') \<Longrightarrow> t' = t \<and> (\<forall>a. r \<noteq> Ok (TxDenied a))"
  "store_authorize_read q t = (s, t') \<Longrightarrow> t' = t \<and> (\<forall>a. s \<noteq> Ok (TxDenied a))"
  by (auto simp: store_authorize_mutation_def store_authorize_read_def slift_def Let_def split: store_mutation.splits if_splits)

lemma store_audits:
  "store_apply_mutation keyed io m t = (Ok (response, ev), t') \<Longrightarrow> mutation_event m = ev"
  "store_prepare_read io q t = (Ok (response, ev), t') \<Longrightarrow> read_event q = ev"
  by (auto simp: store_apply_mutation_def store_prepare_read_def split: store_mutation.splits store_read.splits)

lemma store_apply_written:
  assumes "store_apply_mutation keyed io m t = (Ok (response, ev), t')"
  shows "\<exists>command. m = ClockWatermarkMutation command ev
    \<and> watermark_written keyed (tx_keyring t) command ev (tb_meta (tx_tables t)) (tb_meta (tx_tables t'))"
  using assms by (cases m) (auto simp: store_apply_mutation_def dest: stage_writes)

lemmas store_views = store_durable_def store_base_def store_staged_def

interpretation store_tx: transaction_contract "store_factory keyed cipher hash io random" store_durable store_base store_staged
    "store_applies keyed" "store_logs cipher hash random" "\<lambda>m a. mutation_event m = a" "\<lambda>q a. read_event q = a"
  for keyed cipher hash io random
proof (unfold_locales, simp_all only: store_factory_def transaction_factory.select_convs)
  fix m and r :: "(bytes \<times> audit_log_event, store_coordinator_error) result" and ev response
  show "store_base t' = store_base t" if "store_apply_mutation keyed io m t = (r, t')" for t t' :: "'a coordinator_tx"
    using tx_meta_order.keepsD [OF store_apply_keeps that] by (simp add: store_views)
  show "store_applies keyed m (store_staged t) (store_staged t') ev"
    if "store_apply_mutation keyed io m t = (Ok (response, ev), t')" for t t' :: "'a coordinator_tx"
    using tx_meta_order.keepsD [OF store_apply_keeps that] store_apply_written [OF that] by (auto simp: store_views store_applies_def)
qed (auto simp: store_views coordinator_begin_def coordinator_commit_def coordinator_drop_def store_audits
    dest!: store_authorize_keeps tx_read_order.keepsD [OF store_prepare_keeps] tx_same_order.keepsD [OF tx_same_append]
    store_append_logs split: if_splits)

section \<open>The log in the database\<close>

text \<open>
  The tables hold the entries \<open>es\<close> as one verified epoch: one row per entry, each under its own key, and the head row is
  the envelope of the last.
\<close>

definition log_holds :: "hash \<Rightarrow> tables \<Rightarrow> stored_audit_entry list \<Rightarrow> bool" where
  "log_holds hash tb es \<longleftrightarrow> es \<noteq> [] \<and> length es \<le> usize_max \<and> (\<exists>h. chain_loop hash es 0 0 None = Ok h)
     \<and> (\<forall>e\<in>set es. verify_frame hash e = Ok ()) \<and> (\<exists>epoch. \<forall>e\<in>set es. ae_audit_epoch (sa_envelope e) = epoch)
     \<and> (\<forall>key v. tb_events tb key = Some v \<longleftrightarrow> (\<exists>e\<in>set es. key = audit_key (sa_envelope e) \<and> entry_encode e = Ok v))
     \<and> (\<exists>bs. envelope_encode (sa_envelope (last es)) = Ok bs \<and> tb_head tb AUDIT_HEAD_KEY = Some bs)"

lemma log_holds_tables:
  "tb_events tb' = tb_events tb \<Longrightarrow> tb_head tb' = tb_head tb \<Longrightarrow> log_holds hash tb' es = log_holds hash tb es"
  by (simp add: log_holds_def)

lemma chain_loop_sequences:
  "chain_loop hash es i p t = Ok h \<Longrightarrow> j < length es \<Longrightarrow> ae_epoch_sequence (sa_envelope (es ! j)) = word_of_nat (i + j) + 1"
proof (induction es arbitrary: i p t j)
  case (Cons e es)
  then show ?case
    by (cases j) (auto simp: Let_def split: if_splits)
qed simp

lemma word_of_nat_Suc_le:
  "i \<le> j \<Longrightarrow> Suc j \<le> usize_max \<Longrightarrow> (word_of_nat i + 1 :: u64) \<le> word_of_nat j + 1"
  by (simp add: word_le_nat_alt unat_word_ariths unat_of_nat take_bit_nat_eq_self)

lemma log_holds_verifies:
  assumes "log_holds hash tb es"
  shows "\<exists>h. verify_chain hash es = Ok h"
proof -
  obtain h where h: "chain_loop hash es 0 0 None = Ok h"
    using assms by (auto simp: log_holds_def)
  have "sorted (map (\<lambda>e. ae_epoch_sequence (sa_envelope e)) es)"
    using assms chain_loop_sequences [OF h]
    by (auto simp: sorted_iff_nth_mono log_holds_def intro!: word_of_nat_Suc_le)
  moreover obtain epoch where "(\<lambda>e. ae_audit_epoch (sa_envelope e)) ` set es = (\<lambda>_. epoch) ` set es"
    using assms by (force simp: log_holds_def)
  then have "length (remdups (map (\<lambda>e. ae_audit_epoch (sa_envelope e)) es)) = 1"
    using assms by (simp add: length_remdups_card_conv image_constant_conv log_holds_def)
  ultimately show ?thesis
    using assms h by (simp add: verify_chain_Ok log_holds_def sort_key_id_if_sorted)
qed

lemma log_holds_append:
  assumes log: "log_holds hash (fst v) es" and logs: "store_logs cipher hash random a overloads v v'"
  shows "\<exists>e ev epoch n previous r r'. log_holds hash (fst v') (es @ [e]) \<and> attach_overloads overloads a = (Ok (), ev)
    \<and> entry_prepare cipher hash (snd v) ev epoch n previous random r = (Ok e, r')"
proof -
  obtain ev bs head n previous r entry r' encoded encoded_head where att: "attach_overloads overloads a = (Ok (), ev)"
    and head: "tb_head (fst v) AUDIT_HEAD_KEY = Some bs" "envelope_decode bs = Ok head"
    and n: "checked_add (ae_epoch_sequence head) 1 = Some n" and prev: "chain_hash hash head = Ok previous"
    and prep: "entry_prepare cipher hash (snd v) ev (ae_audit_epoch head) n previous random r = (Ok entry, r')"
    and time: "\<not> ae_effective_timestamp_milliseconds (sa_envelope entry) < ae_effective_timestamp_milliseconds head"
    and enc: "entry_encode entry = Ok encoded" and ench: "envelope_encode (sa_envelope entry) = Ok encoded_head"
    and fresh: "tb_events (fst v) (audit_key (sa_envelope entry)) = None"
    and v': "fst v' = tb_head_update (\<lambda>m. m(AUDIT_HEAD_KEY \<mapsto> encoded_head))
               (tb_events_update (\<lambda>m. m(audit_key (sa_envelope entry) \<mapsto> encoded)) (fst v))"
    using logs unfolding store_logs_def by auto
  obtain init e0 where es: "es = init @ [e0]" using log by (cases es rule: rev_cases) (auto simp: log_holds_def)
  have "envelope_encode (sa_envelope e0) = Ok bs" using log head es by (simp add: log_holds_def)
  then have h0: "head = sa_envelope e0"
    using audit_envelope_codec.enc_dec [of "sa_envelope e0" bs] head by (auto simp: vec_ok_def envelope_encode_Ok)
  have last: "es \<noteq> []" "last es = e0" by (simp_all add: es)
  have rows: "tb_events (fst v) key = Some x \<longleftrightarrow> (\<exists>e\<in>set es. key = audit_key (sa_envelope e) \<and> entry_encode e = Ok x)"
    for key x using log by (simp add: log_holds_def)
  have new: "audit_key (sa_envelope e) \<noteq> audit_key (sa_envelope entry)" if "e \<in> set es" "entry_encode e = Ok x" for e x
    using rows [of "audit_key (sa_envelope e)" x] that fresh by auto
  obtain epoch where epoch: "\<forall>e\<in>set es. ae_audit_epoch (sa_envelope e) = epoch" and frames: "\<forall>e\<in>set es. verify_frame hash e = Ok ()"
    using log by (auto simp: log_holds_def)
  obtain h where loop: "chain_loop hash es 0 0 None = Ok h" "chain_hash hash (sa_envelope e0) = Ok h"
      "ae_epoch_sequence (sa_envelope e0) = word_of_nat (length init) + 1"
    using log es by (auto simp: log_holds_def chain_loop_snoc)
  have env: "ae_audit_epoch (sa_envelope entry) = ae_audit_epoch head" "ae_epoch_sequence (sa_envelope entry) = n"
      "ae_previous_hash (sa_envelope entry) = previous"
    using entry_prepare_Ok [OF prep] by auto
  have seq: "n = word_of_nat (length es) + 1" "Suc (length es) \<le> usize_max"
    using n loop(3) log unfolding h0 es log_holds_def
    by (auto simp: checked_add_def unat_word_ariths unat_of_nat take_bit_nat_eq_self split: if_splits)
  obtain h' where "chain_hash hash (sa_envelope entry) = Ok h'" using ench by (auto simp: chain_hash_def)
  then have "\<exists>h'. chain_loop hash (es @ [entry]) 0 0 None = Ok h'"
    using loop(1,2) prev env(2,3) time seq(1) last by (simp add: chain_loop_snoc [of hash es entry] h0 not_less)
  moreover have "tb_events (fst v') key = Some x \<longleftrightarrow>
      (\<exists>e\<in>set (es @ [entry]). key = audit_key (sa_envelope e) \<and> entry_encode e = Ok x)" for key x
    using rows [of key x] new enc unfolding v' by (cases "key = audit_key (sa_envelope entry)") auto
  moreover have "\<forall>e\<in>set (es @ [entry]). verify_frame hash e = Ok ()"
    using frames prepared_verifies [OF prep] by simp
  moreover have "\<forall>e\<in>set (es @ [entry]). ae_audit_epoch (sa_envelope e) = epoch"
    using epoch env(1) by (simp add: h0 es)
  ultimately have "log_holds hash (fst v') (es @ [entry])"
    using seq(2) ench unfolding log_holds_def by (simp add: v')
  with att prep show ?thesis by blast
qed

section \<open>One request\<close>

lemma execute_Err:
  assumes "execute (store_factory keyed cipher hash io random) c overloads d = (Err e, d')"
  shows "cf_tables d' = cf_tables d" and "cf_keyring d' = cf_keyring d"
  using store_tx.execute_failed [OF assms] by (simp_all add: store_durable_def)

lemma execute_Ok:
  assumes "execute (store_factory keyed cipher hash io random) c overloads d = (Ok response, d')"
  shows "\<exists>tb. store_logs cipher hash random (command_event c) overloads (tb, cf_keyring d) (cf_tables d', cf_keyring d')
    \<and> tb_events tb = tb_events (cf_tables d) \<and> tb_head tb = tb_head (cf_tables d)
    \<and> cf_keyring d' = cf_keyring d \<and> tb_meta (cf_tables d') = tb_meta tb
    \<and> (case response of
         ResponseMutation _ \<Rightarrow> (\<exists>command ev commitment. c = CommandMutation (ClockWatermarkMutation command ev) commitment
           \<and> watermark_written keyed (cf_keyring d) command ev (tb_meta (cf_tables d)) (tb_meta tb))
       | _ \<Rightarrow> tb = cf_tables d)"
proof -
  from store_tx.execute_answered [OF assms]
  obtain a v where logs: "store_logs cipher hash random a overloads v (store_durable d')"
    and ev: "case c of CommandMutation m _ \<Rightarrow> mutation_event m = a | CommandRead q \<Rightarrow> read_event q = a"
    and resp: "case response of
       ResponseMutation _ \<Rightarrow> (\<exists>m commitment. c = CommandMutation m commitment \<and> store_applies keyed m (store_durable d) v a
         \<and> validate_mutation_commitment (store_factory keyed cipher hash io random) a commitment = Ok ())
     | _ \<Rightarrow> v = store_durable d \<and> validate_no_state_commitment (store_factory keyed cipher hash io random) a = Ok ()"
    by blast
  have a: "a = command_event c" using ev by (cases c) simp_all
  have "snd v = cf_keyring d \<and> tb_events (fst v) = tb_events (cf_tables d) \<and> tb_head (fst v) = tb_head (cf_tables d)"
    using resp by (auto simp: store_durable_def store_applies_def split: coordinator_response.splits)
  moreover have "cf_keyring d' = snd v" "tb_meta (cf_tables d') = tb_meta (fst v)"
    using logs by (auto simp: store_logs_def store_durable_def)
  ultimately show ?thesis
    using resp logs a
    by (intro exI [of _ "fst v"], cases v) (auto simp: store_durable_def store_applies_def split: coordinator_response.splits)
qed

text \<open>A sequence of requests, each a transaction of its own.\<close>

primrec execute_all ::
  "('d, 't, 'm, 'q, 'mr, 'rr, 'a, 'e) transaction_factory \<Rightarrow> (('m, 'q) coordinator_command \<times> overload_count list) list \<Rightarrow>
     'd \<Rightarrow> (('mr, 'rr) coordinator_response, 'e coordinator_error) result list \<times> 'd" where
  "execute_all f [] d = ([], d)"
| "execute_all f (q # qs) d =
     (case execute f (fst q) (snd q) d of (r, d1) \<Rightarrow> case execute_all f qs d1 of (rs, d2) \<Rightarrow> (r # rs, d2))"

definition answered :: "'q list \<Rightarrow> ('a, 'e) result list \<Rightarrow> 'q list" where
  "answered qs rs = map fst (filter (\<lambda>(q, r). is_ok r) (zip qs rs))"

lemma answered_simps [simp]:
  "answered [] rs = []"
  "answered (q # qs) (Ok a # rs) = q # answered qs rs"
  "answered (q # qs) (Err e # rs) = answered qs rs"
  by (simp_all add: answered_def)

text \<open>The entry that stands for a request: it opens to the event of the request, with the overload counts attached.\<close>

definition logged_as ::
  "aead \<Rightarrow> hash \<Rightarrow> keyring \<Rightarrow> (store_mutation, store_read) coordinator_command \<times> overload_count list \<Rightarrow> stored_audit_entry \<Rightarrow> bool" where
  "logged_as cipher hash k q entry \<longleftrightarrow> (\<exists>ev. attach_overloads (snd q) (command_event (fst q)) = (Ok (), ev)
     \<and> fst (entry_decrypt cipher hash entry k) = Ok ev)"

lemma attach_overloads_event_ok:
  "attach_overloads overloads ev = (Ok (), ev') \<Longrightarrow> event_ok ev' = event_ok ev"
  by (auto simp: attach_overloads_def event_ok_def Let_def split: result.splits if_splits)

lemma execute_extends_log:
  assumes "aead_correct cipher" and "keyring_validate (cf_keyring d) = Ok ()" and "event_ok (command_event c)"
    and "log_holds hash (cf_tables d) es" and "execute (store_factory keyed cipher hash io random) c overloads d = (r, d')"
  shows "cf_keyring d' = cf_keyring d \<and> (case r of
      Ok _ \<Rightarrow> \<exists>e. log_holds hash (cf_tables d') (es @ [e]) \<and> logged_as cipher hash (cf_keyring d) (c, overloads) e
    | Err _ \<Rightarrow> log_holds hash (cf_tables d') es)"
proof (cases r)
  case (Err e)
  with execute_Err [of keyed cipher hash io random c overloads d e d'] assms(4,5) show ?thesis by simp
next
  case (Ok response)
  from execute_Ok [OF assms(5) [unfolded Ok]]
  obtain v where k: "cf_keyring d' = cf_keyring d"
    and logs: "store_logs cipher hash random (command_event c) overloads (v, cf_keyring d) (cf_tables d', cf_keyring d)"
    and v: "tb_events v = tb_events (cf_tables d)" "tb_head v = tb_head (cf_tables d)"
    by auto
  have "log_holds hash v es" using assms(4) log_holds_tables [OF v] by simp
  then obtain e ev epoch n previous r0 r' where e: "log_holds hash (cf_tables d') (es @ [e])"
    and att: "attach_overloads overloads (command_event c) = (Ok (), ev)"
    and prep: "entry_prepare cipher hash (cf_keyring d) ev epoch n previous random r0 = (Ok e, r')"
    using log_holds_append [of hash "(v, cf_keyring d)" es, OF _ logs] by auto
  have "fst (entry_decrypt cipher hash e (cf_keyring d)) = Ok ev"
    using prepared_decrypts [OF assms(1) _ assms(2,2) ring_le_refl prep] attach_overloads_event_ok [OF att] assms(3) by simp
  with e att k Ok show ?thesis by (auto simp: logged_as_def)
qed

section \<open>An event can be logged\<close>

lemma attach_none: "attach_overloads [] ev = (Ok (), ev\<lparr>ev_overload_counts := []\<rparr>)"
  by (simp add: attach_overloads_def Let_def)

lemma audit_key_inject:
  "be_bytes 16 epoch @ be_bytes 8 n = audit_key e \<Longrightarrow> n = ae_epoch_sequence e"
  unfolding audit_key_def by (simp add: be_bytes_inject)

lemma log_holds_fresh:
  assumes "log_holds hash tb es" and "length es < usize_max"
  shows "tb_events tb (be_bytes 16 (epoch :: id16) @ be_bytes 8 (word_of_nat (length es) + 1 :: u64)) = None"
proof -
  obtain h where h: "chain_loop hash es 0 0 None = Ok h" using assms(1) by (auto simp: log_holds_def)
  have "ae_epoch_sequence (sa_envelope e) \<noteq> word_of_nat (length es) + 1" if e: "e \<in> set es" for e
  proof -
    obtain j where "j < length es" "e = es ! j" using e by (auto simp: in_set_conv_nth)
    with chain_loop_sequences [OF h] assms(2) show ?thesis
      by (auto simp: word_of_nat_eq_iff take_bit_nat_eq_self)
  qed
  then have "be_bytes 16 epoch @ be_bytes 8 (word_of_nat (length es) + 1 :: u64) \<noteq> audit_key (sa_envelope e)" if "e \<in> set es" for e
    using that audit_key_inject by fastforce
  moreover have "\<forall>v. tb_events tb key = Some v \<longrightarrow> (\<exists>e\<in>set es. key = audit_key (sa_envelope e))" for key
    using assms(1) by (auto simp: log_holds_def)
  ultimately show ?thesis by (metis not_None_eq)
qed

text \<open>
  Nothing but the database, the random source and the cipher stands between an event and the log: an event that
  encodes, with a time not before the last entry's, is appended while the sequence has room.
\<close>

lemma append_succeeds:
  assumes log: "log_holds hash (tx_tables t) es" and room: "length es < usize_max" and io: "\<forall>n. io n"
    and ev: "event_encode ev = Ok plaintext" "ev_overload_counts ev = []"
    and time: "ae_effective_timestamp_milliseconds (sa_envelope (last es)) \<le> ev_effective_timestamp_milliseconds ev"
    and rand: "random 24 (tx_random t) = (Some nonce, r1)"
    and seals: "\<forall>key nonce aad. aead_seal cipher key nonce aad plaintext \<noteq> None" "aead_tagged cipher"
  shows "\<exists>t'. store_append_audit cipher hash io random ev [] t = (Ok (), t')"
proof -
  let ?head = "sa_envelope (last es)" and ?n = "word_of_nat (length es) + 1 :: u64"
  obtain init e0 h bs where es: "es = init @ [e0]" "chain_hash hash ?head = Ok h"
      "ae_epoch_sequence ?head = word_of_nat (length init) + 1" "envelope_encode ?head = Ok bs"
      "tb_head (tx_tables t) AUDIT_HEAD_KEY = Some bs"
    using log by (cases es rule: rev_cases) (auto simp: log_holds_def chain_loop_snoc)
  have dec: "envelope_decode bs = Ok ?head" and epoch: "ae_audit_epoch ?head \<noteq> 0"
    using audit_envelope_codec.enc_dec [of ?head bs] es(4) by (auto simp: vec_ok_def envelope_encode_Ok)
  have add: "checked_add (ae_epoch_sequence ?head) 1 = Some ?n"
    using es(1,3) room by (simp add: checked_add_def unat_word_ariths unat_of_nat take_bit_nat_eq_self)
  have "unat ?n = Suc (length es)" using room by (simp add: unat_word_ariths unat_of_nat take_bit_nat_eq_self)
  then have n: "?n \<noteq> 0" by (metis nat.distinct(1) unat_0)
  from entry_prepare_succeeds [of ev plaintext random "tx_random t", OF ev(1) rand seals]
  obtain entry where prep: "entry_prepare cipher hash (tx_keyring t) ev (ae_audit_epoch ?head) ?n h random (tx_random t) = (Ok entry, r1)"
    by blast
  obtain enc where enc: "entry_encode entry = Ok enc" using prepared_encodes [OF seals(2) epoch n prep] by blast
  have env: "ae_audit_epoch (sa_envelope entry) = ae_audit_epoch ?head" "ae_epoch_sequence (sa_envelope entry) = ?n"
      "ae_effective_timestamp_milliseconds (sa_envelope entry) = ev_effective_timestamp_milliseconds ev"
    using entry_prepare_Ok [OF prep] by auto
  obtain eh where eh: "envelope_encode (sa_envelope entry) = Ok eh" using enc by (auto simp: entry_encode_def)
  have fresh: "tb_events (tx_tables t) (audit_key (sa_envelope entry)) = None"
    using log_holds_fresh [OF log room] env by (simp add: audit_key_def)
  have same: "ev\<lparr>ev_overload_counts := []\<rparr> = ev" using ev(2) by (cases ev) simp
  show ?thesis
    using io es(2,5) dec add prep enc eh fresh time env(3) same
    by (simp add: store_append_audit_def attach_none read_head_def table_get_def table_insert_def codec_def db_call_def
        sbind_def slift_def srequire_def require_def not_less)
qed

lemma audit_only_answered:
  assumes log: "log_holds hash (cf_tables d) es" and room: "length es < usize_max" and io: "\<forall>n. io n"
    and ev: "event_encode ev = Ok plaintext" "ev_overload_counts ev = []" "ev_state ev = ScNone"
      "ev_operation ev \<in> {AoInitializedStoreRefused, AoShutdown}" "an_method (ev_authentication ev) = AmNone"
      "an_succeeded (ev_authentication ev)" "az_allowed (ev_authorization ev)"
    and time: "ae_effective_timestamp_milliseconds (sa_envelope (last es)) \<le> ev_effective_timestamp_milliseconds ev"
    and rand: "random 24 (cf_random d) = (Some nonce, r1)"
    and seals: "\<forall>key nonce aad. aead_seal cipher key nonce aad plaintext \<noteq> None" "aead_tagged cipher"
  shows "\<exists>d'. execute (store_factory keyed cipher hash io random) (CommandRead (AuditOnlyRead ev)) [] d = (Ok (ResponseRead []), d')"
proof -
  let ?t = "\<lparr>tx_base = cf_tables d, tx_tables = cf_tables d, tx_keyring = cf_keyring d, tx_random = cf_random d,
    tx_calls = Suc (cf_calls d)\<rparr>"
  obtain t' where t': "store_append_audit cipher hash io random ev [] ?t = (Ok (), t')"
    using append_succeeds [of hash ?t es io ev plaintext random nonce r1 cipher] assms by auto
  show ?thesis
    using t' io ev(3-)
    by (auto simp: execute_def execute_body_def store_factory_def coordinator_begin_def coordinator_commit_def backend_def
        store_authorize_read_def store_prepare_read_def validate_no_state_commitment_def event_state_delta_def
        event_whole_state_transition_def sbind_def slift_def require_def Let_def)
qed

section \<open>Properties\<close>

text \<open>
  C4: A request is atomic. When it fails, at whatever call of the database, no table has changed. An answered read or a
  denial has appended its audit entry and nothing else. The metadata changes with a clock checkpoint only: its
  high-water mark moves forward from the expected value, the sealed row verified before and is resealed, and the
  event of the request commits to exactly that replacement. The keyring never changes.
\<close>

theorem coordinator_atomic:
  "case execute (store_factory keyed cipher hash io random) c overloads d of (r, d') \<Rightarrow>
     cf_keyring d' = cf_keyring d
     \<and> (case r of
          Err _ \<Rightarrow> cf_tables d' = cf_tables d
        | Ok (ResponseMutation _) \<Rightarrow>
            (\<exists>command ev commitment. c = CommandMutation (ClockWatermarkMutation command ev) commitment
              \<and> watermark_written keyed (cf_keyring d) command ev (tb_meta (cf_tables d)) (tb_meta (cf_tables d')))
        | Ok _ \<Rightarrow> tb_meta (cf_tables d') = tb_meta (cf_tables d)
            \<and> store_logs cipher hash random (command_event c) overloads (cf_tables d, cf_keyring d) (cf_tables d', cf_keyring d))"
proof (cases "execute (store_factory keyed cipher hash io random) c overloads d")
  case (Pair r d')
  show ?thesis
  proof (cases r)
    case (Err e)
    from execute_Err [OF Pair [unfolded Err]] Pair Err show ?thesis by simp
  next
    case (Ok response)
    from execute_Ok [OF Pair [unfolded Ok]] Pair Ok show ?thesis by (auto split: coordinator_response.splits)
  qed
qed

text \<open>
  C3: The audit log is complete and stays verifiable. From tables that hold a verified log, any sequence of requests,
  whatever fails on the way, leaves tables that hold the same entries followed by one entry for every request that was
  answered, in the order of the requests, and none for the others. The whole log verifies as a hash chain, the head row
  is its last envelope, and each new entry opens to the event of its request.
\<close>

theorem coordinator_log:
  assumes "aead_correct cipher" and "keyring_validate (cf_keyring d) = Ok ()" and "\<forall>q\<in>set qs. event_ok (command_event (fst q))"
    and "log_holds hash (cf_tables d) es" and "execute_all (store_factory keyed cipher hash io random) qs d = (rs, d')"
  shows "\<exists>new. log_holds hash (cf_tables d') (es @ new) \<and> is_ok (verify_chain hash (es @ new))
    \<and> list_all2 (logged_as cipher hash (cf_keyring d')) (answered qs rs) new \<and> cf_keyring d' = cf_keyring d"
  using assms
proof (induction qs arbitrary: d es rs)
  case Nil
  then show ?case using log_holds_verifies by (auto simp: is_ok_iff intro!: exI [of _ "[]"])
next
  case (Cons q qs)
  obtain r d1 rs' where step: "execute (store_factory keyed cipher hash io random) (fst q) (snd q) d = (r, d1)"
    and rest: "execute_all (store_factory keyed cipher hash io random) qs d1 = (rs', d')" and rs: "rs = r # rs'"
    using Cons.prems(5) by (auto split: prod.splits)
  have ok: "event_ok (command_event (fst q))" "\<forall>q\<in>set qs. event_ok (command_event (fst q))" using Cons.prems(3) by simp_all
  note one = execute_extends_log [OF Cons.prems(1,2) ok(1) Cons.prems(4) step]
  then have k: "cf_keyring d1 = cf_keyring d" by simp
  have valid: "keyring_validate (cf_keyring d1) = Ok ()" using Cons.prems(2) k by simp
  show ?case
  proof (cases r)
    case (Err e)
    with one have "log_holds hash (cf_tables d1) es" by simp
    from Cons.IH [OF Cons.prems(1) valid ok(2) this rest] show ?thesis by (simp add: Err rs k)
  next
    case (Ok response)
    with one obtain e where e: "log_holds hash (cf_tables d1) (es @ [e])" "logged_as cipher hash (cf_keyring d) q e" by auto
    from Cons.IH [OF Cons.prems(1) valid ok(2) e(1) rest] obtain new where
      "log_holds hash (cf_tables d') (es @ e # new)" "is_ok (verify_chain hash (es @ e # new))"
      "list_all2 (logged_as cipher hash (cf_keyring d')) (answered qs rs') new" "cf_keyring d' = cf_keyring d1" by auto
    with e(2) k show ?thesis by (auto simp: Ok rs intro!: exI [of _ "e # new"])
  qed
qed

definition sample_shutdown :: audit_log_event where
  "sample_shutdown = sample_event\<lparr>ev_operation := AoShutdown, ev_previous_epoch_terminal := None\<rparr>"

lemma sample_shutdown_ok: "event_ok sample_shutdown" "\<exists>bs. event_encode sample_shutdown = Ok bs"
proof -
  have v: "event_validate sample_shutdown = Ok ()"
    by (simp add: sample_shutdown_def sample_event_def genesis_event_def event_validate_def event_shape_ok_def Let_def
        is_state_mutation_def)
  show "\<exists>bs. event_encode sample_shutdown = Ok bs"
    unfolding event_encode_Ok using v
    by (simp add: sample_shutdown_def sample_event_def genesis_event_def state_bytes_def event_wire_def Let_def
        resource_wire_def state_wire_def)
qed (simp add: sample_shutdown_def event_ok_def sample_event_def genesis_event_def state_ok_def)

definition sample_store :: "stored_audit_entry \<Rightarrow> nat coordinator_factory" where
  "sample_store entry = \<lparr>cf_tables = \<lparr>tb_meta = Map.empty,
     tb_events = (case entry_encode entry of Ok bs \<Rightarrow> [audit_key (sa_envelope entry) \<mapsto> bs] | Err _ \<Rightarrow> Map.empty),
     tb_head = (case envelope_encode (sa_envelope entry) of Ok bs \<Rightarrow> [AUDIT_HEAD_KEY \<mapsto> bs] | Err _ \<Rightarrow> Map.empty)\<rparr>,
     cf_keyring = sample_ring, cf_random = 1, cf_calls = 0\<rparr>"

lemma sample_shutdown_fields:
  "ev_overload_counts sample_shutdown = []" "ev_state sample_shutdown = ScNone" "ev_operation sample_shutdown = AoShutdown"
  "an_method (ev_authentication sample_shutdown) = AmNone" "an_succeeded (ev_authentication sample_shutdown)"
  "az_allowed (ev_authorization sample_shutdown)" "ev_effective_timestamp_milliseconds sample_shutdown = 3"
  "cf_random (sample_store entry) = 1"
  by (simp_all add: sample_shutdown_def sample_event_def genesis_event_def sample_store_def)

lemma sample_cipher_seals: "aead_seal sample_cipher key nonce aad plaintext = Some (plaintext @ replicate 16 0)"
  by (simp add: sample_cipher_def)

lemma sample_store_log:
  assumes "entry_prepare sample_cipher sample_digest sample_ring sample_event 1 1 0 sample_rng 0 = (Ok entry, 1)"
  shows "log_holds sample_digest (cf_tables (sample_store entry)) [entry]"
proof -
  obtain bs where enc: "entry_encode entry = Ok bs" using prepared_encodes [OF sample_cipher_tagged _ _ assms] by auto
  then obtain eh where "envelope_encode (sa_envelope entry) = Ok eh" by (auto simp: entry_encode_def)
  moreover have "ae_epoch_sequence (sa_envelope entry) = 1" "ae_previous_hash (sa_envelope entry) = 0"
    using entry_prepare_Ok [OF assms] by auto
  ultimately show ?thesis
    using enc prepared_verifies [OF assms] by (auto simp: log_holds_def sample_store_def chain_hash_def Let_def)
qed

theorem coordinator_log_witness:
  "\<exists>entry e d'. execute_all (store_factory (\<lambda>_ _. 0) sample_cipher sample_digest (\<lambda>_. True) sample_rng)
       [(CommandRead (AuditOnlyRead sample_shutdown), [])] (sample_store entry) = ([Ok (ResponseRead [])], d')
     \<and> log_holds sample_digest (cf_tables d') [entry, e] \<and> is_ok (verify_chain sample_digest [entry, e])
     \<and> fst (entry_decrypt sample_cipher sample_digest e sample_ring) = Ok sample_shutdown"
proof -
  obtain entry where e: "entry_prepare sample_cipher sample_digest sample_ring sample_event 1 1 0 sample_rng 0 = (Ok entry, 1)"
    using sample_prepare by blast
  let ?d = "sample_store entry" and ?q = "(CommandRead (AuditOnlyRead sample_shutdown), []) ::
      (store_mutation, store_read) coordinator_command \<times> overload_count list"
  have time: "ae_effective_timestamp_milliseconds (sa_envelope entry) = 3"
    using entry_prepare_Ok [OF e] by (auto simp: sample_event_def genesis_event_def)
  obtain bs where bs: "event_encode sample_shutdown = Ok bs" using sample_shutdown_ok(2) by blast
  obtain d' where d': "execute (store_factory (\<lambda>_ _. 0) sample_cipher sample_digest (\<lambda>_. True) sample_rng) (fst ?q) (snd ?q) ?d
      = (Ok (ResponseRead []), d')"
    using audit_only_answered [OF sample_store_log [OF e] _ _ bs, of "\<lambda>_. True" sample_rng "nat_be 24 1" 2 sample_cipher]
    by (auto simp: time sample_cipher_tagged sample_shutdown_fields sample_rng_def sample_cipher_seals)
  then have run: "execute_all (store_factory (\<lambda>_ _. 0) sample_cipher sample_digest (\<lambda>_. True) sample_rng) [?q] ?d
      = ([Ok (ResponseRead [])], d')" by simp
  have k: "cf_keyring ?d = sample_ring" by (simp add: sample_store_def)
  from coordinator_log [OF sample_cipher_ok _ _ sample_store_log [OF e] run] obtain new where
    new: "log_holds sample_digest (cf_tables d') (entry # new)" "is_ok (verify_chain sample_digest (entry # new))"
      "list_all2 (logged_as sample_cipher sample_digest sample_ring) [?q] new"
    using sample_ring_valid sample_shutdown_ok(1) by (auto simp: k)
  have "sample_shutdown\<lparr>ev_overload_counts := []\<rparr> = sample_shutdown"
    by (simp add: sample_shutdown_def sample_event_def genesis_event_def)
  with new run show ?thesis by (auto simp: list_all2_Cons1 logged_as_def attach_none)
qed

end
