(* ===== verification/Spec2Isabelle.thy ===== *)
theory Spec2Isabelle
  imports Secret_Records Kv_Contracts Management_Safety Rotation_Safety Rotation_Adoption Auth_Safety
    Clock_Safety Rate_Limit_Safety Keyring_Safety Audit_Log_Safety Coordinator_Safety
begin

text \<open>
  A verification of the secrets server under \<open>src/\<close>: a single-node key-value store for versioned secrets, with an
  HTTP face for applications and a Unix control socket for operators.

  \<^bold>\<open>The parts and how they interact.\<close> A request target is parsed from its raw bytes (\<open>src/src/raw_target.rs\<close>), its
  client is attributed (\<open>proxy.rs\<close>) and its rate is limited (\<open>rate_limit.rs\<close>). The bearer token it carries was handed
  out by a login (\<open>auth.rs\<close>), which mints and verifies credentials (\<open>credential.rs\<close>) at the time the effective clock
  shows (\<open>clock.rs\<close>). The KV handler (\<open>kv.rs\<close>) decides with the identities and grants of \<open>identity.rs\<close>, commits its
  change together with an audit event, and answers through the closed error table of \<open>compat_error.rs\<close>. Operators
  manage identities, grants and credentials (\<open>control/management.rs\<close>) and rotate secrets (\<open>rotation.rs\<close>); a rotation
  writes and rolls back versions through hooks of the KV catalog. What the server keeps is written as canonical
  bytes (\<open>store/codec.rs\<close>, \<open>store/mod.rs\<close>), sealed with a tag that binds the row to its place, and summed up in a
  digest of the whole state (\<open>store/integrity.rs\<close>). Secrets and audit events are encrypted as records (\<open>store/aead.rs\<close>)
  under the keys of a keyring (\<open>store/keyring.rs\<close>), events are chained by hashes (\<open>store/audit.rs\<close>), and the coordinator
  (\<open>transaction_coordinator.rs\<close>, \<open>store/coordinator.rs\<close>) runs a command and appends its event in one transaction.

  \<^bold>\<open>Conventions.\<close> A Rust \<open>Result\<close> is \<open>result\<close> and \<open>?\<close> is \<open>rbind\<close>; an operation with \<open>&mut self\<close> is a function from
  the state to its result and the new state (\<open>stateful\<close>, \<open>sbind\<close>), so what an operation has changed before it
  fails is visible. Integers are words of their width and checked arithmetic is written out. A string is the list
  of its UTF-8 bytes. \<open>BTreeMap\<close> and \<open>BTreeSet\<close> are strictly sorted lists. Keyed hashes, BLAKE3, the
  AEAD cipher, age, base64, randomness, the wall clock, the audit back end and sinks are parameters; a theorem that
  relies on one says so in a hypothesis (\<open>aead_correct\<close>, \<open>aead_tagged\<close>, \<open>age_opens\<close>, \<open>age_faithful\<close>, injectivity of a hash
  on the messages at hand). A table of redb is a map, a write transaction a copy of the tables that a commit
  publishes and a drop forgets, and any call of the database may fail (\<open>io\<close>).
  A lock that guards a catalog is not modelled: an operation runs on the catalog it has locked.

  \<^bold>\<open>Theories, the code they model and what they show.\<close>

  \<^item> \<open>Prelude\<close>: results, stateful computations and their preservation locales (\<open>step_invariant\<close>,
    \<open>step_preorder\<close>, \<open>effect_preorder\<close>), words and bytes, UTF-8, sorted maps, splitting and joining.

  \<^item> \<open>Codec\<close> (\<open>store/codec.rs\<close>): encoder and decoder, and the two directions of canonicity: \<open>reads\<close> and
    \<open>accepts\<close> (what was encoded decodes) and \<open>consumed\<close> (what decodes was encoded). The locales \<open>canonical\<close>,
    \<open>strict_canonical\<close>, \<open>clear_record\<close> and \<open>strict_clear_record\<close> are the contract of the trait \<open>Canonical\<close>; every codec
    below is an interpretation of one of them.

  \<^item> \<open>Integrity\<close>, \<open>State_Digest\<close> (\<open>store/integrity.rs\<close>): sealed records (a tag verifies only in the store, class,
    key and generation it was made for, or the hash collides), resealing under a new key, the state digest (equal
    digests mean equal states up to collisions, whatever the order of the rows), deltas and their inverses, and the
    monitor that latches the first violation.

  \<^item> \<open>Store_Records\<close>, \<open>Secret_Records\<close> (\<open>store/mod.rs\<close>): the durable records with their codecs, version sets and
    their invariant along every run, rewrite jobs.

  \<^item> \<open>Raw_Target\<close> (\<open>raw_target.rs\<close>): the parser, and that what it accepts is the one spelling of its segments.

  \<^item> \<open>Identity_Grants\<close> (\<open>identity.rs\<close>): the authorization decision as a specification, the token decision,
    separation of the planes, exactness of catalog validation, codecs.

  \<^item> \<open>Json_Values\<close>, \<open>Kv_Store\<close>, \<open>Kv_Http\<close> (\<open>input_hygiene.rs\<close>, \<open>kv.rs\<close>, \<open>compat_error.rs\<close>, \<open>http_security.rs\<close>): the
    catalog, its operations and the handler. \<open>Kv_Invariant\<close>: the invariant and the history of a path along every
    run. \<open>Kv_Behaviour\<close>: authorization and audit. \<open>Kv_Contracts\<close>: check-and-set, read after write, listing, purge,
    bounds on values.

  \<^item> \<open>Management\<close>, \<open>Management_Safety\<close> (\<open>control/management.rs\<close>): commands, catalog and paging; every operation is an
    authorized step, the invariant of the catalog, completeness of paging.

  \<^item> \<open>Rotation\<close>, \<open>Rotation_Codec\<close>, \<open>Rotation_Safety\<close>, \<open>Rotation_Adoption\<close> (\<open>rotation.rs\<close>): the lifecycle along every
    run that also mixes in KV and management calls, rollback, and adoption by consumers.

  \<^item> \<open>Credential\<close>, \<open>Credential_Safety\<close> (\<open>credential.rs\<close>): issuance and verification of bearer credentials.

  \<^item> \<open>Auth\<close>, \<open>Auth_Safety\<close> (\<open>auth.rs\<close>): login happens entirely or not at all; a secret id is used at most as often
    as it allows.

  \<^item> \<open>Clock\<close>, \<open>Clock_Safety\<close> (\<open>clock.rs\<close>): the effective clock and its mark never go back.

  \<^item> \<open>Proxy\<close>, \<open>Rate_Limit\<close>, \<open>Rate_Limit_Safety\<close> (\<open>proxy.rs\<close>, \<open>rate_limit.rs\<close>): listener policy and the limits.

  \<^item> \<open>Record_Aead\<close> (\<open>store/aead.rs\<close>): bindings, headers, encrypted records; what is sealed opens, encodings round trip,
    and the header of a path with several segments has more than one encoding that decodes.

  \<^item> \<open>Keyring\<close>, \<open>Keyring_Safety\<close> (\<open>store/keyring.rs\<close>): keys, envelope, rotations and change of recipients; the invariant
    along every run, which records open under which later keyring, and that a finished rotation drops the old key.

  \<^item> \<open>Audit_Log\<close>, \<open>Audit_Log_Safety\<close> (\<open>store/audit.rs\<close>, the overload counts of \<open>storage_executor.rs\<close>): events, entries and
    the chain; canonical bytes, entries that can be read for as long as the store exists, and a terminal hash that
    determines the log.

  \<^item> \<open>Coordinator\<close>, \<open>Coordinator_Safety\<close> (\<open>transaction_coordinator.rs\<close>, \<open>store/coordinator.rs\<close>): the locale
    \<open>transaction_contract\<close> is what the coordinator relies on in a transaction; the store is its interpretation. A
    request is atomic under failures of the database, and the log stays complete and verifiable.

  \<^bold>\<open>Bounds and fuel.\<close> Loops of the source are structural recursion over the data or over the constant number of
  rounds the source has (for instance the attempts at a fresh random id), so no fuel is added. \<open>vec_ok\<close> says that a
  byte vector fits the address space, which Rust guarantees for every vector; \<open>str_ok\<close> says that a string is UTF-8,
  which Rust guarantees for every \<open>String\<close>.

  \<^bold>\<open>Not modelled.\<close> The files and locks of the store and the threads of its executor (\<open>store/mod.rs\<close> beyond the records,
  \<open>storage_executor.rs\<close> beyond the overload counts, \<open>compaction.rs\<close>, \<open>migration.rs\<close>, \<open>reencrypt.rs\<close>, \<open>restore.rs\<close>, \<open>backup.rs\<close>,
  \<open>recovery_fork.rs\<close>), whose behaviour is that of redb and of the file system; the process shell (\<open>cli.rs\<close>, \<open>config.rs\<close>,
  \<open>startup.rs\<close>, \<open>init.rs\<close>, \<open>doctor.rs\<close>, \<open>transport.rs\<close>, \<open>sys_api.rs\<close>, \<open>control/mod.rs\<close>), which is I/O around third-party frameworks;
  the preparation of a new store in \<open>store/keyring.rs\<close> and its calls that only forward to the store; consumers, capacity,
  the credential epoch, reconciliation, checkpoints, signing trust and audit export (\<open>consumer.rs\<close>, \<open>capacity.rs\<close>,
  \<open>credential_epoch.rs\<close>, \<open>reconciliation.rs\<close>, \<open>store/checkpoint.rs\<close>, \<open>store/signing_trust.rs\<close>, \<open>audit_export.rs\<close>), which compose
  the records above with the database, files and signatures;
  zeroization and redacted \<open>Debug\<close> output, which have no functional content.
\<close>

end
